(* ===== verification/Prelude.thy ===== *)
theory Prelude
  imports Main "HOL-Library.Word"
begin

unbundle bit_operations_syntax

section \<open>Shared types, byte layouts, C buffers and retry loops\<close>

text \<open>
  What the component theories share: names for the C integer types, little-endian
  byte layouts of words (the ABI of the wire structures), fixed-size character
  buffers with the C library's \<open>snprintf\<close> and string view, and the
  ``repeat while interrupted'' loop that every system call of the program is wrapped in.

  Collections:
  \<^item> \<open>layout_simps\<close>: lengths and round trips of byte layouts;
  \<^item> \<open>cbuf_simps\<close>: character buffers.
\<close>

named_theorems layout_simps
named_theorems cbuf_simps

type_synonym u8 = "8 word"
type_synonym u16 = "16 word"
type_synonym u32 = "32 word"
type_synonym u64 = "64 word"
type_synonym bytes = "8 word list"

subsection \<open>Little-endian layout of words\<close>

definition le_bytes :: "nat \<Rightarrow> 'a::len word \<Rightarrow> bytes" where
  "le_bytes n w = map (\<lambda>i. ucast (drop_bit (8 * i) w)) [0..<n]"

fun le_word :: "bytes \<Rightarrow> 'a::len word" where
  "le_word [] = 0"
| "le_word (b # bs) = ucast b OR push_bit 8 (le_word bs)"

lemma length_le_bytes [simp, layout_simps]: "length (le_bytes n w) = n"
  by (simp add: le_bytes_def)

lemma bit_le_word:
  "bit (le_word bs :: 'a::len word) k \<longleftrightarrow>
     k < LENGTH('a) \<and> k div 8 < length bs \<and> bit (bs ! (k div 8)) (k mod 8)"
proof (induction bs arbitrary: k)
  case Nil
  then show ?case by simp
next
  case (Cons b bs)
  show ?case
  proof (cases "k < 8")
    case True
    then show ?thesis by (auto simp: bit_or_iff bit_push_bit_iff bit_ucast_iff)
  next
    case False
    then have "\<not> bit b k" by (auto dest: bit_imp_le_length)
    moreover from False have "k div 8 = Suc ((k - 8) div 8)" "k mod 8 = (k - 8) mod 8"
      by (auto simp: le_div_geq le_mod_geq)
    ultimately show ?thesis
      using False Cons.IH [of "k - 8"]
      by (auto simp: bit_or_iff bit_push_bit_iff bit_ucast_iff)
  qed
qed

lemma le_word_le_bytes [layout_simps]:
  assumes "LENGTH('a::len) = 8 * n"
  shows "le_word (le_bytes n (w :: 'a word)) = w"
proof (rule bit_word_eqI)
  fix k
  assume k: "k < LENGTH('a)"
  with assms have "k div 8 < n" by auto
  moreover have "8 * (k div 8) + k mod 8 = k" by simp
  ultimately show "bit (le_word (le_bytes n w) :: 'a word) k = bit w k"
    using k by (simp add: bit_le_word le_bytes_def bit_ucast_iff bit_drop_bit_eq)
qed

lemma le_bytes_le_word [layout_simps]:
  assumes "LENGTH('a::len) = 8 * n" and "length bs = n"
  shows "le_bytes n (le_word bs :: 'a word) = bs"
proof (rule nth_equalityI)
  show "length (le_bytes n (le_word bs :: 'a word)) = length bs" using assms by simp
next
  fix i
  assume "i < length (le_bytes n (le_word bs :: 'a word))"
  then have i: "i < n" by simp
  show "le_bytes n (le_word bs :: 'a word) ! i = bs ! i"
  proof (rule bit_word_eqI)
    fix k
    assume "k < LENGTH(8)"
    then have k: "k < 8" by simp
    with i assms have "8 * i + k < LENGTH('a)" "(8 * i + k) div 8 = i" "(8 * i + k) mod 8 = k"
      by auto
    with i k assms show "bit (le_bytes n (le_word bs :: 'a word) ! i) k = bit (bs ! i) k"
      by (simp add: le_bytes_def bit_ucast_iff bit_drop_bit_eq bit_le_word)
  qed
qed

lemma take_le_bytes_append [layout_simps]: "take n (le_bytes n w @ bs) = le_bytes n w"
  by simp

lemma drop_le_bytes_append [layout_simps]: "drop n (le_bytes n w @ bs) = bs"
  by simp

subsection \<open>Characters as bytes\<close>

definition byte_of_char :: "char \<Rightarrow> u8" where
  "byte_of_char c = word_of_nat (of_char c)"

definition char_of_byte :: "u8 \<Rightarrow> char" where
  "char_of_byte b = char_of (unat b)"

lemma char_of_byte_of_char [simp]: "char_of_byte (byte_of_char c) = c"
proof -
  have "(of_char c :: nat) < 256" by (rule nat_of_char_less_256)
  then show ?thesis
    by (simp add: char_of_byte_def byte_of_char_def unat_of_nat)
qed

lemma byte_of_char_of_byte [simp]: "byte_of_char (char_of_byte b) = b"
proof -
  have "unat b < 256" using unsigned_less [of b, where ?'a = nat] by simp
  then show ?thesis
    by (simp add: char_of_byte_def byte_of_char_def of_char_of)
qed

subsection \<open>Fixed-size character buffers\<close>

text \<open>
  A \<open>char[n]\<close> is a list of exactly \<open>n\<close> characters. \<open>snprintf\<close> writes at most
  \<open>n - 1\<close> characters and a terminator and leaves the rest of the buffer alone;
  a C string read stops at the first terminator.
\<close>

abbreviation NUL :: char where
  "NUL \<equiv> CHR 0x00"

definition c_snprintf :: "string \<Rightarrow> string \<Rightarrow> string" where
  "c_snprintf buf s =
     (if buf = [] then []
      else let t = take (length buf - 1) s @ [NUL] in t @ drop (length t) buf)"

definition c_str :: "string \<Rightarrow> string" where
  "c_str buf = takeWhile (\<lambda>c. c \<noteq> NUL) buf"

definition zero_buf :: "nat \<Rightarrow> string" where
  "zero_buf n = replicate n NUL"

lemma length_zero_buf [simp, cbuf_simps]: "length (zero_buf n) = n"
  by (simp add: zero_buf_def)

lemma length_c_snprintf [simp, cbuf_simps]: "length (c_snprintf buf s) = length buf"
  by (cases buf) (auto simp: c_snprintf_def Let_def)

lemma c_str_zero_buf [simp, cbuf_simps]: "c_str (zero_buf n) = []"
  by (cases n) (simp_all add: c_str_def zero_buf_def)

lemma c_str_snprintf [cbuf_simps]:
  assumes "NUL \<notin> set s" and "buf \<noteq> []"
  shows "c_str (c_snprintf buf s) = take (length buf - 1) s"
proof -
  have "NUL \<notin> set (take (length buf - 1) s)"
    using assms(1) by (meson in_set_takeD)
  then have "takeWhile (\<lambda>c. c \<noteq> NUL) (take (length buf - 1) s @ NUL # ys) =
      take (length buf - 1) s" for ys
    by (subst takeWhile_append2) auto
  with assms(2) show ?thesis
    by (simp add: c_str_def c_snprintf_def Let_def)
qed

text \<open>The written buffer is always terminated inside its bounds.\<close>

lemma c_snprintf_terminated:
  assumes "buf \<noteq> []"
  shows "length (c_str (c_snprintf buf s)) < length buf"
proof -
  let ?t = "take (length buf - 1) s"
  have buf: "c_snprintf buf s = (?t @ [NUL]) @ drop (length (?t @ [NUL])) buf"
    using assms by (simp add: c_snprintf_def Let_def)
  have "c_str (c_snprintf buf s) = takeWhile (\<lambda>c. c \<noteq> NUL) (?t @ [NUL])"
    unfolding c_str_def buf by (rule takeWhile_append1) auto
  also have "length \<dots> \<le> length ?t"
    using length_takeWhile_le [of "\<lambda>c. c \<noteq> NUL" ?t] by (auto simp: takeWhile_append)
  finally show ?thesis using assms by (cases buf) auto
qed

subsection \<open>Poll events\<close>

text \<open>The Linux values of the \<open>poll\<close> event bits and of the error numbers the code tests.\<close>

abbreviation POLLIN :: u16 where "POLLIN \<equiv> 1"
abbreviation POLLERR :: u16 where "POLLERR \<equiv> 8"
abbreviation POLLHUP :: u16 where "POLLHUP \<equiv> 16"
abbreviation POLLNVAL :: u16 where "POLLNVAL \<equiv> 32"

definition has_bits :: "'a::len word \<Rightarrow> 'a word \<Rightarrow> bool" where
  "has_bits w m \<longleftrightarrow> w AND m \<noteq> 0"

subsection \<open>Retry while interrupted\<close>

text \<open>
  The outcomes of one blocking system call, in the order the kernel delivers them.
  \<open>retry_eintr\<close> is the loop \<open>do r = call(); while (r < 0 && errno == EINTR);\<close>:
  the first outcome that is not an interruption, or \<open>None\<close> when there is none, which
  is a call that never returns.
\<close>

abbreviation EINTR :: int where "EINTR \<equiv> 4"
abbreviation EIO :: int where "EIO \<equiv> 5"
abbreviation EAGAIN :: int where "EAGAIN \<equiv> 11"
abbreviation EEXIST :: int where "EEXIST \<equiv> 17"
abbreviation EINVAL :: int where "EINVAL \<equiv> 22"
abbreviation ENOSYS :: int where "ENOSYS \<equiv> 38"

datatype 'a call = CallOk 'a | CallErr int

fun retry_eintr :: "'a call list \<Rightarrow> 'a call option" where
  "retry_eintr [] = None"
| "retry_eintr (c # cs) = (if c = CallErr EINTR then retry_eintr cs else Some c)"

fun retry_rest :: "'a call list \<Rightarrow> 'a call list" where
  "retry_rest [] = []"
| "retry_rest (c # cs) = (if c = CallErr EINTR then retry_rest cs else cs)"

lemma retry_eintr_spec:
  "retry_eintr cs = Some c \<longleftrightarrow>
     c \<noteq> CallErr EINTR \<and> (\<exists>n. cs = replicate n (CallErr EINTR) @ c # retry_rest cs)"
proof (induction cs)
  case Nil
  then show ?case by simp
next
  case (Cons x cs)
  show ?case
  proof (cases "x = CallErr EINTR")
    case True
    have "(\<exists>n. x # cs = replicate n (CallErr EINTR) @ c # retry_rest cs) \<longleftrightarrow>
        (\<exists>n. cs = replicate n (CallErr EINTR) @ c # retry_rest cs)" if "c \<noteq> CallErr EINTR"
    proof
      assume "\<exists>n. x # cs = replicate n (CallErr EINTR) @ c # retry_rest cs"
      then obtain n where n: "x # cs = replicate n (CallErr EINTR) @ c # retry_rest cs" ..
      with True that obtain m where "n = Suc m" by (cases n) auto
      with n show "\<exists>n. cs = replicate n (CallErr EINTR) @ c # retry_rest cs" by auto
    next
      assume "\<exists>n. cs = replicate n (CallErr EINTR) @ c # retry_rest cs"
      then obtain n where "cs = replicate n (CallErr EINTR) @ c # retry_rest cs" ..
      with True have "x # cs = replicate (Suc n) (CallErr EINTR) @ c # retry_rest cs" by simp
      then show "\<exists>n. x # cs = replicate n (CallErr EINTR) @ c # retry_rest cs" ..
    qed
    with True Cons.IH show ?thesis by auto
  next
    case False
    then show ?thesis
      by (auto simp: Cons_eq_append_conv intro: exI [of _ 0]
          dest: arg_cong [where f = hd])
  qed
qed

lemma retry_eintr_not_EINTR: "retry_eintr cs \<noteq> Some (CallErr EINTR)"
  by (induction cs) auto

lemma retry_eintr_total: "c \<in> set cs \<Longrightarrow> c \<noteq> CallErr EINTR \<Longrightarrow> \<exists>r. retry_eintr cs = Some r"
  by (induction cs) auto

end
