(* ===== verification/Protocol.thy ===== *)
theory Protocol
  imports Prelude
begin

section \<open>The wire protocols: control messages and trace records\<close>

text \<open>
  \<open>src/native/common/hdmi_los_protocol.h\<close> and \<open>src/native/common/hdmi_los_trace.h\<close>:
  the constants, the two wire structures as records with the fields of the C
  structures, and their byte layout on the little-endian target (every field is
  naturally aligned, so there is no padding). Signed 32-bit and 64-bit fields are
  kept as words in two's complement, so an error status is a negative numeral.

  The interface of a fixed-size wire format is the locale \<open>wire_format\<close>; both
  structures interpret it.
\<close>

subsection \<open>Constants of the control protocol\<close>

abbreviation HDMI_LOS_MAGIC :: u32 where
  "HDMI_LOS_MAGIC \<equiv> 0x48444d49"

abbreviation HDMI_LOS_VERSION :: u16 where
  "HDMI_LOS_VERSION \<equiv> 2"

abbreviation HDMI_LOS_BROKER_VERSION :: u16 where
  "HDMI_LOS_BROKER_VERSION \<equiv> 3"

abbreviation HDMI_LOS_MESSAGE_SIZE :: nat where
  "HDMI_LOS_MESSAGE_SIZE \<equiv> 160"

abbreviation HDMI_LOS_ACQUIRE_PHASE_MASK :: u32 where
  "HDMI_LOS_ACQUIRE_PHASE_MASK \<equiv> 0xff"

abbreviation HDMI_LOS_FLAG_CONNECTED :: u32 where
  "HDMI_LOS_FLAG_CONNECTED \<equiv> 0x100"

abbreviation HDMI_LOS_FLAG_LEASE_READY :: u32 where
  "HDMI_LOS_FLAG_LEASE_READY \<equiv> 0x200"

abbreviation HDMI_LOS_FLAG_ARMED :: u32 where
  "HDMI_LOS_FLAG_ARMED \<equiv> 0x400"

abbreviation HDMI_LOS_FLAG_REPLUG_REQUIRED :: u32 where
  "HDMI_LOS_FLAG_REPLUG_REQUIRED \<equiv> 0x800"

abbreviation HDMI_LOS_FLAG_ACTIVE_MODE :: u32 where
  "HDMI_LOS_FLAG_ACTIVE_MODE \<equiv> 0x1000"

abbreviation HDMI_LOS_FLAG_CONTINUOUS :: u32 where
  "HDMI_LOS_FLAG_CONTINUOUS \<equiv> 0x80000000"

abbreviation HDMI_LOS_OP_STATUS :: u16 where
  "HDMI_LOS_OP_STATUS \<equiv> 1"

abbreviation HDMI_LOS_OP_ACQUIRE :: u16 where
  "HDMI_LOS_OP_ACQUIRE \<equiv> 2"

abbreviation HDMI_LOS_OP_RELEASE :: u16 where
  "HDMI_LOS_OP_RELEASE \<equiv> 3"

abbreviation HDMI_LOS_OP_PING :: u16 where
  "HDMI_LOS_OP_PING \<equiv> 4"

abbreviation HDMI_LOS_OP_TOGGLE :: u16 where
  "HDMI_LOS_OP_TOGGLE \<equiv> 5"

abbreviation HDMI_LOS_OP_PROBE :: u16 where
  "HDMI_LOS_OP_PROBE \<equiv> 6"

abbreviation HDMI_LOS_OP_SET_MODE :: u16 where
  "HDMI_LOS_OP_SET_MODE \<equiv> 7"

abbreviation HDMI_LOS_OP_ARM :: u16 where
  "HDMI_LOS_OP_ARM \<equiv> 8"

abbreviation HDMI_LOS_OP_DISARM :: u16 where
  "HDMI_LOS_OP_DISARM \<equiv> 9"

abbreviation HDMI_LOS_OP_HOTPLUG :: u16 where
  "HDMI_LOS_OP_HOTPLUG \<equiv> 10"

abbreviation HDMI_LOS_OP_AGENT_REGISTER :: u16 where
  "HDMI_LOS_OP_AGENT_REGISTER \<equiv> 16"

abbreviation HDMI_LOS_OP_AGENT_PREPARE :: u16 where
  "HDMI_LOS_OP_AGENT_PREPARE \<equiv> 17"

abbreviation HDMI_LOS_OP_AGENT_START :: u16 where
  "HDMI_LOS_OP_AGENT_START \<equiv> 18"

abbreviation HDMI_LOS_OP_AGENT_STOP :: u16 where
  "HDMI_LOS_OP_AGENT_STOP \<equiv> 19"

abbreviation HDMI_LOS_OP_AGENT_READY :: u16 where
  "HDMI_LOS_OP_AGENT_READY \<equiv> 20"

abbreviation HDMI_LOS_OP_AGENT_FAILED :: u16 where
  "HDMI_LOS_OP_AGENT_FAILED \<equiv> 21"

abbreviation HDMI_LOS_OP_AGENT_PROGRESS :: u16 where
  "HDMI_LOS_OP_AGENT_PROGRESS \<equiv> 22"

abbreviation HDMI_LOS_OP_AGENT_PROGRESS_ACK :: u16 where
  "HDMI_LOS_OP_AGENT_PROGRESS_ACK \<equiv> 23"

abbreviation HDMI_LOS_OP_RESPONSE :: u16 where
  "HDMI_LOS_OP_RESPONSE \<equiv> 0x8000"

abbreviation HDMI_LOS_PROBE_NONE :: u32 where
  "HDMI_LOS_PROBE_NONE \<equiv> 0"

abbreviation HDMI_LOS_PROBE_LEASE_HOLD :: u32 where
  "HDMI_LOS_PROBE_LEASE_HOLD \<equiv> 1"

abbreviation HDMI_LOS_PROBE_XORG_LEGACY :: u32 where
  "HDMI_LOS_PROBE_XORG_LEGACY \<equiv> 2"

abbreviation HDMI_LOS_PROBE_XORG_ATOMIC :: u32 where
  "HDMI_LOS_PROBE_XORG_ATOMIC \<equiv> 3"

abbreviation HDMI_LOS_ACQUIRE_NONE :: u32 where
  "HDMI_LOS_ACQUIRE_NONE \<equiv> 0"

abbreviation HDMI_LOS_ACQUIRE_PREPARE :: u32 where
  "HDMI_LOS_ACQUIRE_PREPARE \<equiv> 1"

abbreviation HDMI_LOS_ACQUIRE_PAUSE :: u32 where
  "HDMI_LOS_ACQUIRE_PAUSE \<equiv> 2"

abbreviation HDMI_LOS_ACQUIRE_CREATE :: u32 where
  "HDMI_LOS_ACQUIRE_CREATE \<equiv> 3"

abbreviation HDMI_LOS_STATE_ANDROID :: u32 where
  "HDMI_LOS_STATE_ANDROID \<equiv> 0"

abbreviation HDMI_LOS_STATE_DRAINING :: u32 where
  "HDMI_LOS_STATE_DRAINING \<equiv> 1"

abbreviation HDMI_LOS_STATE_LEASED :: u32 where
  "HDMI_LOS_STATE_LEASED \<equiv> 2"

abbreviation HDMI_LOS_STATE_RESTORING :: u32 where
  "HDMI_LOS_STATE_RESTORING \<equiv> 3"

abbreviation HDMI_LOS_STATE_UNAVAILABLE :: u32 where
  "HDMI_LOS_STATE_UNAVAILABLE \<equiv> 4"

abbreviation HDMI_LOS_STATE_ERROR :: u32 where
  "HDMI_LOS_STATE_ERROR \<equiv> 5"

abbreviation HDMI_LOS_STATE_AGENT_READY :: u32 where
  "HDMI_LOS_STATE_AGENT_READY \<equiv> 6"

abbreviation HDMI_LOS_STATE_STARTING_X :: u32 where
  "HDMI_LOS_STATE_STARTING_X \<equiv> 7"

abbreviation HDMI_LOS_STATE_PROBING :: u32 where
  "HDMI_LOS_STATE_PROBING \<equiv> 8"

abbreviation HDMI_LOS_STATE_ARMED :: u32 where
  "HDMI_LOS_STATE_ARMED \<equiv> 9"

abbreviation HDMI_LOS_STATE_WAITING :: u32 where
  "HDMI_LOS_STATE_WAITING \<equiv> 10"

abbreviation HDMI_LOS_OK :: u32 where
  "HDMI_LOS_OK \<equiv> 0"

abbreviation HDMI_LOS_ERR_PROTOCOL :: u32 where
  "HDMI_LOS_ERR_PROTOCOL \<equiv> -1"

abbreviation HDMI_LOS_ERR_BUSY :: u32 where
  "HDMI_LOS_ERR_BUSY \<equiv> -2"

abbreviation HDMI_LOS_ERR_UNAVAILABLE :: u32 where
  "HDMI_LOS_ERR_UNAVAILABLE \<equiv> -3"

abbreviation HDMI_LOS_ERR_PERMISSION :: u32 where
  "HDMI_LOS_ERR_PERMISSION \<equiv> -4"

abbreviation HDMI_LOS_ERR_STATE :: u32 where
  "HDMI_LOS_ERR_STATE \<equiv> -5"

abbreviation HDMI_LOS_ERR_IO :: u32 where
  "HDMI_LOS_ERR_IO \<equiv> -6"

abbreviation HDMI_LOS_ERR_TIMEOUT :: u32 where
  "HDMI_LOS_ERR_TIMEOUT \<equiv> -7"

abbreviation HDMI_LOS_ERR_INCOMPATIBLE :: u32 where
  "HDMI_LOS_ERR_INCOMPATIBLE \<equiv> -8"

abbreviation HDMI_LOS_ERR_AGENT :: u32 where
  "HDMI_LOS_ERR_AGENT \<equiv> -9"

subsection \<open>The control message\<close>

record hdmi_los_message =
  m_magic :: u32
  m_version :: u16
  m_opcode :: u16
  m_request_id :: u32
  m_status :: u32
  m_state :: u32
  m_remaining_seconds :: u32
  m_connector_id :: u32
  m_crtc_id :: u32
  m_plane_id :: u32
  m_lessee_id :: u32
  m_flags :: u32
  m_requested_width :: u32
  m_requested_height :: u32
  m_requested_refresh_millihz :: u32
  m_active_width :: u32
  m_active_height :: u32
  m_active_refresh_millihz :: u32
  m_detail :: string

abbreviation DETAIL_SIZE :: nat where
  "DETAIL_SIZE \<equiv> 92"

definition zero_message :: hdmi_los_message where
  "zero_message = \<lparr>m_magic = 0, m_version = 0, m_opcode = 0, m_request_id = 0, m_status = 0,
     m_state = 0, m_remaining_seconds = 0, m_connector_id = 0, m_crtc_id = 0, m_plane_id = 0,
     m_lessee_id = 0, m_flags = 0, m_requested_width = 0, m_requested_height = 0,
     m_requested_refresh_millihz = 0, m_active_width = 0, m_active_height = 0,
     m_active_refresh_millihz = 0, m_detail = zero_buf DETAIL_SIZE\<rparr>"

definition wf_message :: "hdmi_los_message \<Rightarrow> bool" where
  "wf_message m \<longleftrightarrow> length (m_detail m) = DETAIL_SIZE"

definition bytes_of_message :: "hdmi_los_message \<Rightarrow> bytes" where
  "bytes_of_message m =
     le_bytes 4 (m_magic m) @ le_bytes 2 (m_version m) @ le_bytes 2 (m_opcode m) @
     le_bytes 4 (m_request_id m) @ le_bytes 4 (m_status m) @ le_bytes 4 (m_state m) @
     le_bytes 4 (m_remaining_seconds m) @ le_bytes 4 (m_connector_id m) @
     le_bytes 4 (m_crtc_id m) @ le_bytes 4 (m_plane_id m) @ le_bytes 4 (m_lessee_id m) @
     le_bytes 4 (m_flags m) @ le_bytes 4 (m_requested_width m) @
     le_bytes 4 (m_requested_height m) @ le_bytes 4 (m_requested_refresh_millihz m) @
     le_bytes 4 (m_active_width m) @ le_bytes 4 (m_active_height m) @
     le_bytes 4 (m_active_refresh_millihz m) @ map byte_of_char (m_detail m)"

definition sub_bytes :: "nat \<Rightarrow> nat \<Rightarrow> bytes \<Rightarrow> bytes" where
  "sub_bytes off n bs = take n (drop off bs)"

definition message_of_bytes :: "bytes \<Rightarrow> hdmi_los_message" where
  "message_of_bytes bs =
     \<lparr>m_magic = le_word (sub_bytes 0 4 bs), m_version = le_word (sub_bytes 4 2 bs),
      m_opcode = le_word (sub_bytes 6 2 bs), m_request_id = le_word (sub_bytes 8 4 bs),
      m_status = le_word (sub_bytes 12 4 bs), m_state = le_word (sub_bytes 16 4 bs),
      m_remaining_seconds = le_word (sub_bytes 20 4 bs), m_connector_id = le_word (sub_bytes 24 4 bs),
      m_crtc_id = le_word (sub_bytes 28 4 bs), m_plane_id = le_word (sub_bytes 32 4 bs),
      m_lessee_id = le_word (sub_bytes 36 4 bs), m_flags = le_word (sub_bytes 40 4 bs),
      m_requested_width = le_word (sub_bytes 44 4 bs), m_requested_height = le_word (sub_bytes 48 4 bs),
      m_requested_refresh_millihz = le_word (sub_bytes 52 4 bs),
      m_active_width = le_word (sub_bytes 56 4 bs), m_active_height = le_word (sub_bytes 60 4 bs),
      m_active_refresh_millihz = le_word (sub_bytes 64 4 bs),
      m_detail = map char_of_byte (sub_bytes 68 DETAIL_SIZE bs)\<rparr>"

subsection \<open>The trace record\<close>

abbreviation HDMI_LOS_TRACE_MAGIC :: u32 where
  "HDMI_LOS_TRACE_MAGIC \<equiv> 0x54524345"

abbreviation HDMI_LOS_TRACE_VERSION :: u16 where
  "HDMI_LOS_TRACE_VERSION \<equiv> 2"

abbreviation HDMI_LOS_TRACE_ACK_STEADY :: u32 where
  "HDMI_LOS_TRACE_ACK_STEADY \<equiv> 1"

abbreviation HDMI_LOS_TRACE_LOADED :: u16 where
  "HDMI_LOS_TRACE_LOADED \<equiv> 1"

abbreviation HDMI_LOS_TRACE_BEFORE :: u16 where
  "HDMI_LOS_TRACE_BEFORE \<equiv> 2"

abbreviation HDMI_LOS_TRACE_DETAIL :: u16 where
  "HDMI_LOS_TRACE_DETAIL \<equiv> 3"

abbreviation HDMI_LOS_TRACE_AFTER :: u16 where
  "HDMI_LOS_TRACE_AFTER \<equiv> 4"

abbreviation HDMI_LOS_TRACE_ACK :: u16 where
  "HDMI_LOS_TRACE_ACK \<equiv> 5"

abbreviation TRACE_RECORD_SIZE :: nat where
  "TRACE_RECORD_SIZE \<equiv> 176"

record hdmi_los_trace_record =
  t_magic :: u32
  t_version :: u16
  t_phase :: u16
  t_sequence :: u32
  t_pid :: u32
  t_tid :: u32
  t_fd :: u32
  t_error :: u32
  t_flags :: u32
  t_request :: u64
  t_result :: u64
  t_argument :: "u64 list"
  t_name :: string
  t_detail :: string

definition zero_record :: hdmi_los_trace_record where
  "zero_record = \<lparr>t_magic = 0, t_version = 0, t_phase = 0, t_sequence = 0, t_pid = 0,
     t_tid = 0, t_fd = 0, t_error = 0, t_flags = 0, t_request = 0, t_result = 0,
     t_argument = [0, 0, 0, 0], t_name = zero_buf 32, t_detail = zero_buf 64\<rparr>"

definition wf_record :: "hdmi_los_trace_record \<Rightarrow> bool" where
  "wf_record r \<longleftrightarrow> length (t_argument r) = 4 \<and> length (t_name r) = 32 \<and> length (t_detail r) = 64"

definition bytes_of_record :: "hdmi_los_trace_record \<Rightarrow> bytes" where
  "bytes_of_record r =
     le_bytes 4 (t_magic r) @ le_bytes 2 (t_version r) @ le_bytes 2 (t_phase r) @
     le_bytes 4 (t_sequence r) @ le_bytes 4 (t_pid r) @ le_bytes 4 (t_tid r) @
     le_bytes 4 (t_fd r) @ le_bytes 4 (t_error r) @ le_bytes 4 (t_flags r) @
     le_bytes 8 (t_request r) @ le_bytes 8 (t_result r) @
     concat (map (le_bytes 8) (t_argument r)) @
     map byte_of_char (t_name r) @ map byte_of_char (t_detail r)"

definition record_of_bytes :: "bytes \<Rightarrow> hdmi_los_trace_record" where
  "record_of_bytes bs =
     \<lparr>t_magic = le_word (sub_bytes 0 4 bs), t_version = le_word (sub_bytes 4 2 bs),
      t_phase = le_word (sub_bytes 6 2 bs), t_sequence = le_word (sub_bytes 8 4 bs),
      t_pid = le_word (sub_bytes 12 4 bs), t_tid = le_word (sub_bytes 16 4 bs),
      t_fd = le_word (sub_bytes 20 4 bs), t_error = le_word (sub_bytes 24 4 bs),
      t_flags = le_word (sub_bytes 28 4 bs), t_request = le_word (sub_bytes 32 8 bs),
      t_result = le_word (sub_bytes 40 8 bs),
      t_argument = [le_word (sub_bytes 48 8 bs), le_word (sub_bytes 56 8 bs),
                    le_word (sub_bytes 64 8 bs), le_word (sub_bytes 72 8 bs)],
      t_name = map char_of_byte (sub_bytes 80 32 bs),
      t_detail = map char_of_byte (sub_bytes 112 64 bs)\<rparr>"

subsection \<open>Layout lemmas\<close>

lemma slice_here: "length xs = n \<Longrightarrow> sub_bytes 0 n (xs @ ys) = xs"
  by (simp add: sub_bytes_def)

lemma slice_all: "length xs = n \<Longrightarrow> sub_bytes 0 n xs = xs"
  by (simp add: sub_bytes_def)

lemma slice_skip: "length xs \<le> off \<Longrightarrow> sub_bytes off n (xs @ ys) = sub_bytes (off - length xs) n ys"
  by (simp add: sub_bytes_def)

lemma length_slice: "off + n \<le> length bs \<Longrightarrow> length (sub_bytes off n bs) = n"
  by (simp add: sub_bytes_def)

lemma slice_join_slice:
  "off' = off + n \<Longrightarrow> sub_bytes off n bs @ sub_bytes off' k bs = sub_bytes off (n + k) bs"
  unfolding sub_bytes_def by (subst take_add) (simp add: add.commute)

lemma slice_full: "length bs = n \<Longrightarrow> sub_bytes 0 n bs = bs"
  by (simp add: sub_bytes_def)

lemma le_bytes_slice:
  assumes "LENGTH('a::len) = 8 * n" and "off + n \<le> length bs"
  shows "le_bytes n (le_word (sub_bytes off n bs) :: 'a word) = sub_bytes off n bs"
  using assms by (simp add: le_bytes_le_word length_slice)

lemma byte_char_comp [simp]: "byte_of_char \<circ> char_of_byte = id" "char_of_byte \<circ> byte_of_char = id"
  by (auto simp: fun_eq_iff)

lemmas slice_simps = slice_here slice_all slice_skip

subsection \<open>The interface of a wire format\<close>

text \<open>
  What a component that sends or receives a fixed-size structure relies on: the size of
  the encoding and the two round trips. The consequences proved here once (an encoding
  determines its value; a stream of encodings splits back into its values) hold for
  both structures.
\<close>

locale wire_format =
  fixes enc :: "'a \<Rightarrow> bytes"
    and dec :: "bytes \<Rightarrow> 'a"
    and wf :: "'a \<Rightarrow> bool"
    and sz :: nat
  assumes length_enc: "wf m \<Longrightarrow> length (enc m) = sz"
    and dec_enc: "wf m \<Longrightarrow> dec (enc m) = m"
    and enc_dec: "length bs = sz \<Longrightarrow> enc (dec bs) = bs"
    and wf_dec: "length bs = sz \<Longrightarrow> wf (dec bs)"
    and sz_pos: "0 < sz"
begin

lemma enc_inj: "wf m \<Longrightarrow> wf n \<Longrightarrow> enc m = enc n \<Longrightarrow> m = n"
  by (metis dec_enc)

lemma dec_inj: "length bs = sz \<Longrightarrow> length cs = sz \<Longrightarrow> dec bs = dec cs \<Longrightarrow> bs = cs"
  by (metis enc_dec)

lemma enc_surj: "length bs = sz \<Longrightarrow> \<exists>m. wf m \<and> enc m = bs"
  using enc_dec wf_dec by blast

lemma stream_split:
  assumes "wf m"
  shows "take sz (enc m @ bs) = enc m" and "drop sz (enc m @ bs) = bs"
  using assms by (simp_all add: length_enc)

lemma stream_inj:
  "list_all wf ms \<Longrightarrow> list_all wf ns \<Longrightarrow> concat (map enc ms) = concat (map enc ns) \<Longrightarrow> ms = ns"
proof (induction ms arbitrary: ns)
  case Nil
  then show ?case using sz_pos by (cases ns) (auto dest: length_enc)
next
  case (Cons m ms)
  from Cons.prems obtain n ns' where ns: "ns = n # ns'"
    using sz_pos by (cases ns) (auto dest: length_enc)
  with Cons.prems have "enc m = enc n \<and> concat (map enc ms) = concat (map enc ns')"
    by (auto simp: append_eq_append_conv length_enc)
  with Cons ns show ?case by (auto dest: enc_inj)
qed

end

subsection \<open>Both structures are wire formats\<close>

lemma length_bytes_of_message: "wf_message m \<Longrightarrow> length (bytes_of_message m) = HDMI_LOS_MESSAGE_SIZE"
  by (simp add: bytes_of_message_def wf_message_def)

lemma message_roundtrip: "wf_message m \<Longrightarrow> message_of_bytes (bytes_of_message m) = m"
  by (cases m) (simp add: message_of_bytes_def bytes_of_message_def wf_message_def slice_simps
      le_word_le_bytes)

lemma message_bytes_roundtrip:
  assumes "length bs = HDMI_LOS_MESSAGE_SIZE"
  shows "bytes_of_message (message_of_bytes bs) = bs"
proof -
  have "bytes_of_message (message_of_bytes bs) = sub_bytes 0 HDMI_LOS_MESSAGE_SIZE bs"
    using assms
    by (simp add: bytes_of_message_def message_of_bytes_def le_bytes_slice slice_join_slice)
  with assms show ?thesis by (simp add: slice_full)
qed

lemma wf_message_of_bytes: "length bs = HDMI_LOS_MESSAGE_SIZE \<Longrightarrow> wf_message (message_of_bytes bs)"
  by (simp add: wf_message_def message_of_bytes_def length_slice)

interpretation message_wire: wire_format bytes_of_message message_of_bytes wf_message
    HDMI_LOS_MESSAGE_SIZE
  by unfold_locales
    (simp_all add: length_bytes_of_message message_roundtrip message_bytes_roundtrip
      wf_message_of_bytes)

lemma length_bytes_of_record: "wf_record r \<Longrightarrow> length (bytes_of_record r) = TRACE_RECORD_SIZE"
  by (auto simp: bytes_of_record_def wf_record_def length_Suc_conv numeral_eq_Suc)

lemma record_roundtrip: "wf_record r \<Longrightarrow> record_of_bytes (bytes_of_record r) = r"
proof -
  assume wf: "wf_record r"
  then obtain a b c d where "t_argument r = [a, b, c, d]"
    by (auto simp: wf_record_def length_Suc_conv numeral_eq_Suc)
  with wf show ?thesis
    by (cases r) (simp add: record_of_bytes_def bytes_of_record_def wf_record_def slice_simps
        le_word_le_bytes)
qed

lemma record_bytes_roundtrip:
  assumes "length bs = TRACE_RECORD_SIZE"
  shows "bytes_of_record (record_of_bytes bs) = bs"
proof -
  have "bytes_of_record (record_of_bytes bs) = sub_bytes 0 TRACE_RECORD_SIZE bs"
    using assms
    by (simp add: bytes_of_record_def record_of_bytes_def le_bytes_slice slice_join_slice)
  with assms show ?thesis by (simp add: slice_full)
qed

lemma wf_record_of_bytes: "length bs = TRACE_RECORD_SIZE \<Longrightarrow> wf_record (record_of_bytes bs)"
  by (simp add: wf_record_def record_of_bytes_def length_slice)

interpretation record_wire: wire_format bytes_of_record record_of_bytes wf_record TRACE_RECORD_SIZE
  by unfold_locales
    (simp_all add: length_bytes_of_record record_roundtrip record_bytes_roundtrip
      wf_record_of_bytes)

lemma wf_zero_message [simp]: "wf_message zero_message"
  by (simp add: wf_message_def zero_message_def)

lemma wf_zero_record [simp]: "wf_record zero_record"
  by (simp add: wf_record_def zero_record_def)

end
