(* ===== verification/C_Text.thy ===== *)
theory C_Text
  imports Prelude "HOL-Library.Monad_Syntax"
begin

section \<open>Numbers as text: the conversions the program uses\<close>

text \<open>
  The parts of \<open>printf\<close>, \<open>scanf\<close>, \<open>strtol\<close> and \<open>strtoul\<close> that the sources use:
  unsigned decimal (\<open>%u\<close>, \<open>%llu\<close>), hexadecimal (\<open>%x\<close>), signed decimal (\<open>%d\<close>),
  the decimal scan with its optional sign, and the two \<open>strto\<close> functions with
  their saturation on the 64-bit target. The round trip of \<open>%u\<close> is what the
  broker's recovery journal rests on.
\<close>

subsection \<open>Printing\<close>

definition digit_char :: "nat \<Rightarrow> char" where
  "digit_char d = (if d < 10 then char_of (48 + d) else char_of (87 + d))"

fun show_nat :: "nat \<Rightarrow> string" where
  "show_nat n = (if n < 10 then [digit_char n] else show_nat (n div 10) @ [digit_char (n mod 10)])"

fun show_hex_nat :: "nat \<Rightarrow> string" where
  "show_hex_nat n =
     (if n < 16 then [digit_char n] else show_hex_nat (n div 16) @ [digit_char (n mod 16)])"

declare show_nat.simps [simp del]
declare show_hex_nat.simps [simp del]

definition show_u :: "'a::len word \<Rightarrow> string" where
  "show_u w = show_nat (unat w)"

definition show_x :: "'a::len word \<Rightarrow> string" where
  "show_x w = show_hex_nat (unat w)"

definition show_int :: "int \<Rightarrow> string" where
  "show_int i = (if i < 0 then ''-'' @ show_nat (nat (- i)) else show_nat (nat i))"

definition show_d :: "'a::len word \<Rightarrow> string" where
  "show_d w = show_int (sint w)"

subsection \<open>Scanning\<close>

definition is_digit :: "char \<Rightarrow> bool" where
  "is_digit c \<longleftrightarrow> 48 \<le> (of_char c :: nat) \<and> (of_char c :: nat) \<le> 57"

definition digit_val :: "char \<Rightarrow> nat" where
  "digit_val c = of_char c - 48"

definition is_space :: "char \<Rightarrow> bool" where
  "is_space c \<longleftrightarrow> of_char c = (32::nat) \<or> (9 \<le> (of_char c :: nat) \<and> (of_char c :: nat) \<le> 13)"

definition skip_space :: "string \<Rightarrow> string" where
  "skip_space s = dropWhile is_space s"

fun scan_digits :: "nat \<Rightarrow> string \<Rightarrow> nat \<times> string" where
  "scan_digits acc [] = (acc, [])"
| "scan_digits acc (c # s) =
     (if is_digit c then scan_digits (10 * acc + digit_val c) s else (acc, c # s))"

text \<open>An optional sign, then at least one digit: the number and the unread rest.\<close>

definition scan_signed :: "string \<Rightarrow> (bool \<times> nat \<times> string) option" where
  "scan_signed s =
     (let s1 = skip_space s;
          neg = (s1 \<noteq> [] \<and> hd s1 = CHR ''-'');
          s2 = (if s1 \<noteq> [] \<and> (hd s1 = CHR ''-'' \<or> hd s1 = CHR ''+'') then tl s1 else s1)
      in if s2 \<noteq> [] \<and> is_digit (hd s2)
         then (let (n, rest) = scan_digits 0 s2 in Some (neg, n, rest))
         else None)"

text \<open>\<open>%u\<close> into a 32-bit variable.\<close>

definition scan_u :: "string \<Rightarrow> (u32 \<times> string) option" where
  "scan_u s =
     (case scan_signed s of
        None \<Rightarrow> None
      | Some (neg, n, rest) \<Rightarrow> Some (if neg then - word_of_nat n else word_of_nat n, rest))"

text \<open>\<open>sscanf(s, "%u %u %u", ...) == 3\<close>.\<close>

definition scan_u3 :: "string \<Rightarrow> (u32 \<times> u32 \<times> u32) option" where
  "scan_u3 s =
     do {
       (a, s1) \<leftarrow> scan_u s;
       (b, s2) \<leftarrow> scan_u s1;
       (c, s3) \<leftarrow> scan_u s2;
       Some (a, b, c)
     }"

text \<open>
  \<open>strtol(s, &end, 10)\<close> and \<open>strtoul(s, &end, 10)\<close> with 64-bit \<open>long\<close>: the value,
  the unread rest and whether \<open>errno\<close> was set to a range error.
\<close>

definition c_strtol :: "string \<Rightarrow> int \<times> string \<times> bool" where
  "c_strtol s =
     (case scan_signed s of
        None \<Rightarrow> (0, s, False)
      | Some (neg, n, rest) \<Rightarrow>
          let v = (if neg then - int n else int n)
          in if v < - (2 ^ 63) then (- (2 ^ 63), rest, True)
             else if 2 ^ 63 \<le> v then (2 ^ 63 - 1, rest, True)
             else (v, rest, False))"

definition c_strtoul :: "string \<Rightarrow> u64 \<times> string \<times> bool" where
  "c_strtoul s =
     (case scan_signed s of
        None \<Rightarrow> (0, s, False)
      | Some (neg, n, rest) \<Rightarrow>
          if 2 ^ 64 \<le> n then (- 1, rest, True)
          else (if neg then - word_of_nat n else word_of_nat n, rest, False))"

subsection \<open>Round trip of unsigned decimal\<close>

lemma digit_char_digit:
  assumes "d < 10"
  shows "is_digit (digit_char d)" and "digit_val (digit_char d) = d"
  using assms by (simp_all add: is_digit_def digit_val_def digit_char_def of_char_of)

lemma digit_not_space: "is_digit c \<Longrightarrow> \<not> is_space c"
  by (auto simp: is_digit_def is_space_def)

lemma show_nat_digits: "\<forall>c \<in> set (show_nat n). is_digit c"
proof (induction n rule: show_nat.induct)
  case (1 n)
  then show ?case
    by (subst show_nat.simps) (auto simp: digit_char_digit)
qed

lemma show_nat_nonempty [simp]: "show_nat n \<noteq> []"
  by (subst show_nat.simps) simp

lemma scan_digits_show_nat:
  assumes "rest = [] \<or> \<not> is_digit (hd rest)"
  shows "scan_digits acc (show_nat n @ rest) = (acc * 10 ^ length (show_nat n) + n, rest)"
  using assms
proof (induction n arbitrary: acc rest rule: show_nat.induct)
  case (1 n)
  have stop: "scan_digits a rest = (a, rest)" for a
    using "1.prems" by (cases rest) auto
  show ?case
  proof (cases "n < 10")
    case True
    then show ?thesis
      by (subst (1 2) show_nat.simps) (simp add: digit_char_digit stop algebra_simps)
  next
    case False
    let ?d = "digit_char (n mod 10)"
    have scan_app: "scan_digits a (xs @ ?d # rest) =
        (let (b, r) = scan_digits a xs in if r = [] then (10 * b + n mod 10, rest) else (b, r @ ?d # rest))"
      for a xs
      by (induction xs arbitrary: a) (auto simp: digit_char_digit stop)
    have "scan_digits acc (show_nat (n div 10) @ []) =
        (acc * 10 ^ length (show_nat (n div 10)) + n div 10, [])"
      using False by (intro "1.IH") auto
    with False show ?thesis
      by (subst (1 2) show_nat.simps) (simp add: scan_app algebra_simps)
  qed
qed

lemma hd_show_nat_digit: "is_digit (hd (show_nat n))"
  using show_nat_digits [of n] by (meson hd_in_set show_nat_nonempty)

lemma digit_not_sign: "is_digit c \<Longrightarrow> c \<noteq> CHR ''-'' \<and> c \<noteq> CHR ''+''"
  by (auto simp: is_digit_def)

lemma scan_signed_show_nat:
  assumes "\<forall>c \<in> set ws. is_space c" and "rest = [] \<or> \<not> is_digit (hd rest)"
  shows "scan_signed (ws @ show_nat n @ rest) = Some (False, n, rest)"
proof -
  have "skip_space (ws @ show_nat n @ rest) = show_nat n @ rest"
  proof -
    have "dropWhile is_space (show_nat n @ rest) = show_nat n @ rest"
      using hd_show_nat_digit [of n] digit_not_space by (cases "show_nat n") auto
    with assms(1) show ?thesis by (simp add: skip_space_def dropWhile_append2)
  qed
  moreover have "hd (show_nat n @ rest) = hd (show_nat n)" by simp
  ultimately show ?thesis
    using hd_show_nat_digit [of n] digit_not_sign [OF hd_show_nat_digit]
      scan_digits_show_nat [OF assms(2), of 0 n]
    by (simp add: scan_signed_def Let_def)
qed

lemma scan_u_show_u:
  assumes "\<forall>c \<in> set ws. is_space c" and "rest = [] \<or> \<not> is_digit (hd rest)"
  shows "scan_u (ws @ show_u w @ rest) = Some (w, rest)"
  using scan_signed_show_nat [OF assms, of "unat w"]
  by (simp add: scan_u_def show_u_def)

lemma scan_u3_roundtrip:
  "scan_u3 (show_u a @ '' '' @ show_u b @ '' '' @ show_u c @ ''\<newline>'') = Some (a, b, c)"
proof -
  have sp: "\<forall>x \<in> set '' ''. is_space x" "\<not> is_digit (CHR '' '')" "\<not> is_digit (CHR 0x0A)"
    by (simp_all add: is_space_def is_digit_def)
  have 1: "scan_u (show_u a @ '' '' @ show_u b @ '' '' @ show_u c @ ''\<newline>'') =
      Some (a, '' '' @ show_u b @ '' '' @ show_u c @ ''\<newline>'')"
    using scan_u_show_u [of "[]"] sp by simp
  have 2: "scan_u ('' '' @ show_u b @ '' '' @ show_u c @ ''\<newline>'') =
      Some (b, '' '' @ show_u c @ ''\<newline>'')"
    using scan_u_show_u [OF sp(1), where rest = "'' '' @ show_u c @ ''\<newline>''"] sp by simp
  have 3: "scan_u ('' '' @ show_u c @ ''\<newline>'') = Some (c, ''\<newline>'')"
    using scan_u_show_u [OF sp(1), where rest = "''\<newline>''"] sp by simp
  show ?thesis unfolding scan_u3_def 1 by (simp add: 2 [simplified] 3 [simplified])
qed

end
