(* ===== verification/Drm_Records.thy ===== *)
theory Drm_Records
  imports Protocol C_Text
begin

section \<open>DRM requests, their argument structures and how a trace record shows them\<close>

text \<open>
  The data half of \<open>src/native/drm-trace/drmtrace.c\<close>: the request names
  (\<open>request_name\<close>), the exact-timing comparison (\<open>same_mode_timing\<close>), the fallible
  read of an argument structure (\<open>safe_copy\<close>) and the rendering of an argument into
  a trace record (\<open>decode_record\<close>, one group of branches per definition).

  The DRM structures are declared by the kernel's headers, not by the program. A
  structure is modelled by the fields the program reads, and the reading of one at an
  address (\<open>process_vm_readv\<close> into a local variable) by a field of \<open>memory\<close>, so the
  theorems hold for every memory layout. A request is a value of \<open>drm_request\<close>; the
  number the kernel gives it is a parameter of the operations that put it on the wire.
\<close>

subsection \<open>Requests\<close>

datatype drm_request =
    DRM_IOCTL_VERSION | DRM_IOCTL_GET_UNIQUE | DRM_IOCTL_GET_MAGIC
  | DRM_IOCTL_GEM_CLOSE | DRM_IOCTL_PRIME_HANDLE_TO_FD | DRM_IOCTL_PRIME_FD_TO_HANDLE
  | DRM_IOCTL_SET_MASTER | DRM_IOCTL_DROP_MASTER | DRM_IOCTL_GET_CAP
  | DRM_IOCTL_SET_CLIENT_CAP | DRM_IOCTL_MODE_GETRESOURCES | DRM_IOCTL_MODE_GETCRTC
  | DRM_IOCTL_MODE_SETCRTC | DRM_IOCTL_MODE_CURSOR | DRM_IOCTL_MODE_GETCONNECTOR
  | DRM_IOCTL_MODE_GETENCODER | DRM_IOCTL_MODE_GETPROPERTY | DRM_IOCTL_MODE_SETPROPERTY
  | DRM_IOCTL_MODE_GETPROPBLOB | DRM_IOCTL_MODE_GETGAMMA | DRM_IOCTL_MODE_SETGAMMA
  | DRM_IOCTL_MODE_ADDFB | DRM_IOCTL_MODE_GETFB | DRM_IOCTL_MODE_RMFB
  | DRM_IOCTL_MODE_DIRTYFB | DRM_IOCTL_MODE_PAGE_FLIP | DRM_IOCTL_MODE_CREATE_DUMB
  | DRM_IOCTL_MODE_MAP_DUMB | DRM_IOCTL_MODE_DESTROY_DUMB | DRM_IOCTL_MODE_GETPLANERESOURCES
  | DRM_IOCTL_MODE_GETPLANE | DRM_IOCTL_MODE_ADDFB2 | DRM_IOCTL_MODE_OBJ_GETPROPERTIES
  | DRM_IOCTL_MODE_CURSOR2 | DRM_IOCTL_MODE_ATOMIC | DRM_IOCTL_MODE_CREATEPROPBLOB
  | DRM_IOCTL_MODE_DESTROYPROPBLOB | DRM_IOCTL_WAIT_VBLANK | DRM_IOCTL_CRTC_GET_SEQUENCE
  | DRM_IOCTL_CRTC_QUEUE_SEQUENCE
  | DRM_IOCTL_UNNAMED u64
  | NOT_DRM u64

fun is_drm_request :: "drm_request \<Rightarrow> bool" where
  "is_drm_request (NOT_DRM r) = False"
| "is_drm_request _ = True"

fun request_name :: "drm_request \<Rightarrow> string" where
  "request_name DRM_IOCTL_VERSION = ''VERSION''"
| "request_name DRM_IOCTL_GET_UNIQUE = ''GET_UNIQUE''"
| "request_name DRM_IOCTL_GET_MAGIC = ''GET_MAGIC''"
| "request_name DRM_IOCTL_GEM_CLOSE = ''GEM_CLOSE''"
| "request_name DRM_IOCTL_PRIME_HANDLE_TO_FD = ''PRIME_HANDLE_TO_FD''"
| "request_name DRM_IOCTL_PRIME_FD_TO_HANDLE = ''PRIME_FD_TO_HANDLE''"
| "request_name DRM_IOCTL_SET_MASTER = ''SET_MASTER''"
| "request_name DRM_IOCTL_DROP_MASTER = ''DROP_MASTER''"
| "request_name DRM_IOCTL_GET_CAP = ''GET_CAP''"
| "request_name DRM_IOCTL_SET_CLIENT_CAP = ''SET_CLIENT_CAP''"
| "request_name DRM_IOCTL_MODE_GETRESOURCES = ''MODE_GETRESOURCES''"
| "request_name DRM_IOCTL_MODE_GETCRTC = ''MODE_GETCRTC''"
| "request_name DRM_IOCTL_MODE_SETCRTC = ''MODE_SETCRTC''"
| "request_name DRM_IOCTL_MODE_CURSOR = ''MODE_CURSOR''"
| "request_name DRM_IOCTL_MODE_GETCONNECTOR = ''MODE_GETCONNECTOR''"
| "request_name DRM_IOCTL_MODE_GETENCODER = ''MODE_GETENCODER''"
| "request_name DRM_IOCTL_MODE_GETPROPERTY = ''MODE_GETPROPERTY''"
| "request_name DRM_IOCTL_MODE_SETPROPERTY = ''MODE_SETPROPERTY''"
| "request_name DRM_IOCTL_MODE_GETPROPBLOB = ''MODE_GETPROPBLOB''"
| "request_name DRM_IOCTL_MODE_GETGAMMA = ''MODE_GETGAMMA''"
| "request_name DRM_IOCTL_MODE_SETGAMMA = ''MODE_SETGAMMA''"
| "request_name DRM_IOCTL_MODE_ADDFB = ''MODE_ADDFB''"
| "request_name DRM_IOCTL_MODE_GETFB = ''MODE_GETFB''"
| "request_name DRM_IOCTL_MODE_RMFB = ''MODE_RMFB''"
| "request_name DRM_IOCTL_MODE_DIRTYFB = ''MODE_DIRTYFB''"
| "request_name DRM_IOCTL_MODE_PAGE_FLIP = ''MODE_PAGE_FLIP''"
| "request_name DRM_IOCTL_MODE_CREATE_DUMB = ''MODE_CREATE_DUMB''"
| "request_name DRM_IOCTL_MODE_MAP_DUMB = ''MODE_MAP_DUMB''"
| "request_name DRM_IOCTL_MODE_DESTROY_DUMB = ''MODE_DESTROY_DUMB''"
| "request_name DRM_IOCTL_MODE_GETPLANERESOURCES = ''MODE_GETPLANERESOURCES''"
| "request_name DRM_IOCTL_MODE_GETPLANE = ''MODE_GETPLANE''"
| "request_name DRM_IOCTL_MODE_ADDFB2 = ''MODE_ADDFB2''"
| "request_name DRM_IOCTL_MODE_OBJ_GETPROPERTIES = ''MODE_OBJ_GETPROPERTIES''"
| "request_name DRM_IOCTL_MODE_CURSOR2 = ''MODE_CURSOR2''"
| "request_name DRM_IOCTL_MODE_ATOMIC = ''MODE_ATOMIC''"
| "request_name DRM_IOCTL_MODE_CREATEPROPBLOB = ''MODE_CREATEPROPBLOB''"
| "request_name DRM_IOCTL_MODE_DESTROYPROPBLOB = ''MODE_DESTROYPROPBLOB''"
| "request_name DRM_IOCTL_WAIT_VBLANK = ''WAIT_VBLANK''"
| "request_name DRM_IOCTL_CRTC_GET_SEQUENCE = ''CRTC_GET_SEQUENCE''"
| "request_name DRM_IOCTL_CRTC_QUEUE_SEQUENCE = ''CRTC_QUEUE_SEQUENCE''"
| "request_name (DRM_IOCTL_UNNAMED r) = ''DRM_IOCTL''"
| "request_name (NOT_DRM r) = ''DRM_IOCTL''"

subsection \<open>Structures\<close>

record drm_mode_modeinfo =
  mi_clock :: u32
  mi_hdisplay :: u16
  mi_hsync_start :: u16
  mi_hsync_end :: u16
  mi_htotal :: u16
  mi_hskew :: u16
  mi_vdisplay :: u16
  mi_vsync_start :: u16
  mi_vsync_end :: u16
  mi_vtotal :: u16
  mi_vscan :: u16
  mi_flags :: u32

record drm_mode_crtc =
  cr_set_connectors_ptr :: u64
  cr_count_connectors :: u32
  cr_crtc_id :: u32
  cr_fb_id :: u32
  cr_x :: u32
  cr_y :: u32
  cr_mode_valid :: u32
  cr_mode :: drm_mode_modeinfo

record drm_mode_atomic =
  at_flags :: u32
  at_count_objs :: u32
  at_objs_ptr :: u64
  at_count_props_ptr :: u64
  at_props_ptr :: u64
  at_prop_values_ptr :: u64
  at_user_data :: u64

record drm_mode_obj_get_properties =
  og_props_ptr :: u64
  og_prop_values_ptr :: u64
  og_count_props :: u32
  og_obj_id :: u32
  og_obj_type :: u32

record drm_mode_connector_set_property =
  sp_value :: u64
  sp_prop_id :: u32
  sp_connector_id :: u32

abbreviation DRM_MODE_OBJECT_CONNECTOR :: u32 where
  "DRM_MODE_OBJECT_CONNECTOR \<equiv> 0xc0c0c0c0"

abbreviation DRM_MODE_PROP_BITMASK :: u32 where
  "DRM_MODE_PROP_BITMASK \<equiv> 32"

text \<open>Structures that are only shown in the trace, as tuples in the order they are printed.\<close>

record memory =
  rd_get_cap :: "u64 \<Rightarrow> (u64 \<times> u64) option"
  rd_wait_vblank :: "u64 \<Rightarrow> (u32 \<times> u32 \<times> u64) option"
  rd_crtc_get_sequence :: "u64 \<Rightarrow> (u32 \<times> u32 \<times> u64 \<times> u64) option"
  rd_crtc_queue_sequence :: "u64 \<Rightarrow> (u32 \<times> u32 \<times> u64 \<times> u64) option"
  rd_set_client_cap :: "u64 \<Rightarrow> (u64 \<times> u64) option"
  rd_card_res :: "u64 \<Rightarrow> (u32 \<times> u32 \<times> u32 \<times> u32) option"
  rd_get_connector :: "u64 \<Rightarrow> (u32 \<times> u32 \<times> u32 \<times> u32 \<times> u32) option"
  rd_get_encoder :: "u64 \<Rightarrow> (u32 \<times> u32 \<times> u32 \<times> u32) option"
  rd_crtc :: "u64 \<Rightarrow> drm_mode_crtc option"
  rd_get_plane_res :: "u64 \<Rightarrow> u32 option"
  rd_get_plane :: "u64 \<Rightarrow> (u32 \<times> u32 \<times> u32 \<times> u32 \<times> u32) option"
  rd_obj_get_properties :: "u64 \<Rightarrow> drm_mode_obj_get_properties option"
  rd_get_property :: "u64 \<Rightarrow> (u32 \<times> u32 \<times> u32 \<times> u32 \<times> string) option"
  rd_set_property :: "u64 \<Rightarrow> drm_mode_connector_set_property option"
  rd_get_blob :: "u64 \<Rightarrow> (u32 \<times> u32 \<times> u64) option"
  rd_create_dumb :: "u64 \<Rightarrow> (u32 \<times> u32 \<times> u32 \<times> u32 \<times> u32 \<times> u64) option"
  rd_map_dumb :: "u64 \<Rightarrow> (u32 \<times> u64) option"
  rd_destroy_dumb :: "u64 \<Rightarrow> u32 option"
  rd_fb_cmd :: "u64 \<Rightarrow> (u32 \<times> u32 \<times> u32 \<times> u32 \<times> u32 \<times> u32 \<times> u32) option"
  rd_fb_cmd2 :: "u64 \<Rightarrow> (u32 \<times> u32 \<times> u32 \<times> u32 \<times> u32 \<times> u32 \<times> u32) option"
  rd_cursor :: "u64 \<Rightarrow> (u32 \<times> u32 \<times> u32 \<times> u32 \<times> u32 \<times> u32 \<times> u32) option"
  rd_cursor2 :: "u64 \<Rightarrow> (u32 \<times> u32 \<times> u32 \<times> u32 \<times> u32 \<times> u32 \<times> u32) option"
  rd_page_flip :: "u64 \<Rightarrow> (u32 \<times> u32 \<times> u32) option"
  rd_atomic :: "u64 \<Rightarrow> drm_mode_atomic option"
  rd_create_blob :: "u64 \<Rightarrow> (u32 \<times> u32) option"
  rd_u32 :: "u64 \<Rightarrow> u32 option"
  rd_u32s :: "u64 \<Rightarrow> nat \<Rightarrow> u32 list option"
  rd_u64s :: "u64 \<Rightarrow> nat \<Rightarrow> u64 list option"

subsection \<open>Reading the caller's memory\<close>

text \<open>
  A null address is never read. An array read succeeds only when the kernel copied
  every byte, so its length is the number of elements asked for; a zero-sized read
  fails.
\<close>

definition safe_copy :: "(u64 \<Rightarrow> 'a option) \<Rightarrow> u64 \<Rightarrow> 'a option" where
  "safe_copy rd source = (if source = 0 then None else rd source)"

definition safe_copy_array :: "(u64 \<Rightarrow> nat \<Rightarrow> 'a list option) \<Rightarrow> u64 \<Rightarrow> nat \<Rightarrow> 'a list option" where
  "safe_copy_array rd source n =
     (if source = 0 \<or> n = 0 then None
      else case rd source n of
             None \<Rightarrow> None
           | Some xs \<Rightarrow> if length xs = n then Some xs else None)"

lemma safe_copy_array_length: "safe_copy_array rd a n = Some xs \<Longrightarrow> length xs = n \<and> 0 < n"
  by (auto simp: safe_copy_array_def split: if_splits option.splits)

subsection \<open>Exact mode timing\<close>

definition same_mode_timing :: "drm_mode_modeinfo \<Rightarrow> drm_mode_modeinfo \<Rightarrow> bool" where
  "same_mode_timing left right \<longleftrightarrow>
     mi_clock left = mi_clock right \<and> mi_hdisplay left = mi_hdisplay right \<and>
     mi_hsync_start left = mi_hsync_start right \<and> mi_hsync_end left = mi_hsync_end right \<and>
     mi_htotal left = mi_htotal right \<and> mi_hskew left = mi_hskew right \<and>
     mi_vdisplay left = mi_vdisplay right \<and> mi_vsync_start left = mi_vsync_start right \<and>
     mi_vsync_end left = mi_vsync_end right \<and> mi_vtotal left = mi_vtotal right \<and>
     mi_vscan left = mi_vscan right \<and> mi_flags left = mi_flags right"

lemma same_mode_timing_eq: "same_mode_timing (a :: drm_mode_modeinfo) b \<longleftrightarrow> a = b"
  by (cases a, cases b) (auto simp: same_mode_timing_def)

subsection \<open>Rendering an argument into a record\<close>

definition put_args :: "u64 list \<Rightarrow> hdmi_los_trace_record \<Rightarrow> hdmi_los_trace_record" where
  "put_args xs r = r\<lparr>t_argument := xs @ drop (length xs) (t_argument r)\<rparr>"

definition with_detail :: "string \<Rightarrow> hdmi_los_trace_record \<Rightarrow> hdmi_los_trace_record" where
  "with_detail s r = r\<lparr>t_detail := c_snprintf (t_detail r) s\<rparr>"

definition decode_with :: "(u64 \<Rightarrow> 'a option) \<Rightarrow> u64 \<Rightarrow>
    ('a \<Rightarrow> hdmi_los_trace_record \<Rightarrow> hdmi_los_trace_record) \<Rightarrow>
    hdmi_los_trace_record \<Rightarrow> hdmi_los_trace_record option" where
  "decode_with rd address f r =
     (case safe_copy rd address of None \<Rightarrow> Some r | Some v \<Rightarrow> Some (f v r))"

text \<open>Capabilities and vertical-blank sequences.\<close>

definition decode_sync :: "memory \<Rightarrow> drm_request \<Rightarrow> u64 \<Rightarrow> hdmi_los_trace_record \<Rightarrow>
    hdmi_los_trace_record option" where
  "decode_sync mem request address r =
     (case request of
        DRM_IOCTL_GET_CAP \<Rightarrow> decode_with (rd_get_cap mem) address (\<lambda>(capability, val).
          with_detail (''cap='' @ show_u capability @ '' value='' @ show_u val) \<circ>
          put_args [capability, val]) r
      | DRM_IOCTL_WAIT_VBLANK \<Rightarrow> decode_with (rd_wait_vblank mem) address (\<lambda>(typ, sequen, signal).
          with_detail (''type=0x'' @ show_x typ @ '' sequence='' @ show_u sequen @
            '' signal='' @ show_u signal) \<circ>
          put_args [ucast typ, ucast sequen, signal]) r
      | DRM_IOCTL_CRTC_GET_SEQUENCE \<Rightarrow> decode_with (rd_crtc_get_sequence mem) address
          (\<lambda>(crtc_id, active, sequen, sequence_ns).
          with_detail (''crtc='' @ show_u crtc_id @ '' active='' @ show_u active @
            '' sequence='' @ show_u sequen) \<circ>
          put_args [ucast crtc_id, ucast active, sequen, sequence_ns]) r
      | DRM_IOCTL_CRTC_QUEUE_SEQUENCE \<Rightarrow> decode_with (rd_crtc_queue_sequence mem) address
          (\<lambda>(crtc_id, flags, sequen, user_data).
          with_detail (''crtc='' @ show_u crtc_id @ '' flags=0x'' @ show_x flags @
            '' sequence='' @ show_u sequen) \<circ>
          put_args [ucast crtc_id, ucast flags, sequen, user_data]) r
      | DRM_IOCTL_SET_CLIENT_CAP \<Rightarrow> decode_with (rd_set_client_cap mem) address (\<lambda>(capability, val).
          with_detail (''cap='' @ show_u capability @ '' value='' @ show_u val) \<circ>
          put_args [capability, val]) r
      | _ \<Rightarrow> None)"

text \<open>Resources, connectors, encoders, CRTCs and planes.\<close>

definition decode_objects :: "memory \<Rightarrow> drm_request \<Rightarrow> u64 \<Rightarrow> hdmi_los_trace_record \<Rightarrow>
    hdmi_los_trace_record option" where
  "decode_objects mem request address r =
     (let crtc = decode_with (rd_crtc mem) address (\<lambda>v.
            with_detail (''crtc='' @ show_u (cr_crtc_id v) @ '' fb='' @ show_u (cr_fb_id v) @
              '' xy='' @ show_u (cr_x v) @ '','' @ show_u (cr_y v) @
              '' conns='' @ show_u (cr_count_connectors v) @ '' mode='' @ show_u (cr_mode_valid v)) \<circ>
            put_args [ucast (cr_crtc_id v), ucast (cr_fb_id v), ucast (cr_count_connectors v),
              ucast (cr_mode_valid v)]) r
      in case request of
        DRM_IOCTL_MODE_GETRESOURCES \<Rightarrow> decode_with (rd_card_res mem) address
          (\<lambda>(count_fbs, count_crtcs, count_connectors, count_encoders).
          with_detail (''fb='' @ show_u count_fbs @ '' crtc='' @ show_u count_crtcs @
            '' conn='' @ show_u count_connectors @ '' enc='' @ show_u count_encoders)) r
      | DRM_IOCTL_MODE_GETCONNECTOR \<Rightarrow> decode_with (rd_get_connector mem) address
          (\<lambda>(connector_id, count_modes, count_props, count_encoders, connection).
          with_detail (''id='' @ show_u connector_id @ '' modes='' @ show_u count_modes @
            '' props='' @ show_u count_props @ '' enc='' @ show_u count_encoders @
            '' status='' @ show_u connection) \<circ>
          put_args [ucast connector_id]) r
      | DRM_IOCTL_MODE_GETENCODER \<Rightarrow> decode_with (rd_get_encoder mem) address
          (\<lambda>(encoder_id, crtc_id, possible_crtcs, possible_clones).
          with_detail (''encoder='' @ show_u encoder_id @ '' crtc='' @ show_u crtc_id @
            '' masks=0x'' @ show_x possible_crtcs @ ''/0x'' @ show_x possible_clones) \<circ>
          put_args [ucast encoder_id, ucast crtc_id, ucast possible_crtcs,
            ucast possible_clones]) r
      | DRM_IOCTL_MODE_GETCRTC \<Rightarrow> crtc
      | DRM_IOCTL_MODE_SETCRTC \<Rightarrow> crtc
      | DRM_IOCTL_MODE_GETPLANERESOURCES \<Rightarrow> decode_with (rd_get_plane_res mem) address
          (\<lambda>count_planes. with_detail (''planes='' @ show_u count_planes)) r
      | DRM_IOCTL_MODE_GETPLANE \<Rightarrow> decode_with (rd_get_plane mem) address
          (\<lambda>(plane_id, crtc_id, fb_id, possible_crtcs, count_format_types).
          with_detail (''plane='' @ show_u plane_id @ '' crtc='' @ show_u crtc_id @
            '' fb='' @ show_u fb_id @ '' mask=0x'' @ show_x possible_crtcs @
            '' fmts='' @ show_u count_format_types) \<circ>
          put_args [ucast plane_id, ucast crtc_id, ucast fb_id]) r
      | _ \<Rightarrow> None)"

text \<open>Properties and blobs.\<close>

definition decode_properties :: "memory \<Rightarrow> drm_request \<Rightarrow> u64 \<Rightarrow> hdmi_los_trace_record \<Rightarrow>
    hdmi_los_trace_record option" where
  "decode_properties mem request address r =
     (case request of
        DRM_IOCTL_MODE_OBJ_GETPROPERTIES \<Rightarrow> decode_with (rd_obj_get_properties mem) address (\<lambda>v.
          with_detail (''obj='' @ show_u (og_obj_id v) @ '' type=0x'' @ show_x (og_obj_type v) @
            '' props='' @ show_u (og_count_props v)) \<circ>
          put_args [ucast (og_obj_id v), ucast (og_obj_type v), ucast (og_count_props v)]) r
      | DRM_IOCTL_MODE_GETPROPERTY \<Rightarrow> decode_with (rd_get_property mem) address
          (\<lambda>(prop_id, flags, count_values, count_enum_blobs, name).
          with_detail (''prop='' @ show_u prop_id @ '' flags=0x'' @ show_x flags @
            '' values='' @ show_u count_values @ '' enums='' @ show_u count_enum_blobs @
            '' name='' @ take 20 (c_str name)) \<circ>
          put_args [ucast prop_id]) r
      | DRM_IOCTL_MODE_SETPROPERTY \<Rightarrow> decode_with (rd_set_property mem) address (\<lambda>v.
          with_detail (''connector='' @ show_u (sp_connector_id v) @ '' prop='' @
            show_u (sp_prop_id v) @ '' value='' @ show_u (sp_value v)) \<circ>
          put_args [ucast (sp_connector_id v), ucast (sp_prop_id v), sp_value v]) r
      | DRM_IOCTL_MODE_GETPROPBLOB \<Rightarrow> decode_with (rd_get_blob mem) address
          (\<lambda>(blob_id, len, blob_data).
          with_detail (''blob='' @ show_u blob_id @ '' length='' @ show_u len @
            '' data=0x'' @ show_x blob_data) \<circ>
          put_args [ucast blob_id, ucast len, blob_data]) r
      | _ \<Rightarrow> None)"

text \<open>Buffers and framebuffers.\<close>

definition decode_buffers :: "memory \<Rightarrow> drm_request \<Rightarrow> u64 \<Rightarrow> hdmi_los_trace_record \<Rightarrow>
    hdmi_los_trace_record option" where
  "decode_buffers mem request address r =
     (case request of
        DRM_IOCTL_MODE_CREATE_DUMB \<Rightarrow> decode_with (rd_create_dumb mem) address
          (\<lambda>(width, height, bpp, handle, pitch, siz).
          with_detail (''w='' @ show_u width @ '' h='' @ show_u height @ '' bpp='' @ show_u bpp @
            '' handle='' @ show_u handle @ '' pitch='' @ show_u pitch @ '' size='' @ show_u siz) \<circ>
          put_args [ucast handle, siz]) r
      | DRM_IOCTL_MODE_MAP_DUMB \<Rightarrow> decode_with (rd_map_dumb mem) address (\<lambda>(handle, offset).
          with_detail (''handle='' @ show_u handle @ '' offset='' @ show_u offset)) r
      | DRM_IOCTL_MODE_DESTROY_DUMB \<Rightarrow> decode_with (rd_destroy_dumb mem) address (\<lambda>handle.
          with_detail (''handle='' @ show_u handle)) r
      | DRM_IOCTL_MODE_ADDFB \<Rightarrow> decode_with (rd_fb_cmd mem) address
          (\<lambda>(fb_id, width, height, pitch, bpp, depth, handle).
          with_detail (''fb='' @ show_u fb_id @ '' w='' @ show_u width @ '' h='' @ show_u height @
            '' pitch='' @ show_u pitch @ '' bpp='' @ show_u bpp @ '' depth='' @ show_u depth @
            '' handle='' @ show_u handle) \<circ>
          put_args [ucast fb_id, ucast handle]) r
      | DRM_IOCTL_MODE_ADDFB2 \<Rightarrow> decode_with (rd_fb_cmd2 mem) address
          (\<lambda>(fb_id, width, height, pixel_format, flags, handle0, pitch0).
          with_detail (''fb='' @ show_u fb_id @ '' w='' @ show_u width @ '' h='' @ show_u height @
            '' fmt=0x'' @ show_x pixel_format @ '' flags=0x'' @ show_x flags @
            '' h0='' @ show_u handle0 @ '' p0='' @ show_u pitch0) \<circ>
          put_args [ucast fb_id, ucast handle0]) r
      | DRM_IOCTL_MODE_RMFB \<Rightarrow> decode_with (rd_u32 mem) address (\<lambda>fb_id.
          with_detail (''fb='' @ show_u fb_id) \<circ> put_args [ucast fb_id]) r
      | _ \<Rightarrow> None)"

text \<open>Cursors, page flips, atomic commits and property blobs.\<close>

definition decode_commits :: "memory \<Rightarrow> drm_request \<Rightarrow> u64 \<Rightarrow> hdmi_los_trace_record \<Rightarrow>
    hdmi_los_trace_record option" where
  "decode_commits mem request address r =
     (let cursor = (\<lambda>(crtc_id, flags, handle, width, height, x, y).
            with_detail (''crtc='' @ show_u crtc_id @ '' flags=0x'' @ show_x flags @
              '' handle='' @ show_u handle @ '' wh='' @ show_u width @ ''x'' @ show_u height @
              '' xy='' @ show_d x @ '','' @ show_d y) \<circ>
            put_args [ucast crtc_id, ucast handle])
      in case request of
        DRM_IOCTL_MODE_CURSOR \<Rightarrow> decode_with (rd_cursor mem) address cursor r
      | DRM_IOCTL_MODE_CURSOR2 \<Rightarrow> decode_with (rd_cursor2 mem) address cursor r
      | DRM_IOCTL_MODE_PAGE_FLIP \<Rightarrow> decode_with (rd_page_flip mem) address
          (\<lambda>(crtc_id, fb_id, flags).
          with_detail (''crtc='' @ show_u crtc_id @ '' fb='' @ show_u fb_id @
            '' flags=0x'' @ show_x flags) \<circ>
          put_args [ucast crtc_id, ucast fb_id, ucast flags]) r
      | DRM_IOCTL_MODE_ATOMIC \<Rightarrow> decode_with (rd_atomic mem) address (\<lambda>v.
          with_detail (''flags=0x'' @ show_x (at_flags v) @ '' objs='' @ show_u (at_count_objs v) @
            '' userdata='' @ show_u (at_user_data v)) \<circ>
          put_args [ucast (at_flags v), ucast (at_count_objs v)]) r
      | DRM_IOCTL_MODE_CREATEPROPBLOB \<Rightarrow> decode_with (rd_create_blob mem) address
          (\<lambda>(blob_id, len).
          with_detail (''blob='' @ show_u blob_id @ '' length='' @ show_u len) \<circ>
          put_args [ucast blob_id, ucast len]) r
      | DRM_IOCTL_MODE_DESTROYPROPBLOB \<Rightarrow> decode_with (rd_u32 mem) address (\<lambda>blob_id.
          with_detail (''blob='' @ show_u blob_id) \<circ> put_args [ucast blob_id]) r
      | _ \<Rightarrow> None)"

fun first_decoded :: "'a option list \<Rightarrow> 'a \<Rightarrow> 'a" where
  "first_decoded [] d = d"
| "first_decoded (Some x # xs) d = x"
| "first_decoded (None # xs) d = first_decoded xs d"

definition decode_record :: "memory \<Rightarrow> drm_request \<Rightarrow> u64 \<Rightarrow> hdmi_los_trace_record \<Rightarrow>
    hdmi_los_trace_record" where
  "decode_record mem request address r =
     (if address = 0 then with_detail ''arg=null'' r
      else first_decoded
        [decode_sync mem request address r, decode_objects mem request address r,
         decode_properties mem request address r, decode_buffers mem request address r,
         decode_commits mem request address r]
        (with_detail (''request=0x'' @ show_x (t_request r) @ '' arg=0x'' @ show_x address) r))"

end
