(* ===== verification/Property_Cache.thy ===== *)
theory Property_Cache
  imports Prelude
begin

section \<open>The connector-property cache\<close>

text \<open>
  \<open>src/native/drm-trace/property_cache.h\<close>: a bounded table of the last property
  values the tracer saw, keyed by connector and property. The table is the C array
  (512 slots) with its fill count. The interface a client relies on is the locale
  \<open>bounded_property_map\<close>: the table is a partial map, a store that reports
  success updates one key, and a refused store changes nothing.
\<close>

subsection \<open>Data and operations\<close>

abbreviation HDMI_LOS_MAX_CACHED_CONNECTOR_PROPERTIES :: nat where
  "HDMI_LOS_MAX_CACHED_CONNECTOR_PROPERTIES \<equiv> 512"

record hdmi_los_property_cache_entry =
  e_connector_id :: u32
  e_property_id :: u32
  e_value :: u64

record hdmi_los_property_cache =
  c_entries :: "hdmi_los_property_cache_entry list"
  c_count :: nat

definition empty_cache :: hdmi_los_property_cache where
  "empty_cache =
     \<lparr>c_entries = replicate HDMI_LOS_MAX_CACHED_CONNECTOR_PROPERTIES
        \<lparr>e_connector_id = 0, e_property_id = 0, e_value = 0\<rparr>,
      c_count = 0\<rparr>"

definition entry_matches :: "hdmi_los_property_cache \<Rightarrow> u32 \<Rightarrow> u32 \<Rightarrow> nat \<Rightarrow> bool" where
  "entry_matches cache connector_id property_id i \<longleftrightarrow>
     e_connector_id (c_entries cache ! i) = connector_id \<and>
     e_property_id (c_entries cache ! i) = property_id"

text \<open>Both loops scan the filled slots in order and stop at the first match.\<close>

definition hdmi_los_property_cache_store ::
    "hdmi_los_property_cache \<Rightarrow> u32 \<Rightarrow> u32 \<Rightarrow> u64 \<Rightarrow> bool \<times> hdmi_los_property_cache" where
  "hdmi_los_property_cache_store cache connector_id property_id value =
     (case find (entry_matches cache connector_id property_id) [0..<c_count cache] of
        Some i \<Rightarrow>
          (True, cache\<lparr>c_entries :=
             (c_entries cache)[i := (c_entries cache ! i)\<lparr>e_value := value\<rparr>]\<rparr>)
      | None \<Rightarrow>
          if HDMI_LOS_MAX_CACHED_CONNECTOR_PROPERTIES \<le> c_count cache then (False, cache)
          else (True, cache\<lparr>c_entries :=
                  (c_entries cache)[c_count cache :=
                     \<lparr>e_connector_id = connector_id, e_property_id = property_id,
                      e_value = value\<rparr>],
                c_count := c_count cache + 1\<rparr>))"

definition hdmi_los_property_cache_is_noop ::
    "hdmi_los_property_cache \<Rightarrow> u32 \<Rightarrow> u32 \<Rightarrow> u64 \<Rightarrow> bool" where
  "hdmi_los_property_cache_is_noop cache connector_id property_id value =
     (case find (entry_matches cache connector_id property_id) [0..<c_count cache] of
        Some i \<Rightarrow> e_value (c_entries cache ! i) = value
      | None \<Rightarrow> False)"

definition hdmi_los_xorg_property_type_is_unsupported :: "u32 \<Rightarrow> u32 \<Rightarrow> bool" where
  "hdmi_los_xorg_property_type_is_unsupported flags bitmask_flag \<longleftrightarrow> and flags bitmask_flag \<noteq> 0"

subsection \<open>Abstraction and invariant\<close>

definition entry_key :: "hdmi_los_property_cache_entry \<Rightarrow> u32 \<times> u32" where
  "entry_key e = (e_connector_id e, e_property_id e)"

definition filled :: "hdmi_los_property_cache \<Rightarrow> hdmi_los_property_cache_entry list" where
  "filled cache = take (c_count cache) (c_entries cache)"

definition cache_map :: "hdmi_los_property_cache \<Rightarrow> u32 \<times> u32 \<rightharpoonup> u64" where
  "cache_map cache = map_of (map (\<lambda>e. (entry_key e, e_value e)) (filled cache))"

definition cache_invar :: "hdmi_los_property_cache \<Rightarrow> bool" where
  "cache_invar cache \<longleftrightarrow>
     length (c_entries cache) = HDMI_LOS_MAX_CACHED_CONNECTOR_PROPERTIES \<and>
     c_count cache \<le> HDMI_LOS_MAX_CACHED_CONNECTOR_PROPERTIES \<and>
     distinct (map entry_key (filled cache))"

lemma length_filled: "cache_invar cache \<Longrightarrow> length (filled cache) = c_count cache"
  by (simp add: cache_invar_def filled_def)

lemma entry_matches_filled:
  "i < c_count cache \<Longrightarrow>
     entry_matches cache c p i \<longleftrightarrow> entry_key (filled cache ! i) = (c, p)"
  by (simp add: entry_matches_def filled_def entry_key_def)

lemma find_upt_Some:
  assumes "find P [0..<n] = Some i"
  shows "i < n" and "P i"
  using assms by (auto simp: find_Some_iff)

lemma find_upt_None: "find P [0..<n] = None \<longleftrightarrow> (\<forall>i<n. \<not> P i)"
  by (auto simp: find_None_iff)

text \<open>The scan is the map lookup.\<close>

lemma map_of_nth_unique:
  assumes "distinct (map fst ps)" and "i < length ps"
  shows "map_of ps (fst (ps ! i)) = Some (snd (ps ! i))"
  using assms by (metis map_of_eq_Some_iff nth_mem prod.collapse)

lemma find_lookup:
  assumes inv: "cache_invar cache"
  shows "(case find (entry_matches cache c p) [0..<c_count cache] of
            None \<Rightarrow> cache_map cache (c, p) = None
          | Some i \<Rightarrow> i < c_count cache \<and> entry_key (filled cache ! i) = (c, p) \<and>
                      cache_map cache (c, p) = Some (e_value (filled cache ! i)))"
proof (cases "find (entry_matches cache c p) [0..<c_count cache]")
  case None
  then have "(c, p) \<notin> entry_key ` set (filled cache)"
    using inv by (auto simp: find_upt_None entry_matches_filled in_set_conv_nth length_filled)
  then have "cache_map cache (c, p) = None"
    by (auto simp: cache_map_def map_of_eq_None_iff image_iff)
  with None show ?thesis by simp
next
  case (Some i)
  then have i: "i < c_count cache" "entry_key (filled cache ! i) = (c, p)"
    using find_upt_Some [OF Some] by (simp_all add: entry_matches_filled)
  let ?ps = "map (\<lambda>e. (entry_key e, e_value e)) (filled cache)"
  have "distinct (map fst ?ps)" using inv by (simp add: cache_invar_def comp_def)
  moreover have "i < length ?ps" using i inv by (simp add: length_filled)
  ultimately have "map_of ?ps (fst (?ps ! i)) = Some (snd (?ps ! i))"
    by (rule map_of_nth_unique)
  with i inv Some show ?thesis by (simp add: cache_map_def length_filled)
qed

subsection \<open>The store in terms of the filled prefix\<close>

lemma filled_update:
  assumes "cache_invar cache" and "i < c_count cache"
  shows "filled (cache\<lparr>c_entries := (c_entries cache)[i := e]\<rparr>) = (filled cache)[i := e]"
  using assms by (simp add: filled_def take_update_swap)

lemma filled_append:
  assumes "cache_invar cache" and "c_count cache < HDMI_LOS_MAX_CACHED_CONNECTOR_PROPERTIES"
  shows "filled (cache\<lparr>c_entries := (c_entries cache)[c_count cache := e],
                       c_count := c_count cache + 1\<rparr>) = filled cache @ [e]"
  using assms by (simp add: filled_def cache_invar_def take_Suc_conv_app_nth)

lemma map_of_update_value:
  assumes "distinct (map entry_key es)" and "i < length es"
  shows "map_of (map (\<lambda>e. (entry_key e, e_value e)) (es[i := (es ! i)\<lparr>e_value := v\<rparr>])) =
         (map_of (map (\<lambda>e. (entry_key e, e_value e)) es))(entry_key (es ! i) \<mapsto> v)"
  using assms
proof (induction es arbitrary: i)
  case Nil
  then show ?case by simp
next
  case (Cons e es)
  show ?case
  proof (cases i)
    case 0
    then show ?thesis by (auto simp: entry_key_def fun_eq_iff)
  next
    case (Suc j)
    with Cons.prems have "entry_key e \<noteq> entry_key (es ! j)" by auto
    have "map_of (map (\<lambda>e. (entry_key e, e_value e)) (es[j := (es ! j)\<lparr>e_value := v\<rparr>])) =
        (map_of (map (\<lambda>e. (entry_key e, e_value e)) es))(entry_key (es ! j) \<mapsto> v)"
      by (rule Cons.IH) (use Suc Cons.prems in auto)
    with Suc \<open>entry_key e \<noteq> entry_key (es ! j)\<close> show ?thesis by (auto intro!: ext)
  qed
qed

lemma map_of_snoc_new:
  "k \<notin> fst ` set ps \<Longrightarrow> map_of (ps @ [(k, v)]) = (map_of ps)(k \<mapsto> v)"
  by (induction ps) auto

lemma keys_update_value:
  "i < length es \<Longrightarrow> map entry_key (es[i := (es ! i)\<lparr>e_value := v\<rparr>]) = map entry_key es"
  by (simp add: map_update entry_key_def list_update_same_conv)

lemma dom_cache_map: "dom (cache_map cache) = entry_key ` set (filled cache)"
  by (simp add: cache_map_def dom_map_of_conv_image_fst image_image)

lemma card_dom_cache_map: "cache_invar cache \<Longrightarrow> card (dom (cache_map cache)) = c_count cache"
proof -
  assume inv: "cache_invar cache"
  then have "card (set (map entry_key (filled cache))) = length (map entry_key (filled cache))"
    by (intro distinct_card) (simp add: cache_invar_def)
  with inv show ?thesis by (simp add: dom_cache_map length_filled)
qed

lemma store_spec:
  assumes inv: "cache_invar cache" and st: "hdmi_los_property_cache_store cache c p v = (ok, cache')"
  shows "cache_invar cache'"
    and "ok \<Longrightarrow> cache_map cache' = (cache_map cache)((c, p) \<mapsto> v)"
    and "\<not> ok \<Longrightarrow> cache' = cache \<and> (c, p) \<notin> dom (cache_map cache) \<and>
                   c_count cache = HDMI_LOS_MAX_CACHED_CONNECTOR_PROPERTIES"
    and "ok \<longleftrightarrow> (c, p) \<in> dom (cache_map cache) \<or>
                c_count cache < HDMI_LOS_MAX_CACHED_CONNECTOR_PROPERTIES"
proof -
  let ?f = "find (entry_matches cache c p) [0..<c_count cache]"
  have "cache_invar cache' \<and> (ok \<longrightarrow> cache_map cache' = (cache_map cache)((c, p) \<mapsto> v)) \<and>
     (\<not> ok \<longrightarrow> cache' = cache \<and> (c, p) \<notin> dom (cache_map cache) \<and>
              c_count cache = HDMI_LOS_MAX_CACHED_CONNECTOR_PROPERTIES) \<and>
     (ok \<longleftrightarrow> (c, p) \<in> dom (cache_map cache) \<or>
              c_count cache < HDMI_LOS_MAX_CACHED_CONNECTOR_PROPERTIES)"
  proof (cases ?f)
    case None
    then have absent: "cache_map cache (c, p) = None"
      using find_lookup [OF inv, of c p] by simp
    show ?thesis
    proof (cases "HDMI_LOS_MAX_CACHED_CONNECTOR_PROPERTIES \<le> c_count cache")
      case True
      with None st inv absent show ?thesis
        by (auto simp: hdmi_los_property_cache_store_def cache_invar_def)
    next
      case False
      define e where "e = \<lparr>e_connector_id = c, e_property_id = p, e_value = v\<rparr>"
      have ok: "ok" and c': "cache' = cache\<lparr>c_entries := (c_entries cache)[c_count cache := e],
            c_count := c_count cache + 1\<rparr>"
        using None False st by (auto simp: hdmi_los_property_cache_store_def e_def)
      have f': "filled cache' = filled cache @ [e]"
        unfolding c' using False by (intro filled_append [OF inv]) simp
      have new: "(c, p) \<notin> entry_key ` set (filled cache)"
        using absent by (metis dom_cache_map domIff)
      then have "distinct (map entry_key (filled cache'))"
        using inv by (simp add: f' cache_invar_def e_def entry_key_def)
      then have "cache_invar cache'"
        using inv False by (simp add: cache_invar_def c')
      moreover have "cache_map cache' = (cache_map cache)((c, p) \<mapsto> v)"
        using new by (simp add: cache_map_def f' e_def entry_key_def map_of_snoc_new image_image
            del: map_of_append)
      ultimately show ?thesis using ok False by simp
    qed
  next
    case (Some i)
    then have i: "i < c_count cache" "entry_key (filled cache ! i) = (c, p)"
      and present: "cache_map cache (c, p) = Some (e_value (filled cache ! i))"
      using find_lookup [OF inv, of c p] by simp_all
    have nth: "c_entries cache ! i = filled cache ! i" using i by (simp add: filled_def)
    have ok: "ok" and c': "cache' = cache\<lparr>c_entries :=
          (c_entries cache)[i := (filled cache ! i)\<lparr>e_value := v\<rparr>]\<rparr>"
      using Some st nth by (auto simp: hdmi_los_property_cache_store_def)
    have f': "filled cache' = (filled cache)[i := (filled cache ! i)\<lparr>e_value := v\<rparr>]"
      unfolding c' by (rule filled_update [OF inv i(1)])
    have "cache_invar cache'"
      using inv i f' by (simp add: cache_invar_def c' keys_update_value length_filled)
    moreover have "cache_map cache' = (cache_map cache)((c, p) \<mapsto> v)"
      using inv i by (simp add: cache_map_def f' map_of_update_value length_filled cache_invar_def)
    ultimately show ?thesis using ok present by auto
  qed
  then show "cache_invar cache'"
    and "ok \<Longrightarrow> cache_map cache' = (cache_map cache)((c, p) \<mapsto> v)"
    and "\<not> ok \<Longrightarrow> cache' = cache \<and> (c, p) \<notin> dom (cache_map cache) \<and>
                   c_count cache = HDMI_LOS_MAX_CACHED_CONNECTOR_PROPERTIES"
    and "ok \<longleftrightarrow> (c, p) \<in> dom (cache_map cache) \<or>
                c_count cache < HDMI_LOS_MAX_CACHED_CONNECTOR_PROPERTIES"
    by blast+
qed

lemma is_noop_spec:
  assumes "cache_invar cache"
  shows "hdmi_los_property_cache_is_noop cache c p v \<longleftrightarrow> cache_map cache (c, p) = Some v"
  using find_lookup [OF assms, of c p]
  by (auto simp: hdmi_los_property_cache_is_noop_def filled_def split: option.splits)

lemma empty_cache_spec: "cache_invar empty_cache" "cache_map empty_cache = Map.empty"
  by (simp_all add: cache_invar_def cache_map_def filled_def empty_cache_def)

subsection \<open>The interface a client relies on\<close>

text \<open>
  The tracer's use of the cache goes through these laws only. \<open>store_all\<close> is the
  loop that stores the properties of one object in order and ignores refusals.
\<close>

fun store_all :: "('c \<Rightarrow> 'k \<Rightarrow> 'v \<Rightarrow> bool \<times> 'c) \<Rightarrow> 'c \<Rightarrow> ('k \<times> 'v) list \<Rightarrow> 'c" where
  "store_all st c [] = c"
| "store_all st c ((k, v) # kvs) = store_all st (snd (st c k v)) kvs"

locale bounded_property_map =
  fixes lookup :: "'c \<Rightarrow> 'k \<rightharpoonup> 'v"
    and store :: "'c \<Rightarrow> 'k \<Rightarrow> 'v \<Rightarrow> bool \<times> 'c"
    and is_noop :: "'c \<Rightarrow> 'k \<Rightarrow> 'v \<Rightarrow> bool"
    and invar :: "'c \<Rightarrow> bool"
    and capacity :: nat
  assumes invar_store: "invar c \<Longrightarrow> invar (snd (store c k v))"
    and lookup_store: "invar c \<Longrightarrow> fst (store c k v) \<Longrightarrow> lookup (snd (store c k v)) = (lookup c)(k \<mapsto> v)"
    and store_refused: "invar c \<Longrightarrow> \<not> fst (store c k v) \<Longrightarrow> snd (store c k v) = c"
    and store_ok: "invar c \<Longrightarrow> fst (store c k v) \<longleftrightarrow> k \<in> dom (lookup c) \<or> card (dom (lookup c)) < capacity"
    and finite_dom: "finite (dom (lookup c))"
    and is_noop_lookup: "invar c \<Longrightarrow> is_noop c k v \<longleftrightarrow> lookup c k = Some v"
begin

lemma lookup_store_other: "invar c \<Longrightarrow> k' \<noteq> k \<Longrightarrow> lookup (snd (store c k v)) k' = lookup c k'"
  by (metis fun_upd_apply lookup_store store_refused)

lemma noop_after_store: "invar c \<Longrightarrow> fst (store c k v) \<Longrightarrow> is_noop (snd (store c k v)) k w \<longleftrightarrow> w = v"
  by (auto simp: is_noop_lookup invar_store lookup_store)

lemma invar_store_all: "invar c \<Longrightarrow> invar (store_all store c kvs)"
  by (induction kvs arbitrary: c) (auto simp: invar_store)

text \<open>A value is only ever reported as current if it was stored, or was there before.\<close>

lemma lookup_store_all_origin:
  "invar c \<Longrightarrow> lookup (store_all store c kvs) k = Some v \<Longrightarrow>
     lookup c k = Some v \<or> (k, v) \<in> set kvs"
proof (induction kvs arbitrary: c)
  case Nil
  then show ?case by simp
next
  case (Cons kv kvs)
  obtain k0 v0 where kv: "kv = (k0, v0)" by force
  from Cons.prems have inv: "invar (snd (store c k0 v0))" by (simp add: invar_store)
  with Cons kv consider "lookup (snd (store c k0 v0)) k = Some v" | "(k, v) \<in> set kvs"
    by fastforce
  then show ?case
  proof cases
    case 1
    then show ?thesis
      using Cons.prems(1) kv by (metis fun_upd_apply list.set_intros(1) lookup_store option.inject
          store_refused)
  qed simp
qed

text \<open>While the distinct keys fit, storing a list is the map update by the list, last write first.\<close>

lemma lookup_store_all_fits:
  "invar c \<Longrightarrow> card (dom (lookup c) \<union> fst ` set kvs) \<le> capacity \<Longrightarrow>
     lookup (store_all store c kvs) = lookup c ++ map_of (rev kvs)"
proof (induction kvs arbitrary: c)
  case Nil
  then show ?case by simp
next
  case (Cons kv kvs)
  obtain k v where kv: "kv = (k, v)" by force
  have "k \<in> dom (lookup c) \<or> card (dom (lookup c)) < capacity"
  proof (rule ccontr)
    assume "\<not> ?thesis"
    then have "k \<notin> dom (lookup c)" "capacity \<le> card (dom (lookup c))" by auto
    then have "capacity < card (insert k (dom (lookup c)))" by (simp add: finite_dom)
    also have "\<dots> \<le> card (dom (lookup c) \<union> fst ` set (kv # kvs))"
      by (rule card_mono) (auto simp: kv finite_dom)
    finally show False using Cons.prems by simp
  qed
  with Cons.prems have ok: "fst (store c k v)" by (simp add: store_ok)
  let ?c = "snd (store c k v)"
  have l: "lookup ?c = (lookup c)(k \<mapsto> v)" using Cons.prems ok by (simp add: lookup_store)
  then have "dom (lookup ?c) \<union> fst ` set kvs = dom (lookup c) \<union> fst ` set (kv # kvs)"
    by (auto simp: kv)
  with Cons have "lookup (store_all store ?c kvs) = lookup ?c ++ map_of (rev kvs)"
    by (simp add: invar_store)
  with l show ?case
    by (auto simp: kv fun_eq_iff map_add_def split: option.splits)
qed

end

definition cache_store :: "hdmi_los_property_cache \<Rightarrow> u32 \<times> u32 \<Rightarrow> u64 \<Rightarrow>
    bool \<times> hdmi_los_property_cache" where
  "cache_store cache k v = hdmi_los_property_cache_store cache (fst k) (snd k) v"

definition cache_is_noop :: "hdmi_los_property_cache \<Rightarrow> u32 \<times> u32 \<Rightarrow> u64 \<Rightarrow> bool" where
  "cache_is_noop cache k v = hdmi_los_property_cache_is_noop cache (fst k) (snd k) v"

interpretation pcache: bounded_property_map cache_map cache_store cache_is_noop cache_invar
    HDMI_LOS_MAX_CACHED_CONNECTOR_PROPERTIES
proof unfold_locales
  fix c :: hdmi_los_property_cache and k :: "u32 \<times> u32" and v :: u64
  assume inv: "cache_invar c"
  obtain ok c' where st: "hdmi_los_property_cache_store c (fst k) (snd k) v = (ok, c')" by force
  note spec = store_spec [OF inv st]
  show "cache_invar (snd (cache_store c k v))" using spec(1) st by (simp add: cache_store_def)
  show "fst (cache_store c k v) \<Longrightarrow> cache_map (snd (cache_store c k v)) = (cache_map c)(k \<mapsto> v)"
    using spec(2) st by (simp add: cache_store_def)
  show "\<not> fst (cache_store c k v) \<Longrightarrow> snd (cache_store c k v) = c"
    using spec(3) st by (simp add: cache_store_def)
  show "fst (cache_store c k v) \<longleftrightarrow> k \<in> dom (cache_map c) \<or>
      card (dom (cache_map c)) < HDMI_LOS_MAX_CACHED_CONNECTOR_PROPERTIES"
    using spec(4) st inv by (simp add: cache_store_def card_dom_cache_map)
  show "cache_is_noop c k v \<longleftrightarrow> cache_map c k = Some v"
    using inv by (simp add: cache_is_noop_def is_noop_spec)
qed (simp add: dom_cache_map)

end
