(* ===== verification/Process_Monad.thy ===== *)
theory Process_Monad
  imports Main
begin

section \<open>Programs that may exit or block\<close>

text \<open>
  A step of an interposed process ends in one of three ways: it returns a value, it
  terminates the process (\<open>_exit\<close>), or a system call it made never returns. Each
  carries the state at that point, so what was done before an exit can be stated.
\<close>

datatype ('a, 's) outcome = Done 'a 's | Exited int 's | Blocked 's

type_synonym ('s, 'a) prog = "'s \<Rightarrow> ('a, 's) outcome"

definition ret :: "'a \<Rightarrow> ('s, 'a) prog" where
  "ret x s = Done x s"

definition bnd :: "('s, 'a) prog \<Rightarrow> ('a \<Rightarrow> ('s, 'b) prog) \<Rightarrow> ('s, 'b) prog" where
  "bnd m f s =
     (case m s of
        Done x s' \<Rightarrow> f x s'
      | Exited c s' \<Rightarrow> Exited c s'
      | Blocked s' \<Rightarrow> Blocked s')"

definition andthen :: "('s, 'a) prog \<Rightarrow> ('s, 'b) prog \<Rightarrow> ('s, 'b) prog" where
  "andthen m n = bnd m (\<lambda>_. n)"

definition exit_process :: "int \<Rightarrow> ('s, 'a) prog" where
  "exit_process c s = Exited c s"

definition gets :: "('s \<Rightarrow> 'a) \<Rightarrow> ('s, 'a) prog" where
  "gets f s = Done (f s) s"

definition modify :: "('s \<Rightarrow> 's) \<Rightarrow> ('s, unit) prog" where
  "modify f s = Done () (f s)"

fun for_each :: "'x list \<Rightarrow> ('x \<Rightarrow> ('s, unit) prog) \<Rightarrow> ('s, unit) prog" where
  "for_each [] f = ret ()"
| "for_each (x # xs) f = andthen (f x) (for_each xs f)"

fun final_state :: "('a, 's) outcome \<Rightarrow> 's" where
  "final_state (Done x s) = s"
| "final_state (Exited c s) = s"
| "final_state (Blocked s) = s"

lemmas prog_defs = ret_def bnd_def andthen_def exit_process_def gets_def modify_def

text \<open>Running the first step of a composition, where that step always returns.\<close>

lemma bnd_ret: "bnd (ret x) f s = f x s"
  by (simp add: prog_defs)

lemma bnd_gets: "bnd (gets g) f s = f (g s) s"
  by (simp add: prog_defs)

lemma bnd_modify: "bnd (modify h) f s = f () (h s)"
  by (simp add: prog_defs)

lemma andthen_ret: "andthen (ret x) n s = n s"
  by (simp add: prog_defs)

lemma andthen_modify: "andthen (modify h) n s = n (h s)"
  by (simp add: prog_defs)

lemmas prog_eval = bnd_ret bnd_gets bnd_modify andthen_ret andthen_modify

lemma bnd_Done:
  "bnd m f s = Done y s'' \<longleftrightarrow> (\<exists>x s'. m s = Done x s' \<and> f x s' = Done y s'')"
  by (auto simp: bnd_def split: outcome.splits)

lemma andthen_Done:
  "andthen m n s = Done y s'' \<longleftrightarrow> (\<exists>x s'. m s = Done x s' \<and> n s' = Done y s'')"
  by (simp add: andthen_def bnd_Done)

subsection \<open>Properties of every way a program ends\<close>

text \<open>
  \<open>ends m P\<close>: from any state, the final state of \<open>m\<close> (returned, exited or blocked)
  relates to the start by \<open>P\<close>. For a transitive \<open>P\<close> this composes along
  \<open>bnd\<close>, which is how the relations kept by all tracer operations are proved.
\<close>

definition ends :: "('s \<Rightarrow> 's \<Rightarrow> bool) \<Rightarrow> ('s, 'a) prog \<Rightarrow> bool" where
  "ends P m \<longleftrightarrow> (\<forall>s. P s (final_state (m s)))"

named_theorems ends_intros

lemma endsD: "ends P m \<Longrightarrow> P s (final_state (m s))"
  by (simp add: ends_def)

lemma ends_ret [ends_intros]: "reflp P \<Longrightarrow> ends P (ret x)"
  by (simp add: ends_def ret_def reflp_def)

lemma ends_exit [ends_intros]: "reflp P \<Longrightarrow> ends P (exit_process c)"
  by (simp add: ends_def exit_process_def reflp_def)

lemma ends_gets [ends_intros]: "reflp P \<Longrightarrow> ends P (gets f)"
  by (simp add: ends_def gets_def reflp_def)

lemma ends_bnd [ends_intros]:
  assumes "transp P" and "ends P m" and "\<And>x. ends P (f x)"
  shows "ends P (bnd m f)"
  unfolding ends_def
proof
  fix s
  show "P s (final_state (bnd m f s))"
  proof (cases "m s")
    case (Done x s')
    with assms(2) have "P s s'" by (auto simp: ends_def dest: spec [of _ s])
    moreover from assms(3) have "P s' (final_state (f x s'))" by (simp add: ends_def)
    ultimately show ?thesis using assms(1) Done by (auto simp: bnd_def transp_def)
  qed (use assms(2) in \<open>auto simp: bnd_def ends_def dest: spec [of _ s]\<close>)
qed

lemma ends_andthen [ends_intros]:
  "transp P \<Longrightarrow> ends P m \<Longrightarrow> ends P n \<Longrightarrow> ends P (andthen m n)"
  by (simp add: andthen_def ends_bnd)

lemma ends_if [ends_intros]:
  "(b \<Longrightarrow> ends P m) \<Longrightarrow> (\<not> b \<Longrightarrow> ends P n) \<Longrightarrow> ends P (if b then m else n)"
  by simp

lemma ends_for_each [ends_intros]:
  "reflp P \<Longrightarrow> transp P \<Longrightarrow> (\<And>x. x \<in> set xs \<Longrightarrow> ends P (f x)) \<Longrightarrow> ends P (for_each xs f)"
  by (induction xs) (simp_all add: ends_ret ends_andthen)

lemma ends_option [ends_intros]:
  "ends P m \<Longrightarrow> (\<And>x. ends P (f x)) \<Longrightarrow> ends P (case v of None \<Rightarrow> m | Some x \<Rightarrow> f x)"
  by (cases v) simp_all

lemma ends_prod [ends_intros]:
  "(\<And>x y. ends P (f x y)) \<Longrightarrow> ends P (case v of (x, y) \<Rightarrow> f x y)"
  by (cases v) simp

lemma ends_sum [ends_intros]:
  "(\<And>x. ends P (f x)) \<Longrightarrow> (\<And>y. ends P (g y)) \<Longrightarrow> ends P (case v of Inl x \<Rightarrow> f x | Inr y \<Rightarrow> g y)"
  by (cases v) simp_all

lemma ends_let [ends_intros]: "ends P (f x) \<Longrightarrow> ends P (let y = x in f y)"
  by simp

lemma ends_modify [ends_intros]: "(\<And>s. P s (f s)) \<Longrightarrow> ends P (modify f)"
  by (simp add: ends_def modify_def)

end
