(* ===== verification/Drm_Trace.thy ===== *)
theory Drm_Trace
  imports Drm_Records Property_Cache Process_Monad
begin

section \<open>The DRM tracer\<close>

text \<open>
  \<open>src/native/drm-trace/drmtrace.c\<close>: the library preloaded into Xorg that interposes
  \<open>ioctl\<close> and \<open>drmModeGetProperty\<close>. Its globals are the record \<open>tracer\<close>, one
  operation of the source is one definition, and \<open>_exit(125)\<close> is the outcome
  \<open>Exited 125\<close>.

  What the kernel and the trace relay answer is the record \<open>os\<close>, a parameter of every
  operation: the relay's answer to the record of the n-th exchange, the kernel's to the n-th call. The fields of
  \<open>tracer\<close> below \<open>x_mem\<close> are not globals of the source but what the model observes:
  the memory of the process, the number of exchanges and calls so far, and the log of
  everything sent and issued, in order.
\<close>

subsection \<open>State and environment\<close>

abbreviation kMaxAtomicObjects :: u32 where "kMaxAtomicObjects \<equiv> 32"
abbreviation kMaxAtomicProperties :: u32 where "kMaxAtomicProperties \<equiv> 128"
abbreviation kMaxCrtcConnectors :: u32 where "kMaxCrtcConnectors \<equiv> 16"
abbreviation kMaxObjectProperties :: u32 where "kMaxObjectProperties \<equiv> 128"

datatype trace_event =
    Recorded hdmi_los_trace_record bool
  | Ioctl int drm_request u64 int
  | GetCrtc int u32
  | PageFlip int u32 u32
  | FreedProperty u32

record tracer =
  g_trace_fd :: int
  g_sequence :: u32
  g_trace_steady :: bool
  g_connector_properties :: hdmi_los_property_cache
  g_suppress_connector_property_noops :: bool
  g_ignore_xorg_bitmask_properties :: bool
  g_ignore_xorg_pointer_properties :: bool
  g_same_mode_pageflip_fallback :: bool
  g_expected_connector :: u32
  g_expected_crtc :: u32
  g_in_trace :: bool
  g_real_drm_mode_get_property :: bool
  g_real_drm_mode_free_property :: bool
  g_errno :: int
  x_mem :: memory
  x_exchanges :: nat
  x_calls :: nat
  x_log :: "trace_event list"

text \<open>
  One exchange with the relay: the outcomes of the \<open>send\<close> loop (bytes sent), of the
  \<open>poll\<close> loop (return value and events) and of the \<open>recv\<close> loop (the bytes received).
\<close>

record exchange =
  io_send :: "int call list"
  io_poll :: "(int \<times> u16) call list"
  io_recv :: "bytes call list"

record drm_property =
  dp_prop_id :: u32
  dp_flags :: u32
  dp_name :: string

record os =
  os_exchange :: "nat \<Rightarrow> hdmi_los_trace_record \<Rightarrow> exchange"
  os_ioctl :: "nat \<Rightarrow> int \<Rightarrow> drm_request \<Rightarrow> u64 \<Rightarrow> memory \<Rightarrow> int \<times> int \<times> memory"
  os_getcrtc :: "nat \<Rightarrow> int \<Rightarrow> u32 \<Rightarrow> int + drm_mode_crtc"
  os_page_flip :: "nat \<Rightarrow> int \<Rightarrow> u32 \<Rightarrow> u32 \<Rightarrow> int option"
  os_request_code :: "drm_request \<Rightarrow> u64"
  os_pid :: u32
  os_tid :: u32
  os_dlsym :: "nat \<Rightarrow> string \<Rightarrow> bool"
  os_get_property :: "nat \<Rightarrow> int \<Rightarrow> u32 \<Rightarrow> (drm_request \<times> u64) list \<times> drm_property option"
  os_getenv :: "string \<Rightarrow> string option"

type_synonym 'a tprog = "(tracer, 'a) prog"

definition log_event :: "trace_event \<Rightarrow> tracer \<Rightarrow> tracer" where
  "log_event e s = s\<lparr>x_log := x_log s @ [e]\<rparr>"

subsection \<open>Exchanging a record with the relay\<close>

definition wait_readable :: "(int \<times> u16) call list \<Rightarrow> bool option" where
  "wait_readable polls =
     (case retry_eintr polls of
        None \<Rightarrow> None
      | Some (CallErr e) \<Rightarrow> Some False
      | Some (CallOk (result, revents)) \<Rightarrow> Some (0 < result \<and> has_bits revents POLLIN))"

definition valid_ack :: "bytes \<Rightarrow> hdmi_los_trace_record \<Rightarrow> bool" where
  "valid_ack bs record \<longleftrightarrow>
     length bs = TRACE_RECORD_SIZE \<and>
     (let ack = record_of_bytes bs in
      t_magic ack = HDMI_LOS_TRACE_MAGIC \<and> t_version ack = HDMI_LOS_TRACE_VERSION \<and>
      t_phase ack = HDMI_LOS_TRACE_ACK \<and> t_sequence ack = t_sequence record)"

text \<open>
  The verdict of one exchange: \<open>None\<close> when a call of it never returns; otherwise whether
  a valid acknowledgement arrived, and whether it announces the steady state.
\<close>

definition exchange_verdict :: "exchange \<Rightarrow> hdmi_los_trace_record \<Rightarrow> (bool \<times> bool) option" where
  "exchange_verdict io record =
     (case retry_eintr (io_send io) of
        None \<Rightarrow> None
      | Some (CallErr e) \<Rightarrow> Some (False, False)
      | Some (CallOk sent) \<Rightarrow>
          if sent \<noteq> int TRACE_RECORD_SIZE then Some (False, False)
          else case wait_readable (io_poll io) of
                 None \<Rightarrow> None
               | Some False \<Rightarrow> Some (False, False)
               | Some True \<Rightarrow>
                   (case retry_eintr (io_recv io) of
                      None \<Rightarrow> None
                    | Some (CallErr e) \<Rightarrow> Some (False, False)
                    | Some (CallOk bs) \<Rightarrow>
                        let valid = valid_ack bs record in
                        Some (valid, valid \<and>
                          has_bits (t_flags (record_of_bytes bs)) HDMI_LOS_TRACE_ACK_STEADY)))"

definition exchange_record :: "os \<Rightarrow> hdmi_los_trace_record \<Rightarrow> bool tprog" where
  "exchange_record os record s =
     (let s1 = s\<lparr>x_exchanges := x_exchanges s + 1\<rparr> in
      case exchange_verdict (os_exchange os (x_exchanges s) record) record of
        None \<Rightarrow> Blocked (log_event (Recorded record False) s1)
      | Some (valid, steady) \<Rightarrow>
          Done valid (log_event (Recorded record valid)
            (if steady then s1\<lparr>g_trace_steady := True\<rparr> else s1)))"

definition should_trace_request :: "drm_request \<Rightarrow> tracer \<Rightarrow> bool" where
  "should_trace_request request s \<longleftrightarrow>
     \<not> g_trace_steady s \<or> request = DRM_IOCTL_MODE_SETCRTC"

definition initialize_record :: "os \<Rightarrow> u16 \<Rightarrow> u32 \<Rightarrow> int \<Rightarrow> u64 \<Rightarrow> string \<Rightarrow>
    hdmi_los_trace_record" where
  "initialize_record os phase sequen fd request name =
     zero_record\<lparr>t_magic := HDMI_LOS_TRACE_MAGIC, t_version := HDMI_LOS_TRACE_VERSION,
       t_phase := phase, t_sequence := sequen, t_pid := os_pid os, t_tid := os_tid os,
       t_fd := word_of_int fd, t_request := request,
       t_name := c_snprintf (zero_buf 32) name\<rparr>"

text \<open>\<open>if (!exchange_record(&r)) _exit(125);\<close>\<close>

definition exchange_or_exit :: "os \<Rightarrow> hdmi_los_trace_record \<Rightarrow> unit tprog" where
  "exchange_or_exit os record =
     bnd (exchange_record os record) (\<lambda>ok. if ok then ret () else exit_process 125)"

definition emit_detail :: "os \<Rightarrow> u32 \<Rightarrow> int \<Rightarrow> drm_request \<Rightarrow> string \<Rightarrow>
    u64 \<Rightarrow> u64 \<Rightarrow> u64 \<Rightarrow> u64 \<Rightarrow> string \<Rightarrow> unit tprog" where
  "emit_detail os sequen fd request name a0 a1 a2 a3 detail =
     exchange_or_exit os
       (with_detail detail
         ((initialize_record os HDMI_LOS_TRACE_DETAIL sequen fd (os_request_code os request) name)
           \<lparr>t_argument := [a0, a1, a2, a3]\<rparr>))"

subsection \<open>Details of a legacy and of an atomic commit\<close>

definition emit_setcrtc_details :: "os \<Rightarrow> u32 \<Rightarrow> int \<Rightarrow> drm_request \<Rightarrow> u64 \<Rightarrow> unit tprog" where
  "emit_setcrtc_details os sequen fd request argument =
     bnd (gets x_mem) (\<lambda>mem.
       case safe_copy (rd_crtc mem) argument of
         None \<Rightarrow> ret ()
       | Some v \<Rightarrow>
           if cr_count_connectors v = 0 \<or> kMaxCrtcConnectors < cr_count_connectors v then ret ()
           else case safe_copy_array (rd_u32s mem) (cr_set_connectors_ptr v)
                       (unat (cr_count_connectors v)) of
                  None \<Rightarrow> ret ()
                | Some connectors \<Rightarrow>
                    for_each [0..<unat (cr_count_connectors v)] (\<lambda>i.
                      emit_detail os sequen fd request ''SETCRTC_CONNECTOR''
                        (ucast (cr_crtc_id v)) (word_of_nat i) (ucast (connectors ! i)) 0
                        (''index='' @ show_nat i @ '' connector='' @ show_u (connectors ! i))))"

text \<open>
  The loop that adds up the property counts stops at the first object whose properties
  do not fit the bound: \<open>Inl\<close> carries the sum so far, the count and the index it
  reports. The subtraction is the unsigned 32-bit one of the source.
\<close>

fun atomic_total :: "u32 \<Rightarrow> nat \<Rightarrow> u32 list \<Rightarrow> (u32 \<times> u32 \<times> nat) + u32" where
  "atomic_total tot i [] = Inr tot"
| "atomic_total tot i (c # counts) =
     (if kMaxAtomicProperties - tot < c then Inl (tot, c, i)
      else atomic_total (tot + c) (i + 1) counts)"

text \<open>The nested loop over objects and their properties, as the list of rows it emits.\<close>

fun atomic_rows :: "nat \<Rightarrow> (u32 \<times> u32) list \<Rightarrow> u32 list \<Rightarrow> u64 list \<Rightarrow>
    (u32 \<times> u32 \<times> u64 \<times> nat) list" where
  "atomic_rows property_index [] properties property_values = []"
| "atomic_rows property_index ((obj, c) # objs) properties property_values =
     map (\<lambda>local_index. (obj, properties ! (property_index + local_index),
            property_values ! (property_index + local_index), local_index)) [0..<unat c] @
     atomic_rows (property_index + unat c) objs properties property_values"

definition emit_atomic_details :: "os \<Rightarrow> u32 \<Rightarrow> int \<Rightarrow> drm_request \<Rightarrow> u64 \<Rightarrow> unit tprog" where
  "emit_atomic_details os sequen fd request argument =
     bnd (gets x_mem) (\<lambda>mem.
       case safe_copy (rd_atomic mem) argument of
         None \<Rightarrow> ret ()
       | Some v \<Rightarrow>
         if at_count_objs v = 0 then ret ()
         else if kMaxAtomicObjects < at_count_objs v then
           emit_detail os sequen fd request ''ATOMIC_TRUNCATED'' (ucast (at_count_objs v)) 0 0 0
             ''object count exceeds trace bound''
         else case safe_copy_array (rd_u32s mem) (at_objs_ptr v) (unat (at_count_objs v)) of
           None \<Rightarrow> ret ()
         | Some objects \<Rightarrow>
         (case safe_copy_array (rd_u32s mem) (at_count_props_ptr v) (unat (at_count_objs v)) of
           None \<Rightarrow> ret ()
         | Some counts \<Rightarrow>
         (case atomic_total 0 0 counts of
           Inl (tot, c, i) \<Rightarrow>
             emit_detail os sequen fd request ''ATOMIC_TRUNCATED'' (ucast (at_count_objs v))
               (ucast tot) (ucast c) (word_of_nat i) ''property count exceeds trace bound''
         | Inr tot \<Rightarrow>
           if tot = 0 then ret ()
           else case safe_copy_array (rd_u32s mem) (at_props_ptr v) (unat tot) of
             None \<Rightarrow> ret ()
           | Some properties \<Rightarrow>
           (case safe_copy_array (rd_u64s mem) (at_prop_values_ptr v) (unat tot) of
             None \<Rightarrow> ret ()
           | Some property_values \<Rightarrow>
             for_each (atomic_rows 0 (zip objects counts) properties property_values)
               (\<lambda>(obj, prop, val, local_index).
                 emit_detail os sequen fd request ''ATOMIC_PROPERTY'' (ucast obj) (ucast prop)
                   val (word_of_nat local_index)
                   (''obj='' @ show_u obj @ '' prop='' @ show_u prop @ '' value='' @ show_u val))))))"

subsection \<open>Connector properties\<close>

definition store_connector_property :: "u32 \<Rightarrow> u32 \<Rightarrow> u64 \<Rightarrow> unit tprog" where
  "store_connector_property obj prop val =
     modify (\<lambda>s. s\<lparr>g_connector_properties :=
       snd (hdmi_los_property_cache_store (g_connector_properties s) obj prop val)\<rparr>)"

definition emit_object_property_details :: "os \<Rightarrow> u32 \<Rightarrow> int \<Rightarrow> drm_request \<Rightarrow> u64 \<Rightarrow> unit tprog" where
  "emit_object_property_details os sequen fd request argument =
     bnd (gets x_mem) (\<lambda>mem.
       case safe_copy (rd_obj_get_properties mem) argument of
         None \<Rightarrow> ret ()
       | Some v \<Rightarrow>
         if og_count_props v = 0 then ret ()
         else if kMaxObjectProperties < og_count_props v then
           emit_detail os sequen fd request ''OBJECT_PROPERTIES_TRUNCATED'' (ucast (og_obj_id v))
             (ucast (og_obj_type v)) (ucast (og_count_props v)) 0
             ''property count exceeds trace bound''
         else case safe_copy_array (rd_u32s mem) (og_props_ptr v) (unat (og_count_props v)) of
           None \<Rightarrow> ret ()
         | Some properties \<Rightarrow>
         (case safe_copy_array (rd_u64s mem) (og_prop_values_ptr v) (unat (og_count_props v)) of
           None \<Rightarrow> ret ()
         | Some property_values \<Rightarrow>
           for_each [0..<unat (og_count_props v)] (\<lambda>i.
             andthen
               (if og_obj_type v = DRM_MODE_OBJECT_CONNECTOR
                then store_connector_property (og_obj_id v) (properties ! i) (property_values ! i)
                else ret ())
               (emit_detail os sequen fd request ''OBJECT_PROPERTY'' (ucast (og_obj_id v))
                 (ucast (properties ! i)) (property_values ! i) (word_of_nat i)
                 (''obj='' @ show_u (og_obj_id v) @ '' prop='' @ show_u (properties ! i) @
                  '' value='' @ show_u (property_values ! i) @ '' index='' @ show_nat i)))))"

definition should_suppress_connector_property_noop ::
    "u64 \<Rightarrow> tracer \<Rightarrow> (bool \<times> drm_mode_connector_set_property option)" where
  "should_suppress_connector_property_noop argument s =
     (if \<not> g_suppress_connector_property_noops s then (False, None)
      else case safe_copy (rd_set_property (x_mem s)) argument of
             None \<Rightarrow> (False, None)
           | Some v \<Rightarrow>
               (hdmi_los_property_cache_is_noop (g_connector_properties s)
                  (sp_connector_id v) (sp_prop_id v) (sp_value v), Some v))"

subsection \<open>System calls\<close>

definition syscall_ioctl :: "os \<Rightarrow> int \<Rightarrow> drm_request \<Rightarrow> u64 \<Rightarrow> int tprog" where
  "syscall_ioctl os fd request argument s =
     (let (result, e, mem) = os_ioctl os (x_calls s) fd request argument (x_mem s) in
      Done result (log_event (Ioctl fd request argument result)
        (s\<lparr>x_mem := mem, x_calls := x_calls s + 1,
           g_errno := (if result < 0 then e else g_errno s)\<rparr>)))"

text \<open>\<open>GETCRTC\<close> on a zeroed local structure: the error or the structure filled in.\<close>

definition syscall_getcrtc :: "os \<Rightarrow> int \<Rightarrow> u32 \<Rightarrow> (int + drm_mode_crtc) tprog" where
  "syscall_getcrtc os fd crtc_id s =
     (let answer = os_getcrtc os (x_calls s) fd crtc_id in
      Done answer (log_event (GetCrtc fd crtc_id)
        (s\<lparr>x_calls := x_calls s + 1,
           g_errno := (case answer of Inl e \<Rightarrow> e | Inr c \<Rightarrow> g_errno s)\<rparr>)))"

definition syscall_page_flip :: "os \<Rightarrow> int \<Rightarrow> u32 \<Rightarrow> u32 \<Rightarrow> int option tprog" where
  "syscall_page_flip os fd crtc_id fb_id s =
     (let answer = os_page_flip os (x_calls s) fd crtc_id fb_id in
      Done answer (log_event (PageFlip fd crtc_id fb_id)
        (s\<lparr>x_calls := x_calls s + 1,
           g_errno := (case answer of Some e \<Rightarrow> e | None \<Rightarrow> g_errno s)\<rparr>)))"

subsection \<open>The same-mode page-flip fallback\<close>

definition reject_fallback :: "os \<Rightarrow> u32 \<Rightarrow> int \<Rightarrow> u64 \<Rightarrow> u64 \<Rightarrow> u64 \<Rightarrow> u64 \<Rightarrow> string \<Rightarrow> int tprog" where
  "reject_fallback os sequen fd a0 a1 a2 a3 detail =
     andthen (emit_detail os sequen fd DRM_IOCTL_MODE_SETCRTC ''SETCRTC_FALLBACK_REJECT''
       a0 a1 a2 a3 detail) (ret 0)"

definition verified_scanout :: "drm_mode_crtc \<Rightarrow> int + drm_mode_crtc \<Rightarrow> bool" where
  "verified_scanout requested answer \<longleftrightarrow>
     (case answer of
        Inl e \<Rightarrow> False
      | Inr verified \<Rightarrow> cr_fb_id verified = cr_fb_id requested \<and> cr_mode_valid verified \<noteq> 0 \<and>
          same_mode_timing (cr_mode verified) (cr_mode requested))"

text \<open>The verification loop: at most the given number of \<open>GETCRTC\<close> attempts.\<close>

fun verify_flip :: "os \<Rightarrow> nat \<Rightarrow> int \<Rightarrow> drm_mode_crtc \<Rightarrow> bool tprog" where
  "verify_flip os 0 fd requested = ret False"
| "verify_flip os (Suc n) fd requested =
     bnd (syscall_getcrtc os fd (cr_crtc_id requested)) (\<lambda>answer.
       if verified_scanout requested answer then ret True else verify_flip os n fd requested)"

definition emit_mode_mismatch :: "os \<Rightarrow> u32 \<Rightarrow> int \<Rightarrow> drm_mode_modeinfo \<Rightarrow> drm_mode_modeinfo \<Rightarrow>
    unit tprog" where
  "emit_mode_mismatch os sequen fd cur req =
     andthen
       (emit_detail os sequen fd DRM_IOCTL_MODE_SETCRTC ''SETCRTC_FALLBACK_MODE_H''
         (ucast (mi_clock cur)) (ucast (mi_clock req)) (ucast (mi_htotal cur)) (ucast (mi_htotal req))
         (''clk='' @ show_u (mi_clock cur) @ ''/'' @ show_u (mi_clock req) @
          '' h='' @ show_u (mi_hdisplay cur) @ '','' @ show_u (mi_hsync_start cur) @ '','' @
          show_u (mi_hsync_end cur) @ '','' @ show_u (mi_htotal cur) @ ''/'' @
          show_u (mi_hdisplay req) @ '','' @ show_u (mi_hsync_start req) @ '','' @
          show_u (mi_hsync_end req) @ '','' @ show_u (mi_htotal req)))
       (emit_detail os sequen fd DRM_IOCTL_MODE_SETCRTC ''SETCRTC_FALLBACK_MODE_V''
         (ucast (mi_vtotal cur)) (ucast (mi_vtotal req)) (ucast (mi_flags cur)) (ucast (mi_flags req))
         (''v='' @ show_u (mi_vdisplay cur) @ '','' @ show_u (mi_vsync_start cur) @ '','' @
          show_u (mi_vsync_end cur) @ '','' @ show_u (mi_vtotal cur) @ ''/'' @
          show_u (mi_vdisplay req) @ '','' @ show_u (mi_vsync_start req) @ '','' @
          show_u (mi_vsync_end req) @ '','' @ show_u (mi_vtotal req) @
          '' flags='' @ show_x (mi_flags cur) @ ''/'' @ show_x (mi_flags req)))"

text \<open>The flip itself and the readbacks that verify it.\<close>

definition commit_flip :: "os \<Rightarrow> int \<Rightarrow> u32 \<Rightarrow> drm_mode_crtc \<Rightarrow> drm_mode_crtc \<Rightarrow> int tprog" where
  "commit_flip os fd sequen requested current =
     bnd (syscall_page_flip os fd (cr_crtc_id requested) (cr_fb_id requested)) (\<lambda>flip.
       case flip of
         Some e \<Rightarrow> reject_fallback os sequen fd (ucast (cr_crtc_id requested))
             (ucast (cr_fb_id requested)) (word_of_int e) 0
             (''PAGE_FLIP fb='' @ show_u (cr_fb_id requested) @ '' failed errno='' @ show_int e)
       | None \<Rightarrow> bnd (verify_flip os 20 fd requested) (\<lambda>ok.
           if ok then
             bnd (gets g_expected_connector) (\<lambda>expected.
               andthen
                 (emit_detail os sequen fd DRM_IOCTL_MODE_SETCRTC ''SETCRTC_PAGEFLIP_FALLBACK''
                   (ucast (cr_crtc_id requested)) (ucast (cr_fb_id current))
                   (ucast (cr_fb_id requested)) (ucast expected)
                   (''crtc='' @ show_u (cr_crtc_id requested) @ '' old_fb='' @
                    show_u (cr_fb_id current) @ '' new_fb='' @ show_u (cr_fb_id requested)))
                 (ret 1))
           else
             andthen
               (emit_detail os sequen fd DRM_IOCTL_MODE_SETCRTC ''SETCRTC_FALLBACK_REJECT''
                 (ucast (cr_crtc_id requested)) (ucast (cr_fb_id current))
                 (ucast (cr_fb_id requested)) 0 ''PAGE_FLIP did not become current'')
               (andthen (modify (\<lambda>s. s\<lparr>g_errno := EIO\<rparr>)) (ret (- 1)))))"

text \<open>The part after the request itself was accepted: compare with what is on the CRTC.\<close>

definition flip_same_mode :: "os \<Rightarrow> int \<Rightarrow> u32 \<Rightarrow> drm_mode_crtc \<Rightarrow> int tprog" where
  "flip_same_mode os fd sequen requested =
     bnd (syscall_getcrtc os fd (cr_crtc_id requested)) (\<lambda>answer.
       case answer of
         Inl e \<Rightarrow> reject_fallback os sequen fd (ucast (cr_crtc_id requested)) (word_of_int e) 0 0
             (''GETCRTC failed errno='' @ show_int e)
       | Inr current \<Rightarrow>
         if cr_mode_valid current = 0 \<or> cr_fb_id current = 0 \<or> cr_x current \<noteq> cr_x requested \<or>
            cr_y current \<noteq> cr_y requested
         then reject_fallback os sequen fd (ucast (cr_fb_id current)) (ucast (cr_x current))
                (ucast (cr_y current)) (ucast (cr_mode_valid current))
                (''current fb='' @ show_u (cr_fb_id current) @ '' xy='' @ show_u (cr_x current) @
                 '','' @ show_u (cr_y current) @ '' mode='' @ show_u (cr_mode_valid current))
         else if \<not> same_mode_timing (cr_mode current) (cr_mode requested)
         then andthen (emit_mode_mismatch os sequen fd (cr_mode current) (cr_mode requested)) (ret 0)
         else commit_flip os fd sequen requested current)"

definition try_same_mode_pageflip :: "os \<Rightarrow> int \<Rightarrow> u64 \<Rightarrow> u32 \<Rightarrow> int tprog" where
  "try_same_mode_pageflip os fd argument sequen =
     bnd (gets id) (\<lambda>s.
       if \<not> g_same_mode_pageflip_fallback s \<or> g_expected_crtc s = 0 \<or> g_expected_connector s = 0
       then ret 0
       else case safe_copy (rd_crtc (x_mem s)) argument of
         None \<Rightarrow> reject_fallback os sequen fd 0 0 0 0 ''cannot read requested CRTC''
       | Some requested \<Rightarrow>
         if cr_crtc_id requested \<noteq> g_expected_crtc s \<or> cr_fb_id requested = 0 \<or>
            cr_count_connectors requested \<noteq> 1 \<or> cr_mode_valid requested = 0
         then reject_fallback os sequen fd (ucast (cr_crtc_id requested))
                (ucast (cr_fb_id requested)) (ucast (cr_count_connectors requested))
                (ucast (cr_mode_valid requested))
                (''request crtc='' @ show_u (cr_crtc_id requested) @ '' fb='' @
                 show_u (cr_fb_id requested) @ '' conns='' @ show_u (cr_count_connectors requested) @
                 '' mode='' @ show_u (cr_mode_valid requested))
         else let copied = safe_copy (rd_u32 (x_mem s)) (cr_set_connectors_ptr requested);
                  connector = (case copied of Some c \<Rightarrow> c | None \<Rightarrow> 0)
              in if copied = None \<or> connector \<noteq> g_expected_connector s
                 then reject_fallback os sequen fd (ucast connector) (ucast (g_expected_connector s)) 0 0
                        (''connector='' @ show_u connector @ '' expected='' @
                         show_u (g_expected_connector s))
                 else flip_same_mode os fd sequen requested)"

subsection \<open>The interposed \<open>ioctl\<close>\<close>

definition next_sequence :: "u32 tprog" where
  "next_sequence = bnd (gets g_sequence) (\<lambda>n. andthen (modify (\<lambda>s. s\<lparr>g_sequence := n + 1\<rparr>)) (ret n))"

text \<open>The block that announces a traced request: sequence number, record, details.\<close>

definition trace_before :: "os \<Rightarrow> int \<Rightarrow> drm_request \<Rightarrow> u64 \<Rightarrow> u32 tprog" where
  "trace_before os fd request argument =
     bnd next_sequence (\<lambda>sequen.
     bnd (gets x_mem) (\<lambda>mem.
     andthen
       (exchange_or_exit os (decode_record mem request argument
          (initialize_record os HDMI_LOS_TRACE_BEFORE sequen fd (os_request_code os request)
            (request_name request))))
     (andthen
       (if request = DRM_IOCTL_MODE_SETCRTC then emit_setcrtc_details os sequen fd request argument
        else if request = DRM_IOCTL_MODE_ATOMIC then emit_atomic_details os sequen fd request argument
        else ret ())
       (ret sequen))))"

definition trace_after :: "os \<Rightarrow> u32 \<Rightarrow> int \<Rightarrow> drm_request \<Rightarrow> u64 \<Rightarrow> int \<Rightarrow> int \<Rightarrow> unit tprog" where
  "trace_after os sequen fd request argument result error =
     bnd (gets x_mem) (\<lambda>mem.
       exchange_or_exit os (decode_record mem request argument
         ((initialize_record os HDMI_LOS_TRACE_AFTER sequen fd (os_request_code os request)
            (request_name request))
          \<lparr>t_result := word_of_int result, t_error := word_of_int error\<rparr>)))"

definition leave_ioctl :: "int \<Rightarrow> int \<Rightarrow> int tprog" where
  "leave_ioctl error result =
     andthen (modify (\<lambda>s. s\<lparr>g_in_trace := False, g_errno := error\<rparr>)) (ret result)"

text \<open>A request that would store the value the connector already has.\<close>

definition suppress_noop :: "os \<Rightarrow> bool \<Rightarrow> u32 \<Rightarrow> int \<Rightarrow> drm_request \<Rightarrow> u64 \<Rightarrow>
    drm_mode_connector_set_property \<Rightarrow> int tprog" where
  "suppress_noop os trace_request sequen fd request argument v =
     andthen
       (if trace_request then
          andthen
            (emit_detail os sequen fd request ''SUPPRESSED_CONNECTOR_NOOP''
              (ucast (sp_connector_id v)) (ucast (sp_prop_id v)) (sp_value v) 0
              (''connector='' @ show_u (sp_connector_id v) @ '' prop='' @ show_u (sp_prop_id v) @
               '' value='' @ show_u (sp_value v)))
            (trace_after os sequen fd request argument 0 0)
        else ret ())
       (leave_ioctl 0 0)"

text \<open>The closing records of a request, as one program.\<close>

definition close_request :: "os \<Rightarrow> bool \<Rightarrow> u32 \<Rightarrow> int \<Rightarrow> drm_request \<Rightarrow> u64 \<Rightarrow> int \<Rightarrow> int \<Rightarrow>
    unit tprog" where
  "close_request os trace_request sequen fd request argument result saved_errno =
     (if trace_request then
        andthen
          (trace_after os sequen fd request argument result (if result < 0 then saved_errno else 0))
          (if 0 \<le> result \<and> request = DRM_IOCTL_MODE_OBJ_GETPROPERTIES
           then emit_object_property_details os sequen fd request argument else ret ())
      else ret ())"

text \<open>The request itself, with the fallback, and the record of its result.\<close>

definition perform_request :: "os \<Rightarrow> bool \<Rightarrow> u32 \<Rightarrow> int \<Rightarrow> drm_request \<Rightarrow> u64 \<Rightarrow> int tprog" where
  "perform_request os trace_request sequen fd request argument =
     andthen (modify (\<lambda>s. s\<lparr>g_errno := 0\<rparr>))
     (bnd (syscall_ioctl os fd request argument) (\<lambda>result0.
      bnd (gets g_errno) (\<lambda>errno0.
      bnd (if result0 < 0 \<and> errno0 = EINVAL \<and> request = DRM_IOCTL_MODE_SETCRTC
           then bnd (try_same_mode_pageflip os fd argument sequen) (\<lambda>fallback.
                  if 0 < fallback then ret (0, 0)
                  else if fallback < 0 then bnd (gets g_errno) (\<lambda>e. ret (result0, e))
                  else ret (result0, errno0))
           else ret (result0, errno0)) (\<lambda>(result, saved_errno).
      andthen
        (close_request os trace_request sequen fd request argument result saved_errno)
        (leave_ioctl saved_errno result)))))"

definition ioctl :: "os \<Rightarrow> int \<Rightarrow> drm_request \<Rightarrow> u64 \<Rightarrow> int tprog" where
  "ioctl os fd request argument =
     bnd (gets id) (\<lambda>s.
       if g_trace_fd s < 0 \<or> g_in_trace s \<or> \<not> is_drm_request request
       then syscall_ioctl os fd request argument
       else
         andthen (modify (\<lambda>s. s\<lparr>g_in_trace := True\<rparr>))
         (let trace_request = should_trace_request request s in
          bnd (if trace_request then trace_before os fd request argument else ret 0) (\<lambda>sequen.
          bnd (gets (should_suppress_connector_property_noop argument)) (\<lambda>(noop, v).
            if request = DRM_IOCTL_MODE_SETPROPERTY \<and> noop
            then suppress_noop os trace_request sequen fd request argument (the v)
            else perform_request os trace_request sequen fd request argument))))"

subsection \<open>The interposed \<open>drmModeGetProperty\<close>\<close>

definition resolve_get_property :: "os \<Rightarrow> unit tprog" where
  "resolve_get_property os =
     modify (\<lambda>s. if g_real_drm_mode_get_property s then s
        else s\<lparr>g_real_drm_mode_get_property := os_dlsym os (x_calls s) ''drmModeGetProperty''\<rparr>)"

text \<open>
  libdrm's own \<open>drmModeGetProperty\<close> is not part of the program: it issues some requests, each
  through the interposed \<open>ioctl\<close>, and answers.
\<close>

definition real_get_property :: "os \<Rightarrow> int \<Rightarrow> u32 \<Rightarrow> drm_property option tprog" where
  "real_get_property os fd property_id =
     bnd (gets (\<lambda>s. os_get_property os (x_calls s) fd property_id)) (\<lambda>(requests, property).
       andthen
         (for_each requests (\<lambda>(request, argument). andthen (ioctl os fd request argument) (ret ())))
         (ret property))"

definition ignored_reason :: "tracer \<Rightarrow> drm_property \<Rightarrow> string option" where
  "ignored_reason s property =
     (if g_ignore_xorg_bitmask_properties s \<and>
         hdmi_los_xorg_property_type_is_unsupported (dp_flags property) DRM_MODE_PROP_BITMASK
      then Some ''IGNORED_XORG_BITMASK''
      else if g_ignore_xorg_pointer_properties s \<and> c_str (dp_name property) = ''RETIRE_FENCE''
      then Some ''IGNORED_XORG_POINTER''
      else None)"

definition release_property :: "os \<Rightarrow> drm_property \<Rightarrow> unit tprog" where
  "release_property os property =
     andthen
       (modify (\<lambda>s. if g_real_drm_mode_free_property s then s
          else s\<lparr>g_real_drm_mode_free_property := os_dlsym os (x_calls s) ''drmModeFreeProperty''\<rparr>))
       (modify (\<lambda>s. if g_real_drm_mode_free_property s
          then log_event (FreedProperty (dp_prop_id property)) s else s))"

definition trace_ignored :: "os \<Rightarrow> int \<Rightarrow> string \<Rightarrow> drm_property \<Rightarrow> unit tprog" where
  "trace_ignored os fd reason property =
     andthen (modify (\<lambda>s. s\<lparr>g_in_trace := True\<rparr>))
     (bnd next_sequence (\<lambda>sequen.
      andthen
        (emit_detail os sequen fd DRM_IOCTL_MODE_GETPROPERTY reason (ucast (dp_prop_id property))
           (ucast (dp_flags property)) 0 0
           (''prop='' @ show_u (dp_prop_id property) @ '' flags=0x'' @ show_x (dp_flags property) @
            '' name='' @ take 28 (c_str (dp_name property))))
        (modify (\<lambda>s. s\<lparr>g_in_trace := False\<rparr>))))"

definition drmModeGetProperty :: "os \<Rightarrow> int \<Rightarrow> u32 \<Rightarrow> drm_property option tprog" where
  "drmModeGetProperty os fd property_id =
     andthen (resolve_get_property os)
     (bnd (gets g_real_drm_mode_get_property) (\<lambda>found.
       if \<not> found then andthen (modify (\<lambda>s. s\<lparr>g_errno := ENOSYS\<rparr>)) (ret None)
       else
         bnd (real_get_property os fd property_id) (\<lambda>answer.
         case answer of
           None \<Rightarrow> ret None
         | Some property \<Rightarrow>
             bnd (gets id) (\<lambda>s.
               case ignored_reason s property of
                 None \<Rightarrow> ret (Some property)
               | Some reason \<Rightarrow>
                   andthen
                     (if 0 \<le> g_trace_fd s \<and> \<not> g_in_trace s \<and>
                         should_trace_request DRM_IOCTL_MODE_GETPROPERTY s
                      then trace_ignored os fd reason property else ret ())
                     (andthen (release_property os property) (ret None))))))"

subsection \<open>Initialisation from the environment\<close>

definition parse_u32_environment :: "os \<Rightarrow> string \<Rightarrow> u32" where
  "parse_u32_environment os name =
     (case os_getenv os name of
        None \<Rightarrow> 0
      | Some text \<Rightarrow>
          if text = [] then 0
          else let (val, rest, erange) = c_strtoul text
               in if \<not> erange \<and> rest = [] \<and> val \<le> 0xFFFFFFFF then ucast val else 0)"

definition env_is_one :: "os \<Rightarrow> string \<Rightarrow> bool" where
  "env_is_one os name \<longleftrightarrow> os_getenv os name = Some ''1''"

definition hdmi_los_trace_initialize :: "os \<Rightarrow> unit tprog" where
  "hdmi_los_trace_initialize os =
     (case os_getenv os ''HDMI_LOS_TRACE_FD'' of
        None \<Rightarrow> ret ()
      | Some descriptor \<Rightarrow>
          if descriptor = [] then ret ()
          else let (parsed, rest, erange) = c_strtol descriptor in
            if erange \<or> rest \<noteq> [] \<or> parsed < 0 \<or> 2 ^ 31 - 1 < parsed then exit_process 125
            else
              andthen
                (modify (\<lambda>s. s\<lparr>g_trace_fd := parsed,
                   g_suppress_connector_property_noops :=
                     env_is_one os ''HDMI_LOS_SUPPRESS_CONNECTOR_PROPERTY_NOOPS'',
                   g_ignore_xorg_bitmask_properties :=
                     env_is_one os ''HDMI_LOS_IGNORE_XORG_BITMASK_PROPERTIES'',
                   g_ignore_xorg_pointer_properties :=
                     env_is_one os ''HDMI_LOS_IGNORE_XORG_POINTER_PROPERTIES'',
                   g_same_mode_pageflip_fallback :=
                     env_is_one os ''HDMI_LOS_SAME_MODE_PAGEFLIP_FALLBACK'',
                   g_expected_connector := parse_u32_environment os ''HDMI_LOS_EXPECTED_CONNECTOR'',
                   g_expected_crtc := parse_u32_environment os ''HDMI_LOS_EXPECTED_CRTC'',
                   g_real_drm_mode_get_property := os_dlsym os (x_calls s) ''drmModeGetProperty'',
                   g_real_drm_mode_free_property := os_dlsym os (x_calls s) ''drmModeFreeProperty''\<rparr>))
                (exchange_or_exit os
                  (with_detail (''protocol='' @ show_u HDMI_LOS_TRACE_VERSION)
                    (initialize_record os HDMI_LOS_TRACE_LOADED 0 parsed 0 ''DRMTRACE_LOADED''))))"

end
