(* ===== verification/Drm_Trace_Correct.thy ===== *)
theory Drm_Trace_Correct
  imports Drm_Trace
begin

section \<open>What the tracer guarantees\<close>

text \<open>
  Fail-closed tracing (nothing happens after an unacknowledged record), transparency
  towards the interposed process, the soundness of the same-mode fallback, the bounds
  of the detail loops and what the connector-property cache does and does not track.
\<close>

subsection \<open>Fail-closed logs\<close>

fun unacked :: "trace_event \<Rightarrow> bool" where
  "unacked (Recorded r ok) = (\<not> ok)"
| "unacked _ = False"

definition all_acked :: "trace_event list \<Rightarrow> bool" where
  "all_acked es \<longleftrightarrow> (\<forall>e \<in> set es. \<not> unacked e)"

text \<open>The log of a process that stopped: its last event is the only unacknowledged one.\<close>

definition stopped_at_record :: "trace_event list \<Rightarrow> bool" where
  "stopped_at_record es \<longleftrightarrow>
     (\<exists>pre r. es = pre @ [Recorded r False] \<and> all_acked pre)"

definition closes :: "'a tprog \<Rightarrow> bool" where
  "closes m \<longleftrightarrow>
     (\<forall>s. all_acked (x_log s) \<longrightarrow>
        (case m s of
           Done x s' \<Rightarrow> all_acked (x_log s')
         | Exited c s' \<Rightarrow> c = 125 \<and> stopped_at_record (x_log s')
         | Blocked s' \<Rightarrow> stopped_at_record (x_log s')))"

named_theorems closes_intros

lemma all_acked_log: "\<not> unacked e \<Longrightarrow> all_acked (x_log s) \<Longrightarrow> all_acked (x_log (log_event e s))"
  by (auto simp: all_acked_def log_event_def)

lemma closes_ret [closes_intros]: "closes (ret x)"
  by (simp add: closes_def ret_def)

lemma closes_gets [closes_intros]: "closes (gets f)"
  by (simp add: closes_def gets_def)

lemma closes_modify [closes_intros]: "(\<And>s. x_log (f s) = x_log s) \<Longrightarrow> closes (modify f)"
  by (simp add: closes_def modify_def)

lemma closes_bnd [closes_intros]:
  assumes m: "closes m" and f: "\<And>x. closes (f x)"
  shows "closes (bnd m f)"
  unfolding closes_def
proof (intro allI impI)
  fix s :: tracer
  assume "all_acked (x_log s)"
  with m have "case m s of
      Done x s' \<Rightarrow> all_acked (x_log s')
    | Exited c s' \<Rightarrow> c = 125 \<and> stopped_at_record (x_log s')
    | Blocked s' \<Rightarrow> stopped_at_record (x_log s')"
    by (simp add: closes_def)
  then show "case bnd m f s of
      Done x s' \<Rightarrow> all_acked (x_log s')
    | Exited c s' \<Rightarrow> c = 125 \<and> stopped_at_record (x_log s')
    | Blocked s' \<Rightarrow> stopped_at_record (x_log s')"
    using f by (cases "m s") (auto simp: bnd_def closes_def)
qed

lemma closes_andthen [closes_intros]: "closes m \<Longrightarrow> closes n \<Longrightarrow> closes (andthen m n)"
  by (simp add: andthen_def closes_bnd)

lemma closes_if [closes_intros]: "closes m \<Longrightarrow> closes n \<Longrightarrow> closes (if b then m else n)"
  by simp

lemma closes_option [closes_intros]:
  "closes m \<Longrightarrow> (\<And>x. closes (f x)) \<Longrightarrow> closes (case v of None \<Rightarrow> m | Some x \<Rightarrow> f x)"
  by (cases v) simp_all

lemma closes_prod [closes_intros]: "(\<And>x y. closes (f x y)) \<Longrightarrow> closes (case v of (x, y) \<Rightarrow> f x y)"
  by (cases v) simp

lemma closes_sum [closes_intros]:
  "(\<And>x. closes (f x)) \<Longrightarrow> (\<And>y. closes (g y)) \<Longrightarrow> closes (case v of Inl x \<Rightarrow> f x | Inr y \<Rightarrow> g y)"
  by (cases v) simp_all

lemma closes_let [closes_intros]: "closes (f x) \<Longrightarrow> closes (let y = x in f y)"
  by simp

lemma closes_for_each [closes_intros]: "(\<And>x. closes (f x)) \<Longrightarrow> closes (for_each xs f)"
  by (induction xs) (simp_all add: closes_ret closes_andthen)

lemma closes_exchange_or_exit [closes_intros]: "closes (exchange_or_exit os record)"
  unfolding closes_def
proof (intro allI impI)
  fix s :: tracer
  assume acked: "all_acked (x_log s)"
  then have "stopped_at_record (x_log s @ [Recorded record False])"
    by (auto simp: stopped_at_record_def)
  with acked show "case exchange_or_exit os record s of
      Done x s' \<Rightarrow> all_acked (x_log s')
    | Exited c s' \<Rightarrow> c = 125 \<and> stopped_at_record (x_log s')
    | Blocked s' \<Rightarrow> stopped_at_record (x_log s')"
    by (auto simp: exchange_or_exit_def exchange_record_def prog_defs log_event_def Let_def
        all_acked_def split: option.splits)
qed

lemma closes_syscalls [closes_intros]:
  "closes (syscall_ioctl os fd request argument)"
  "closes (syscall_getcrtc os fd crtc_id)"
  "closes (syscall_page_flip os fd crtc_id fb_id)"
  by (auto simp: closes_def syscall_ioctl_def syscall_getcrtc_def syscall_page_flip_def Let_def
      log_event_def all_acked_def split: prod.splits)

lemma closes_emit_detail [closes_intros]:
  "closes (emit_detail os sequen fd request name a0 a1 a2 a3 detail)"
  unfolding emit_detail_def by (intro closes_intros)

lemma closes_details [closes_intros]:
  "closes (emit_setcrtc_details os sequen fd request argument)"
  "closes (emit_atomic_details os sequen fd request argument)"
  "closes (emit_object_property_details os sequen fd request argument)"
  unfolding emit_setcrtc_details_def emit_atomic_details_def emit_object_property_details_def
    store_connector_property_def
  by (intro closes_intros; simp)+

lemma closes_verify_flip [closes_intros]: "closes (verify_flip os n fd requested)"
  by (induction n) (auto intro!: closes_intros)

lemma closes_fallback [closes_intros]: "closes (try_same_mode_pageflip os fd argument sequen)"
  unfolding try_same_mode_pageflip_def flip_same_mode_def commit_flip_def reject_fallback_def
    emit_mode_mismatch_def
  by (intro closes_intros; simp)

lemma closes_trace_steps [closes_intros]:
  "closes next_sequence"
  "closes (trace_before os fd request argument)"
  "closes (trace_after os sequen fd request argument result error)"
  "closes (leave_ioctl error result)"
  unfolding trace_before_def trace_after_def next_sequence_def leave_ioctl_def
  by (intro closes_intros; simp)+

lemma closes_ioctl [closes_intros]: "closes (ioctl os fd request argument)"
  unfolding ioctl_def suppress_noop_def perform_request_def close_request_def
  by (intro closes_intros; simp)

lemma closes_release_property [closes_intros]: "closes (release_property os property)"
  by (auto simp: release_property_def closes_def prog_defs log_event_def all_acked_def)

lemma closes_drmModeGetProperty: "closes (drmModeGetProperty os fd property_id)"
  unfolding drmModeGetProperty_def resolve_get_property_def trace_ignored_def real_get_property_def
  by (intro closes_intros; simp)

subsection \<open>Frames: what tracing itself may change\<close>

text \<open>
  Records only move the sequence counter, the steady flag, the exchange counter and the
  log. Every operation only appends to the log.
\<close>

definition quiet :: "tracer \<Rightarrow> tracer \<Rightarrow> bool" where
  "quiet s s' \<longleftrightarrow>
     s\<lparr>g_sequence := 0, g_trace_steady := False, x_exchanges := 0, x_log := []\<rparr> =
     s'\<lparr>g_sequence := 0, g_trace_steady := False, x_exchanges := 0, x_log := []\<rparr>"

definition log_grows :: "tracer \<Rightarrow> tracer \<Rightarrow> bool" where
  "log_grows s s' \<longleftrightarrow> (\<exists>es. x_log s' = x_log s @ es)"

lemma quiet_preorder: "reflp quiet" "transp quiet"
  by (auto simp: quiet_def reflp_def transp_def)

lemma log_grows_preorder: "reflp log_grows" "transp log_grows"
  by (auto simp: log_grows_def reflp_def transp_def)

lemma quietD:
  assumes "quiet s s'"
  shows "x_mem s' = x_mem s" "x_calls s' = x_calls s" "g_errno s' = g_errno s"
    "g_connector_properties s' = g_connector_properties s" "g_in_trace s' = g_in_trace s"
    "g_suppress_connector_property_noops s' = g_suppress_connector_property_noops s"
    "g_expected_crtc s' = g_expected_crtc s" "g_expected_connector s' = g_expected_connector s"
    "g_same_mode_pageflip_fallback s' = g_same_mode_pageflip_fallback s"
    "g_trace_fd s' = g_trace_fd s"
  using assms by (cases s; cases s'; simp add: quiet_def)+

lemma quiet_exchange_record [ends_intros]: "ends quiet (exchange_record os record)"
  by (auto simp: ends_def exchange_record_def quiet_def log_event_def Let_def split: option.splits)

lemma quiet_exchange_or_exit [ends_intros]: "ends quiet (exchange_or_exit os record)"
  unfolding exchange_or_exit_def by (intro ends_intros quiet_preorder)

lemma quiet_emit_detail [ends_intros]:
  "ends quiet (emit_detail os sequen fd request name a0 a1 a2 a3 detail)"
  unfolding emit_detail_def by (intro ends_intros)

lemma quiet_details [ends_intros]:
  "ends quiet (emit_setcrtc_details os sequen fd request argument)"
  "ends quiet (emit_atomic_details os sequen fd request argument)"
  unfolding emit_setcrtc_details_def emit_atomic_details_def
  by (intro ends_intros quiet_preorder)+

lemma quiet_trace_before [ends_intros]: "ends quiet (trace_before os fd request argument)"
  unfolding trace_before_def next_sequence_def
  by (intro ends_intros quiet_preorder) (simp add: quiet_def)

lemma quiet_trace_after [ends_intros]:
  "ends quiet (trace_after os sequen fd request argument result error)"
  unfolding trace_after_def by (intro ends_intros quiet_preorder)

lemma grows_exchange_record [ends_intros]: "ends log_grows (exchange_record os record)"
  by (auto simp: ends_def exchange_record_def log_grows_def log_event_def Let_def
      split: option.splits)

lemma grows_exchange_or_exit [ends_intros]: "ends log_grows (exchange_or_exit os record)"
  unfolding exchange_or_exit_def by (intro ends_intros log_grows_preorder)

lemma grows_syscalls [ends_intros]:
  "ends log_grows (syscall_ioctl os fd request argument)"
  "ends log_grows (syscall_getcrtc os fd crtc_id)"
  "ends log_grows (syscall_page_flip os fd crtc_id fb_id)"
  by (auto simp: ends_def syscall_ioctl_def syscall_getcrtc_def syscall_page_flip_def Let_def
      log_event_def log_grows_def split: prod.splits)

lemma grows_emit_detail [ends_intros]:
  "ends log_grows (emit_detail os sequen fd request name a0 a1 a2 a3 detail)"
  unfolding emit_detail_def by (intro ends_intros)

lemma grows_modify [ends_intros]: "(\<And>s. x_log (f s) = x_log s) \<Longrightarrow> ends log_grows (modify f)"
  by (simp add: ends_def modify_def log_grows_def)

lemma grows_details [ends_intros]:
  "ends log_grows (emit_setcrtc_details os sequen fd request argument)"
  "ends log_grows (emit_atomic_details os sequen fd request argument)"
  "ends log_grows (emit_object_property_details os sequen fd request argument)"
  unfolding emit_setcrtc_details_def emit_atomic_details_def emit_object_property_details_def
    store_connector_property_def
  by (intro ends_intros grows_modify log_grows_preorder; simp add: log_grows_def)+

lemma grows_verify_flip [ends_intros]: "ends log_grows (verify_flip os n fd requested)"
  by (induction n) (auto intro!: ends_intros log_grows_preorder)

lemma grows_fallback [ends_intros]: "ends log_grows (try_same_mode_pageflip os fd argument sequen)"
  unfolding try_same_mode_pageflip_def flip_same_mode_def commit_flip_def reject_fallback_def
    emit_mode_mismatch_def
  by (intro ends_intros log_grows_preorder; simp add: log_grows_def)

lemma grows_trace_after [ends_intros]:
  "ends log_grows (trace_after os sequen fd request argument result error)"
  unfolding trace_after_def by (intro ends_intros log_grows_preorder)

lemma grows_perform_request [ends_intros]:
  "ends log_grows (perform_request os tr sequen fd request argument)"
  "ends log_grows (suppress_noop os tr sequen fd request argument v)"
  unfolding perform_request_def suppress_noop_def leave_ioctl_def close_request_def
  by (intro ends_intros log_grows_preorder; simp add: log_grows_def)+

lemma quiet_Done: "ends quiet m \<Longrightarrow> m s = Done x s' \<Longrightarrow> quiet s s'"
  using endsD [of quiet m s] by simp

text \<open>
  What a record exchange leaves alone whatever it does to the cache: memory, errno, the
  reentrancy guard and the calls made to the kernel.
\<close>

fun is_call :: "trace_event \<Rightarrow> bool" where
  "is_call (Ioctl fd request argument result) = True"
| "is_call (GetCrtc fd crtc_id) = True"
| "is_call (PageFlip fd crtc_id fb_id) = True"
| "is_call (FreedProperty property_id) = True"
| "is_call (Recorded r ok) = False"

definition calls_made :: "tracer \<Rightarrow> trace_event list" where
  "calls_made s = filter is_call (x_log s)"

definition undisturbed :: "tracer \<Rightarrow> tracer \<Rightarrow> bool" where
  "undisturbed s s' \<longleftrightarrow>
     x_mem s' = x_mem s \<and> x_calls s' = x_calls s \<and> g_errno s' = g_errno s \<and>
     g_in_trace s' = g_in_trace s \<and> calls_made s' = calls_made s"

lemma undisturbed_preorder: "reflp undisturbed" "transp undisturbed"
  by (auto simp: undisturbed_def reflp_def transp_def)

lemma undisturbed_exchange_record [ends_intros]: "ends undisturbed (exchange_record os record)"
  by (auto simp: ends_def exchange_record_def undisturbed_def calls_made_def log_event_def
      Let_def split: option.splits)

lemma undisturbed_exchange_or_exit [ends_intros]: "ends undisturbed (exchange_or_exit os record)"
  unfolding exchange_or_exit_def by (intro ends_intros undisturbed_preorder)

lemma undisturbed_emit_detail [ends_intros]:
  "ends undisturbed (emit_detail os sequen fd request name a0 a1 a2 a3 detail)"
  unfolding emit_detail_def by (intro ends_intros)

lemma undisturbed_details [ends_intros]:
  "ends undisturbed (emit_setcrtc_details os sequen fd request argument)"
  "ends undisturbed (emit_atomic_details os sequen fd request argument)"
  "ends undisturbed (emit_object_property_details os sequen fd request argument)"
  unfolding emit_setcrtc_details_def emit_atomic_details_def emit_object_property_details_def
    store_connector_property_def
  by (intro ends_intros undisturbed_preorder; simp add: undisturbed_def calls_made_def)+

lemma undisturbed_trace_steps [ends_intros]:
  "ends undisturbed (trace_before os fd request argument)"
  "ends undisturbed (trace_after os sequen fd request argument result error)"
  unfolding trace_before_def trace_after_def next_sequence_def
  by (intro ends_intros undisturbed_preorder; simp add: undisturbed_def calls_made_def)+

lemma undisturbed_Done: "ends undisturbed m \<Longrightarrow> m s = Done x s' \<Longrightarrow> undisturbed s s'"
  using endsD [of undisturbed m s] by simp

subsection \<open>The two ways through the interposed call\<close>

definition intercepts :: "tracer \<Rightarrow> drm_request \<Rightarrow> bool" where
  "intercepts s request \<longleftrightarrow> 0 \<le> g_trace_fd s \<and> \<not> g_in_trace s \<and> is_drm_request request"

definition suppresses :: "tracer \<Rightarrow> drm_request \<Rightarrow> u64 \<Rightarrow> bool" where
  "suppresses s request argument \<longleftrightarrow>
     request = DRM_IOCTL_MODE_SETPROPERTY \<and>
     fst (should_suppress_connector_property_noop argument s)"

lemma suppresses_quiet:
  "quiet s s' \<Longrightarrow> suppresses s' request argument = suppresses s request argument"
  by (simp add: suppresses_def should_suppress_connector_property_noop_def quietD
      split: option.splits)

lemma suppresses_entering [simp]:
  "suppresses (s\<lparr>g_in_trace := b\<rparr>) request argument = suppresses s request argument"
  by (simp add: suppresses_def should_suppress_connector_property_noop_def split: option.splits)

lemma ioctl_passes_through:
  "\<not> intercepts s request \<Longrightarrow> ioctl os fd request argument s = syscall_ioctl os fd request argument s"
  by (auto simp: ioctl_def intercepts_def prog_defs)

lemma ioctl_intercepted:
  assumes "intercepts s request"
  shows "ioctl os fd request argument s =
    bnd (if should_trace_request request s then trace_before os fd request argument else ret 0)
      (\<lambda>sequen.
        bnd (gets (should_suppress_connector_property_noop argument)) (\<lambda>(noop, v).
          if request = DRM_IOCTL_MODE_SETPROPERTY \<and> noop
          then suppress_noop os (should_trace_request request s) sequen fd request argument (the v)
          else perform_request os (should_trace_request request s) sequen fd request argument))
      (s\<lparr>g_in_trace := True\<rparr>)"
  using assms by (auto simp: ioctl_def intercepts_def bnd_def [of "gets id"] gets_def andthen_def
      bnd_def [of "modify _"] modify_def Let_def)

lemma announce_quiet:
  "ends quiet (if b then trace_before os fd request argument else ret (0 :: u32))"
  "ends undisturbed (if b then trace_before os fd request argument else ret (0 :: u32))"
  by (intro ends_intros quiet_preorder undisturbed_preorder)+

text \<open>A returning intercepted call: the announcement, then one of the two branches.\<close>

lemma ioctl_intercepted_Done:
  assumes "intercepts s request" and "ioctl os fd request argument s = Done r s'"
  obtains sequen s1 where "quiet (s\<lparr>g_in_trace := True\<rparr>) s1" "undisturbed (s\<lparr>g_in_trace := True\<rparr>) s1"
    "suppresses s request argument \<Longrightarrow>
       \<exists>v. suppress_noop os (should_trace_request request s) sequen fd request argument v s1 = Done r s'"
    "\<not> suppresses s request argument \<Longrightarrow>
       perform_request os (should_trace_request request s) sequen fd request argument s1 = Done r s'"
proof -
  from assms obtain sequen s1
    where before: "(if should_trace_request request s then trace_before os fd request argument else ret 0)
        (s\<lparr>g_in_trace := True\<rparr>) = Done sequen s1"
      and rest: "bnd (gets (should_suppress_connector_property_noop argument)) (\<lambda>(noop, v).
          if request = DRM_IOCTL_MODE_SETPROPERTY \<and> noop
          then suppress_noop os (should_trace_request request s) sequen fd request argument (the v)
          else perform_request os (should_trace_request request s) sequen fd request argument)
        s1 = Done r s'"
    by (auto simp: ioctl_intercepted bnd_Done [where s = "s\<lparr>g_in_trace := True\<rparr>"])
  have q: "quiet (s\<lparr>g_in_trace := True\<rparr>) s1" and u: "undisturbed (s\<lparr>g_in_trace := True\<rparr>) s1"
    using quiet_Done [OF announce_quiet(1) before] undisturbed_Done [OF announce_quiet(2) before]
    by auto
  have "suppresses s1 request argument = suppresses s request argument"
    using suppresses_quiet [OF q] by simp
  with rest show ?thesis
    by (intro that [OF q u])
      (auto simp: bnd_def gets_def suppresses_def split: prod.splits if_splits)
qed

lemma syscall_ioctl_bnd:
  assumes "os_ioctl os (x_calls s) fd request argument (x_mem s) = (k, e, mem)"
  shows "bnd (syscall_ioctl os fd request argument) f s =
    f k (log_event (Ioctl fd request argument k)
      (s\<lparr>x_mem := mem, x_calls := x_calls s + 1, g_errno := (if k < 0 then e else g_errno s)\<rparr>))"
  using assms by (simp add: bnd_def syscall_ioctl_def)

lemma undisturbed_close_request:
  "ends undisturbed (close_request os tr sequen fd request argument result saved_errno)"
  unfolding close_request_def by (intro ends_intros undisturbed_preorder)

lemma perform_request_plain:
  assumes call: "os_ioctl os (x_calls s) fd request argument (x_mem s) = (k, e, mem)"
    and plain: "\<not> (k < 0 \<and> e = EINVAL \<and> request = DRM_IOCTL_MODE_SETCRTC)"
  shows "perform_request os tr sequen fd request argument s =
    andthen (close_request os tr sequen fd request argument k (if k < 0 then e else 0))
      (leave_ioctl (if k < 0 then e else 0) k)
      (log_event (Ioctl fd request argument k)
        (s\<lparr>x_mem := mem, x_calls := x_calls s + 1, g_errno := (if k < 0 then e else 0)\<rparr>))"
proof -
  have call': "os_ioctl os (x_calls (s\<lparr>g_errno := 0\<rparr>)) fd request argument
      (x_mem (s\<lparr>g_errno := 0\<rparr>)) = (k, e, mem)"
    using call by simp
  show ?thesis
    using plain unfolding perform_request_def
    by (auto simp add: prog_eval syscall_ioctl_bnd [OF call'] log_event_def)
qed

lemma perform_request_Done:
  assumes call: "os_ioctl os (x_calls s) fd request argument (x_mem s) = (k, e, mem)"
    and plain: "\<not> (k < 0 \<and> e = EINVAL \<and> request = DRM_IOCTL_MODE_SETCRTC)"
    and returned: "perform_request os tr sequen fd request argument s = Done r s'"
  shows "r = k \<and> g_errno s' = (if k < 0 then e else 0) \<and> x_mem s' = mem \<and>
    \<not> g_in_trace s' \<and> calls_made s' = calls_made s @ [Ioctl fd request argument k]"
proof -
  let ?s2 = "log_event (Ioctl fd request argument k)
    (s\<lparr>x_mem := mem, x_calls := x_calls s + 1, g_errno := (if k < 0 then e else 0)\<rparr>)"
  from returned obtain s3 where
    rest: "close_request os tr sequen fd request argument k (if k < 0 then e else 0) ?s2 = Done () s3"
    and leave: "leave_ioctl (if k < 0 then e else 0) k s3 = Done r s'"
    unfolding perform_request_plain [OF call plain] andthen_Done by auto
  have "undisturbed ?s2 s3"
    by (rule undisturbed_Done [OF undisturbed_close_request rest])
  with leave show ?thesis
    by (auto simp: undisturbed_def leave_ioctl_def prog_defs calls_made_def log_event_def)
qed

lemma suppress_noop_Done:
  assumes "suppress_noop os tr sequen fd request argument v s = Done r s'"
  shows "r = 0 \<and> g_errno s' = 0 \<and> x_mem s' = x_mem s \<and> \<not> g_in_trace s' \<and>
    calls_made s' = calls_made s"
proof -
  define m where "m =
    (if tr then andthen
       (emit_detail os sequen fd request ''SUPPRESSED_CONNECTOR_NOOP''
         (ucast (sp_connector_id v)) (ucast (sp_prop_id v)) (sp_value v) 0
         (''connector='' @ show_u (sp_connector_id v) @ '' prop='' @ show_u (sp_prop_id v) @
          '' value='' @ show_u (sp_value v)))
       (trace_after os sequen fd request argument 0 0)
     else ret ())"
  have "ends undisturbed m"
    unfolding m_def by (intro ends_intros undisturbed_preorder)
  moreover from assms obtain s1 where "m s = Done () s1" and leave: "leave_ioctl 0 0 s1 = Done r s'"
    unfolding suppress_noop_def m_def [symmetric] andthen_Done by auto
  ultimately have "undisturbed s s1" by (simp add: undisturbed_Done)
  with leave show ?thesis
    by (auto simp: undisturbed_def leave_ioctl_def prog_defs calls_made_def)
qed

text \<open>
  Inside the fallback the guard stays set, so its own system calls are never traced, and
  the process's memory is untouched.
\<close>

definition guarded :: "tracer \<Rightarrow> tracer \<Rightarrow> bool" where
  "guarded s s' \<longleftrightarrow> g_in_trace s' = g_in_trace s \<and> x_mem s' = x_mem s"

lemma guarded_preorder: "reflp guarded" "transp guarded"
  by (auto simp: guarded_def reflp_def transp_def)

lemma guarded_emit_detail [ends_intros]:
  "ends guarded (emit_detail os sequen fd request name a0 a1 a2 a3 detail)"
  using undisturbed_emit_detail by (auto simp: ends_def guarded_def undisturbed_def)

lemma guarded_calls [ends_intros]:
  "ends guarded (syscall_getcrtc os fd crtc_id)"
  "ends guarded (syscall_page_flip os fd crtc_id fb_id)"
  by (auto simp: ends_def syscall_getcrtc_def syscall_page_flip_def guarded_def log_event_def Let_def)

lemma guarded_verify_flip [ends_intros]: "ends guarded (verify_flip os n fd requested)"
  by (induction n) (auto intro!: ends_intros guarded_preorder)

lemma guarded_fallback [ends_intros]: "ends guarded (try_same_mode_pageflip os fd argument sequen)"
  unfolding try_same_mode_pageflip_def flip_same_mode_def commit_flip_def reject_fallback_def
    emit_mode_mismatch_def
  by (intro ends_intros guarded_preorder; simp add: guarded_def)

end
