(* ===== verification/Drm_Decode_Correct.thy ===== *)
theory Drm_Decode_Correct
  imports Drm_Records
begin

section \<open>What rendering a request does to its record\<close>

text \<open>
  \<open>decode_record\<close> (\<open>src/native/drm-trace/drmtrace.c\<close>) fills in the arguments and
  the detail text of a record and nothing else, for every request and whatever the
  caller's memory holds.
\<close>

subsection \<open>Decoding only fills in arguments and detail\<close>

definition same_header :: "hdmi_los_trace_record \<Rightarrow> hdmi_los_trace_record \<Rightarrow> bool" where
  "same_header r r' \<longleftrightarrow>
     r'\<lparr>t_argument := [], t_detail := []\<rparr> = r\<lparr>t_argument := [], t_detail := []\<rparr>"

text \<open>A decoder: whatever it read, the header is kept and the record still fits its layout.\<close>

definition renders :: "('a \<Rightarrow> hdmi_los_trace_record \<Rightarrow> hdmi_los_trace_record) \<Rightarrow> bool" where
  "renders f \<longleftrightarrow> (\<forall>v r. same_header r (f v r) \<and> (wf_record r \<longrightarrow> wf_record (f v r)))"

named_theorems renders_intros

lemma same_headerD:
  assumes "same_header r r'"
  shows "t_magic r' = t_magic r" "t_version r' = t_version r" "t_phase r' = t_phase r"
    "t_sequence r' = t_sequence r" "t_fd r' = t_fd r" "t_request r' = t_request r"
    "t_result r' = t_result r" "t_error r' = t_error r" "t_name r' = t_name r"
  using assms by (cases r; cases r'; simp add: same_header_def)+

lemma same_header_refl [simp]: "same_header r r"
  by (simp add: same_header_def)

lemma renders_detail [renders_intros]: "renders (\<lambda>v. with_detail (f v))"
  by (auto simp: renders_def with_detail_def same_header_def wf_record_def)

lemma renders_args [renders_intros]:
  "(\<And>v. length (xs v) \<le> 4) \<Longrightarrow> renders (\<lambda>v. with_detail (f v) \<circ> put_args (xs v))"
  by (auto simp: renders_def with_detail_def put_args_def same_header_def wf_record_def)

lemma renders_prod [renders_intros]:
  "renders (\<lambda>v. f (fst v) (snd v)) \<Longrightarrow> renders (\<lambda>(x, y). f x y)"
  by (simp add: split_def)

lemma decode_with_renders:
  "decode_with rd address f r = Some r' \<Longrightarrow> renders f \<Longrightarrow>
     same_header r r' \<and> (wf_record r \<longrightarrow> wf_record r')"
  by (auto simp: decode_with_def renders_def split: option.splits)

lemma decode_sync_renders:
  "decode_sync mem request address r = Some r' \<Longrightarrow>
     same_header r r' \<and> (wf_record r \<longrightarrow> wf_record r')"
  by (cases request; simp add: decode_sync_def split_def Let_def;
      (erule decode_with_renders, intro renders_intros; simp)?)

lemma decode_objects_renders:
  "decode_objects mem request address r = Some r' \<Longrightarrow>
     same_header r r' \<and> (wf_record r \<longrightarrow> wf_record r')"
  by (cases request; simp add: decode_objects_def split_def Let_def;
      (erule decode_with_renders, intro renders_intros; simp)?)

lemma decode_properties_renders:
  "decode_properties mem request address r = Some r' \<Longrightarrow>
     same_header r r' \<and> (wf_record r \<longrightarrow> wf_record r')"
  by (cases request; simp add: decode_properties_def split_def Let_def;
      (erule decode_with_renders, intro renders_intros; simp)?)

lemma decode_buffers_renders:
  "decode_buffers mem request address r = Some r' \<Longrightarrow>
     same_header r r' \<and> (wf_record r \<longrightarrow> wf_record r')"
  by (cases request; simp add: decode_buffers_def split_def Let_def;
      (erule decode_with_renders, intro renders_intros; simp)?)

lemma decode_commits_renders:
  "decode_commits mem request address r = Some r' \<Longrightarrow>
     same_header r r' \<and> (wf_record r \<longrightarrow> wf_record r')"
  by (cases request; simp add: decode_commits_def split_def Let_def;
      (erule decode_with_renders, intro renders_intros; simp)?)

lemmas decode_renders = decode_sync_renders decode_objects_renders decode_properties_renders
  decode_buffers_renders decode_commits_renders

lemma first_decoded_cases: "first_decoded ds d = d \<or> Some (first_decoded ds d) \<in> set ds"
  by (induction ds d rule: first_decoded.induct) auto

lemma decode_record_renders:
  "same_header r (decode_record mem request address r) \<and>
   (wf_record r \<longrightarrow> wf_record (decode_record mem request address r))"
proof (cases "address = 0")
  case True
  then show ?thesis
    by (simp add: decode_record_def with_detail_def same_header_def wf_record_def)
next
  case False
  let ?ds = "[decode_sync mem request address r, decode_objects mem request address r,
     decode_properties mem request address r, decode_buffers mem request address r,
     decode_commits mem request address r]"
  let ?d = "with_detail (''request=0x'' @ show_x (t_request r) @ '' arg=0x'' @ show_x address) r"
  have d: "same_header r ?d \<and> (wf_record r \<longrightarrow> wf_record ?d)"
    by (simp add: with_detail_def same_header_def wf_record_def)
  have "first_decoded ?ds ?d = ?d \<or> Some (first_decoded ?ds ?d) \<in> set ?ds"
    by (rule first_decoded_cases)
  moreover have "decode_record mem request address r = first_decoded ?ds ?d"
    using False by (simp add: decode_record_def)
  ultimately show ?thesis
    using d by (auto dest!: decode_renders [OF sym])
qed

lemmas decode_record_header [simp] = same_headerD [OF decode_record_renders [THEN conjunct1]]

end
