(* ===== verification/Drm_Trace_Claims.thy ===== *)
theory Drm_Trace_Claims
  imports Drm_Trace_Correct Drm_Decode_Correct
begin

section \<open>Properties of the DRM tracer\<close>

text \<open>
  The claims about \<open>src/native/drm-trace/drmtrace.c\<close>: fail-closed tracing, transparency
  and silence in the steady state, the bracket of records around a traced request, the
  same-mode fallback, the suppression of connector-property no-ops and what the
  interposed \<open>drmModeGetProperty\<close> hides.
\<close>

subsection \<open>The records around one request\<close>

text \<open>\<open>details_of n\<close>: only detail records of sequence number \<open>n\<close> are appended.\<close>

definition details_of :: "u32 \<Rightarrow> tracer \<Rightarrow> tracer \<Rightarrow> bool" where
  "details_of n s s' \<longleftrightarrow>
     (\<exists>es. x_log s' = x_log s @ es \<and>
        (\<forall>e \<in> set es. \<exists>r ok. e = Recorded r ok \<and> t_phase r = HDMI_LOS_TRACE_DETAIL \<and> t_sequence r = n))"

lemma details_of_preorder: "reflp (details_of n)" "transp (details_of n)"
  by (fastforce simp: details_of_def reflp_def transp_def)+

lemma details_of_unlogged: "x_log s' = x_log s \<Longrightarrow> details_of n s s'"
  by (simp add: details_of_def)

lemma exchange_or_exit_logs:
  "\<exists>ok. x_log (final_state (exchange_or_exit os record s)) = x_log s @ [Recorded record ok] \<and>
        (ok \<longleftrightarrow> (\<exists>s'. exchange_or_exit os record s = Done () s'))"
  by (auto simp: exchange_or_exit_def exchange_record_def prog_defs log_event_def Let_def
      split: option.splits)

lemma exchange_or_exit_Done:
  assumes "exchange_or_exit os record s = Done x s'"
  shows "x_log s' = x_log s @ [Recorded record True]"
  using exchange_or_exit_logs [of os "record" s] assms by auto

lemma initialize_record_fields [simp]:
  "t_phase (initialize_record os phase n fd code name) = phase"
  "t_sequence (initialize_record os phase n fd code name) = n"
  "t_request (initialize_record os phase n fd code name) = code"
  "t_fd (initialize_record os phase n fd code name) = word_of_int fd"
  by (simp_all add: initialize_record_def)

lemma with_detail_fields [simp]:
  "t_phase (with_detail d r) = t_phase r" "t_sequence (with_detail d r) = t_sequence r"
  by (simp_all add: with_detail_def)

lemma details_of_emit_detail [ends_intros]:
  "ends (details_of n) (emit_detail os n fd request name a0 a1 a2 a3 detail)"
  unfolding ends_def
proof
  fix s
  show "details_of n s (final_state (emit_detail os n fd request name a0 a1 a2 a3 detail s))"
    using exchange_or_exit_logs [of os _ s] unfolding emit_detail_def details_of_def by fastforce
qed

lemma details_of_details [ends_intros]:
  "ends (details_of n) (emit_setcrtc_details os n fd request argument)"
  "ends (details_of n) (emit_atomic_details os n fd request argument)"
  "ends (details_of n) (emit_object_property_details os n fd request argument)"
  unfolding emit_setcrtc_details_def emit_atomic_details_def emit_object_property_details_def
    store_connector_property_def
  by (intro ends_intros details_of_preorder; simp add: details_of_unlogged)+

text \<open>Only \<open>next_sequence\<close> moves the sequence number.\<close>

definition same_sequence :: "tracer \<Rightarrow> tracer \<Rightarrow> bool" where
  "same_sequence s s' \<longleftrightarrow> g_sequence s' = g_sequence s"

lemma same_sequence_preorder: "reflp same_sequence" "transp same_sequence"
  by (simp_all add: same_sequence_def reflp_def transp_def)

lemma same_sequence_exchange [ends_intros]: "ends same_sequence (exchange_or_exit os record)"
  by (auto simp: ends_def exchange_or_exit_def exchange_record_def same_sequence_def prog_defs log_event_def Let_def
      split: option.splits)

lemma same_sequence_details [ends_intros]:
  "ends same_sequence (emit_setcrtc_details os n fd request argument)"
  "ends same_sequence (emit_atomic_details os n fd request argument)"
  "ends same_sequence (emit_object_property_details os n fd request argument)"
  unfolding emit_setcrtc_details_def emit_atomic_details_def emit_object_property_details_def
    emit_detail_def store_connector_property_def
  by (intro ends_intros same_sequence_preorder; simp add: same_sequence_def)+

lemma same_sequence_Done: "ends same_sequence m \<Longrightarrow> m s = Done x s' \<Longrightarrow> g_sequence s' = g_sequence s"
  using endsD [of same_sequence m s] by (simp add: same_sequence_def)

text \<open>
  \<open>bracketed\<close>: an acknowledged BEFORE record with its details, the request, and an
  acknowledged AFTER record carrying the result, all under one sequence number.
\<close>

definition detail_records :: "u32 \<Rightarrow> trace_event list \<Rightarrow> bool" where
  "detail_records n es \<longleftrightarrow>
     (\<forall>e \<in> set es. \<exists>r. e = Recorded r True \<and> t_phase r = HDMI_LOS_TRACE_DETAIL \<and> t_sequence r = n)"

definition bracketed :: "u32 \<Rightarrow> u64 \<Rightarrow> int \<Rightarrow> int \<Rightarrow> trace_event \<Rightarrow> trace_event list \<Rightarrow> bool" where
  "bracketed n code result error call es \<longleftrightarrow>
     (\<exists>b a ds ds'.
        es = Recorded b True # ds @ call # Recorded a True # ds' \<and>
        detail_records n ds \<and> detail_records n ds' \<and>
        t_phase b = HDMI_LOS_TRACE_BEFORE \<and> t_sequence b = n \<and> t_request b = code \<and>
        t_phase a = HDMI_LOS_TRACE_AFTER \<and> t_sequence a = n \<and> t_request a = code \<and>
        t_result a = word_of_int result \<and> t_error a = word_of_int error)"

lemma bracketedI:
  assumes "es = Recorded b True # ds @ call # Recorded a True # ds'"
    "detail_records n ds" "detail_records n ds'"
    "t_phase b = HDMI_LOS_TRACE_BEFORE" "t_sequence b = n" "t_request b = code"
    "t_phase a = HDMI_LOS_TRACE_AFTER" "t_sequence a = n" "t_request a = code"
    "t_result a = word_of_int result" "t_error a = word_of_int error"
  shows "bracketed n code result error call es"
  using assms unfolding bracketed_def by blast

lemma details_of_acked:
  assumes "details_of n s s'" and "all_acked (x_log s')"
  obtains es where "x_log s' = x_log s @ es" "detail_records n es"
proof -
  from assms(1) obtain es where es: "x_log s' = x_log s @ es"
    "\<forall>e \<in> set es. \<exists>r ok. e = Recorded r ok \<and> t_phase r = HDMI_LOS_TRACE_DETAIL \<and> t_sequence r = n"
    by (auto simp: details_of_def)
  have "detail_records n es"
    unfolding detail_records_def
  proof
    fix e assume e: "e \<in> set es"
    with es(2) obtain r ok where r: "e = Recorded r ok" "t_phase r = HDMI_LOS_TRACE_DETAIL" "t_sequence r = n"
      by blast
    from e es(1) assms(2) have "\<not> unacked e" by (auto simp: all_acked_def)
    with r show "\<exists>r. e = Recorded r True \<and> t_phase r = HDMI_LOS_TRACE_DETAIL \<and> t_sequence r = n"
      by auto
  qed
  with es(1) show ?thesis by (rule that)
qed

lemma closes_Done: "closes m \<Longrightarrow> m s = Done x s' \<Longrightarrow> all_acked (x_log s) \<Longrightarrow> all_acked (x_log s')"
  by (auto simp: closes_def dest!: spec [of _ s])

lemma closes_close_request [closes_intros]:
  "closes (close_request os tr n fd request argument result e)"
  unfolding close_request_def by (intro closes_intros)

lemma trace_before_Done:
  assumes "trace_before os fd request argument s = Done n s'" and "all_acked (x_log s)"
  obtains b ds where "n = g_sequence s" "x_log s' = x_log s @ Recorded b True # ds"
    "detail_records n ds" "t_phase b = HDMI_LOS_TRACE_BEFORE" "t_sequence b = n"
    "t_request b = os_request_code os request" "g_sequence s' = g_sequence s + 1"
proof -
  define details where "details =
    (if request = DRM_IOCTL_MODE_SETCRTC then emit_setcrtc_details os (g_sequence s) fd request argument
     else if request = DRM_IOCTL_MODE_ATOMIC then emit_atomic_details os (g_sequence s) fd request argument
     else ret ())"
  define b where "b = decode_record (x_mem s) request argument
    (initialize_record os HDMI_LOS_TRACE_BEFORE (g_sequence s) fd (os_request_code os request)
      (request_name request))"
  from assms(1) obtain s1 where n: "n = g_sequence s"
    and rec: "exchange_or_exit os b (s\<lparr>g_sequence := g_sequence s + 1\<rparr>) = Done () s1"
    and det: "details s1 = Done () s'"
    unfolding trace_before_def next_sequence_def b_def details_def
    by (auto simp: andthen_Done bnd_Done gets_def modify_def ret_def)
  have "closes details" "ends (details_of (g_sequence s)) details" and seq: "ends same_sequence details"
    unfolding details_def by (intro closes_intros ends_intros details_of_preorder same_sequence_preorder)+
  moreover have log1: "x_log s1 = x_log s @ [Recorded b True]"
    using exchange_or_exit_Done [OF rec] by simp
  moreover have "all_acked (x_log s1)"
    using log1 assms(2) by (auto simp: all_acked_def)
  ultimately obtain ds where "x_log s' = x_log s1 @ ds" "detail_records (g_sequence s) ds"
    using det endsD [of "details_of (g_sequence s)" details s1]
    by (auto dest: closes_Done elim!: details_of_acked)
  moreover have "g_sequence s' = g_sequence s + 1"
    using same_sequence_Done [OF same_sequence_exchange rec] same_sequence_Done [OF seq det] by simp
  ultimately show ?thesis
    using log1 n by (intro that [of b ds]) (simp_all add: b_def)
qed

lemma close_request_Done:
  assumes "close_request os True n fd request argument result e s = Done x s'" and "all_acked (x_log s)"
  obtains a ds where "x_log s' = x_log s @ Recorded a True # ds" "detail_records n ds"
    "t_phase a = HDMI_LOS_TRACE_AFTER" "t_sequence a = n" "t_request a = os_request_code os request"
    "t_result a = word_of_int result" "t_error a = word_of_int (if result < 0 then e else 0)"
    "g_sequence s' = g_sequence s"
proof -
  define details where "details =
    (if 0 \<le> result \<and> request = DRM_IOCTL_MODE_OBJ_GETPROPERTIES
     then emit_object_property_details os n fd request argument else ret ())"
  define a where "a = decode_record (x_mem s) request argument
    ((initialize_record os HDMI_LOS_TRACE_AFTER n fd (os_request_code os request)
      (request_name request))
      \<lparr>t_result := word_of_int result, t_error := word_of_int (if result < 0 then e else 0)\<rparr>)"
  from assms(1) obtain s1 where
    rec: "exchange_or_exit os a s = Done () s1" and det: "details s1 = Done () s'"
    unfolding close_request_def trace_after_def a_def details_def
    by (auto simp: andthen_Done bnd_Done gets_def)
  have "closes details" "ends (details_of n) details" and seq: "ends same_sequence details"
    unfolding details_def by (intro closes_intros ends_intros details_of_preorder same_sequence_preorder)+
  moreover have log1: "x_log s1 = x_log s @ [Recorded a True]"
    using exchange_or_exit_Done [OF rec] by simp
  moreover have "all_acked (x_log s1)"
    using log1 assms(2) by (auto simp: all_acked_def)
  ultimately obtain ds where "x_log s' = x_log s1 @ ds" "detail_records n ds"
    using det endsD [of "details_of n" details s1]
    by (auto dest: closes_Done elim!: details_of_acked)
  moreover have "g_sequence s' = g_sequence s"
    using same_sequence_Done [OF same_sequence_exchange rec] same_sequence_Done [OF seq det] by simp
  ultimately show ?thesis
    using log1 by (intro that [of a ds]) (simp_all add: a_def initialize_record_def)
qed

subsection \<open>Returning under a relay that acknowledges\<close>

definition returns :: "('s, 'a) prog \<Rightarrow> bool" where
  "returns m \<longleftrightarrow> (\<forall>s. \<exists>x s'. m s = Done x s')"

named_theorems returns_intros

lemma returns_basic [returns_intros]: "returns (ret x)" "returns (gets f)" "returns (modify g)"
  by (simp_all add: returns_def prog_defs)

lemma returns_bnd [returns_intros]: "returns m \<Longrightarrow> (\<And>x. returns (f x)) \<Longrightarrow> returns (bnd m f)"
  unfolding returns_def by (fastforce simp: bnd_Done)

lemma returns_andthen [returns_intros]: "returns m \<Longrightarrow> returns n \<Longrightarrow> returns (andthen m n)"
  by (simp add: andthen_def returns_bnd)

lemma returns_cases [returns_intros]:
  "returns m \<Longrightarrow> returns n \<Longrightarrow> returns (if b then m else n)"
  "returns m \<Longrightarrow> (\<And>x. returns (f x)) \<Longrightarrow> returns (case v of None \<Rightarrow> m | Some x \<Rightarrow> f x)"
  "(\<And>x y. returns (g x y)) \<Longrightarrow> returns (case w of (x, y) \<Rightarrow> g x y)"
  "(\<And>x. returns (h x)) \<Longrightarrow> (\<And>y. returns (k y)) \<Longrightarrow> returns (case u of Inl x \<Rightarrow> h x | Inr y \<Rightarrow> k y)"
  by (auto split: option.split prod.split sum.split)

lemma returns_let [returns_intros]: "returns (f x) \<Longrightarrow> returns (let y = x in f y)"
  by simp

lemma returns_for_each [returns_intros]: "(\<And>x. returns (f x)) \<Longrightarrow> returns (for_each xs f)"
  by (induction xs) (auto intro: returns_intros)

definition acknowledges :: "os \<Rightarrow> bool" where
  "acknowledges os \<longleftrightarrow>
     (\<forall>n r. wf_record r \<longrightarrow> (\<exists>steady. exchange_verdict (os_exchange os n r) r = Some (True, steady)))"

lemma wf_initialize_record [simp]:
  "wf_record (initialize_record os phase n fd code name)"
  by (simp add: wf_record_def initialize_record_def zero_record_def zero_buf_def)

lemma wf_with_detail [simp]: "wf_record r \<Longrightarrow> wf_record (with_detail d r)"
  by (simp add: wf_record_def with_detail_def)

lemma wf_decode_record [simp]: "wf_record r \<Longrightarrow> wf_record (decode_record mem request argument r)"
  using decode_record_renders by blast

lemma wf_update_record [simp]:
  "wf_record (r\<lparr>t_argument := [a, b, c, d]\<rparr>) \<longleftrightarrow> wf_record (r\<lparr>t_argument := [0, 0, 0, 0]\<rparr>)"
  "wf_record (r\<lparr>t_result := x, t_error := y\<rparr>) \<longleftrightarrow> wf_record r"
  by (simp_all add: wf_record_def)

lemma returns_exchange_or_exit:
  "acknowledges os \<Longrightarrow> wf_record r \<Longrightarrow> returns (exchange_or_exit os r)"
  unfolding returns_def
proof
  fix s :: tracer
  assume "acknowledges os" "wf_record r"
  then obtain steady
    where "exchange_verdict (os_exchange os (x_exchanges s) r) r = Some (True, steady)"
    by (auto simp: acknowledges_def)
  then show "\<exists>x s'. exchange_or_exit os r s = Done x s'"
    by (simp add: exchange_or_exit_def exchange_record_def prog_defs Let_def)
qed

lemma returns_emit_detail [returns_intros]:
  "acknowledges os \<Longrightarrow> returns (emit_detail os n fd request name a0 a1 a2 a3 detail)"
  unfolding emit_detail_def
  by (intro returns_exchange_or_exit wf_with_detail)
    (simp_all add: wf_record_def initialize_record_def zero_record_def zero_buf_def)

lemma returns_syscalls [returns_intros]:
  "returns (syscall_ioctl os fd request argument)"
  "returns (syscall_getcrtc os fd crtc_id)"
  "returns (syscall_page_flip os fd crtc_id fb_id)"
  by (auto simp: returns_def syscall_ioctl_def syscall_getcrtc_def syscall_page_flip_def Let_def
      split: prod.split)

lemma returns_verify_flip [returns_intros]: "returns (verify_flip os n fd requested)"
  by (induction n) (auto intro!: returns_intros)

lemma returns_fallback [returns_intros]:
  "acknowledges os \<Longrightarrow> returns (try_same_mode_pageflip os fd argument n)"
  unfolding try_same_mode_pageflip_def flip_same_mode_def commit_flip_def reject_fallback_def
    emit_mode_mismatch_def
  by (intro returns_intros)

lemma returns_details [returns_intros]:
  assumes "acknowledges os"
  shows "returns (emit_setcrtc_details os n fd request argument)"
    "returns (emit_atomic_details os n fd request argument)"
    "returns (emit_object_property_details os n fd request argument)"
  unfolding emit_setcrtc_details_def emit_atomic_details_def emit_object_property_details_def
    store_connector_property_def
  by (intro returns_intros assms)+

lemma returns_trace_steps [returns_intros]:
  assumes "acknowledges os"
  shows "returns (trace_before os fd request argument)"
    "returns (trace_after os n fd request argument result error)"
  unfolding trace_before_def trace_after_def next_sequence_def
  by (intro returns_intros returns_exchange_or_exit assms; simp)+

lemma returns_ioctl:
  assumes "acknowledges os"
  shows "returns (ioctl os fd request argument)"
  unfolding ioctl_def suppress_noop_def perform_request_def close_request_def leave_ioctl_def
  by (intro returns_intros assms)

text \<open>A relay that answers every record with an acknowledgement, for concrete runs.\<close>

definition acking_relay :: "u32 \<Rightarrow> hdmi_los_trace_record \<Rightarrow> exchange" where
  "acking_relay flags r =
     \<lparr>io_send = [CallErr EINTR, CallOk (int TRACE_RECORD_SIZE)],
      io_poll = [CallOk (1, POLLIN)],
      io_recv = [CallOk (bytes_of_record (r\<lparr>t_phase := HDMI_LOS_TRACE_ACK,
        t_magic := HDMI_LOS_TRACE_MAGIC, t_version := HDMI_LOS_TRACE_VERSION,
        t_flags := flags\<rparr>))]\<rparr>"

lemma acking_relay_verdict:
  assumes "wf_record r"
  shows "exchange_verdict (acking_relay flags r) r =
    Some (True, has_bits flags HDMI_LOS_TRACE_ACK_STEADY)"
proof -
  have "wf_record (r\<lparr>t_phase := HDMI_LOS_TRACE_ACK, t_magic := HDMI_LOS_TRACE_MAGIC,
      t_version := HDMI_LOS_TRACE_VERSION, t_flags := flags\<rparr>)" (is "wf_record ?ack")
    using assms by (simp add: wf_record_def)
  then show ?thesis
    by (simp add: exchange_verdict_def acking_relay_def wait_readable_def valid_ack_def
        has_bits_def record_roundtrip length_bytes_of_record)
qed

lemma acknowledges_acking: "acknowledges (os\<lparr>os_exchange := \<lambda>n. acking_relay flags\<rparr>)"
  by (simp add: acknowledges_def acking_relay_verdict)

subsection \<open>A process under trace\<close>

text \<open>
  The interposed calls of one process, in the order it makes them, after the constructor
  of the library ran.
\<close>

datatype process_call = Call_ioctl int drm_request u64 | Call_get_property int u32

fun interposed :: "os \<Rightarrow> process_call \<Rightarrow> unit tprog" where
  "interposed os (Call_ioctl fd request argument) = andthen (ioctl os fd request argument) (ret ())"
| "interposed os (Call_get_property fd property_id) =
     andthen (drmModeGetProperty os fd property_id) (ret ())"

definition traced_process :: "os \<Rightarrow> process_call list \<Rightarrow> unit tprog" where
  "traced_process os calls =
     andthen (hdmi_los_trace_initialize os) (for_each calls (interposed os))"

definition load_state :: "memory \<Rightarrow> tracer" where
  "load_state mem =
     \<lparr>g_trace_fd = - 1, g_sequence = 1, g_trace_steady = False,
      g_connector_properties = empty_cache, g_suppress_connector_property_noops = False,
      g_ignore_xorg_bitmask_properties = False, g_ignore_xorg_pointer_properties = False,
      g_same_mode_pageflip_fallback = False, g_expected_connector = 0, g_expected_crtc = 0,
      g_in_trace = False, g_real_drm_mode_get_property = False,
      g_real_drm_mode_free_property = False, g_errno = 0, x_mem = mem, x_exchanges = 0,
      x_calls = 0, x_log = []\<rparr>"

lemma closes_interposed: "closes (interposed os c)"
  by (cases c) (simp_all add: closes_andthen closes_ioctl closes_drmModeGetProperty closes_ret)

text \<open>
  C1. Tracing is fail-closed over the whole life of the process: whatever the relay and
  the kernel do, and whatever calls the process makes after the library is loaded, either
  every record sent so far was acknowledged and the process goes on, or the process exits
  with status 125, or blocks, at the very first record that was not acknowledged (before
  anything at all was done, if the descriptor it was given is malformed). In particular no
  request reaches the kernel after an unacknowledged record.
\<close>

theorem traced_process_fails_closed:
  "case traced_process os calls (load_state mem) of
     Done x s' \<Rightarrow> all_acked (x_log s')
   | Exited c s' \<Rightarrow> c = 125 \<and> (x_log s' = [] \<or> stopped_at_record (x_log s'))
   | Blocked s' \<Rightarrow> stopped_at_record (x_log s')"
proof -
  have session: "closes (for_each calls (interposed os))"
    by (intro closes_intros closes_interposed)
  have start: "all_acked (x_log (load_state mem))" "x_log (load_state mem) = []"
    by (simp_all add: load_state_def all_acked_def)
  show ?thesis
  proof (cases "hdmi_los_trace_initialize os (load_state mem) = exit_process 125 (load_state mem)")
    case True
    then show ?thesis using start by (simp add: traced_process_def prog_defs)
  next
    case False
    have exch: "closes (andthen (modify f) (exchange_or_exit os r))"
      if "\<And>s. x_log (f s) = x_log s" for f r
      using that by (intro closes_intros)
    have "case hdmi_los_trace_initialize os (load_state mem) of
        Done x s' \<Rightarrow> all_acked (x_log s')
      | Exited c s' \<Rightarrow> c = 125 \<and> stopped_at_record (x_log s')
      | Blocked s' \<Rightarrow> stopped_at_record (x_log s')"
      using False start(1) exch
      by (auto simp: hdmi_los_trace_initialize_def ret_def closes_def Let_def
          split: option.splits prod.splits)
    then show ?thesis
      using session
      by (cases "hdmi_los_trace_initialize os (load_state mem)")
        (auto simp: traced_process_def andthen_def bnd_def closes_def split: outcome.splits)
  qed
qed

subsection \<open>Concrete runs\<close>

definition sample_memory :: memory where
  "sample_memory =
     \<lparr>rd_get_cap = \<lambda>a. if a = 64 then Some (1, 1) else None, rd_wait_vblank = \<lambda>a. None,
      rd_crtc_get_sequence = \<lambda>a. None, rd_crtc_queue_sequence = \<lambda>a. None,
      rd_set_client_cap = \<lambda>a. None, rd_card_res = \<lambda>a. None, rd_get_connector = \<lambda>a. None,
      rd_get_encoder = \<lambda>a. None, rd_crtc = \<lambda>a. None, rd_get_plane_res = \<lambda>a. None,
      rd_get_plane = \<lambda>a. None, rd_obj_get_properties = \<lambda>a. None, rd_get_property = \<lambda>a. None,
      rd_set_property = \<lambda>a. None, rd_get_blob = \<lambda>a. None, rd_create_dumb = \<lambda>a. None,
      rd_map_dumb = \<lambda>a. None, rd_destroy_dumb = \<lambda>a. None, rd_fb_cmd = \<lambda>a. None,
      rd_fb_cmd2 = \<lambda>a. None, rd_cursor = \<lambda>a. None, rd_cursor2 = \<lambda>a. None,
      rd_page_flip = \<lambda>a. None, rd_atomic = \<lambda>a. None, rd_create_blob = \<lambda>a. None,
      rd_u32 = \<lambda>a. None, rd_u32s = \<lambda>a n. None, rd_u64s = \<lambda>a n. None\<rparr>"

text \<open>A kernel that refuses everything with the given errno, and a relay that acknowledges.\<close>

definition sample_os :: "int \<Rightarrow> os" where
  "sample_os e =
     \<lparr>os_exchange = \<lambda>n. acking_relay 0,
      os_ioctl = \<lambda>n fd request argument mem. (if e = 0 then 0 else - 1, e, mem),
      os_getcrtc = \<lambda>n fd crtc_id. Inl e, os_page_flip = \<lambda>n fd crtc_id fb_id. Some e,
      os_request_code = \<lambda>request. 0xC010640C, os_pid = 7, os_tid = 7,
      os_dlsym = \<lambda>n name. True, os_get_property = \<lambda>n fd property_id. ([], None),
      os_getenv = \<lambda>name. None\<rparr>"

definition sample_tracer :: tracer where
  "sample_tracer = (load_state sample_memory)\<lparr>g_trace_fd := 5\<rparr>"

lemma acknowledges_sample: "acknowledges (sample_os e)"
  by (simp add: acknowledges_def sample_os_def acking_relay_verdict)

lemma sample_ioctl_returns:
  obtains r s' where "ioctl (sample_os e) fd request argument s = Done r s'"
  using returns_ioctl [OF acknowledges_sample] unfolding returns_def by blast

lemma decide_perform:
  "\<not> suppresses s request argument \<Longrightarrow>
   bnd (gets (should_suppress_connector_property_noop argument)) (\<lambda>(noop, v).
     if request = DRM_IOCTL_MODE_SETPROPERTY \<and> noop
     then suppress_noop os tr n fd request argument (the v)
     else perform_request os tr n fd request argument) s =
   perform_request os tr n fd request argument s"
  by (auto simp: prog_eval suppresses_def split_def)

lemma decide_suppress:
  "suppresses s request argument \<Longrightarrow>
   bnd (gets (should_suppress_connector_property_noop argument)) (\<lambda>(noop, v).
     if request = DRM_IOCTL_MODE_SETPROPERTY \<and> noop
     then suppress_noop os tr n fd request argument (the v)
     else perform_request os tr n fd request argument) s =
   suppress_noop os tr n fd request argument
     (the (snd (should_suppress_connector_property_noop argument s))) s"
  by (auto simp: prog_eval suppresses_def split_def)

subsection \<open>Transparency\<close>

text \<open>
  C8. A request that is neither suppressed nor a mode set refused with EINVAL is
  transparent, traced or not: it reaches the kernel exactly once and unchanged, nothing
  else does, and the process sees exactly the kernel's result, the kernel's writes to
  memory and, on failure, the kernel's errno. The reentrancy guard is left as it was
  found.
\<close>

theorem ioctl_transparent:
  assumes "ioctl os fd request argument s = Done r s'"
    and "os_ioctl os (x_calls s) fd request argument (x_mem s) = (k, e, mem)"
    and "\<not> suppresses s request argument"
    and "\<not> (k < 0 \<and> e = EINVAL \<and> request = DRM_IOCTL_MODE_SETCRTC)"
  shows "r = k \<and> x_mem s' = mem \<and> (k < 0 \<longrightarrow> g_errno s' = e) \<and>
    calls_made s' = calls_made s @ [Ioctl fd request argument k] \<and>
    g_in_trace s' = g_in_trace s"
proof (cases "intercepts s request")
  case False
  then show ?thesis
    using assms(1,2) ioctl_passes_through
    by (auto simp: syscall_ioctl_def calls_made_def log_event_def)
next
  case True
  then obtain n s1 where u: "undisturbed (s\<lparr>g_in_trace := True\<rparr>) s1"
    and run: "perform_request os (should_trace_request request s) n fd request argument s1 = Done r s'"
    using assms(1,3) by (auto elim!: ioctl_intercepted_Done)
  have "os_ioctl os (x_calls s1) fd request argument (x_mem s1) = (k, e, mem)"
    using u assms(2) by (simp add: undisturbed_def)
  from perform_request_Done [OF this assms(4) run] True u show ?thesis
    by (auto simp: undisturbed_def calls_made_def intercepts_def)
qed

theorem ioctl_transparent_witness:
  "\<exists>s'. ioctl (sample_os EAGAIN) 9 DRM_IOCTL_GET_CAP 64 sample_tracer = Done (- 1) s' \<and>
     g_errno s' = EAGAIN \<and> calls_made s' = [Ioctl 9 DRM_IOCTL_GET_CAP 64 (- 1)]"
proof -
  obtain r s' where run: "ioctl (sample_os EAGAIN) 9 DRM_IOCTL_GET_CAP 64 sample_tracer = Done r s'"
    by (rule sample_ioctl_returns)
  have "os_ioctl (sample_os EAGAIN) (x_calls sample_tracer) 9 DRM_IOCTL_GET_CAP 64
      (x_mem sample_tracer) = (- 1, EAGAIN, x_mem sample_tracer)"
    by (simp add: sample_os_def)
  from ioctl_transparent [OF run this] run show ?thesis
    by (simp add: suppresses_def calls_made_def sample_tracer_def load_state_def)
qed

subsection \<open>Silence in the steady state\<close>

lemma ioctl_untraced:
  assumes "intercepts s request" and "g_trace_steady s" and "request \<noteq> DRM_IOCTL_MODE_SETCRTC"
    and "\<not> suppresses s request argument"
    and "os_ioctl os (x_calls s) fd request argument (x_mem s) = (k, e, mem)"
  shows "ioctl os fd request argument s =
    Done k (s\<lparr>x_mem := mem, x_calls := x_calls s + 1, g_errno := (if k < 0 then e else 0),
      x_log := x_log s @ [Ioctl fd request argument k]\<rparr>)"
proof -
  let ?s = "s\<lparr>g_in_trace := True\<rparr>"
  have quietly: "\<not> should_trace_request request s"
    using assms(2,3) by (simp add: should_trace_request_def)
  have call: "os_ioctl os (x_calls ?s) fd request argument (x_mem ?s) = (k, e, mem)"
    using assms(5) by simp
  have "\<not> suppresses ?s request argument"
    using assms(4) by simp
  then have "ioctl os fd request argument s = perform_request os False 0 fd request argument ?s"
    using quietly by (simp add: ioctl_intercepted [OF assms(1)] bnd_ret decide_perform)
  also have "\<dots> = Done k (s\<lparr>x_mem := mem, x_calls := x_calls s + 1,
      g_errno := (if k < 0 then e else 0), x_log := x_log s @ [Ioctl fd request argument k]\<rparr>)"
    using assms(1,3) by (subst perform_request_plain [OF call])
      (simp_all add: close_request_def prog_eval leave_ioctl_def log_event_def intercepts_def ret_def)
  finally show ?thesis .
qed

text \<open>
  C9. Once the relay announced the steady state, an intercepted request other than a mode
  set that is not suppressed costs exactly one system call and no exchange with the relay:
  it always returns, the log grows by that one call, and sequence number, cache and
  exchange counter stay as they are.
\<close>

theorem ioctl_steady_bypass:
  assumes "intercepts s request" and "g_trace_steady s" and "request \<noteq> DRM_IOCTL_MODE_SETCRTC"
    and "\<not> suppresses s request argument"
    and "os_ioctl os (x_calls s) fd request argument (x_mem s) = (k, e, mem)"
  shows "ioctl os fd request argument s =
    Done k (s\<lparr>x_mem := mem, x_calls := x_calls s + 1, g_errno := (if k < 0 then e else 0),
      x_log := x_log s @ [Ioctl fd request argument k]\<rparr>)"
  by (rule ioctl_untraced [OF assms])

theorem ioctl_steady_bypass_witness:
  "\<exists>s'. ioctl (sample_os 0) 9 DRM_IOCTL_MODE_PAGE_FLIP 64 (sample_tracer\<lparr>g_trace_steady := True\<rparr>) =
      Done 0 s' \<and> x_exchanges s' = 0 \<and> x_log s' = [Ioctl 9 DRM_IOCTL_MODE_PAGE_FLIP 64 0]"
proof -
  let ?s = "sample_tracer\<lparr>g_trace_steady := True\<rparr>"
  have "intercepts ?s DRM_IOCTL_MODE_PAGE_FLIP" "g_trace_steady ?s"
    "\<not> suppresses ?s DRM_IOCTL_MODE_PAGE_FLIP 64"
    "os_ioctl (sample_os 0) (x_calls ?s) 9 DRM_IOCTL_MODE_PAGE_FLIP 64 (x_mem ?s) = (0, 0, x_mem ?s)"
    by (simp_all add: intercepts_def suppresses_def sample_tracer_def load_state_def sample_os_def)
  from ioctl_steady_bypass [OF this(1,2) _ this(3,4)] show ?thesis
    by (simp add: sample_tracer_def load_state_def)
qed

subsection \<open>The bracket of records\<close>



subsection \<open>The same-mode fallback\<close>

text \<open>
  What a successful fallback established: the request named the expected CRTC and exactly
  the expected connector, the display already ran the requested timing at the requested
  position, only the framebuffer was flipped, and a readback showed the requested
  framebuffer and timing on the CRTC. The readbacks are the last calls made.
\<close>

definition scans_out :: "os \<Rightarrow> nat \<Rightarrow> int \<Rightarrow> drm_mode_crtc \<Rightarrow> bool" where
  "scans_out os n fd requested \<longleftrightarrow>
     (\<exists>c. os_getcrtc os n fd (cr_crtc_id requested) = Inr c \<and> cr_fb_id c = cr_fb_id requested \<and>
        cr_mode_valid c \<noteq> 0 \<and> cr_mode c = cr_mode requested)"

definition flipped :: "os \<Rightarrow> int \<Rightarrow> u64 \<Rightarrow> tracer \<Rightarrow> tracer \<Rightarrow> bool" where
  "flipped os fd argument s s' \<longleftrightarrow>
     (\<exists>requested current tries.
        rd_crtc (x_mem s) argument = Some requested \<and>
        cr_crtc_id requested = g_expected_crtc s \<and> cr_count_connectors requested = 1 \<and>
        rd_u32 (x_mem s) (cr_set_connectors_ptr requested) = Some (g_expected_connector s) \<and>
        os_getcrtc os (x_calls s) fd (cr_crtc_id requested) = Inr current \<and>
        cr_mode current = cr_mode requested \<and> cr_x current = cr_x requested \<and>
        cr_y current = cr_y requested \<and>
        os_page_flip os (x_calls s + 1) fd (cr_crtc_id requested) (cr_fb_id requested) = None \<and>
        1 \<le> tries \<and> tries \<le> 20 \<and>
        scans_out os (x_calls s + 1 + tries) fd requested \<and>
        calls_made s' = calls_made s @
          [GetCrtc fd (cr_crtc_id requested), PageFlip fd (cr_crtc_id requested) (cr_fb_id requested)] @
          replicate tries (GetCrtc fd (cr_crtc_id requested)))"

lemma verified_scanout_scans_out:
  "verified_scanout requested (os_getcrtc os n fd (cr_crtc_id requested)) \<longleftrightarrow>
     scans_out os n fd requested"
  by (auto simp: verified_scanout_def scans_out_def same_mode_timing_eq split: sum.splits)

lemma calls_made_getcrtc:
  "syscall_getcrtc os fd crtc s = Done a s' \<Longrightarrow>
     os_getcrtc os (x_calls s) fd crtc = a \<and> x_calls s' = x_calls s + 1 \<and>
     calls_made s' = calls_made s @ [GetCrtc fd crtc]"
  by (auto simp: syscall_getcrtc_def Let_def calls_made_def log_event_def)

lemma calls_made_page_flip:
  "syscall_page_flip os fd crtc fb s = Done a s' \<Longrightarrow>
     a = os_page_flip os (x_calls s) fd crtc fb \<and> x_calls s' = x_calls s + 1 \<and>
     calls_made s' = calls_made s @ [PageFlip fd crtc fb]"
  by (auto simp: syscall_page_flip_def Let_def calls_made_def log_event_def)

lemma verify_flip_True:
  "verify_flip os n fd requested s = Done True s' \<Longrightarrow>
     \<exists>tries. 1 \<le> tries \<and> tries \<le> n \<and> scans_out os (x_calls s + tries - 1) fd requested \<and>
       calls_made s' = calls_made s @ replicate tries (GetCrtc fd (cr_crtc_id requested))"
proof (induction n arbitrary: s)
  case 0
  then show ?case by (simp add: ret_def)
next
  case (Suc n)
  then obtain a s1 where call: "syscall_getcrtc os fd (cr_crtc_id requested) s = Done a s1"
    and rest: "(if verified_scanout requested a then ret True else verify_flip os n fd requested) s1 =
      Done True s'"
    by (auto simp: bnd_Done)
  note step = calls_made_getcrtc [OF call]
  show ?case
  proof (cases "verified_scanout requested a")
    case True
    with rest step show ?thesis
      by (intro exI [of _ 1]) (auto simp: ret_def verified_scanout_scans_out)
  next
    case False
    with rest Suc.IH [of s1] obtain tries where "1 \<le> tries" "tries \<le> n"
      "scans_out os (x_calls s1 + tries - 1) fd requested"
      "calls_made s' = calls_made s1 @ replicate tries (GetCrtc fd (cr_crtc_id requested))"
      by auto
    with step show ?thesis by (intro exI [of _ "Suc tries"]) auto
  qed
qed

lemma emit_then_ret_Done:
  "andthen (emit_detail os n fd request name a0 a1 a2 a3 detail) (ret v) s = Done r s' \<Longrightarrow>
     r = v \<and> undisturbed s s'"
  using undisturbed_Done [OF undisturbed_emit_detail] by (auto simp: andthen_Done ret_def)

lemma reject_fallback_Done:
  "reject_fallback os n fd a0 a1 a2 a3 detail s = Done r s' \<Longrightarrow> r = 0"
  unfolding reject_fallback_def by (drule emit_then_ret_Done) simp

text \<open>A failed attempt leaves the display alone, except where the flip itself was made.\<close>

lemma emit_mode_mismatch_Done:
  "andthen (emit_mode_mismatch os n fd cur req) (ret v) s = Done r s' \<Longrightarrow> r = v"
  by (auto simp: andthen_Done ret_def)

lemma commit_flip_positive:
  assumes "commit_flip os fd n requested current s = Done r s'" and "0 < r"
  shows "\<exists>tries. os_page_flip os (x_calls s) fd (cr_crtc_id requested) (cr_fb_id requested) = None \<and>
    1 \<le> tries \<and> tries \<le> 20 \<and> scans_out os (x_calls s + tries) fd requested \<and>
    calls_made s' = calls_made s @ PageFlip fd (cr_crtc_id requested) (cr_fb_id requested) #
      replicate tries (GetCrtc fd (cr_crtc_id requested))"
proof -
  from assms obtain f s1 where
    flip: "syscall_page_flip os fd (cr_crtc_id requested) (cr_fb_id requested) s = Done f s1"
    unfolding commit_flip_def bnd_Done [where s = s] by blast
  with assms have "f = None"
    by (cases f) (auto simp: commit_flip_def bnd_def dest!: reject_fallback_Done)
  with flip assms obtain ok s2 where ver: "verify_flip os 20 fd requested s1 = Done ok s2"
    unfolding commit_flip_def by (auto simp: bnd_Done)
  with assms flip \<open>f = None\<close> have "ok"
    by (auto simp: commit_flip_def bnd_def [where m = "syscall_page_flip os fd _ _"]
        bnd_def [where m = "verify_flip os _ fd requested"] andthen_Done prog_eval ret_def
        split: if_splits)
  with assms flip ver \<open>f = None\<close> have "undisturbed s2 s'"
    by (auto simp: commit_flip_def bnd_def [where m = "syscall_page_flip os fd _ _"]
        bnd_def [where m = "verify_flip os _ fd requested"] bnd_gets dest!: emit_then_ret_Done)
  with verify_flip_True [of os 20 fd requested s1 s2] ver \<open>ok\<close> \<open>f = None\<close>
    calls_made_page_flip [OF flip]
  show ?thesis by (auto simp: undisturbed_def)
qed

lemma flip_same_mode_positive:
  assumes "flip_same_mode os fd n requested s = Done r s'" and "0 < r"
  shows "\<exists>current s1. syscall_getcrtc os fd (cr_crtc_id requested) s = Done (Inr current) s1 \<and>
    cr_mode current = cr_mode requested \<and> cr_x current = cr_x requested \<and>
    cr_y current = cr_y requested \<and> commit_flip os fd n requested current s1 = Done r s'"
proof -
  from assms obtain a s1 where
    get: "syscall_getcrtc os fd (cr_crtc_id requested) s = Done a s1"
    unfolding flip_same_mode_def bnd_Done [where s = s] by blast
  with assms show ?thesis
    by (cases a)
      (auto simp: flip_same_mode_def bnd_def same_mode_timing_eq split: if_splits
        dest!: reject_fallback_Done emit_mode_mismatch_Done)
qed

lemma fallback_positive:
  assumes "try_same_mode_pageflip os fd argument n s = Done r s'" and "0 < r"
  shows "flipped os fd argument s s'"
proof -
  from assms obtain requested where req: "rd_crtc (x_mem s) argument = Some requested"
    "cr_crtc_id requested = g_expected_crtc s" "cr_count_connectors requested = 1"
    "rd_u32 (x_mem s) (cr_set_connectors_ptr requested) = Some (g_expected_connector s)"
    and flip: "flip_same_mode os fd n requested s = Done r s'"
    by (auto simp: try_same_mode_pageflip_def bnd_gets ret_def safe_copy_def Let_def
        split: if_splits option.splits dest!: reject_fallback_Done)
  from flip_same_mode_positive [OF flip assms(2)] obtain current s1 where
    get: "syscall_getcrtc os fd (cr_crtc_id requested) s = Done (Inr current) s1"
    and same: "cr_mode current = cr_mode requested" "cr_x current = cr_x requested"
      "cr_y current = cr_y requested"
    and commit: "commit_flip os fd n requested current s1 = Done r s'"
    by blast
  from commit_flip_positive [OF commit assms(2)] calls_made_getcrtc [OF get] req same
  show ?thesis unfolding flipped_def by auto
qed

lemma flipped_cong:
  "x_mem t = x_mem s \<Longrightarrow> x_calls t = x_calls s \<Longrightarrow> g_expected_crtc t = g_expected_crtc s \<Longrightarrow>
   g_expected_connector t = g_expected_connector s \<Longrightarrow> calls_made t = calls_made s \<Longrightarrow>
   calls_made t' = calls_made s' \<Longrightarrow>
   flipped os fd argument t t' = flipped os fd argument s s'"
  by (simp add: flipped_def)

lemma fallback_disabled:
  "try_same_mode_pageflip os fd argument n s = Done r s' \<Longrightarrow>
     \<not> g_same_mode_pageflip_fallback s \<or> g_expected_crtc s = 0 \<or> g_expected_connector s = 0 \<Longrightarrow>
     r = 0 \<and> s' = s"
  by (auto simp: try_same_mode_pageflip_def bnd_gets ret_def)

text \<open>
  A mode set refused with EINVAL: the fallback runs on the state the refusal left, and its
  verdict decides the result.
\<close>

lemma perform_setcrtc_refused:
  assumes call: "os_ioctl os (x_calls s) fd DRM_IOCTL_MODE_SETCRTC argument (x_mem s) = (k, EINVAL, mem)"
    and k: "k < 0"
    and run: "perform_request os tr n fd DRM_IOCTL_MODE_SETCRTC argument s = Done r s'"
  obtains f s2 e where
    "try_same_mode_pageflip os fd argument n (log_event (Ioctl fd DRM_IOCTL_MODE_SETCRTC argument k)
       (s\<lparr>x_mem := mem, x_calls := x_calls s + 1, g_errno := EINVAL\<rparr>)) = Done f s2"
    "r = (if 0 < f then 0 else k)" "0 < f \<Longrightarrow> g_errno s' = 0"
    "f = 0 \<Longrightarrow> g_errno s' = EINVAL" "calls_made s' = calls_made s2" "\<not> g_in_trace s'"
proof -
  let ?s1 = "log_event (Ioctl fd DRM_IOCTL_MODE_SETCRTC argument k)
       (s\<lparr>x_mem := mem, x_calls := x_calls s + 1, g_errno := EINVAL\<rparr>)"
  have call': "os_ioctl os (x_calls (s\<lparr>g_errno := 0\<rparr>)) fd DRM_IOCTL_MODE_SETCRTC argument
      (x_mem (s\<lparr>g_errno := 0\<rparr>)) = (k, EINVAL, mem)"
    using call by simp
  have s1: "g_errno (log_event ev t) = g_errno t" for ev t by (simp add: log_event_def)
  from run obtain f s2 res e s3 where
    fb: "try_same_mode_pageflip os fd argument n ?s1 = Done f s2"
    and verdict: "(res, e) = (if 0 < f then (0, 0) else if f < 0 then (k, g_errno s2) else (k, EINVAL))"
    and closed: "close_request os tr n fd DRM_IOCTL_MODE_SETCRTC argument res e s2 = Done () s3"
    and leave: "leave_ioctl e res s3 = Done r s'"
    unfolding perform_request_def
    by (auto simp: andthen_modify syscall_ioctl_bnd [OF call'] bnd_gets s1 k
        bnd_Done andthen_Done ret_def gets_def split: if_splits)
  have "undisturbed s2 s3"
    by (rule undisturbed_Done [OF undisturbed_close_request closed])
  with leave verdict fb show ?thesis
    by (intro that [of f s2]) (auto simp: leave_ioctl_def prog_defs undisturbed_def calls_made_def
        split: if_splits)
qed

text \<open>
  C11. When the kernel refuses a traced mode set with EINVAL, the process is told that it
  succeeded only if the fallback was enabled with an expected CRTC and connector and the
  requested framebuffer is being scanned out: the request named them, the CRTC already ran
  exactly the requested timing at the requested position, the page flip was accepted, and
  one of at most 20 readbacks showed the framebuffer with that timing. Otherwise the
  process sees the kernel's own result.
\<close>

theorem ioctl_fallback_sound:
  assumes "ioctl os fd DRM_IOCTL_MODE_SETCRTC argument s = Done r s'"
    and "intercepts s DRM_IOCTL_MODE_SETCRTC"
    and "os_ioctl os (x_calls s) fd DRM_IOCTL_MODE_SETCRTC argument (x_mem s) = (k, EINVAL, mem)"
    and "k < 0"
  shows "if r = k then g_in_trace s' = g_in_trace s
    else r = 0 \<and> g_errno s' = 0 \<and> g_in_trace s' = g_in_trace s \<and>
      g_same_mode_pageflip_fallback s \<and> g_expected_crtc s \<noteq> 0 \<and> g_expected_connector s \<noteq> 0 \<and>
      flipped os fd argument
        (s\<lparr>x_mem := mem, x_calls := x_calls s + 1,
           x_log := x_log s @ [Ioctl fd DRM_IOCTL_MODE_SETCRTC argument k]\<rparr>) s'"
proof -
  have "\<not> suppresses s DRM_IOCTL_MODE_SETCRTC argument" by (simp add: suppresses_def)
  with ioctl_intercepted_Done [OF assms(2,1)] obtain n s1 tr where
    q: "quiet (s\<lparr>g_in_trace := True\<rparr>) s1" and u: "undisturbed (s\<lparr>g_in_trace := True\<rparr>) s1"
    and run: "perform_request os tr n fd DRM_IOCTL_MODE_SETCRTC argument s1 = Done r s'"
    by metis
  have call: "os_ioctl os (x_calls s1) fd DRM_IOCTL_MODE_SETCRTC argument (x_mem s1) = (k, EINVAL, mem)"
    using u assms(3) by (simp add: undisturbed_def)
  let ?s1 = "log_event (Ioctl fd DRM_IOCTL_MODE_SETCRTC argument k)
       (s1\<lparr>x_mem := mem, x_calls := x_calls s1 + 1, g_errno := EINVAL\<rparr>)"
  obtain f s2 where fb: "try_same_mode_pageflip os fd argument n ?s1 = Done f s2"
    and r: "r = (if 0 < f then 0 else k)" "0 < f \<Longrightarrow> g_errno s' = 0"
      "calls_made s' = calls_made s2" "\<not> g_in_trace s'"
    using perform_setcrtc_refused [OF call assms(4) run] by metis
  have guard: "g_in_trace s' = g_in_trace s" using assms(2) r(4) by (simp add: intercepts_def)
  show ?thesis
  proof (cases "0 < f")
    case True
    have same: "flipped os fd argument ?s1 s2 = flipped os fd argument
        (s\<lparr>x_mem := mem, x_calls := x_calls s + 1,
           x_log := x_log s @ [Ioctl fd DRM_IOCTL_MODE_SETCRTC argument k]\<rparr>) s'"
      using u quietD [OF q] r(3)
      by (intro flipped_cong) (auto simp: log_event_def undisturbed_def calls_made_def)
    have "g_same_mode_pageflip_fallback s \<and> g_expected_crtc s \<noteq> 0 \<and> g_expected_connector s \<noteq> 0"
      using fallback_disabled [OF fb] True quietD [OF q] by (auto simp: log_event_def)
    with True same fallback_positive [OF fb True] r guard assms(4) show ?thesis by simp
  qed (use r guard in simp)
qed

text \<open>A concrete fallback: CRTC 40 shows framebuffer 70, the process asks for 71.\<close>

definition sample_mode :: drm_mode_modeinfo where
  "sample_mode =
     \<lparr>mi_clock = 148500, mi_hdisplay = 1920, mi_hsync_start = 2008, mi_hsync_end = 2052,
      mi_htotal = 2200, mi_hskew = 0, mi_vdisplay = 1080, mi_vsync_start = 1084,
      mi_vsync_end = 1089, mi_vtotal = 1125, mi_vscan = 0, mi_flags = 5\<rparr>"

definition sample_crtc :: "u32 \<Rightarrow> drm_mode_crtc" where
  "sample_crtc fb =
     \<lparr>cr_set_connectors_ptr = 128, cr_count_connectors = 1, cr_crtc_id = 40, cr_fb_id = fb,
      cr_x = 0, cr_y = 0, cr_mode_valid = 1, cr_mode = sample_mode\<rparr>"

definition fallback_memory :: memory where
  "fallback_memory = sample_memory\<lparr>rd_crtc := \<lambda>a. if a = 64 then Some (sample_crtc 71) else None,
     rd_u32 := \<lambda>a. if a = 128 then Some 30 else None\<rparr>"

definition fallback_os :: os where
  "fallback_os = (sample_os EINVAL)\<lparr>
     os_getcrtc := \<lambda>n fd crtc_id. Inr (sample_crtc (if n < 4 then 70 else 71)),
     os_page_flip := \<lambda>n fd crtc_id fb_id. None\<rparr>"

definition fallback_tracer :: tracer where
  "fallback_tracer = (load_state fallback_memory)\<lparr>g_trace_fd := 5, g_trace_steady := True,
     g_same_mode_pageflip_fallback := True, g_expected_connector := 30, g_expected_crtc := 40\<rparr>"

lemmas fallback_sample = fallback_os_def sample_os_def fallback_tracer_def load_state_def
  fallback_memory_def sample_crtc_def

lemma acked_step:
  assumes "os_exchange os = (\<lambda>n. acking_relay 0)" and "wf_record r"
  shows "exchange_or_exit os r s =
    Done () (log_event (Recorded r True) (s\<lparr>x_exchanges := x_exchanges s + 1\<rparr>))"
  using assms by (simp add: exchange_or_exit_def exchange_record_def acking_relay_verdict prog_defs
      Let_def has_bits_def)

lemma wf_detail_record:
  "wf_record (with_detail d ((initialize_record os phase n fd code name)\<lparr>t_argument := [a0, a1, a2, a3]\<rparr>))"
  by (simp add: wf_record_def with_detail_def initialize_record_def zero_record_def zero_buf_def)

lemma verify_flip_numeral:
  "verify_flip os (numeral k) fd requested =
     bnd (syscall_getcrtc os fd (cr_crtc_id requested)) (\<lambda>answer.
       if verified_scanout requested answer then ret True
       else verify_flip os (pred_numeral k) fd requested)"
  by (simp add: numeral_eq_Suc)

lemma sample_fallback_flips:
  assumes "x_mem s = fallback_memory" "x_calls s = 1" "g_same_mode_pageflip_fallback s"
    "g_expected_crtc s = 40" "g_expected_connector s = 30"
  shows "\<exists>s'. try_same_mode_pageflip fallback_os 9 64 n s = Done 1 s'"
proof -
  have os: "os_exchange fallback_os = (\<lambda>n. acking_relay 0)"
    by (simp add: fallback_os_def sample_os_def)
  show ?thesis
    using assms os
    by (simp add: try_same_mode_pageflip_def fallback_memory_def sample_crtc_def bnd_gets
        safe_copy_def Let_def flip_same_mode_def commit_flip_def syscall_getcrtc_def
        syscall_page_flip_def verify_flip_numeral bnd_def verified_scanout_def log_event_def
        emit_detail_def acked_step wf_detail_record andthen_def ret_def same_mode_timing_eq
        gets_def fallback_os_def)
qed

theorem ioctl_fallback_sound_witness:
  "\<exists>s'. ioctl fallback_os 9 DRM_IOCTL_MODE_SETCRTC 64 fallback_tracer = Done 0 s' \<and> g_errno s' = 0 \<and>
     flipped fallback_os 9 64 (fallback_tracer\<lparr>x_calls := 1,
       x_log := [Ioctl 9 DRM_IOCTL_MODE_SETCRTC 64 (- 1)]\<rparr>) s'"
proof -
  let ?s = "fallback_tracer"
  have "acknowledges fallback_os"
    by (simp add: acknowledges_def fallback_os_def sample_os_def acking_relay_verdict)
  then obtain r s' where run: "ioctl fallback_os 9 DRM_IOCTL_MODE_SETCRTC 64 ?s = Done r s'"
    using returns_ioctl unfolding returns_def by blast
  have icpt: "intercepts ?s DRM_IOCTL_MODE_SETCRTC"
    and call: "os_ioctl fallback_os n 9 DRM_IOCTL_MODE_SETCRTC 64 mem = (- 1, EINVAL, mem)" for n mem
    by (simp_all add: intercepts_def fallback_tracer_def load_state_def fallback_os_def sample_os_def)
  have "\<not> suppresses ?s DRM_IOCTL_MODE_SETCRTC 64" by (simp add: suppresses_def)
  with ioctl_intercepted_Done [OF icpt run] obtain n s1 tr where
    q: "quiet (?s\<lparr>g_in_trace := True\<rparr>) s1"
    and run1: "perform_request fallback_os tr n 9 DRM_IOCTL_MODE_SETCRTC 64 s1 = Done r s'"
    by metis
  obtain f s2 where fb: "try_same_mode_pageflip fallback_os 9 64 n
      (log_event (Ioctl 9 DRM_IOCTL_MODE_SETCRTC 64 (- 1))
        (s1\<lparr>x_mem := x_mem s1, x_calls := x_calls s1 + 1, g_errno := EINVAL\<rparr>)) = Done f s2"
    and r: "r = (if 0 < f then 0 else - 1)"
    using perform_setcrtc_refused [OF call _ run1] by (metis neg_less_0_iff_less zero_less_one)
  have "f = 1"
    using fb quietD [OF q]
      sample_fallback_flips [of "log_event (Ioctl 9 DRM_IOCTL_MODE_SETCRTC 64 (- 1))
        (s1\<lparr>x_mem := x_mem s1, x_calls := x_calls s1 + 1, g_errno := EINVAL\<rparr>)" n]
    by (auto simp: log_event_def fallback_tracer_def load_state_def)
  with ioctl_fallback_sound [OF run icpt call] run r show ?thesis
    by (simp add: fallback_tracer_def load_state_def)
qed

end
