(* ===== verification/Drm_Cache_Claims.thy ===== *)
theory Drm_Cache_Claims
  imports Drm_Trace_Claims
begin

section \<open>Connector properties and hidden properties\<close>

text \<open>
  The claims about the connector-property cache of \<open>src/native/drm-trace/drmtrace.c\<close> (what
  fills it, what is suppressed because of it, and when it is out of date), about the rows
  reported for an atomic commit and about the interposed \<open>drmModeGetProperty\<close>.
\<close>

subsection \<open>Only a property enumeration changes the cache\<close>

definition same_cache :: "tracer \<Rightarrow> tracer \<Rightarrow> bool" where
  "same_cache s s' \<longleftrightarrow>
     g_connector_properties s' = g_connector_properties s \<and>
     g_suppress_connector_property_noops s' = g_suppress_connector_property_noops s \<and>
     g_trace_fd s' = g_trace_fd s"

lemma same_cache_preorder: "reflp same_cache" "transp same_cache"
  by (auto simp: same_cache_def reflp_def transp_def)

lemma quiet_same_cache: "quiet s s' \<Longrightarrow> same_cache s s'"
  by (simp add: same_cache_def quietD)

lemma same_cache_calls [ends_intros]:
  "ends same_cache (syscall_ioctl os fd request argument)"
  "ends same_cache (syscall_getcrtc os fd crtc_id)"
  "ends same_cache (syscall_page_flip os fd crtc_id fb_id)"
  by (auto simp: ends_def syscall_ioctl_def syscall_getcrtc_def syscall_page_flip_def Let_def
      log_event_def same_cache_def split: prod.splits)

lemma same_cache_trace [ends_intros]:
  "ends same_cache (emit_detail os n fd request name a0 a1 a2 a3 detail)"
  "ends same_cache (trace_before os fd request argument)"
  "ends same_cache (trace_after os n fd request argument result error)"
  using quiet_emit_detail quiet_trace_before quiet_trace_after
  by (auto simp: ends_def intro: quiet_same_cache)

lemma same_cache_verify_flip [ends_intros]: "ends same_cache (verify_flip os n fd requested)"
  by (induction n) (auto intro!: ends_intros same_cache_preorder)

lemma same_cache_fallback [ends_intros]:
  "ends same_cache (try_same_mode_pageflip os fd argument n)"
  unfolding try_same_mode_pageflip_def flip_same_mode_def commit_flip_def reject_fallback_def
    emit_mode_mismatch_def
  by (intro ends_intros same_cache_preorder; simp add: same_cache_def)

lemma same_cache_ioctl:
  assumes "request \<noteq> DRM_IOCTL_MODE_OBJ_GETPROPERTIES"
  shows "ends same_cache (ioctl os fd request argument)"
proof -
  have "ends same_cache (close_request os tr n fd request argument result e)" for tr n result e
    using assms unfolding close_request_def by (auto intro!: ends_intros same_cache_preorder)
  then show ?thesis
    unfolding ioctl_def suppress_noop_def perform_request_def leave_ioctl_def
    by (intro ends_intros same_cache_preorder; simp add: same_cache_def)
qed

lemma same_cache_ioctl_Done:
  "ioctl os fd request argument s = Done r s' \<Longrightarrow> request \<noteq> DRM_IOCTL_MODE_OBJ_GETPROPERTIES \<Longrightarrow>
     same_cache s s'"
  using endsD [OF same_cache_ioctl, of request s os fd argument] by simp

subsection \<open>Suppressing no-ops\<close>

lemma suppresses_iff:
  assumes "g_suppress_connector_property_noops s" "cache_invar (g_connector_properties s)"
    "argument \<noteq> 0" "rd_set_property (x_mem s) argument = Some v"
  shows "suppresses s DRM_IOCTL_MODE_SETPROPERTY argument \<longleftrightarrow>
    cache_map (g_connector_properties s) (sp_connector_id v, sp_prop_id v) = Some (sp_value v)"
  using assms
  by (simp add: suppresses_def should_suppress_connector_property_noop_def safe_copy_def is_noop_spec)

lemma suppressed_Done:
  assumes "intercepts s request" "ioctl os fd request argument s = Done r s'"
    "suppresses s request argument"
  shows "r = 0 \<and> g_errno s' = 0 \<and> calls_made s' = calls_made s \<and> x_mem s' = x_mem s \<and>
    \<not> g_in_trace s'"
  using assms by (auto elim!: ioctl_intercepted_Done dest!: suppress_noop_Done
      simp: undisturbed_def calls_made_def)

lemma unsuppressed_Done:
  assumes "intercepts s request" "ioctl os fd request argument s = Done r s'"
    "\<not> suppresses s request argument" "request \<noteq> DRM_IOCTL_MODE_SETCRTC"
    "os_ioctl os (x_calls s) fd request argument (x_mem s) = (k, e, mem)"
  shows "r = k \<and> calls_made s' = calls_made s @ [Ioctl fd request argument k] \<and>
    x_mem s' = mem \<and> \<not> g_in_trace s'"
proof -
  from assms obtain n s1 where u: "undisturbed (s\<lparr>g_in_trace := True\<rparr>) s1"
    and run: "perform_request os (should_trace_request request s) n fd request argument s1 = Done r s'"
    by (auto elim!: ioctl_intercepted_Done)
  have "os_ioctl os (x_calls s1) fd request argument (x_mem s1) = (k, e, mem)"
    using u assms(5) by (simp add: undisturbed_def)
  from perform_request_Done [OF this _ run] assms(4) u show ?thesis
    by (auto simp: undisturbed_def calls_made_def)
qed

text \<open>
  C12. With suppression enabled, setting a connector property reaches the kernel exactly
  when the cache does not hold that very value for that connector and property. A
  suppressed call returns 0 with errno 0. Neither outcome changes the cache.
\<close>

theorem ioctl_suppression:
  assumes "ioctl os fd DRM_IOCTL_MODE_SETPROPERTY argument s = Done r s'"
    and "intercepts s DRM_IOCTL_MODE_SETPROPERTY" and "g_suppress_connector_property_noops s"
    and "cache_invar (g_connector_properties s)"
    and "argument \<noteq> 0" and "rd_set_property (x_mem s) argument = Some v"
  shows "g_connector_properties s' = g_connector_properties s \<and>
    (if cache_map (g_connector_properties s) (sp_connector_id v, sp_prop_id v) = Some (sp_value v)
     then r = 0 \<and> g_errno s' = 0 \<and> calls_made s' = calls_made s
     else calls_made s' = calls_made s @ [Ioctl fd DRM_IOCTL_MODE_SETPROPERTY argument r])"
proof -
  obtain k e mem where call:
    "os_ioctl os (x_calls s) fd DRM_IOCTL_MODE_SETPROPERTY argument (x_mem s) = (k, e, mem)"
    by (metis prod_cases3)
  have "g_connector_properties s' = g_connector_properties s"
    using same_cache_ioctl_Done [OF assms(1)] by (simp add: same_cache_def)
  with suppresses_iff [OF assms(3-6)] suppressed_Done [OF assms(2,1)]
    unsuppressed_Done [OF assms(2,1) _ _ call]
  show ?thesis by auto
qed

text \<open>One connector whose property 12 was enumerated with value 5.\<close>

definition sample_set :: "u64 \<Rightarrow> drm_mode_connector_set_property" where
  "sample_set val = \<lparr>sp_value = val, sp_prop_id = 12, sp_connector_id = 30\<rparr>"

definition cached_tracer :: tracer where
  "cached_tracer = (load_state (sample_memory\<lparr>rd_set_property :=
       \<lambda>a. if a = 64 then Some (sample_set 9) else if a = 96 then Some (sample_set 5) else None\<rparr>))
     \<lparr>g_trace_fd := 5, g_suppress_connector_property_noops := True,
      g_connector_properties := snd (hdmi_los_property_cache_store empty_cache 30 12 5)\<rparr>"

lemma cached_tracer_cache:
  "cache_invar (g_connector_properties cached_tracer)"
  "cache_map (g_connector_properties cached_tracer) (30, 12) = Some 5"
proof -
  have "hdmi_los_property_cache_store empty_cache 30 12 5 =
      (True, snd (hdmi_los_property_cache_store empty_cache 30 12 5))"
    by (simp add: hdmi_los_property_cache_store_def empty_cache_def)
  from store_spec [OF empty_cache_spec(1) this] show
    "cache_invar (g_connector_properties cached_tracer)"
    "cache_map (g_connector_properties cached_tracer) (30, 12) = Some 5"
    by (simp_all add: cached_tracer_def)
qed

lemma cached_tracer_fields:
  "intercepts cached_tracer DRM_IOCTL_MODE_SETPROPERTY"
  "g_suppress_connector_property_noops cached_tracer"
  "rd_set_property (x_mem cached_tracer) 64 = Some (sample_set 9)"
  "rd_set_property (x_mem cached_tracer) 96 = Some (sample_set 5)"
  "calls_made cached_tracer = []"
  by (simp_all add: cached_tracer_def load_state_def intercepts_def calls_made_def)

theorem ioctl_suppression_witness:
  "\<exists>s'. ioctl (sample_os 0) 9 DRM_IOCTL_MODE_SETPROPERTY 96 cached_tracer = Done 0 s' \<and>
     calls_made s' = []"
proof -
  obtain r s' where run: "ioctl (sample_os 0) 9 DRM_IOCTL_MODE_SETPROPERTY 96 cached_tracer = Done r s'"
    by (rule sample_ioctl_returns)
  from ioctl_suppression [OF run cached_tracer_fields(1,2) cached_tracer_cache(1) _
      cached_tracer_fields(4)] run cached_tracer_cache(2)
  show ?thesis by (simp add: sample_set_def cached_tracer_fields(5))
qed

text \<open>
  C13. The cache is a snapshot, not the connector's state. After the process changes an
  enumerated property to a different value, and the kernel accepts that, setting the
  property back to the enumerated value never reaches the kernel: the call reports success
  and the connector keeps the other value.
\<close>

theorem ioctl_suppresses_real_change:
  assumes "ioctl os fd DRM_IOCTL_MODE_SETPROPERTY a1 s = Done r1 s1"
    and "ioctl os fd DRM_IOCTL_MODE_SETPROPERTY a2 s1 = Done r2 s2"
    and "intercepts s DRM_IOCTL_MODE_SETPROPERTY" and "g_suppress_connector_property_noops s"
    and "cache_invar (g_connector_properties s)"
    and "a1 \<noteq> 0" and "rd_set_property (x_mem s) a1 = Some v1"
    and "a2 \<noteq> 0" and "rd_set_property (x_mem s) a2 = Some v2"
    and "sp_connector_id v1 = sp_connector_id v2" and "sp_prop_id v1 = sp_prop_id v2"
    and "cache_map (g_connector_properties s) (sp_connector_id v2, sp_prop_id v2) = Some (sp_value v2)"
    and "sp_value v1 \<noteq> sp_value v2"
    and "os_ioctl os (x_calls s) fd DRM_IOCTL_MODE_SETPROPERTY a1 (x_mem s) = (0, e, x_mem s)"
  shows "r1 = 0 \<and> r2 = 0 \<and>
    calls_made s2 = calls_made s @ [Ioctl fd DRM_IOCTL_MODE_SETPROPERTY a1 0]"
proof -
  have "\<not> suppresses s DRM_IOCTL_MODE_SETPROPERTY a1"
    using suppresses_iff [OF assms(4,5,6,7)] assms(10-13) by auto
  from unsuppressed_Done [OF assms(3,1) this _ assms(14)]
  have first: "r1 = 0" "calls_made s1 = calls_made s @ [Ioctl fd DRM_IOCTL_MODE_SETPROPERTY a1 0]"
    "x_mem s1 = x_mem s" "\<not> g_in_trace s1"
    by auto
  have kept: "same_cache s s1" by (rule same_cache_ioctl_Done [OF assms(1)]) simp
  then have "suppresses s1 DRM_IOCTL_MODE_SETPROPERTY a2"
    using suppresses_iff [of s1 a2 v2] assms(4,5,8,9,12) first(3) by (simp add: same_cache_def)
  moreover have "intercepts s1 DRM_IOCTL_MODE_SETPROPERTY"
    using kept first(4) assms(3) by (simp add: intercepts_def same_cache_def)
  ultimately show ?thesis
    using suppressed_Done [OF _ assms(2)] first by simp
qed

theorem ioctl_suppresses_real_change_witness:
  "\<exists>s1 s2. ioctl (sample_os 0) 9 DRM_IOCTL_MODE_SETPROPERTY 64 cached_tracer = Done 0 s1 \<and>
     ioctl (sample_os 0) 9 DRM_IOCTL_MODE_SETPROPERTY 96 s1 = Done 0 s2 \<and>
     calls_made s2 = [Ioctl 9 DRM_IOCTL_MODE_SETPROPERTY 64 0]"
proof -
  obtain r1 s1 where r1: "ioctl (sample_os 0) 9 DRM_IOCTL_MODE_SETPROPERTY 64 cached_tracer = Done r1 s1"
    by (rule sample_ioctl_returns)
  obtain r2 s2 where r2: "ioctl (sample_os 0) 9 DRM_IOCTL_MODE_SETPROPERTY 96 s1 = Done r2 s2"
    by (rule sample_ioctl_returns)
  have "os_ioctl (sample_os 0) n 9 DRM_IOCTL_MODE_SETPROPERTY 64 mem = (0, 0, mem)" for n mem
    by (simp add: sample_os_def)
  from ioctl_suppresses_real_change [OF r1 r2 cached_tracer_fields(1,2) cached_tracer_cache(1)
      _ cached_tracer_fields(3) _ cached_tracer_fields(4) _ _ _ _ this] r1 r2 cached_tracer_cache(2)
  show ?thesis by (simp add: sample_set_def cached_tracer_fields(5))
qed

subsection \<open>Filling the cache\<close>

lemma same_cache_Done: "ends same_cache m \<Longrightarrow> m s = Done x s' \<Longrightarrow> same_cache s s'"
  using endsD [of same_cache m s] by simp

lemma store_connector_property_Done:
  "store_connector_property obj prop val s = Done y s' \<longleftrightarrow>
     s' = s\<lparr>g_connector_properties :=
       snd (hdmi_los_property_cache_store (g_connector_properties s) obj prop val)\<rparr>"
  by (auto simp: store_connector_property_def modify_def)

lemma store_loop_Done:
  assumes "for_each is (\<lambda>i. andthen (store_connector_property obj (f i) (g i)) (emit i)) s = Done x s'"
    and "\<And>i. ends same_cache (emit i)"
  shows "g_connector_properties s' =
    store_all cache_store (g_connector_properties s) (map (\<lambda>i. ((obj, f i), g i)) is)"
  using assms(1)
proof (induction "is" arbitrary: s)
  case Nil
  then show ?case by (simp add: ret_def)
next
  case (Cons i "is")
  then obtain s1 s2 y where
    stored: "s1 = s\<lparr>g_connector_properties :=
        snd (hdmi_los_property_cache_store (g_connector_properties s) obj (f i) (g i))\<rparr>"
    and emit: "emit i s1 = Done y s2"
    and rest: "for_each is (\<lambda>i. andthen (store_connector_property obj (f i) (g i)) (emit i)) s2 = Done x s'"
    by (auto simp: andthen_Done store_connector_property_Done)
  from Cons.IH [OF rest] same_cache_Done [OF assms(2) emit] stored show ?case
    by (simp add: same_cache_def cache_store_def)
qed

lemma map_upt_nth_zip:
  "length ps = n \<Longrightarrow> length vs = n \<Longrightarrow>
     map (\<lambda>i. ((obj, ps ! i), vs ! i)) [0..<n] = zip (map (Pair obj) ps) vs"
  by (rule nth_equalityI) auto

definition enumerated :: "memory \<Rightarrow> u64 \<Rightarrow> u32 \<Rightarrow> u32 list \<Rightarrow> u64 list \<Rightarrow> bool" where
  "enumerated mem argument obj ps vs \<longleftrightarrow> argument \<noteq> 0 \<and>
     (\<exists>v. rd_obj_get_properties mem argument = Some v \<and> og_obj_id v = obj \<and>
        og_obj_type v = DRM_MODE_OBJECT_CONNECTOR \<and> 0 < unat (og_count_props v) \<and>
        og_count_props v \<le> kMaxObjectProperties \<and>
        length ps = unat (og_count_props v) \<and> length vs = unat (og_count_props v) \<and>
        og_props_ptr v \<noteq> 0 \<and> og_prop_values_ptr v \<noteq> 0 \<and>
        rd_u32s mem (og_props_ptr v) (unat (og_count_props v)) = Some ps \<and>
        rd_u64s mem (og_prop_values_ptr v) (unat (og_count_props v)) = Some vs)"

lemma object_details_fill_cache:
  assumes "emit_object_property_details os n fd request argument s = Done x s'"
    and "enumerated (x_mem s) argument obj ps vs"
  shows "g_connector_properties s' =
    store_all cache_store (g_connector_properties s) (zip (map (Pair obj) ps) vs)"
proof -
  from assms(2) obtain v where v: "rd_obj_get_properties (x_mem s) argument = Some v" "og_obj_id v = obj"
    "og_obj_type v = DRM_MODE_OBJECT_CONNECTOR" "0 < unat (og_count_props v)"
    "og_count_props v \<le> kMaxObjectProperties"
    "length ps = unat (og_count_props v)" "length vs = unat (og_count_props v)"
    "safe_copy_array (rd_u32s (x_mem s)) (og_props_ptr v) (unat (og_count_props v)) = Some ps"
    "safe_copy_array (rd_u64s (x_mem s)) (og_prop_values_ptr v) (unat (og_count_props v)) = Some vs"
    "safe_copy (rd_obj_get_properties (x_mem s)) argument = Some v"
    by (auto simp: enumerated_def safe_copy_array_def safe_copy_def)
  have count: "og_count_props v \<noteq> 0" "\<not> kMaxObjectProperties < og_count_props v"
    using v(4,5) by (auto simp: not_less)
  have "for_each [0..<unat (og_count_props v)] (\<lambda>i.
      andthen (store_connector_property obj (ps ! i) (vs ! i))
        (emit_detail os n fd request ''OBJECT_PROPERTY'' (ucast obj) (ucast (ps ! i)) (vs ! i)
          (word_of_nat i) (''obj='' @ show_u obj @ '' prop='' @ show_u (ps ! i) @
            '' value='' @ show_u (vs ! i) @ '' index='' @ show_nat i))) s = Done x s'"
    using assms(1) v(2,3,8,9,10) count by (simp add: emit_object_property_details_def bnd_gets)
  from store_loop_Done [OF this same_cache_trace(1)] v(6,7) show ?thesis
    by (simp add: map_upt_nth_zip)
qed


text \<open>
  C14. A traced enumeration of a connector's properties that the kernel answered enters all
  of them into the cache: if they fit, the cache afterwards holds the enumerated values,
  the last one winning, over what it held before.
\<close>

theorem ioctl_enumeration_fills_cache:
  assumes "ioctl os fd DRM_IOCTL_MODE_OBJ_GETPROPERTIES argument s = Done r s'"
    and "intercepts s DRM_IOCTL_MODE_OBJ_GETPROPERTIES" and "\<not> g_trace_steady s"
    and "os_ioctl os (x_calls s) fd DRM_IOCTL_MODE_OBJ_GETPROPERTIES argument (x_mem s) = (0, e, mem)"
    and "enumerated mem argument obj ps vs"
    and "cache_invar (g_connector_properties s)"
    and "card (dom (cache_map (g_connector_properties s)) \<union> Pair obj ` set ps)
           \<le> HDMI_LOS_MAX_CACHED_CONNECTOR_PROPERTIES"
  shows "cache_invar (g_connector_properties s') \<and>
    cache_map (g_connector_properties s') =
      cache_map (g_connector_properties s) ++ map_of (rev (zip (map (Pair obj) ps) vs))"
proof -
  let ?req = "DRM_IOCTL_MODE_OBJ_GETPROPERTIES"
  have "\<not> suppresses s ?req argument" and traced: "should_trace_request ?req s"
    using assms(3) by (simp_all add: suppresses_def should_trace_request_def)
  with assms(1,2) obtain n s1 where q: "quiet (s\<lparr>g_in_trace := True\<rparr>) s1"
    and run: "perform_request os True n fd ?req argument s1 = Done r s'"
    by (auto elim!: ioctl_intercepted_Done)
  have call: "os_ioctl os (x_calls s1) fd ?req argument (x_mem s1) = (0, e, mem)"
    using quietD [OF q] assms(4) by simp
  define s2 where "s2 = log_event (Ioctl fd ?req argument 0)
    (s1\<lparr>x_mem := mem, x_calls := x_calls s1 + 1, g_errno := 0\<rparr>)"
  have s2: "x_mem s2 = mem" "g_connector_properties s2 = g_connector_properties s1"
    by (simp_all add: s2_def log_event_def)
  from run obtain s3 s4 where after: "trace_after os n fd ?req argument 0 0 s2 = Done () s3"
    and details: "emit_object_property_details os n fd ?req argument s3 = Done () s4"
    and leave: "leave_ioctl 0 0 s4 = Done r s'"
    using perform_request_plain [OF call] by (auto simp: andthen_Done close_request_def s2_def)
  have s3: "x_mem s3 = mem" "g_connector_properties s3 = g_connector_properties s"
    using quiet_Done [OF quiet_trace_after after] s2 q by (simp_all add: quietD)
  have "g_connector_properties s' = g_connector_properties s4"
    using leave by (auto simp: leave_ioctl_def prog_defs)
  moreover have "g_connector_properties s4 =
      store_all cache_store (g_connector_properties s) (zip (map (Pair obj) ps) vs)"
    using object_details_fill_cache [OF details] assms(5) s3 by simp
  moreover have "fst ` set (zip (map (Pair obj) ps) vs) = Pair obj ` set ps"
    using assms(5) by (auto simp: enumerated_def simp flip: set_map)
  ultimately show ?thesis
    using pcache.lookup_store_all_fits [OF assms(6)] pcache.invar_store_all [OF assms(6)] assms(7)
    by simp
qed

definition enumeration_memory :: memory where
  "enumeration_memory = sample_memory\<lparr>
     rd_obj_get_properties := \<lambda>a. if a = 64 then Some \<lparr>og_props_ptr = 128, og_prop_values_ptr = 256,
       og_count_props = 2, og_obj_id = 30, og_obj_type = DRM_MODE_OBJECT_CONNECTOR\<rparr> else None,
     rd_u32s := \<lambda>a n. if a = 128 \<and> n = 2 then Some [12, 13] else None,
     rd_u64s := \<lambda>a n. if a = 256 \<and> n = 2 then Some [5, 6] else None\<rparr>"

theorem ioctl_enumeration_fills_cache_witness:
  "\<exists>s'. ioctl (sample_os 0) 9 DRM_IOCTL_MODE_OBJ_GETPROPERTIES 64
       ((load_state enumeration_memory)\<lparr>g_trace_fd := 5\<rparr>) = Done 0 s' \<and>
     cache_map (g_connector_properties s') (30, 13) = Some 6"
proof -
  let ?s = "(load_state enumeration_memory)\<lparr>g_trace_fd := 5\<rparr>"
  obtain r s' where run: "ioctl (sample_os 0) 9 DRM_IOCTL_MODE_OBJ_GETPROPERTIES 64 ?s = Done r s'"
    by (rule sample_ioctl_returns)
  have "intercepts ?s DRM_IOCTL_MODE_OBJ_GETPROPERTIES" "\<not> g_trace_steady ?s"
    and call: "os_ioctl (sample_os 0) (x_calls ?s) 9 DRM_IOCTL_MODE_OBJ_GETPROPERTIES 64 (x_mem ?s) =
      (0, 0, enumeration_memory)"
    and "enumerated enumeration_memory 64 30 [12, 13] [5, 6]"
    by (simp_all add: intercepts_def load_state_def sample_os_def enumerated_def enumeration_memory_def)
  moreover have "g_connector_properties ?s = empty_cache" by (simp add: load_state_def)
  moreover have "card ({} \<union> Pair (30 :: u32) ` set [12 :: u32, 13]) \<le> 512"
    by (simp add: card_insert_if)
  ultimately have "cache_map (g_connector_properties s') =
      Map.empty ++ map_of (rev (zip (map (Pair 30) [12, 13]) [5, 6]))"
    using ioctl_enumeration_fills_cache [OF run] empty_cache_spec by simp
  moreover have "r = 0"
    using unsuppressed_Done [OF _ run _ _ call] by (simp add: intercepts_def load_state_def suppresses_def)
  ultimately show ?thesis using run by simp
qed


subsection \<open>The rows of an atomic commit\<close>

lemma atomic_total_bounded:
  assumes "unat tot \<le> 128"
  shows "case atomic_total tot i counts of
      Inl (t, c, j) \<Rightarrow> 128 < unat tot + sum_list (map unat counts) \<and> i \<le> j \<and>
        j - i < length counts \<and> c = counts ! (j - i)
    | Inr t \<Rightarrow> unat t = unat tot + sum_list (map unat counts) \<and> unat t \<le> 128"
  using assms
proof (induction tot i counts rule: atomic_total.induct)
  case (1 tot i)
  then show ?case by simp
next
  case (2 tot i c counts)
  have room: "unat (kMaxAtomicProperties - tot) = 128 - unat tot"
    using 2(2) by (simp add: unat_sub word_le_nat_alt)
  show ?case
  proof (cases "kMaxAtomicProperties - tot < c")
    case True
    then have "128 < unat tot + unat c" using room 2(2) by (simp add: word_less_nat_alt)
    with True show ?thesis by simp
  next
    case False
    then have fits: "unat tot + unat c \<le> 128" using room 2(2) by (simp add: word_less_nat_alt)
    then have sum: "unat (tot + c) = unat tot + unat c"
      by (simp add: unat_word_ariths(1))
    have shift: "(c # counts) ! (j - i) = counts ! (j - Suc i)" if "Suc i \<le> j" for j
      using Suc_diff_Suc [of i j] that by (metis Suc_le_lessD nth_Cons_Suc)
    from fits sum 2(1) [OF False] False show ?thesis
      by (auto split: sum.splits prod.splits simp: shift)
  qed
qed

lemma take_drop_rows:
  "k + n \<le> length ps \<Longrightarrow> length ps = length vs \<Longrightarrow>
     map (\<lambda>i. (ps ! (k + i), vs ! (k + i))) [0..<n] = zip (take n (drop k ps)) (take n (drop k vs))"
  by (rule nth_equalityI) auto

lemma atomic_rows_exact:
  assumes "k + sum_list (map (unat \<circ> snd) objs) = length ps" and "length ps = length vs"
  shows "map (\<lambda>(obj, p, v, i). (p, v)) (atomic_rows k objs ps vs) = zip (drop k ps) (drop k vs) \<and>
    map (\<lambda>(obj, p, v, i). (obj, i)) (atomic_rows k objs ps vs) =
      concat (map (\<lambda>(obj, c). map (Pair obj) [0..<unat c]) objs)"
  using assms
proof (induction k objs ps vs rule: atomic_rows.induct)
  case (1 k ps vs)
  then show ?case by simp
next
  case (2 k obj c objs ps vs)
  have "drop k (zip ps vs) =
      take (unat c) (drop k (zip ps vs)) @ drop (k + unat c) (zip ps vs)"
    using append_take_drop_id [of "unat c" "drop k (zip ps vs)"] by (simp add: add.commute)
  then have "zip (drop k ps) (drop k vs) =
      zip (take (unat c) (drop k ps)) (take (unat c) (drop k vs)) @
      zip (drop (k + unat c) ps) (drop (k + unat c) vs)"
    by (simp add: drop_zip take_zip)
  moreover have "map (\<lambda>i. (ps ! (k + i), vs ! (k + i))) [0..<unat c] =
      zip (take (unat c) (drop k ps)) (take (unat c) (drop k vs))"
    using 2(2,3) by (intro take_drop_rows) auto
  ultimately show ?case
    using 2 by (simp add: comp_def add.assoc)
qed

text \<open>
  C15. The bound on the properties reported for an atomic commit is exact and free of
  wrap-around: the accumulation is rejected if and only if the true sum of the counts
  exceeds 128. When it is accepted, every read of the property arrays is within the copied
  elements and the rows report each property with its value exactly once, in order,
  attributed to its object and its position there.
\<close>

theorem atomic_rows_complete:
  assumes "length objects = length counts" and "length ps = sum_list (map unat counts)"
    and "length vs = length ps"
  shows "case atomic_total 0 0 counts of
      Inl (tot, c, i) \<Rightarrow> 128 < length ps \<and> i < length counts \<and> c = counts ! i
    | Inr tot \<Rightarrow> unat tot = length ps \<and> length ps \<le> 128 \<and>
        map (\<lambda>(obj, p, v, i). (p, v)) (atomic_rows 0 (zip objects counts) ps vs) = zip ps vs \<and>
        map (\<lambda>(obj, p, v, i). (obj, i)) (atomic_rows 0 (zip objects counts) ps vs) =
          concat (map (\<lambda>(obj, c). map (Pair obj) [0..<unat c]) (zip objects counts))"
proof -
  have "map (unat \<circ> snd) (zip objects counts) = map unat counts"
    using assms(1) by (simp flip: map_map)
  then have "0 + sum_list (map (unat \<circ> snd) (zip objects counts)) = length ps"
    using assms(2) by simp
  from atomic_rows_exact [OF this] assms(3) atomic_total_bounded [where tot = 0 and i = 0 and counts = counts] assms(2)
  show ?thesis by (auto split: sum.splits)
qed

theorem atomic_rows_complete_witness:
  "atomic_total 0 0 [2, 1] = Inr 3 \<and>
   map (\<lambda>(obj, p, v, i). (p, v)) (atomic_rows 0 (zip [50, 60] [2, 1]) [7, 8, 9] [1, 0, 3]) =
     [(7, 1), (8, 0), (9, 3)]"
  using atomic_rows_complete [of "[50, 60]" "[2, 1]" "[7, 8, 9]" "[1, 0, 3]"] by simp

subsection \<open>Hidden properties\<close>

lemma returns_drmModeGetProperty:
  assumes "acknowledges os"
  shows "returns (drmModeGetProperty os fd property_id)"
  unfolding drmModeGetProperty_def resolve_get_property_def trace_ignored_def release_property_def
    next_sequence_def real_get_property_def
  by (intro returns_intros returns_ioctl assms)

lemma trace_ignored_Done:
  assumes "trace_ignored os fd reason property s = Done x s'" and "\<not> g_in_trace s"
  shows "\<exists>r. x_log s' = x_log s @ [Recorded r True] \<and> t_name r = c_snprintf (zero_buf 32) reason \<and>
      t_argument r ! 0 = ucast (dp_prop_id property)"
    and "\<not> g_in_trace s'" "g_real_drm_mode_free_property s' = g_real_drm_mode_free_property s" "x_calls s' = x_calls s"
proof -
  let ?s1 = "s\<lparr>g_in_trace := True, g_sequence := g_sequence s + 1\<rparr>"
  from assms(1) obtain s2 y n a1 a2 a3 detail where
    emit: "emit_detail os n fd DRM_IOCTL_MODE_GETPROPERTY reason (ucast (dp_prop_id property)) a1 a2 a3 detail ?s1 = Done y s2"
    and s': "s' = s2\<lparr>g_in_trace := False\<rparr>"
    unfolding trace_ignored_def next_sequence_def
    by (auto simp: andthen_Done bnd_Done modify_def gets_def ret_def)
  have "undisturbed ?s1 s2" "quiet ?s1 s2"
    using undisturbed_Done [OF undisturbed_emit_detail emit] quiet_Done [OF quiet_emit_detail emit]
    by auto
  then show "\<not> g_in_trace s'" "g_real_drm_mode_free_property s' = g_real_drm_mode_free_property s" "x_calls s' = x_calls s"
    using s' by (auto simp: undisturbed_def quiet_def dest: arg_cong [of _ _ g_real_drm_mode_free_property])
  show "\<exists>r. x_log s' = x_log s @ [Recorded r True] \<and> t_name r = c_snprintf (zero_buf 32) reason \<and>
      t_argument r ! 0 = ucast (dp_prop_id property)"
    using exchange_or_exit_Done [OF emit [unfolded emit_detail_def]] s'
    by (auto simp: with_detail_def initialize_record_def)
qed

lemma release_property_Done:
  "release_property os property s = Done x s' \<Longrightarrow>
     g_in_trace s' = g_in_trace s \<and> x_log s' = x_log s @
       (if g_real_drm_mode_free_property s \<or> os_dlsym os (x_calls s) ''drmModeFreeProperty''
        then [FreedProperty (dp_prop_id property)] else [])"
  by (auto simp: release_property_def prog_defs log_event_def split: if_splits)

text \<open>The state in which libdrm's function is called, and what its release adds to the log.\<close>

definition resolved :: "os \<Rightarrow> tracer \<Rightarrow> tracer" where
  "resolved os s = (if g_real_drm_mode_get_property s then s
     else s\<lparr>g_real_drm_mode_get_property := os_dlsym os (x_calls s) ''drmModeGetProperty''\<rparr>)"

definition given_back :: "os \<Rightarrow> drm_property \<Rightarrow> tracer \<Rightarrow> trace_event list" where
  "given_back os property s =
     (if g_real_drm_mode_free_property s \<or> os_dlsym os (x_calls s) ''drmModeFreeProperty''
      then [FreedProperty (dp_prop_id property)] else [])"

text \<open>What follows libdrm's answer.\<close>

definition conclude :: "os \<Rightarrow> int \<Rightarrow> drm_property option \<Rightarrow> drm_property option tprog" where
  "conclude os fd answer =
     (case answer of
        None \<Rightarrow> ret None
      | Some property \<Rightarrow>
          bnd (gets id) (\<lambda>s.
            case ignored_reason s property of
              None \<Rightarrow> ret (Some property)
            | Some reason \<Rightarrow>
                andthen
                  (if 0 \<le> g_trace_fd s \<and> \<not> g_in_trace s \<and> should_trace_request DRM_IOCTL_MODE_GETPROPERTY s
                   then trace_ignored os fd reason property else ret ())
                  (andthen (release_property os property) (ret None))))"

lemma conclude_Done:
  assumes "conclude os fd answer s = Done result s'"
  shows "g_in_trace s' = g_in_trace s \<and>
    (case answer of
       None \<Rightarrow> result = None \<and> s' = s
     | Some property \<Rightarrow>
         (case ignored_reason s property of
            None \<Rightarrow> result = Some property \<and> s' = s
          | Some reason \<Rightarrow> result = None \<and>
              (\<exists>rs. x_log s' = x_log s @ map (\<lambda>r. Recorded r True) rs @ given_back os property s \<and>
                length rs = (if 0 \<le> g_trace_fd s \<and> \<not> g_in_trace s \<and> \<not> g_trace_steady s then 1 else 0) \<and>
                (\<forall>r \<in> set rs. t_name r = c_snprintf (zero_buf 32) reason \<and>
                   t_argument r ! 0 = ucast (dp_prop_id property)))))"
proof (cases "answer = None \<or> ignored_reason s (the answer) = None")
  case True
  with assms show ?thesis by (auto simp: conclude_def prog_eval ret_def split: option.splits)
next
  case False
  then obtain property reason where answer: "answer = Some property" "ignored_reason s property = Some reason" by auto
  let ?traced = "0 \<le> g_trace_fd s \<and> \<not> g_in_trace s \<and> should_trace_request DRM_IOCTL_MODE_GETPROPERTY s"
  from assms answer obtain s1 y where
    traced: "(if ?traced then trace_ignored os fd reason property else ret ()) s = Done y s1"
    and freed: "release_property os property s1 = Done () s'" and "result = None"
    by (auto simp: conclude_def prog_eval andthen_Done ret_def split: if_splits)
  have same: "g_in_trace s1 = g_in_trace s" "x_calls s1 = x_calls s"
      "g_real_drm_mode_free_property s1 = g_real_drm_mode_free_property s"
    using traced trace_ignored_Done(2-4) by (auto simp: ret_def split: if_splits)
  have "\<exists>rs. x_log s1 = x_log s @ map (\<lambda>r. Recorded r True) rs \<and> length rs = (if ?traced then 1 else 0) \<and>
      (\<forall>r \<in> set rs. t_name r = c_snprintf (zero_buf 32) reason \<and> t_argument r ! 0 = ucast (dp_prop_id property))"
  proof (cases ?traced)
    case True
    with traced trace_ignored_Done(1) obtain r where "x_log s1 = x_log s @ [Recorded r True]"
        "t_name r = c_snprintf (zero_buf 32) reason" "t_argument r ! 0 = ucast (dp_prop_id property)" by fastforce
    with True show ?thesis by (intro exI [of _ "[r]"]) simp
  next
    case False
    with traced show ?thesis by (auto simp: ret_def)
  qed
  then show ?thesis
    using release_property_Done [OF freed] same answer \<open>result = None\<close>
    by (auto simp: given_back_def should_trace_request_def)
qed


definition property_os :: "os" where
  "property_os = (sample_os 0)\<lparr>os_get_property := \<lambda>n fd property_id.
     ([(DRM_IOCTL_MODE_GETPROPERTY, 64), (DRM_IOCTL_MODE_GETPROPERTY, 64)],
      Some \<lparr>dp_prop_id = property_id, dp_flags = DRM_MODE_PROP_BITMASK, dp_name = ''CRTC masks''\<rparr>)\<rparr>"


end
