(* ===== verification/Linux_Input.thy ===== *)
theory Linux_Input
  imports Prelude
begin

section \<open>Input events of the kernel\<close>

text \<open>
  The structure and the code values of \<open>linux/input.h\<close> that the input bridge and the broker's
  volume guard use.
\<close>

abbreviation KEY_CNT :: nat where "KEY_CNT \<equiv> 0x300"
abbreviation KEY_ENTER :: nat where "KEY_ENTER \<equiv> 28"
abbreviation KEY_A :: nat where "KEY_A \<equiv> 30"
abbreviation BTN_MOUSE :: nat where "BTN_MOUSE \<equiv> 0x110"
abbreviation BTN_LEFT :: nat where "BTN_LEFT \<equiv> 0x110"
abbreviation BTN_TASK :: nat where "BTN_TASK \<equiv> 0x117"
abbreviation BUS_USB :: u16 where "BUS_USB \<equiv> 3"
abbreviation BUS_BLUETOOTH :: u16 where "BUS_BLUETOOTH \<equiv> 5"
abbreviation EV_SYN :: nat where "EV_SYN \<equiv> 0"
abbreviation EV_KEY :: nat where "EV_KEY \<equiv> 1"
abbreviation EV_REL :: nat where "EV_REL \<equiv> 2"
abbreviation EV_MSC :: nat where "EV_MSC \<equiv> 4"
abbreviation EV_REP :: nat where "EV_REP \<equiv> 0x14"
abbreviation SYN_REPORT :: nat where "SYN_REPORT \<equiv> 0"
abbreviation SYN_DROPPED :: nat where "SYN_DROPPED \<equiv> 3"
abbreviation MSC_SCAN :: nat where "MSC_SCAN \<equiv> 4"
abbreviation REL_X :: nat where "REL_X \<equiv> 0"
abbreviation REL_Y :: nat where "REL_Y \<equiv> 1"
abbreviation REL_HWHEEL :: nat where "REL_HWHEEL \<equiv> 6"
abbreviation REL_WHEEL :: nat where "REL_WHEEL \<equiv> 8"
abbreviation REL_WHEEL_HI_RES :: nat where "REL_WHEEL_HI_RES \<equiv> 11"
abbreviation REL_HWHEEL_HI_RES :: nat where "REL_HWHEEL_HI_RES \<equiv> 12"
abbreviation KEY_VOLUMEDOWN :: nat where "KEY_VOLUMEDOWN \<equiv> 114"
abbreviation KEY_VOLUMEUP :: nat where "KEY_VOLUMEUP \<equiv> 115"

text \<open>Type and code are unsigned 16-bit in the kernel's structure; the value is signed 32-bit.\<close>

record input_event =
  ie_type :: nat
  ie_code :: nat
  ie_value :: int

end
