(* ===== verification/Input_Bridge.thy ===== *)
theory Input_Bridge
  imports Linux_Input C_Text
begin

section \<open>The input bridge\<close>

text \<open>
  \<open>src/native/input-bridge/main.c\<close>: grabs the physical mouse and keyboard and forwards
  their events to one virtual mouse and one virtual keyboard. The globals of the source are
  the record \<open>bridge\<close>; a pointer to a source is its index in \<open>b_sources\<close>, a pointer to a
  virtual device is a \<open>vkind\<close>. Everything done to the kernel is logged in \<open>b_log\<close>, in
  order. What the kernel answers is an argument of the operation that asks: a probe per
  device node, the batches a descriptor delivers, one \<open>round\<close> per iteration of the main loop.
  The answers to the writes into the virtual devices are the script \<open>b_writes\<close>.
\<close>

subsection \<open>Constants and state\<close>

abbreviation SCAN_MS :: int where "SCAN_MS \<equiv> 250"
abbreviation ROLE_MOUSE :: u32 where "ROLE_MOUSE \<equiv> 1"
abbreviation ROLE_KEYBOARD :: u32 where "ROLE_KEYBOARD \<equiv> 2"

datatype vkind = Mouse | Keyboard

record physical_device =
  p_fd :: int
  p_path :: string
  p_name :: string
  p_roles :: u32
  p_pressed :: "nat \<Rightarrow> bool"
  p_dropping :: bool
  p_pending_mouse :: bool
  p_pending_keyboard :: bool

record virtual_device =
  v_name :: string
  v_fd :: int
  v_path :: string
  v_holders :: "nat \<Rightarrow> u32"
  v_hires_wheel :: bool
  v_hires_hwheel :: bool

datatype ui_request =
    UI_SET_EVBIT nat
  | UI_SET_MSCBIT nat
  | UI_SET_RELBIT nat
  | UI_SET_KEYBIT nat
  | UI_DEV_SETUP string u16
  | UI_DEV_CREATE
  | UI_DEV_DESTROY

datatype bridge_action =
    Emit vkind input_event
  | Refused vkind input_event
  | Warning string
  | OpenFd int
  | CloseFd int
  | Grab int
  | Ungrab int
  | UiCall vkind ui_request

record bridge =
  b_sources :: "physical_device list"
  b_capacity :: nat
  b_mouse :: virtual_device
  b_keyboard :: virtual_device
  b_log :: "bridge_action list"
  b_writes :: "(int \<times> int) list"

definition act :: "bridge_action \<Rightarrow> bridge \<Rightarrow> bridge" where
  "act a b = b\<lparr>b_log := b_log b @ [a]\<rparr>"

definition vdev :: "bridge \<Rightarrow> vkind \<Rightarrow> virtual_device" where
  "vdev b k = (case k of Mouse \<Rightarrow> b_mouse b | Keyboard \<Rightarrow> b_keyboard b)"

definition set_vdev :: "vkind \<Rightarrow> virtual_device \<Rightarrow> bridge \<Rightarrow> bridge" where
  "set_vdev k v b = (case k of Mouse \<Rightarrow> b\<lparr>b_mouse := v\<rparr> | Keyboard \<Rightarrow> b\<lparr>b_keyboard := v\<rparr>)"

definition set_source :: "nat \<Rightarrow> physical_device \<Rightarrow> bridge \<Rightarrow> bridge" where
  "set_source i p b = b\<lparr>b_sources := (b_sources b)[i := p]\<rparr>"

subsection \<open>Which devices are taken\<close>

definition has_capability :: "u64 list option \<Rightarrow> nat \<Rightarrow> bool" where
  "has_capability answer code =
     (case answer of None \<Rightarrow> False | Some bits \<Rightarrow> bit (bits ! (code div 64)) (code mod 64))"

definition classify_device :: "u16 \<Rightarrow> string \<Rightarrow> bool \<Rightarrow> bool \<Rightarrow> u32" where
  "classify_device bus name mouse_capable keyboard_capable =
     (if bus = BUS_BLUETOOTH then
        if mouse_capable \<and> name = ''ASUS MD100 Mouse'' then ROLE_MOUSE
        else if keyboard_capable \<and> name = ''BT Keyboard'' then ROLE_KEYBOARD
        else 0
      else if bus \<noteq> BUS_USB then 0
      else (if mouse_capable then ROLE_MOUSE else 0) OR (if keyboard_capable then ROLE_KEYBOARD else 0))"

text \<open>
  What a device node answers: \<open>open\<close> (given the descriptors the bridge holds, negative on
  failure), its name and bus, its capability bits per event type and code asked for, and
  whether grabbing it and allocating for it succeed.
\<close>

record probe =
  pr_open :: "int list \<Rightarrow> int"
  pr_name :: "string option"
  pr_bus :: "u16 option"
  pr_caps :: "nat \<Rightarrow> nat \<Rightarrow> u64 list option"
  pr_grab :: bool
  pr_calloc :: bool
  pr_realloc :: bool

definition physical_roles :: "probe \<Rightarrow> u32 \<times> string" where
  "physical_roles pr =
     (case (pr_name pr, pr_bus pr) of
        (Some raw, Some bus) \<Rightarrow>
          let name = c_str (take 255 raw) in
          if bus \<noteq> BUS_USB \<and> bus \<noteq> BUS_BLUETOOTH then (0, name)
          else
            let mouse_capable = has_capability (pr_caps pr EV_REL REL_X) REL_X \<and>
                  has_capability (pr_caps pr EV_REL REL_Y) REL_Y \<and>
                  has_capability (pr_caps pr EV_KEY BTN_LEFT) BTN_LEFT;
                keyboard_capable = has_capability (pr_caps pr EV_KEY KEY_A) KEY_A \<and>
                  has_capability (pr_caps pr EV_KEY KEY_ENTER) KEY_ENTER
            in (classify_device bus name mouse_capable keyboard_capable, name)
      | _ \<Rightarrow> (0, ''''))"

definition source_exists :: "string \<Rightarrow> bridge \<Rightarrow> bool" where
  "source_exists path b = list_ex (\<lambda>p. p_path p = path) (b_sources b)"

definition new_source :: "int \<Rightarrow> string \<Rightarrow> string \<Rightarrow> u32 \<Rightarrow> physical_device" where
  "new_source fd path name roles =
     \<lparr>p_fd = fd, p_path = path, p_name = name, p_roles = roles, p_pressed = \<lambda>code. False,
      p_dropping = False, p_pending_mouse = False, p_pending_keyboard = False\<rparr>"

definition held_fds :: "bridge \<Rightarrow> int list" where
  "held_fds b = filter (\<lambda>fd. 0 \<le> fd) [v_fd (b_mouse b), v_fd (b_keyboard b)] @ map p_fd (b_sources b)"

text \<open>One path of the scan.\<close>

definition scan_path :: "string \<Rightarrow> probe \<Rightarrow> bridge \<Rightarrow> bridge" where
  "scan_path path pr b =
     (if source_exists path b then b
      else
        let fd = pr_open pr (held_fds b) in
        if fd < 0 then b
        else
          let b = act (OpenFd fd) b; (roles, name) = physical_roles pr in
          if roles = 0 \<or> \<not> pr_grab pr then act (CloseFd fd) b
          else
            let b = act (Grab fd) b; full = (length (b_sources b) = b_capacity b) in
            if \<not> pr_calloc pr \<or> (full \<and> \<not> pr_realloc pr)
            then act (CloseFd fd) (act (Ungrab fd) b)
            else
              let capacity = (if \<not> full then b_capacity b
                              else if b_capacity b \<noteq> 0 then b_capacity b * 2 else 4)
              in b\<lparr>b_capacity := capacity,
                   b_sources := b_sources b @ [new_source fd (take 4095 path) name roles]\<rparr>)"

fun scan_paths :: "string list \<Rightarrow> (string \<Rightarrow> probe) \<Rightarrow> bridge \<Rightarrow> bridge" where
  "scan_paths [] probes b = b"
| "scan_paths (path # paths) probes b = scan_paths paths probes (scan_path path (probes path) b)"

definition scan_physical :: "string list option \<Rightarrow> (string \<Rightarrow> probe) \<Rightarrow> bridge \<Rightarrow> bridge" where
  "scan_physical globbed probes b =
     (case globbed of None \<Rightarrow> b | Some paths \<Rightarrow> scan_paths paths probes b)"

subsection \<open>Virtual devices\<close>

text \<open>What uinput and sysfs answer while a virtual device is created.\<close>

record uinput =
  u_open :: int
  u_ioctl :: "ui_request \<Rightarrow> bool"
  u_sysname :: "string option"
  u_events :: "nat \<Rightarrow> (string \<times> string option) list option"

text \<open>\<open>strrchr(s, '/') + 1\<close>, if there is a slash.\<close>

definition base_name :: "string \<Rightarrow> string option" where
  "base_name s =
     (if CHR ''/'' \<in> set s then Some (rev (takeWhile (\<lambda>c. c \<noteq> CHR ''/'') (rev s))) else None)"

fun match_event :: "string \<Rightarrow> (string \<times> string option) list \<Rightarrow> string option" where
  "match_event sysname [] = None"
| "match_event sysname ((event, resolved) # events) =
     (case resolved of
        None \<Rightarrow> match_event sysname events
      | Some target \<Rightarrow>
          if base_name target = Some sysname
          then Some (take 4095 (''/dev/input/'' @ (case base_name event of Some n \<Rightarrow> n | None \<Rightarrow> '''')))
          else match_event sysname events)"

fun locate_attempts :: "string \<Rightarrow> (nat \<Rightarrow> (string \<times> string option) list option) \<Rightarrow> nat list \<Rightarrow>
    string option" where
  "locate_attempts sysname events [] = None"
| "locate_attempts sysname events (n # ns) =
     (case events n of
        None \<Rightarrow> locate_attempts sysname events ns
      | Some es \<Rightarrow>
          (case match_event sysname es of
             Some path \<Rightarrow> Some path
           | None \<Rightarrow> locate_attempts sysname events ns))"

definition locate_virtual_event :: "uinput \<Rightarrow> string option" where
  "locate_virtual_event u =
     (case u_sysname u of
        None \<Rightarrow> None
      | Some sysname \<Rightarrow> locate_attempts sysname (u_events u) [0..<50])"

text \<open>Requests joined by \<open>||\<close>: issued in order until one fails.\<close>

fun ui_chain :: "vkind \<Rightarrow> uinput \<Rightarrow> ui_request list \<Rightarrow> bridge \<Rightarrow> bool \<times> bridge" where
  "ui_chain k u [] b = (True, b)"
| "ui_chain k u (r # rs) b =
     (if u_ioctl u r then ui_chain k u rs (act (UiCall k r) b) else (False, act (UiCall k r) b))"

text \<open>Requests whose answers are ignored.\<close>

fun ui_each :: "vkind \<Rightarrow> ui_request list \<Rightarrow> bridge \<Rightarrow> bridge" where
  "ui_each k [] b = b"
| "ui_each k (r # rs) b = ui_each k rs (act (UiCall k r) b)"

definition enable_codes :: "vkind \<Rightarrow> uinput \<Rightarrow> bridge \<Rightarrow> bool \<times> bridge" where
  "enable_codes k u b =
     (case k of
        Mouse \<Rightarrow>
          let (ok, b) = ui_chain k u [UI_SET_EVBIT EV_REL, UI_SET_RELBIT REL_X, UI_SET_RELBIT REL_Y,
                UI_SET_RELBIT REL_WHEEL, UI_SET_RELBIT REL_HWHEEL] b in
          if \<not> ok then (False, b)
          else
            let b = ui_each k [UI_SET_RELBIT REL_WHEEL_HI_RES, UI_SET_RELBIT REL_HWHEEL_HI_RES] b;
                b = set_vdev k ((vdev b k)\<lparr>
                  v_hires_wheel := u_ioctl u (UI_SET_RELBIT REL_WHEEL_HI_RES),
                  v_hires_hwheel := u_ioctl u (UI_SET_RELBIT REL_HWHEEL_HI_RES)\<rparr>) b
            in (True, ui_each k (map UI_SET_KEYBIT [BTN_LEFT..<BTN_TASK + 1]) b)
      | Keyboard \<Rightarrow>
          (True, ui_each k [UI_SET_EVBIT EV_REP] (ui_each k (map UI_SET_KEYBIT [1..<KEY_CNT]) b)))"

definition create_virtual :: "vkind \<Rightarrow> uinput \<Rightarrow> bridge \<Rightarrow> bool \<times> bridge" where
  "create_virtual k u b =
     (let fd = u_open u in
      if fd < 0 then (False, b)
      else
        let b = act (OpenFd fd) b;
            (ok, b) = ui_chain k u [UI_SET_EVBIT EV_SYN, UI_SET_EVBIT EV_KEY, UI_SET_EVBIT EV_MSC,
              UI_SET_MSCBIT MSC_SCAN] b
        in if \<not> ok then (False, act (CloseFd fd) b)
        else let (ok, b) = enable_codes k u b in
          if \<not> ok then (False, act (CloseFd fd) b)
          else
            let (ok, b) = ui_chain k u [UI_DEV_SETUP (v_name (vdev b k))
                  (case k of Mouse \<Rightarrow> 0x1001 | Keyboard \<Rightarrow> 0x1002), UI_DEV_CREATE] b
            in case (if ok then locate_virtual_event u else None) of
                 None \<Rightarrow> (False, act (CloseFd fd) (act (UiCall k UI_DEV_DESTROY) b))
               | Some path \<Rightarrow> (True, set_vdev k ((vdev b k)\<lparr>v_fd := fd, v_path := path\<rparr>) b))"

text \<open>
  One \<open>write\<close> of an event: the answer is the number of bytes taken (-1 on failure) and
  \<open>errno\<close> afterwards; past the script the whole event, 24 bytes, is taken. An event that is
  not taken is dropped, with a warning unless the device was merely busy.
\<close>

abbreviation INPUT_EVENT_SIZE :: int where "INPUT_EVENT_SIZE \<equiv> 24"

definition write_answer :: "bridge \<Rightarrow> int \<times> int" where
  "write_answer b = (case b_writes b of [] \<Rightarrow> (INPUT_EVENT_SIZE, 0) | answer # answers \<Rightarrow> answer)"

definition emit_event :: "vkind \<Rightarrow> input_event \<Rightarrow> bridge \<Rightarrow> bridge" where
  "emit_event k ev b =
     (let (size, errno) = write_answer b; b = b\<lparr>b_writes := tl (b_writes b)\<rparr> in
      if size = INPUT_EVENT_SIZE then act (Emit k ev) b
      else if errno \<noteq> EAGAIN then act (Warning ''uinput write failed'') (act (Refused k ev) b)
      else act (Refused k ev) b)"

definition emit_key :: "vkind \<Rightarrow> nat \<Rightarrow> int \<Rightarrow> bridge \<Rightarrow> bridge" where
  "emit_key k code val b = emit_event k \<lparr>ie_type = EV_KEY, ie_code = code, ie_value = val\<rparr> b"

definition emit_sync :: "vkind \<Rightarrow> bridge \<Rightarrow> bridge" where
  "emit_sync k b = emit_event k \<lparr>ie_type = EV_SYN, ie_code = SYN_REPORT, ie_value = 0\<rparr> b"

fun release_codes :: "vkind \<Rightarrow> nat list \<Rightarrow> bool \<Rightarrow> bridge \<Rightarrow> bool \<times> bridge" where
  "release_codes k [] changed b = (changed, b)"
| "release_codes k (code # codes) changed b =
     (if v_holders (vdev b k) code = 0 then release_codes k codes changed b
      else release_codes k codes True
        (emit_key k code 0
          (set_vdev k ((vdev b k)\<lparr>v_holders := (v_holders (vdev b k))(code := 0)\<rparr>) b)))"

definition release_keys :: "vkind \<Rightarrow> bridge \<Rightarrow> bridge" where
  "release_keys k b =
     (let (changed, b) = release_codes k [0..<KEY_CNT] False b
      in if changed then emit_sync k b else b)"

definition destroy_virtual :: "vkind \<Rightarrow> bridge \<Rightarrow> bridge" where
  "destroy_virtual k b =
     (if v_fd (vdev b k) < 0 then b
      else
        let b = act (UiCall k UI_DEV_DESTROY) (release_keys k b);
            b = act (CloseFd (v_fd (vdev b k))) b
        in set_vdev k ((vdev b k)\<lparr>v_fd := - 1\<rparr>) b)"

subsection \<open>Keys\<close>

definition key_target :: "physical_device \<Rightarrow> nat \<Rightarrow> vkind option" where
  "key_target source code =
     (if KEY_CNT \<le> code then None
      else if BTN_MOUSE \<le> code \<and> code \<le> BTN_TASK
      then (if has_bits (p_roles source) ROLE_MOUSE then Some Mouse else None)
      else (if has_bits (p_roles source) ROLE_KEYBOARD then Some Keyboard else None))"

definition flush_frame :: "nat \<Rightarrow> bridge \<Rightarrow> bridge" where
  "flush_frame i b =
     (let source = b_sources b ! i;
          b = (if p_pending_mouse source then emit_sync Mouse b else b);
          b = (if p_pending_keyboard source then emit_sync Keyboard b else b)
      in set_source i (source\<lparr>p_pending_mouse := False, p_pending_keyboard := False\<rparr>) b)"

definition set_pending :: "vkind \<Rightarrow> physical_device \<Rightarrow> physical_device" where
  "set_pending k p =
     (case k of Mouse \<Rightarrow> p\<lparr>p_pending_mouse := True\<rparr> | Keyboard \<Rightarrow> p\<lparr>p_pending_keyboard := True\<rparr>)"

definition mark_pending :: "nat \<Rightarrow> vkind \<Rightarrow> bridge \<Rightarrow> bridge" where
  "mark_pending i k b = set_source i (set_pending k (b_sources b ! i)) b"

definition change_key :: "nat \<Rightarrow> nat \<Rightarrow> int \<Rightarrow> bridge \<Rightarrow> bridge" where
  "change_key i code val b =
     (let source = b_sources b ! i in
      case key_target source code of
        None \<Rightarrow> b
      | Some k \<Rightarrow>
          let holders = v_holders (vdev b k) code in
          if val = 2 then
            if p_pressed source code \<and> holders \<noteq> 0
            then mark_pending i k (emit_key k code 2 b) else b
          else if val = 1 \<and> \<not> p_pressed source code then
            let b = set_source i (source\<lparr>p_pressed := (p_pressed source)(code := True)\<rparr>) b;
                b = set_vdev k ((vdev b k)\<lparr>v_holders := (v_holders (vdev b k))(code := holders + 1)\<rparr>) b
            in if holders = 0 then mark_pending i k (emit_key k code 1 b) else b
          else if val = 0 \<and> p_pressed source code then
            let b = set_source i (source\<lparr>p_pressed := (p_pressed source)(code := False)\<rparr>) b;
                b = set_vdev k ((vdev b k)\<lparr>v_holders := (v_holders (vdev b k))(code := holders - 1)\<rparr>) b
            in if holders - 1 = 0 then mark_pending i k (emit_key k code 0 b) else b
          else b)"

definition key_bit :: "u8 list \<Rightarrow> nat \<Rightarrow> bool" where
  "key_bit bits code \<longleftrightarrow> bit (bits ! (code div 8)) (code mod 8)"

fun reconcile_codes :: "nat \<Rightarrow> u8 list \<Rightarrow> nat list \<Rightarrow> bridge \<Rightarrow> bridge" where
  "reconcile_codes i bits [] b = b"
| "reconcile_codes i bits (code # codes) b =
     reconcile_codes i bits codes
       (if key_target (b_sources b ! i) code = None then b
        else let down = key_bit bits code in
          if down \<noteq> p_pressed (b_sources b ! i) code then change_key i code (if down then 1 else 0) b
          else b)"

definition reconcile_key_bits :: "nat \<Rightarrow> u8 list \<Rightarrow> bridge \<Rightarrow> bridge" where
  "reconcile_key_bits i bits b = reconcile_codes i bits [0..<KEY_CNT] b"


subsection \<open>Forwarding\<close>

text \<open>
  What one descriptor delivers while it is drained: the batches of events its reads return
  (a read of zero bytes is the empty batch; past the script the non-blocking descriptor has
  nothing more, EAGAIN), and what the kernel answers each time it is asked for the state of
  all keys.
\<close>

record source_io =
  io_reads :: "input_event list call list"
  io_keybits :: "u8 list option list"

definition relative_supported :: "bridge \<Rightarrow> nat \<Rightarrow> bool" where
  "relative_supported b code \<longleftrightarrow>
     (if code = REL_X \<or> code = REL_Y \<or> code = REL_WHEEL \<or> code = REL_HWHEEL then True
      else if code = REL_WHEEL_HI_RES then v_hires_wheel (b_mouse b)
      else if code = REL_HWHEEL_HI_RES then v_hires_hwheel (b_mouse b)
      else False)"

definition reconcile_keys :: "nat \<Rightarrow> u8 list option list \<Rightarrow> bridge \<Rightarrow>
    bool \<times> u8 list option list \<times> bridge" where
  "reconcile_keys i keybits b =
     (case keybits of
        Some bits # rest \<Rightarrow> (True, rest, reconcile_key_bits i bits b)
      | None # rest \<Rightarrow> (False, rest, b)
      | [] \<Rightarrow> (False, [], b))"

definition forward_msc :: "nat \<Rightarrow> input_event \<Rightarrow> bridge \<Rightarrow> bridge" where
  "forward_msc i ev b =
     (let roles = p_roles (b_sources b ! i);
          b = (if has_bits roles ROLE_MOUSE then mark_pending i Mouse (emit_event Mouse ev b) else b)
      in if has_bits roles ROLE_KEYBOARD then mark_pending i Keyboard (emit_event Keyboard ev b) else b)"

text \<open>One event: whether to go on, the remaining key-state answers, the bridge.\<close>

definition forward_event :: "nat \<Rightarrow> input_event \<Rightarrow> u8 list option list \<Rightarrow> bridge \<Rightarrow>
    bool \<times> u8 list option list \<times> bridge" where
  "forward_event i ev keybits b =
     (let source = b_sources b ! i in
      if ie_type ev = EV_SYN \<and> ie_code ev = SYN_DROPPED
      then (True, keybits, set_source i (source\<lparr>p_dropping := True\<rparr>) b)
      else if ie_type ev = EV_SYN \<and> ie_code ev = SYN_REPORT then
        if p_dropping source then
          let (ok, keybits, b) = reconcile_keys i keybits b in
          if \<not> ok then (False, keybits, b)
          else (True, keybits, flush_frame i
                  (set_source i ((b_sources b ! i)\<lparr>p_dropping := False\<rparr>) b))
        else (True, keybits, flush_frame i b)
      else if p_dropping source then (True, keybits, b)
      else if ie_type ev = EV_KEY then (True, keybits, change_key i (ie_code ev) (ie_value ev) b)
      else if ie_type ev = EV_REL \<and> has_bits (p_roles source) ROLE_MOUSE \<and>
              relative_supported b (ie_code ev)
      then (True, keybits, mark_pending i Mouse (emit_event Mouse ev b))
      else if ie_type ev = EV_MSC \<and> ie_code ev = MSC_SCAN
      then (True, keybits, forward_msc i ev b)
      else (True, keybits, b))"

fun forward_batch :: "nat \<Rightarrow> input_event list \<Rightarrow> u8 list option list \<Rightarrow> bridge \<Rightarrow>
    bool \<times> u8 list option list \<times> bridge" where
  "forward_batch i [] keybits b = (True, keybits, b)"
| "forward_batch i (ev # evs) keybits b =
     (let (ok, keybits, b) = forward_event i ev keybits b in
      if ok then forward_batch i evs keybits b else (False, keybits, b))"

fun forward_reads :: "nat \<Rightarrow> input_event list call list \<Rightarrow> u8 list option list \<Rightarrow> bridge \<Rightarrow>
    bool \<times> bridge" where
  "forward_reads i [] keybits b = (True, b)"
| "forward_reads i (CallErr e # reads) keybits b = (e = EAGAIN \<or> e = EINTR, b)"
| "forward_reads i (CallOk evs # reads) keybits b =
     (if evs = [] then (False, b)
      else let (ok, keybits, b) = forward_batch i evs keybits b in
        if ok then forward_reads i reads keybits b else (False, b))"

definition forward_events :: "nat \<Rightarrow> u16 \<Rightarrow> source_io \<Rightarrow> bridge \<Rightarrow> bool \<times> bridge" where
  "forward_events i revents io b =
     (if has_bits revents (POLLERR OR POLLHUP OR POLLNVAL) then (False, b)
      else if \<not> has_bits revents POLLIN then (True, b)
      else forward_reads i (io_reads io) (io_keybits io) b)"

fun release_pressed :: "nat \<Rightarrow> nat list \<Rightarrow> bridge \<Rightarrow> bridge" where
  "release_pressed i [] b = b"
| "release_pressed i (code # codes) b =
     release_pressed i codes
       (if p_pressed (b_sources b ! i) code then change_key i code 0 b else b)"

definition disconnect_physical :: "nat \<Rightarrow> bridge \<Rightarrow> bridge" where
  "disconnect_physical i b =
     (let b = flush_frame i (release_pressed i [0..<KEY_CNT] b);
          fd = p_fd (b_sources b ! i);
          b = act (CloseFd fd) (act (Ungrab fd) b)
      in b\<lparr>b_sources := take i (b_sources b) @ drop (i + 1) (b_sources b)\<rparr>)"

subsection \<open>The main loop\<close>

text \<open>
  The file that tells the launcher which event nodes to use: written under a temporary name
  and renamed into place; on any failure after the creation the temporary file is removed.
  \<open>rio_open\<close> is the descriptor the creation returns (negative on failure). The chain stops at
  its first failure, so the descriptor is closed only if the text was printed and synced; a
  \<open>close\<close> that reports an error has released the descriptor all the same.
\<close>

datatype file_op =
    Create string
  | Print string string
  | Fsync string
  | CloseFile string
  | Rename string string
  | Unlink string

record ready_io =
  rio_pid :: nat
  rio_open :: int
  rio_answer :: "file_op \<Rightarrow> bool"

fun file_chain :: "(file_op \<Rightarrow> bool) \<Rightarrow> file_op list \<Rightarrow> bool \<times> file_op list" where
  "file_chain answer [] = (True, [])"
| "file_chain answer (op # ops) =
     (if answer op then let (ok, performed) = file_chain answer ops in (ok, op # performed) else (False, [op]))"

definition write_ready :: "string \<Rightarrow> ready_io \<Rightarrow> bridge \<Rightarrow> bool \<times> file_op list \<times> bridge" where
  "write_ready runtime rio b =
     (let output = take 4095 (runtime @ ''/input.env'');
          temporary = take 4095 (runtime @ ''/input.env.tmp.'' @ show_nat (rio_pid rio));
          fd = rio_open rio
      in if fd < 0 then (False, [Create temporary], b)
         else
           let b = act (OpenFd fd) b;
               (ok, ops) = file_chain (rio_answer rio)
                 [Print temporary (''MOUSE_EVENT='' @ v_path (b_mouse b) @ [CHR 0x0A] @
                    ''KEYBOARD_EVENT='' @ v_path (b_keyboard b) @ [CHR 0x0A]),
                  Fsync temporary, CloseFile temporary, Rename temporary output];
               b = (if CloseFile temporary \<in> set ops then act (CloseFd fd) b else b)
           in (ok, Create temporary # ops @ (if ok then [] else [Unlink temporary]), b))"

record round =
  rd_now :: int
  rd_glob :: "string list option"
  rd_probe :: "string \<Rightarrow> probe"
  rd_calloc :: bool
  rd_now2 :: int
  rd_poll :: "int call"
  rd_revents :: "nat \<Rightarrow> u16"
  rd_io :: "nat \<Rightarrow> source_io"

text \<open>The loop over the ready descriptors, from the last source to the first.\<close>

fun serve :: "nat \<Rightarrow> round \<Rightarrow> bridge \<Rightarrow> bridge" where
  "serve 0 rd b = b"
| "serve (Suc i) rd b =
     (let (alive, b) = forward_events i (rd_revents rd i) (rd_io rd i) b
      in serve i rd (if alive then b else disconnect_physical i b))"

definition poll_timeout :: "int \<Rightarrow> int \<Rightarrow> int" where
  "poll_timeout now next_scan = (if next_scan \<le> now then 0 else next_scan - now)"

text \<open>
  The loop until a stop is requested (the end of the list of rounds) or it breaks. The
  result carries the timeouts passed to \<open>poll\<close>.
\<close>

fun bridge_loop :: "round list \<Rightarrow> int \<Rightarrow> int list \<Rightarrow> bridge \<Rightarrow> int list \<times> bridge" where
  "bridge_loop [] next_scan timeouts b = (timeouts, b)"
| "bridge_loop (rd # rounds) next_scan timeouts b =
     (let now = rd_now rd;
          due = (next_scan \<le> now);
          b = (if due then scan_physical (rd_glob rd) (rd_probe rd) b else b);
          next_scan = (if due then now + SCAN_MS else next_scan)
      in if \<not> rd_calloc rd then (timeouts, b)
         else
           let timeouts = timeouts @ [poll_timeout (rd_now2 rd) next_scan] in
           case rd_poll rd of
             CallErr e \<Rightarrow> if e \<noteq> EINTR then (timeouts, b) else bridge_loop rounds next_scan timeouts b
           | CallOk n \<Rightarrow>
               bridge_loop rounds next_scan timeouts
                 (if 0 < n then serve (length (b_sources b)) rd b else b))"

fun disconnect_all :: "nat \<Rightarrow> bridge \<Rightarrow> bridge" where
  "disconnect_all 0 b = b"
| "disconnect_all (Suc n) b = disconnect_all n (disconnect_physical n b)"

definition idle_virtual :: "string \<Rightarrow> virtual_device" where
  "idle_virtual name =
     \<lparr>v_name = name, v_fd = - 1, v_path = '''', v_holders = \<lambda>code. 0, v_hires_wheel = False,
      v_hires_hwheel = False\<rparr>"

definition idle_bridge :: "(int \<times> int) list \<Rightarrow> bridge" where
  "idle_bridge writes =
     \<lparr>b_sources = [], b_capacity = 0, b_mouse = idle_virtual ''hdmi-los-mouse'',
      b_keyboard = idle_virtual ''hdmi-los-keyboard'', b_log = [], b_writes = writes\<rparr>"

definition run_bridge :: "string \<Rightarrow> int call \<Rightarrow> uinput \<Rightarrow> uinput \<Rightarrow> ready_io \<Rightarrow>
    (int \<times> int) list \<Rightarrow> round list \<Rightarrow> int \<times> file_op list \<times> bridge" where
  "run_bridge runtime mkdir um uk rio writes rounds =
     (if (case mkdir of CallOk r \<Rightarrow> False | CallErr e \<Rightarrow> e \<noteq> EEXIST)
      then (1, [], idle_bridge writes)
      else
        let (ok1, b) = create_virtual Mouse um (idle_bridge writes);
            (ok2, b) = (if ok1 then create_virtual Keyboard uk b else (False, b));
            (ok3, files, b) = (if ok2 then write_ready runtime rio b else (False, [], b))
        in if \<not> ok3 then (1, files, destroy_virtual Mouse (destroy_virtual Keyboard b))
           else
             let (timeouts, b) = bridge_loop rounds 0 [] b;
                 b = (disconnect_all (length (b_sources b)) b)\<lparr>b_capacity := 0\<rparr>
             in (0, files, destroy_virtual Mouse (destroy_virtual Keyboard b)))"

definition bridge_main :: "string list \<Rightarrow> int call \<Rightarrow> uinput \<Rightarrow> uinput \<Rightarrow> ready_io \<Rightarrow>
    (int \<times> int) list \<Rightarrow> round list \<Rightarrow> int \<times> file_op list \<times> bridge" where
  "bridge_main argv mkdir um uk rio writes rounds =
     (if length argv \<noteq> 3 \<or> argv ! 1 \<noteq> ''--runtime'' then (2, [], idle_bridge writes)
      else run_bridge (argv ! 2) mkdir um uk rio writes rounds)"

end
