(* ===== verification/Input_Bridge_Correct.thy ===== *)
theory Input_Bridge_Correct
  imports Input_Bridge "HOL-Library.Multiset"
begin

section \<open>What the input bridge guarantees\<close>

text \<open>
  The virtual devices show a key as held exactly while some physical source holds it,
  whatever is grabbed, dropped or unplugged in between; every descriptor and every grab is
  given back; the ready file appears completely or not at all.
\<close>

subsection \<open>Keys as the virtual devices show them\<close>

definition code_kind :: "nat \<Rightarrow> vkind" where
  "code_kind code = (if BTN_MOUSE \<le> code \<and> code \<le> BTN_TASK then Mouse else Keyboard)"

definition pressing :: "bridge \<Rightarrow> vkind \<Rightarrow> nat \<Rightarrow> nat" where
  "pressing b k code =
     (if k = code_kind code then length (filter (\<lambda>p. p_pressed p code) (b_sources b)) else 0)"

text \<open>
  The state of a key, read off the events written to a virtual device: \<open>shown\<close> is what the
  device shows, it saw only the events it took; \<open>intended\<close> is what it would show had it taken
  all of them; a key is \<open>settled\<close> unless the last event of the key was refused.
\<close>

definition concerns :: "vkind \<Rightarrow> nat \<Rightarrow> vkind \<Rightarrow> input_event \<Rightarrow> bool" where
  "concerns k code k' ev \<longleftrightarrow> k' = k \<and> ie_type ev = EV_KEY \<and> ie_code ev = code"

fun key_after :: "vkind \<Rightarrow> nat \<Rightarrow> bool \<Rightarrow> bridge_action \<Rightarrow> bool" where
  "key_after k code down (Emit k' ev) = (if concerns k code k' ev then ie_value ev \<noteq> 0 else down)"
| "key_after k code down _ = down"

fun key_intended :: "vkind \<Rightarrow> nat \<Rightarrow> bool \<Rightarrow> bridge_action \<Rightarrow> bool" where
  "key_intended k code down (Emit k' ev) = (if concerns k code k' ev then ie_value ev \<noteq> 0 else down)"
| "key_intended k code down (Refused k' ev) = (if concerns k code k' ev then ie_value ev \<noteq> 0 else down)"
| "key_intended k code down _ = down"

fun key_settled :: "vkind \<Rightarrow> nat \<Rightarrow> bool \<Rightarrow> bridge_action \<Rightarrow> bool" where
  "key_settled k code ok (Emit k' ev) = (concerns k code k' ev \<or> ok)"
| "key_settled k code ok (Refused k' ev) = (\<not> concerns k code k' ev \<and> ok)"
| "key_settled k code ok _ = ok"

definition shown :: "vkind \<Rightarrow> nat \<Rightarrow> bridge_action list \<Rightarrow> bool" where
  "shown k code es = foldl (key_after k code) False es"

definition intended :: "vkind \<Rightarrow> nat \<Rightarrow> bridge_action list \<Rightarrow> bool" where
  "intended k code es = foldl (key_intended k code) False es"

definition settled :: "vkind \<Rightarrow> nat \<Rightarrow> bridge_action list \<Rightarrow> bool" where
  "settled k code es = foldl (key_settled k code) True es"

lemma concerns_iff [simp]:
  "concerns k code k' ev \<longleftrightarrow> k' = k \<and> ie_type ev = EV_KEY \<and> ie_code ev = code"
  by (rule concerns_def)

lemma shown_snoc [simp]: "shown k code (es @ [e]) = key_after k code (shown k code es) e"
  by (simp add: shown_def)

lemma intended_append [simp]:
  "intended k code (es @ es') = foldl (key_intended k code) (intended k code es) es'"
  by (simp add: intended_def)

lemma settled_snoc [simp]: "settled k code (es @ [e]) = key_settled k code (settled k code es) e"
  by (simp add: settled_def)

lemma settled_shown: "settled k code es \<Longrightarrow> shown k code es = intended k code es"
proof (induction es rule: rev_induct)
  case Nil
  show ?case by (simp add: shown_def intended_def)
next
  case (snoc e es)
  then show ?case by (cases e) (auto split: if_splits)
qed

text \<open>What writing an event adds to the log.\<close>

fun event_action :: "bridge_action \<Rightarrow> bool" where
  "event_action (Emit k ev) = True"
| "event_action (Refused k ev) = True"
| "event_action (Warning msg) = True"
| "event_action _ = False"

definition outcome :: "vkind \<Rightarrow> input_event \<Rightarrow> bridge \<Rightarrow> bridge_action list" where
  "outcome k ev b =
     (let (size, errno) = write_answer b in
      if size = INPUT_EVENT_SIZE then [Emit k ev]
      else if errno \<noteq> EAGAIN then [Refused k ev, Warning ''uinput write failed'']
      else [Refused k ev])"

lemma outcome_actions [simp]: "\<forall>e \<in> set (outcome k ev b). event_action e"
  by (auto simp: outcome_def split: prod.splits if_splits)

lemma foldl_outcome [simp]:
  "foldl (key_intended k code) down (outcome k' ev b) =
     (if concerns k code k' ev then ie_value ev \<noteq> 0 else down)"
  by (simp add: outcome_def split: prod.split)

lemma foldl_acts:
  "\<forall>e \<in> set es. \<not> event_action e \<Longrightarrow> foldl (key_intended k code) down es = down"
proof (induction es arbitrary: down)
  case (Cons e es)
  then show ?case by (cases e) auto
qed simp

definition key_inv :: "bridge \<Rightarrow> bool" where
  "key_inv b \<longleftrightarrow>
     length (b_sources b) < 2 ^ 32 \<and>
     (\<forall>p \<in> set (b_sources b). \<forall>code. p_pressed p code \<longrightarrow> key_target p code \<noteq> None) \<and>
     (\<forall>k code. unat (v_holders (vdev b k) code) = pressing b k code \<and>
        (intended k code (b_log b) \<longleftrightarrow> 0 < pressing b k code))"

subsection \<open>What the operations on one source keep\<close>

text \<open>Only events are written, and descriptors, roles and paths stay.\<close>

definition frame :: "bridge \<Rightarrow> bridge \<Rightarrow> bool" where
  "frame b b' \<longleftrightarrow>
     map p_fd (b_sources b') = map p_fd (b_sources b) \<and>
     map p_roles (b_sources b') = map p_roles (b_sources b) \<and>
     map p_path (b_sources b') = map p_path (b_sources b) \<and>
     b_capacity b' = b_capacity b \<and>
     (\<forall>k. v_fd (vdev b' k) = v_fd (vdev b k)) \<and>
     (\<exists>es. b_log b' = b_log b @ es \<and> (\<forall>e \<in> set es. event_action e))"

lemma frame_refl [simp]: "frame b b"
  by (simp add: frame_def)

lemma frame_trans: "frame b1 b2 \<Longrightarrow> frame b2 b3 \<Longrightarrow> frame b1 b3"
  unfolding frame_def by (metis (no_types, lifting) Un_iff append.assoc set_append)

lemma frame_length: "frame b b' \<Longrightarrow> length (b_sources b') = length (b_sources b)"
  unfolding frame_def by (metis length_map)

lemma vdev_simps [simp]:
  "vdev (set_vdev k v b) k' = (if k' = k then v else vdev b k')"
  "vdev (act a b) k' = vdev b k'"
  "vdev (set_source i p b) k' = vdev b k'"
  "b_sources (set_vdev k v b) = b_sources b"
  "b_sources (act a b) = b_sources b"
  "b_sources (set_source i p b) = (b_sources b)[i := p]"
  "b_log (set_vdev k v b) = b_log b"
  "b_log (act a b) = b_log b @ [a]"
  "b_log (set_source i p b) = b_log b"
  "b_capacity (set_vdev k v b) = b_capacity b"
  "b_capacity (act a b) = b_capacity b"
  "b_capacity (set_source i p b) = b_capacity b"
  "b_writes (set_vdev k v b) = b_writes b"
  "b_writes (act a b) = b_writes b"
  by (auto simp: vdev_def set_vdev_def act_def set_source_def split: vkind.splits)

lemma set_pending_simps [simp]:
  "p_fd (set_pending k p) = p_fd p" "p_roles (set_pending k p) = p_roles p"
  "p_path (set_pending k p) = p_path p" "p_pressed (set_pending k p) = p_pressed p"
  "p_dropping (set_pending k p) = p_dropping p"
  by (simp_all add: set_pending_def split: vkind.split)

lemma map_update_same: "i < length xs \<Longrightarrow> f y = f (xs ! i) \<Longrightarrow> map f (xs[i := y]) = map f xs"
  by (simp add: map_update list_update_same_conv)

lemma vdev_writes [simp]: "vdev (b\<lparr>b_writes := ws\<rparr>) k = vdev b k"
  by (simp add: vdev_def split: vkind.split)

lemma emit_event_simps [simp]:
  "vdev (emit_event k ev b) k' = vdev b k'"
  "b_sources (emit_event k ev b) = b_sources b"
  "b_capacity (emit_event k ev b) = b_capacity b"
  "b_log (emit_event k ev b) = b_log b @ outcome k ev b"
  by (auto simp: emit_event_def outcome_def Let_def split: prod.split)

lemmas bridge_defs = emit_key_def emit_sync_def mark_pending_def Let_def

lemma frame_emit [simp]: "frame b (emit_event k ev b)" "frame b (emit_sync k b)"
  by (simp_all add: frame_def bridge_defs)

lemma frame_set_source:
  assumes "i < length (b_sources b)" "p_fd p = p_fd (b_sources b ! i)"
    "p_roles p = p_roles (b_sources b ! i)" "p_path p = p_path (b_sources b ! i)"
  shows "frame b (set_source i p b)"
  using assms by (simp add: frame_def map_update_same)

lemma frame_mark_emit:
  "i < length (b_sources b) \<Longrightarrow> frame b (mark_pending i k (emit_event k ev b))"
  by (simp add: frame_def bridge_defs map_update_same)

lemma frame_flush_frame: "i < length (b_sources b) \<Longrightarrow> frame b (flush_frame i b)"
  by (simp add: frame_def flush_frame_def bridge_defs map_update_same ball_Un)

lemma frame_change_key: "i < length (b_sources b) \<Longrightarrow> frame b (change_key i code val b)"
  by (auto simp: frame_def change_key_def bridge_defs map_update_same split: option.splits)

lemma frame_reconcile_codes:
  "i < length (b_sources b) \<Longrightarrow> frame b (reconcile_codes i bits codes b)"
proof (induction codes arbitrary: b)
  case (Cons code codes)
  let ?b = "if key_target (b_sources b ! i) code = None then b
     else let down = key_bit bits code in
       if down \<noteq> p_pressed (b_sources b ! i) code then change_key i code (if down then 1 else 0) b else b"
  have f: "frame b ?b" using Cons.prems by (simp add: frame_change_key Let_def)
  show ?case
    unfolding reconcile_codes.simps
    by (rule frame_trans [OF f Cons.IH]) (use Cons.prems frame_length [OF f] in simp)
qed simp

lemma frame_release_pressed:
  "i < length (b_sources b) \<Longrightarrow> frame b (release_pressed i codes b)"
proof (induction codes arbitrary: b)
  case (Cons code codes)
  have f: "frame b (if p_pressed (b_sources b ! i) code then change_key i code 0 b else b)"
    using Cons.prems by (simp add: frame_change_key)
  show ?case
    unfolding release_pressed.simps
    by (rule frame_trans [OF f Cons.IH]) (use Cons.prems frame_length [OF f] in simp)
qed simp

lemma frame_forward_msc:
  "i < length (b_sources b) \<Longrightarrow> frame b (forward_msc i ev b)"
  by (simp add: frame_def forward_msc_def bridge_defs map_update_same ball_Un)

subsection \<open>Key state under a change of one key\<close>

lemma length_filter_update:
  assumes "i < length xs"
  shows "length (filter P (xs[i := y])) + (if P (xs ! i) then 1 else 0) =
    length (filter P xs) + (if P y then 1 else 0)"
  using assms
  by (subst (3) id_take_nth_drop [OF assms]) (simp add: upd_conv_take_nth_drop)

lemma pressing_update:
  assumes "i < length (b_sources b)"
  shows "pressing (set_source i p b) k code + (if k = code_kind code \<and> p_pressed (b_sources b ! i) code then 1 else 0)
    = pressing b k code + (if k = code_kind code \<and> p_pressed p code then 1 else 0)"
  using length_filter_update [OF assms, of "\<lambda>p. p_pressed p code" p] by (simp add: pressing_def)

lemma key_target_kind: "key_target p code = Some k \<Longrightarrow> k = code_kind code"
  by (auto simp: key_target_def code_kind_def split: if_splits)

lemma key_target_roles: "p_roles p = p_roles q \<Longrightarrow> key_target p code = key_target q code"
  by (simp add: key_target_def)

lemma pressing_bound: "pressing b k code \<le> length (b_sources b)"
  by (simp add: pressing_def)

text \<open>Operations that touch neither keys nor key events.\<close>

definition key_neutral :: "bridge \<Rightarrow> bridge \<Rightarrow> bool" where
  "key_neutral b b' \<longleftrightarrow>
     map p_pressed (b_sources b') = map p_pressed (b_sources b) \<and>
     map p_roles (b_sources b') = map p_roles (b_sources b) \<and>
     (\<forall>k code. v_holders (vdev b' k) code = v_holders (vdev b k) code \<and>
        intended k code (b_log b') = intended k code (b_log b))"

lemma pressing_map:
  "pressing b k code =
     (if k = code_kind code then length (filter (\<lambda>f. f code) (map p_pressed (b_sources b))) else 0)"
  by (simp add: pressing_def filter_map comp_def)

lemma pressing_neutral: "key_neutral b b' \<Longrightarrow> pressing b' k code = pressing b k code"
  unfolding pressing_map key_neutral_def by metis

lemma key_inv_neutral:
  assumes "key_inv b" and "key_neutral b b'"
  shows "key_inv b'"
proof -
  have len: "length (b_sources b') = length (b_sources b)"
    using assms(2) unfolding key_neutral_def by (metis length_map)
  have "key_target p code \<noteq> None" if "p \<in> set (b_sources b')" "p_pressed p code" for p code
  proof -
    from that(1) obtain i where i: "i < length (b_sources b')" "p = b_sources b' ! i"
      by (auto simp: in_set_conv_nth)
    then have "p_pressed (b_sources b ! i) = p_pressed p" "p_roles (b_sources b ! i) = p_roles p"
      using assms(2) len unfolding key_neutral_def by (metis nth_map)+
    moreover have "b_sources b ! i \<in> set (b_sources b)" using i len by simp
    ultimately show ?thesis
      using assms(1) that(2) key_target_roles unfolding key_inv_def by metis
  qed
  then show ?thesis
    using assms len pressing_neutral [OF assms(2)]
    by (auto simp: key_inv_def key_neutral_def)
qed

lemma neutral_trans: "key_neutral b1 b2 \<Longrightarrow> key_neutral b2 b3 \<Longrightarrow> key_neutral b1 b3"
  by (simp add: key_neutral_def)

lemma neutral_flush_frame: "i < length (b_sources b) \<Longrightarrow> key_neutral b (flush_frame i b)"
  by (simp add: key_neutral_def flush_frame_def bridge_defs map_update_same)

lemma neutral_mark_emit:
  "i < length (b_sources b) \<Longrightarrow> ie_type ev \<noteq> EV_KEY \<Longrightarrow>
     key_neutral b (mark_pending i k (emit_event k ev b))"
  by (simp add: key_neutral_def bridge_defs map_update_same)

lemma neutral_forward_msc:
  "i < length (b_sources b) \<Longrightarrow> ie_type ev \<noteq> EV_KEY \<Longrightarrow> key_neutral b (forward_msc i ev b)"
  by (simp add: key_neutral_def forward_msc_def bridge_defs map_update_same)

lemma neutral_dropping:
  "i < length (b_sources b) \<Longrightarrow>
     key_neutral b (set_source i ((b_sources b ! i)\<lparr>p_dropping := d\<rparr>) b)"
  by (simp add: key_neutral_def map_update_same)

lemma unat_succ: "unat (w :: u32) < 2 ^ 32 - 1 \<Longrightarrow> unat (w + 1) = unat w + 1"
  by (simp add: unat_word_ariths)

lemma unat_pred: "0 < unat (w :: u32) \<Longrightarrow> unat (w - 1) = unat w - 1"
  by (metis unat_eq_zero unat_minus_one less_numeral_extra(3))

text \<open>
  The bookkeeping of a key that changes on source \<open>i\<close>: its flag and the holder count of
  the device it is routed to.
\<close>

definition rebook :: "nat \<Rightarrow> nat \<Rightarrow> bool \<Rightarrow> vkind \<Rightarrow> bridge \<Rightarrow> bridge" where
  "rebook i code d k b =
     (let source = b_sources b ! i; holders = v_holders (vdev b k) code;
          b = set_source i (source\<lparr>p_pressed := (p_pressed source)(code := d)\<rparr>) b
      in set_vdev k ((vdev b k)\<lparr>v_holders := (v_holders (vdev b k))
           (code := if d then holders + 1 else holders - 1)\<rparr>) b)"

lemma pressing_rebook:
  assumes "i < length (b_sources b)" "key_target (b_sources b ! i) code = Some k"
    "p_pressed (b_sources b ! i) code \<noteq> d"
  shows "pressing (rebook i code d k b) k' code' =
    (if k' = k \<and> code' = code then if d then pressing b k code + 1 else pressing b k code - 1
     else pressing b k' code')"
proof -
  have "pressing (rebook i code d k b) k' code' =
      pressing (set_source i ((b_sources b ! i)\<lparr>p_pressed := (p_pressed (b_sources b ! i))(code := d)\<rparr>) b) k' code'"
    by (simp add: pressing_def rebook_def Let_def)
  with pressing_update [OF assms(1), of "(b_sources b ! i)
      \<lparr>p_pressed := (p_pressed (b_sources b ! i))(code := d)\<rparr>" k' code']
    key_target_kind [OF assms(2)] assms(3)
  show ?thesis by (auto split: if_splits)
qed

lemma pressing_positive:
  assumes "i < length (b_sources b)" "p_pressed (b_sources b ! i) code" "k = code_kind code"
  shows "0 < pressing b k code"
  using assms nth_mem [OF assms(1)] by (auto simp: pressing_def filter_empty_conv length_greater_0_conv)

lemma pressing_not_all:
  assumes "i < length (b_sources b)" "\<not> p_pressed (b_sources b ! i) code"
  shows "pressing b k code < length (b_sources b)"
  using assms length_filter_less [OF nth_mem [OF assms(1)], of "\<lambda>p. p_pressed p code"]
  by (auto simp: pressing_def)

lemma holders_rebook:
  assumes inv: "key_inv b" and i: "i < length (b_sources b)"
    and tgt: "key_target (b_sources b ! i) code = Some k" and flip: "p_pressed (b_sources b ! i) code \<noteq> d"
  shows "unat (v_holders (vdev (rebook i code d k b) k') code') =
    pressing (rebook i code d k b) k' code'"
proof -
  let ?h = "v_holders (vdev b k) code"
  have h: "unat (v_holders (vdev b k') code') = pressing b k' code'" for k' code'
    using inv by (simp add: key_inv_def)
  have "unat (?h + 1) = pressing b k code + 1" if d
    using that flip pressing_not_all [OF i, of code k] h [of k code] inv
    by (subst unat_succ) (auto simp: key_inv_def)
  moreover have "unat (?h - 1) = pressing b k code - 1" if "\<not> d"
    using that flip pressing_positive [OF i _ key_target_kind [OF tgt]] h [of k code]
    by (subst unat_pred) auto
  ultimately show ?thesis
    using h pressing_rebook [OF i tgt flip, of k' code'] by (simp add: rebook_def Let_def)
qed

lemma targets_rebook:
  assumes "key_inv b" "i < length (b_sources b)" "key_target (b_sources b ! i) code = Some k"
    "p \<in> set (b_sources (rebook i code d k b))" "p_pressed p code'"
  shows "key_target p code' \<noteq> None"
proof -
  let ?p = "(b_sources b ! i)\<lparr>p_pressed := (p_pressed (b_sources b ! i))(code := d)\<rparr>"
  have old: "q \<in> set (b_sources b) \<Longrightarrow> p_pressed q c \<Longrightarrow> key_target q c \<noteq> None" for q c
    using assms(1) by (auto simp: key_inv_def)
  have same: "key_target ?p c = key_target (b_sources b ! i) c" for c
    by (rule key_target_roles) simp
  from assms(4) have "p = ?p \<or> p \<in> set (b_sources b)"
    using set_update_subset_insert [of "b_sources b" i ?p] by (auto simp: rebook_def Let_def)
  then show ?thesis
    using old [of p code'] old [OF nth_mem [OF assms(2)], of code'] assms(3,5) same [of code']
    by (auto split: if_splits)
qed

lemma key_inv_rebook:
  assumes "key_inv b" "i < length (b_sources b)" "key_target (b_sources b ! i) code = Some k"
    "p_pressed (b_sources b ! i) code \<noteq> d"
  shows "key_inv (if v_holders (vdev b k) code = (if d then 0 else 1)
    then mark_pending i k (emit_key k code (if d then 1 else 0) (rebook i code d k b))
    else rebook i code d k b)"
proof -
  let ?b = "rebook i code d k b" and ?v = "if d then 1 else 0 :: int"
  have h: "v_holders (vdev b k) code = (if d then 0 else 1) \<longleftrightarrow> pressing b k code = (if d then 0 else 1)"
    using assms(1) by (auto simp: key_inv_def word_unat_eq_iff)
  have log: "b_log ?b = b_log b" "length (b_sources ?b) = length (b_sources b)"
    by (simp_all add: rebook_def Let_def)
  have shown: "intended k' c (b_log b) \<longleftrightarrow> 0 < pressing b k' c" for k' c
    using assms(1) by (simp add: key_inv_def)
  note books = pressing_rebook [OF assms(2-4)]
  have pos: "0 < pressing b k code" if "\<not> d"
    using that assms(4) pressing_positive [OF assms(2) _ key_target_kind [OF assms(3)]] by simp
  let ?b' = "mark_pending i k (emit_key k code ?v ?b)"
  have neutral: "pressing ?b' k' c = pressing ?b k' c" for k' c
    using assms(2) log(2) by (simp add: pressing_map bridge_defs map_update_same)
  have holders: "v_holders (vdev ?b' k') c = v_holders (vdev ?b k') c" for k' c
    by (simp add: bridge_defs)
  have log': "b_log ?b' = b_log b @ outcome k \<lparr>ie_type = EV_KEY, ie_code = code, ie_value = ?v\<rparr> ?b"
    using log by (simp add: bridge_defs)
  have targets: "\<forall>p \<in> set (b_sources ?b'). \<forall>c. p_pressed p c \<longrightarrow> key_target p c \<noteq> None"
  proof (intro ballI allI impI)
    fix p c assume p: "p \<in> set (b_sources ?b')" and c: "p_pressed p c"
    then have "p = set_pending k (b_sources ?b ! i) \<or> p \<in> set (b_sources ?b)"
      using set_update_subset_insert [of "b_sources ?b" i] by (auto simp: bridge_defs)
    moreover have "b_sources ?b ! i \<in> set (b_sources ?b)"
      using assms(2) log(2) by (intro nth_mem) simp
    ultimately show "key_target p c \<noteq> None"
      using c targets_rebook [OF assms(1-3)]
        key_target_roles [of "set_pending k (b_sources ?b ! i)" "b_sources ?b ! i" c]
      by (metis set_pending_simps(2,4))
  qed
  show ?thesis
  proof (cases "pressing b k code = (if d then 0 else 1)")
    case True
    then have "key_inv ?b'"
      using assms(1) targets holders_rebook [OF assms] books shown log log' neutral holders
      unfolding key_inv_def by (auto simp: bridge_defs)
    with True h show ?thesis by simp
  next
    case False
    then have "0 < pressing ?b k' c \<longleftrightarrow> 0 < pressing b k' c" for k' c
      using books pos by auto
    then have "key_inv ?b"
      using assms(1) targets_rebook [OF assms(1-3)] holders_rebook [OF assms] shown log
      unfolding key_inv_def by auto
    with False h show ?thesis by simp
  qed
qed

lemma change_key_cases:
  assumes "key_target (b_sources b ! i) code = Some k"
  shows "change_key i code val b =
    (if val = 2 \<and> p_pressed (b_sources b ! i) code \<and> v_holders (vdev b k) code \<noteq> 0
     then mark_pending i k (emit_key k code 2 b)
     else if val \<in> {0, 1} \<and> p_pressed (b_sources b ! i) code \<noteq> (val = 1)
     then if v_holders (vdev b k) code = (if val = 1 then 0 else 1)
       then mark_pending i k (emit_key k code (if val = 1 then 1 else 0) (rebook i code (val = 1) k b))
       else rebook i code (val = 1) k b
     else b)"
  using assms by (auto simp: change_key_def rebook_def Let_def)

lemma key_inv_repeat:
  assumes "key_inv b" "i < length (b_sources b)" "v_holders (vdev b k) code \<noteq> 0"
  shows "key_inv (mark_pending i k (emit_key k code 2 b))"
proof -
  have "0 < pressing b k code"
    using assms(1,3) unfolding key_inv_def by (metis unat_eq_zero neq0_conv)
  then have "intended k code (b_log b)" using assms(1) by (simp add: key_inv_def)
  then have "key_neutral b (mark_pending i k (emit_key k code 2 b))"
    using assms(2) by (auto simp: key_neutral_def bridge_defs map_update_same)
  with assms(1) show ?thesis by (rule key_inv_neutral)
qed

lemma key_inv_change_key:
  assumes "key_inv b" "i < length (b_sources b)"
  shows "key_inv (change_key i code val b)"
proof (cases "key_target (b_sources b ! i) code")
  case None
  with assms show ?thesis by (simp add: change_key_def)
next
  case (Some k)
  with assms key_inv_rebook [OF assms Some] key_inv_repeat [OF assms] show ?thesis
    by (auto simp: change_key_cases split: if_splits)
qed

subsection \<open>Every operation keeps the key invariant\<close>

lemma key_inv_reconcile_codes:
  "key_inv b \<Longrightarrow> i < length (b_sources b) \<Longrightarrow> key_inv (reconcile_codes i bits codes b)"
  by (induction codes arbitrary: b)
    (simp_all add: key_inv_change_key Let_def frame_length [OF frame_change_key])

lemma key_inv_release_pressed:
  "key_inv b \<Longrightarrow> i < length (b_sources b) \<Longrightarrow> key_inv (release_pressed i codes b)"
  by (induction codes arbitrary: b)
    (simp_all add: key_inv_change_key frame_length [OF frame_change_key])

text \<open>Frame and invariant of one event, one batch, one descriptor.\<close>

definition served :: "bridge \<Rightarrow> bridge \<Rightarrow> bool" where
  "served b b' \<longleftrightarrow> frame b b' \<and> (key_inv b \<longrightarrow> key_inv b')"

lemma served_refl [simp]: "served b b"
  by (simp add: served_def)

lemma served_trans: "served b1 b2 \<Longrightarrow> served b2 b3 \<Longrightarrow> served b1 b3"
  using frame_trans by (auto simp: served_def)

lemma served_length: "served b b' \<Longrightarrow> length (b_sources b') = length (b_sources b)"
  by (simp add: served_def frame_length)

lemma served_neutral: "frame b b' \<Longrightarrow> key_neutral b b' \<Longrightarrow> served b b'"
  using key_inv_neutral by (auto simp: served_def)

lemma served_flush: "i < length (b_sources b) \<Longrightarrow> served b (flush_frame i b)"
  by (simp add: served_neutral frame_flush_frame neutral_flush_frame)

lemma served_dropping:
  "i < length (b_sources b) \<Longrightarrow> served b (set_source i ((b_sources b ! i)\<lparr>p_dropping := d\<rparr>) b)"
  by (simp add: served_neutral frame_set_source neutral_dropping)

lemma served_reconcile:
  "i < length (b_sources b) \<Longrightarrow> reconcile_keys i keybits b = (ok, keybits', b') \<Longrightarrow> served b b'"
  by (auto simp: reconcile_keys_def reconcile_key_bits_def served_def key_inv_reconcile_codes
      frame_reconcile_codes split: list.splits option.splits)

lemma served_event:
  assumes "i < length (b_sources b)" "forward_event i ev keybits b = (ok, keybits', b')"
  shows "served b b'"
proof -
  obtain ok1 keys1 b1 where rec: "reconcile_keys i keybits b = (ok1, keys1, b1)"
    by (metis prod_cases3)
  note b1 = served_reconcile [OF assms(1) rec]
  have i1: "i < length (b_sources b1)" using assms(1) served_length [OF b1] by simp
  let ?b2 = "set_source i ((b_sources b1 ! i)\<lparr>p_dropping := False\<rparr>) b1"
  have "served b (flush_frame i ?b2)"
    using i1 by (intro served_trans [OF b1] served_trans [OF served_dropping [OF i1] served_flush]) simp
  with assms rec b1 show ?thesis
    by (auto simp: forward_event_def Let_def served_flush served_dropping
        served_def [of b "change_key _ _ _ b"] frame_change_key key_inv_change_key
        served_neutral frame_mark_emit neutral_mark_emit frame_forward_msc neutral_forward_msc
        split: if_splits)
qed

lemma served_batch:
  "i < length (b_sources b) \<Longrightarrow> forward_batch i evs keybits b = (ok, keybits', b') \<Longrightarrow> served b b'"
proof (induction evs arbitrary: keybits b)
  case (Cons ev evs)
  obtain ok1 keys1 b1 where ev: "forward_event i ev keybits b = (ok1, keys1, b1)"
    by (metis prod_cases3)
  note s1 = served_event [OF Cons.prems(1) ev]
  with Cons.IH [of b1 keys1] Cons.prems ev served_length [OF s1] show ?case
    by (auto intro: served_trans split: if_splits)
qed simp

lemma served_reads:
  "i < length (b_sources b) \<Longrightarrow> forward_reads i reads keybits b = (ok, b') \<Longrightarrow> served b b'"
proof (induction i reads keybits b rule: forward_reads.induct)
  case (3 i evs reads keybits b)
  obtain ok1 keys1 b1 where batch: "forward_batch i evs keybits b = (ok1, keys1, b1)"
    by (metis prod_cases3)
  note s1 = served_batch [OF 3(2) batch]
  with 3 batch served_length [OF s1] show ?case
    by (auto intro: served_trans split: if_splits)
qed auto

lemma served_events:
  "i < length (b_sources b) \<Longrightarrow> forward_events i revents io b = (ok, b') \<Longrightarrow> served b b'"
  by (auto simp: forward_events_def served_reads split: if_splits)

end
