(* ===== verification/Input_Bridge_Claims.thy ===== *)
theory Input_Bridge_Claims
  imports Input_Bridge_Correct
begin

section \<open>Properties of the input bridge\<close>

text \<open>
  The claims about \<open>src/native/input-bridge/main.c\<close>, over whole runs of the bridge: any
  sequence of rounds of the main loop, with any devices, events, failures and unplugs.
\<close>

subsection \<open>Unplugging a source\<close>

lemma change_key_source:
  assumes "i < length (b_sources b)"
  shows "p_pressed (b_sources (change_key i code val b) ! i) c =
    (if c = code \<and> key_target (b_sources b ! i) code \<noteq> None \<and> val \<in> {0, 1} then val = 1
     else p_pressed (b_sources b ! i) c)"
  using assms
  by (cases "key_target (b_sources b ! i) code")
    (auto simp: change_key_def bridge_defs)

lemma change_key_other:
  "j \<noteq> i \<Longrightarrow> b_sources (change_key i code val b) ! j = b_sources b ! j"
  by (cases "key_target (b_sources b ! i) code") (auto simp: change_key_def bridge_defs)

lemma frame_target:
  assumes "frame b b'" "i < length (b_sources b)"
  shows "key_target (b_sources b' ! i) code = key_target (b_sources b ! i) code"
proof -
  have "p_roles (b_sources b' ! i) = p_roles (b_sources b ! i)"
    using assms frame_length [OF assms(1)] unfolding frame_def by (metis nth_map)
  then show ?thesis by (rule key_target_roles)
qed

lemma key_target_code: "key_target p code \<noteq> None \<Longrightarrow> code < KEY_CNT"
  by (auto simp: key_target_def split: if_splits)

lemma pressed_target:
  "key_inv b \<Longrightarrow> i < length (b_sources b) \<Longrightarrow> p_pressed (b_sources b ! i) code \<Longrightarrow>
     key_target (b_sources b ! i) code \<noteq> None \<and> code < KEY_CNT"
  using nth_mem [of i "b_sources b"] key_target_code unfolding key_inv_def by metis

lemma release_pressed_source:
  assumes "key_inv b" "i < length (b_sources b)"
  shows "p_pressed (b_sources (release_pressed i codes b) ! i) c \<longleftrightarrow>
    p_pressed (b_sources b ! i) c \<and> c \<notin> set codes"
  using assms
proof (induction codes arbitrary: b)
  case (Cons code codes)
  let ?b = "if p_pressed (b_sources b ! i) code then change_key i code 0 b else b"
  have "key_inv ?b" "i < length (b_sources ?b)"
    using Cons.prems by (auto simp: key_inv_change_key frame_length [OF frame_change_key])
  from Cons.IH [OF this] Cons.prems show ?case
    by (auto simp: change_key_source dest: pressed_target)
qed simp

lemma release_all_source:
  assumes "key_inv b" "i < length (b_sources b)"
  shows "\<not> p_pressed (b_sources (release_pressed i [0..<KEY_CNT] b) ! i) c"
  using release_pressed_source [OF assms] pressed_target [OF assms] by auto

text \<open>Removing a source that presses nothing.\<close>

lemma pressing_remove:
  assumes "i < length (b_sources b)" "\<And>c. \<not> p_pressed (b_sources b ! i) c"
  shows "pressing (b\<lparr>b_sources := take i (b_sources b) @ drop (i + 1) (b_sources b)\<rparr>) k code =
    pressing b k code"
  using assms(2) unfolding pressing_def
  by (subst (3) id_take_nth_drop [OF assms(1)]) simp

lemma vdev_remove [simp]: "vdev (b\<lparr>b_sources := ps\<rparr>) k = vdev b k"
  by (simp add: vdev_def split: vkind.split)

lemma key_inv_remove:
  assumes "key_inv b" "i < length (b_sources b)" "\<And>c. \<not> p_pressed (b_sources b ! i) c"
  shows "key_inv (b\<lparr>b_sources := take i (b_sources b) @ drop (i + 1) (b_sources b)\<rparr>)"
  using assms(1) pressing_remove [OF assms(2,3)]
  by (auto simp: key_inv_def dest: in_set_takeD in_set_dropD)

lemma key_inv_acts:
  "key_inv b \<Longrightarrow> \<not> event_action a \<Longrightarrow> key_inv (act a b)"
  by (cases a) (auto simp: key_inv_def pressing_def)

lemma flush_pressed:
  assumes "i < length (b_sources b)"
  shows "p_pressed (b_sources (flush_frame i b) ! i) = p_pressed (b_sources b ! i)"
  using assms by (simp add: flush_frame_def bridge_defs)

lemma key_inv_disconnect:
  assumes "key_inv b" "i < length (b_sources b)"
  shows "key_inv (disconnect_physical i b)"
proof -
  let ?b1 = "release_pressed i [0..<KEY_CNT] b"
  have b1: "key_inv ?b1" "i < length (b_sources ?b1)"
    using key_inv_release_pressed [OF assms] frame_length [OF frame_release_pressed [OF assms(2)]] assms(2)
    by auto
  let ?b2 = "flush_frame i ?b1"
  have b2: "key_inv ?b2" "i < length (b_sources ?b2)"
    using served_flush [OF b1(2)] b1 served_length [OF served_flush [OF b1(2)]] by (auto simp: served_def)
  let ?fd = "p_fd (b_sources ?b2 ! i)"
  let ?b3 = "act (CloseFd ?fd) (act (Ungrab ?fd) ?b2)"
  have "key_inv ?b3" using b2(1) by (simp add: key_inv_acts)
  moreover have "\<not> p_pressed (b_sources ?b3 ! i) c" for c
    using release_all_source [OF assms] flush_pressed [OF b1(2)] by simp
  ultimately have "key_inv (?b3\<lparr>b_sources := take i (b_sources ?b3) @ drop (i + 1) (b_sources ?b3)\<rparr>)"
    using b2(2) by (intro key_inv_remove) simp_all
  then show ?thesis by (simp add: disconnect_physical_def Let_def)
qed

subsection \<open>Descriptors and grabs\<close>

fun opened :: "bridge_action \<Rightarrow> int list" where
  "opened (OpenFd fd) = [fd]" | "opened _ = []"

fun closed :: "bridge_action \<Rightarrow> int list" where
  "closed (CloseFd fd) = [fd]" | "closed _ = []"

fun grabbed :: "bridge_action \<Rightarrow> int list" where
  "grabbed (Grab fd) = [fd]" | "grabbed _ = []"

fun ungrabbed :: "bridge_action \<Rightarrow> int list" where
  "ungrabbed (Ungrab fd) = [fd]" | "ungrabbed _ = []"

text \<open>
  The ledger: what was opened is what was closed plus what is held, and what was grabbed is
  what was let go plus the sources. Descriptors that were lost, opened and never to be closed,
  are a parameter.
\<close>

definition ledger :: "bridge_action list \<Rightarrow> int multiset \<Rightarrow> int multiset \<Rightarrow> bool" where
  "ledger es held grabs \<longleftrightarrow>
     mset (concat (map opened es)) = mset (concat (map closed es)) + held \<and>
     mset (concat (map grabbed es)) = mset (concat (map ungrabbed es)) + grabs"

definition fd_inv :: "int multiset \<Rightarrow> bridge \<Rightarrow> bool" where
  "fd_inv lost b \<longleftrightarrow> ledger (b_log b) (mset (held_fds b) + lost) (mset (map p_fd (b_sources b)))"

lemma ledger_emits:
  assumes "ledger es h g" "\<forall>e \<in> set es'. event_action e"
  shows "ledger (es @ es') h g"
proof -
  have "concat (map opened es') = []" "concat (map closed es') = []"
    "concat (map grabbed es') = []" "concat (map ungrabbed es') = []"
    using assms(2)
  proof (induction es')
    case (Cons e es')
    { case 1 with Cons show ?case by (cases e) auto }
    { case 2 with Cons show ?case by (cases e) auto }
    { case 3 with Cons show ?case by (cases e) auto }
    { case 4 with Cons show ?case by (cases e) auto }
  qed simp_all
  with assms(1) show ?thesis by (simp add: ledger_def del: concat_eq_Nil_conv)
qed

lemma held_fds_vdev:
  "held_fds b = filter (\<lambda>fd. 0 \<le> fd) [v_fd (vdev b Mouse), v_fd (vdev b Keyboard)] @
     map p_fd (b_sources b)"
  by (simp add: held_fds_def vdev_def)

lemma fd_inv_frame: "fd_inv lost b \<Longrightarrow> frame b b' \<Longrightarrow> fd_inv lost b'"
  unfolding fd_inv_def frame_def held_fds_vdev using ledger_emits by auto

lemma fd_inv_disconnect:
  assumes "fd_inv lost b" "i < length (b_sources b)"
  shows "fd_inv lost (disconnect_physical i b)"
proof -
  let ?b2 = "flush_frame i (release_pressed i [0..<KEY_CNT] b)"
  have f1: "frame b (release_pressed i [0..<KEY_CNT] b)" by (rule frame_release_pressed [OF assms(2)])
  then have i1: "i < length (b_sources (release_pressed i [0..<KEY_CNT] b))"
    using assms(2) frame_length by simp
  have f2: "frame b ?b2" by (rule frame_trans [OF f1 frame_flush_frame [OF i1]])
  have i2: "i < length (b_sources ?b2)" using assms(2) frame_length [OF f2] by simp
  have "fd_inv lost ?b2" by (rule fd_inv_frame [OF assms(1) f2])
  moreover have "mset (map p_fd (b_sources ?b2)) =
      add_mset (p_fd (b_sources ?b2 ! i))
        (mset (map p_fd (take i (b_sources ?b2) @ drop (i + 1) (b_sources ?b2))))"
    by (subst id_take_nth_drop [OF i2]) simp
  ultimately show ?thesis
    by (simp add: fd_inv_def ledger_def disconnect_physical_def Let_def held_fds_vdev)
qed

subsection \<open>Scanning for devices\<close>

text \<open>
  What the bridge relies on from \<open>open\<close>: a descriptor it returns is an \<open>int\<close> that is not
  already held.
\<close>

definition fresh :: "probe \<Rightarrow> bool" where
  "fresh pr \<longleftrightarrow> (\<forall>fds. 0 \<le> pr_open pr fds \<longrightarrow> pr_open pr fds \<notin> set fds \<and> pr_open pr fds < 2 ^ 31)"

definition source_inv :: "bridge \<Rightarrow> bool" where
  "source_inv b \<longleftrightarrow>
     distinct (map p_fd (b_sources b)) \<and> set (map p_fd (b_sources b)) \<subseteq> {0 ..< 2 ^ 31}"

definition bridge_inv :: "int multiset \<Rightarrow> bridge \<Rightarrow> bool" where
  "bridge_inv lost b \<longleftrightarrow> key_inv b \<and> fd_inv lost b \<and> source_inv b"

lemma source_inv_bound:
  assumes "source_inv b"
  shows "length (b_sources b) \<le> 2 ^ 31"
proof -
  have "length (b_sources b) = card (set (map p_fd (b_sources b)))"
    using assms distinct_card [of "map p_fd (b_sources b)"] by (simp add: source_inv_def)
  also have "\<dots> \<le> card {0 ..< 2 ^ 31 :: int}"
    using assms by (intro card_mono) (auto simp: source_inv_def)
  finally show ?thesis by simp
qed

lemma source_inv_frame: "source_inv b \<Longrightarrow> frame b b' \<Longrightarrow> source_inv b'"
  by (simp add: source_inv_def frame_def del: set_map)

lemma bridge_inv_served: "bridge_inv lost b \<Longrightarrow> served b b' \<Longrightarrow> bridge_inv lost b'"
  using fd_inv_frame source_inv_frame by (auto simp: bridge_inv_def served_def)

lemma key_inv_add:
  assumes "key_inv b" "length (b_sources b) + 1 < 2 ^ 32" "\<And>c. \<not> p_pressed p c"
  shows "key_inv (b\<lparr>b_capacity := n, b_sources := b_sources b @ [p]\<rparr>)"
proof -
  have "pressing (b\<lparr>b_capacity := n, b_sources := b_sources b @ [p]\<rparr>) k c = pressing b k c" for k c
    using assms(3) by (simp add: pressing_def)
  moreover have "vdev (b\<lparr>b_capacity := n, b_sources := ps\<rparr>) k = vdev b k" for k ps
    by (simp add: vdev_def split: vkind.split)
  ultimately show ?thesis using assms by (auto simp: key_inv_def)
qed

lemma fd_inv_add:
  assumes "fd_inv lost b"
  shows "fd_inv lost ((act (Grab (p_fd p)) (act (OpenFd (p_fd p)) b))\<lparr>b_capacity := n,
    b_sources := b_sources b @ [p]\<rparr>)"
  using assms by (simp add: fd_inv_def ledger_def held_fds_def act_def)

lemma fd_inv_open_close:
  assumes "fd_inv lost b"
  shows "fd_inv lost (act (CloseFd fd) (act (OpenFd fd) b))"
    "fd_inv lost (act (CloseFd fd) (act (Ungrab fd) (act (Grab fd) (act (OpenFd fd) b))))"
  using assms by (simp_all add: fd_inv_def ledger_def held_fds_def act_def)

lemma source_inv_act [simp]: "source_inv (act a b) = source_inv b"
  by (simp add: source_inv_def)

lemma bridge_inv_scan_path:
  assumes inv: "bridge_inv lost b" and fresh: "fresh pr"
  shows "bridge_inv lost (scan_path path pr b)"
proof -
  let ?fd = "pr_open pr (held_fds b)"
  obtain roles name where roles: "physical_roles pr = (roles, name)" by force
  let ?p = "new_source ?fd (take 4095 path) name roles"
  let ?b = "act (Grab ?fd) (act (OpenFd ?fd) b)"
  have "bridge_inv lost (?b\<lparr>b_capacity := n, b_sources := b_sources b @ [?p]\<rparr>)" if "0 \<le> ?fd" for n
  proof -
    have "?fd \<notin> set (held_fds b)" "?fd < 2 ^ 31" using fresh that by (simp_all add: fresh_def)
    then have new: "?fd \<notin> set (map p_fd (b_sources b))" "?fd < 2 ^ 31"
      by (auto simp: held_fds_def)
    have "length (b_sources b) + 1 < 2 ^ 32"
      using source_inv_bound [of b] inv by (simp add: bridge_inv_def)
    then have "key_inv (?b\<lparr>b_capacity := n, b_sources := b_sources ?b @ [?p]\<rparr>)"
      using inv by (intro key_inv_add key_inv_acts) (simp_all add: bridge_inv_def new_source_def)
    moreover have "fd_inv lost (?b\<lparr>b_capacity := n, b_sources := b_sources b @ [?p]\<rparr>)"
      using fd_inv_add [of lost b ?p n] inv by (simp add: bridge_inv_def new_source_def)
    moreover have "source_inv (?b\<lparr>b_capacity := n, b_sources := b_sources b @ [?p]\<rparr>)"
      using inv new that by (auto simp: bridge_inv_def source_inv_def new_source_def)
    ultimately show ?thesis by (simp add: bridge_inv_def)
  qed
  note added = this
  have undone: "bridge_inv lost (act (CloseFd ?fd) (act (OpenFd ?fd) b))"
    "bridge_inv lost (act (CloseFd ?fd) (act (Ungrab ?fd) ?b))"
    using inv fd_inv_open_close [of lost b ?fd] by (simp_all add: bridge_inv_def key_inv_acts)
  show ?thesis
  proof (cases "source_exists path b \<or> ?fd < 0")
    case True
    with inv show ?thesis by (auto simp: scan_path_def Let_def)
  next
    case False
    with added undone show ?thesis
      unfolding scan_path_def Let_def roles by (simp del: One_nat_def)
  qed
qed

lemma bridge_inv_scan:
  assumes "bridge_inv lost b" "\<And>path. fresh (probes path)"
  shows "bridge_inv lost (scan_physical globbed probes b)"
proof -
  have "bridge_inv lost (scan_paths paths probes b)" for paths
    using assms by (induction paths probes b rule: scan_paths.induct) (auto simp: bridge_inv_scan_path)
  then show ?thesis using assms(1) by (simp add: scan_physical_def split: option.split)
qed

subsection \<open>The loop\<close>

lemma source_inv_disconnect:
  assumes "source_inv b" "i < length (b_sources b)"
  shows "source_inv (disconnect_physical i b)"
proof -
  let ?b2 = "flush_frame i (release_pressed i [0..<KEY_CNT] b)"
  have f1: "frame b (release_pressed i [0..<KEY_CNT] b)" by (rule frame_release_pressed [OF assms(2)])
  then have "frame b ?b2"
    using assms(2) frame_length [OF f1] by (intro frame_trans [OF f1 frame_flush_frame]) simp
  from source_inv_frame [OF assms(1) this] have inv: "source_inv ?b2" .
  have sub: "set (map p_fd (take i ps @ drop (i + 1) ps)) \<subseteq> set (map p_fd ps)" for ps
    using set_take_subset [of i ps] set_drop_subset [of "i + 1" ps] by auto
  have dis: "distinct (map p_fd (take i ps @ drop (i + 1) ps))" if "distinct (map p_fd ps)" for ps
    using that distinct_take [of "map p_fd ps" i] distinct_drop [of "map p_fd ps" "i + 1"]
      set_take_disj_set_drop_if_distinct [of "map p_fd ps" i "i + 1"]
    by (simp add: take_map drop_map)
  have "b_sources (disconnect_physical i b) = take i (b_sources ?b2) @ drop (i + 1) (b_sources ?b2)"
    by (simp add: disconnect_physical_def Let_def)
  with inv dis [of "b_sources ?b2"] sub [of "b_sources ?b2"] show ?thesis
    unfolding source_inv_def by (metis subset_trans)
qed

lemma bridge_inv_disconnect:
  "bridge_inv lost b \<Longrightarrow> i < length (b_sources b) \<Longrightarrow> bridge_inv lost (disconnect_physical i b)"
  by (simp add: bridge_inv_def key_inv_disconnect fd_inv_disconnect source_inv_disconnect)

lemma length_disconnect:
  assumes "i < length (b_sources b)"
  shows "length (b_sources (disconnect_physical i b)) = length (b_sources b) - 1"
proof -
  have f1: "frame b (release_pressed i [0..<KEY_CNT] b)" by (rule frame_release_pressed [OF assms])
  then have "frame b (flush_frame i (release_pressed i [0..<KEY_CNT] b))"
    using assms frame_length [OF f1] by (intro frame_trans [OF f1 frame_flush_frame]) simp
  from frame_length [OF this] assms show ?thesis
    by (simp add: disconnect_physical_def Let_def)
qed

lemma bridge_inv_serve:
  "bridge_inv lost b \<Longrightarrow> i \<le> length (b_sources b) \<Longrightarrow> bridge_inv lost (serve i rd b)"
proof (induction i arbitrary: b)
  case (Suc i)
  obtain alive b1 where fwd: "forward_events i (rd_revents rd i) (rd_io rd i) b = (alive, b1)" by force
  have s: "served b b1" by (rule served_events [OF _ fwd]) (use Suc.prems in simp)
  have b1: "bridge_inv lost b1" "i < length (b_sources b1)"
    using bridge_inv_served [OF Suc.prems(1) s] served_length [OF s] Suc.prems(2) by auto
  with Suc.IH [of b1] Suc.IH [of "disconnect_physical i b1"] fwd show ?case
    by (auto simp: bridge_inv_disconnect length_disconnect)
qed simp

definition fresh_rounds :: "round list \<Rightarrow> bool" where
  "fresh_rounds rounds \<longleftrightarrow> (\<forall>rd \<in> set rounds. \<forall>path. fresh (rd_probe rd path))"

lemma bridge_inv_loop:
  "bridge_inv lost b \<Longrightarrow> fresh_rounds rounds \<Longrightarrow> bridge_loop rounds next_scan ts b = (ts', b') \<Longrightarrow>
     bridge_inv lost b'"
proof (induction rounds next_scan ts b rule: bridge_loop.induct)
  case (2 rd rounds next_scan ts b)
  let ?b = "if next_scan \<le> rd_now rd then scan_physical (rd_glob rd) (rd_probe rd) b else b"
  have b: "bridge_inv lost ?b" using "2.prems" by (auto simp: bridge_inv_scan fresh_rounds_def)
  moreover have "bridge_inv lost (serve (length (b_sources ?b)) rd ?b)"
    using b by (rule bridge_inv_serve) simp
  moreover have "fresh_rounds rounds" using "2.prems" by (simp add: fresh_rounds_def)
  ultimately show ?case
    using "2.IH" "2.prems"(3) by (auto simp: Let_def split: if_splits call.splits)
qed simp

subsection \<open>Creating and destroying the virtual devices\<close>

text \<open>Requests to uinput: only they are logged, and at most the wheel flags change.\<close>

definition ui_frame :: "bridge \<Rightarrow> bridge \<Rightarrow> bool" where
  "ui_frame b b' \<longleftrightarrow>
     b_sources b' = b_sources b \<and> b_writes b' = b_writes b \<and>
     (\<forall>k. v_fd (vdev b' k) = v_fd (vdev b k) \<and> v_holders (vdev b' k) = v_holders (vdev b k)) \<and>
     (\<exists>es. b_log b' = b_log b @ es \<and> (\<forall>e \<in> set es. \<exists>k r. e = UiCall k r))"

lemma ui_frame_refl [simp]: "ui_frame b b"
  by (simp add: ui_frame_def)

lemma ui_frame_trans: "ui_frame b1 b2 \<Longrightarrow> ui_frame b2 b3 \<Longrightarrow> ui_frame b1 b3"
  unfolding ui_frame_def by (metis (no_types, lifting) Un_iff append.assoc set_append)

lemma ui_frame_call: "ui_frame b (act (UiCall k r) b)"
  by (simp add: ui_frame_def)

lemma ui_frame_chain: "ui_chain k u rs b = (ok, b') \<Longrightarrow> ui_frame b b'"
proof (induction rs arbitrary: b)
  case (Cons r rs)
  then show ?case using ui_frame_call [of b k r] by (auto split: if_splits intro: ui_frame_trans)
qed simp

lemma ui_frame_each: "ui_frame b (ui_each k rs b)"
proof (induction rs arbitrary: b)
  case (Cons r rs)
  then show ?case by (auto intro: ui_frame_trans [OF ui_frame_call])
qed simp

lemma ui_frame_hires:
  "ui_frame b (set_vdev k ((vdev b k)\<lparr>v_hires_wheel := x, v_hires_hwheel := y\<rparr>) b)"
  by (simp add: ui_frame_def)

lemma ui_frame_enable:
  assumes "enable_codes k u b = (ok, b')"
  shows "ui_frame b b'"
proof (cases k)
  case Keyboard
  with assms show ?thesis by (auto simp: enable_codes_def intro: ui_frame_trans [OF ui_frame_each ui_frame_call])
next
  case Mouse
  obtain ok1 b1 where chain: "ui_chain Mouse u [UI_SET_EVBIT EV_REL, UI_SET_RELBIT REL_X,
      UI_SET_RELBIT REL_Y, UI_SET_RELBIT REL_WHEEL, UI_SET_RELBIT REL_HWHEEL] b = (ok1, b1)"
    by force
  with Mouse assms ui_frame_chain [OF chain] show ?thesis
    by (auto simp: enable_codes_def Let_def split: if_splits simp del: ui_chain.simps ui_each.simps
        intro: ui_frame_trans [OF _ ui_frame_trans [OF ui_frame_each
          ui_frame_trans [OF ui_frame_hires ui_frame_each]]])
qed

lemma key_inv_ui_frame:
  assumes "key_inv b" "ui_frame b b'"
  shows "key_inv b'"
proof -
  from assms(2) obtain es where es: "b_log b' = b_log b @ es" "\<forall>e \<in> set es. \<exists>k r. e = UiCall k r"
    by (auto simp: ui_frame_def)
  have "foldl (key_intended k c) d es = d" for k c d
    using es(2) by (intro foldl_acts) auto
  with assms es(1) show ?thesis by (simp add: key_inv_def ui_frame_def pressing_def)
qed

lemma ledger_ui_frame:
  assumes "ledger (b_log b) h g" "ui_frame b b'"
  shows "ledger (b_log b') h g"
proof -
  from assms(2) obtain es where es: "b_log b' = b_log b @ es" "\<forall>e \<in> set es. \<exists>k r. e = UiCall k r"
    by (auto simp: ui_frame_def)
  from es(2) have "concat (map opened es) = []" "concat (map closed es) = []"
    "concat (map grabbed es) = []" "concat (map ungrabbed es) = []"
    by (induction es) auto
  with assms(1) es(1) show ?thesis by (simp add: ledger_def del: concat_eq_Nil_conv)
qed

text \<open>Nothing was written to a virtual device.\<close>

definition quiet :: "bridge \<Rightarrow> bridge \<Rightarrow> bool" where
  "quiet b b' \<longleftrightarrow> b_writes b' = b_writes b \<and>
     (\<exists>es. b_log b' = b_log b @ es \<and> (\<forall>e \<in> set es. \<not> event_action e))"

lemma quiet_refl [simp]: "quiet b b"
  by (simp add: quiet_def)

lemma quiet_trans: "quiet b1 b2 \<Longrightarrow> quiet b2 b3 \<Longrightarrow> quiet b1 b3"
  unfolding quiet_def by (metis (no_types, lifting) Un_iff append.assoc set_append)

lemma quiet_act: "\<not> event_action a \<Longrightarrow> quiet b (act a b)"
  by (simp add: quiet_def)

lemma quiet_ui_frame: "ui_frame b b' \<Longrightarrow> quiet b b'"
  by (fastforce simp: ui_frame_def quiet_def)

lemma quiet_settled: "quiet b b' \<Longrightarrow> settled k code (b_log b') = settled k code (b_log b)"
proof -
  have "foldl (key_settled k code) ok es = ok" if "\<forall>e \<in> set es. \<not> event_action e" for ok es
    using that
  proof (induction es arbitrary: ok)
    case (Cons e es)
    then show ?case by (cases e) auto
  qed simp
  then show "quiet b b' \<Longrightarrow> ?thesis" by (auto simp: quiet_def settled_def)
qed

lemma bridge_inv_create:
  assumes inv: "bridge_inv lost b" and idle: "v_fd (vdev b k) < 0"
    and create: "create_virtual k u b = (ok, b')"
  shows "bridge_inv lost b' \<and> b_sources b' = b_sources b \<and> quiet b b' \<and>
    v_fd (vdev b' k) \<in> {v_fd (vdev b k), u_open u} \<and>
    (\<forall>k'. k' \<noteq> k \<longrightarrow> v_fd (vdev b' k') = v_fd (vdev b k'))"
proof (cases "u_open u < 0")
  case True
  with create inv show ?thesis by (simp add: create_virtual_def)
next
  case False
  let ?fd = "u_open u" and ?b0 = "act (OpenFd (u_open u)) b"
  obtain ok1 b1 where c1: "ui_chain k u [UI_SET_EVBIT EV_SYN, UI_SET_EVBIT EV_KEY, UI_SET_EVBIT EV_MSC,
      UI_SET_MSCBIT MSC_SCAN] ?b0 = (ok1, b1)" by force
  obtain ok2 b2 where c2: "enable_codes k u b1 = (ok2, b2)" by force
  obtain ok3 b3 where c3: "ui_chain k u [UI_DEV_SETUP (v_name (vdev b2 k))
      (case k of Mouse \<Rightarrow> 0x1001 | Keyboard \<Rightarrow> 0x1002), UI_DEV_CREATE] b2 = (ok3, b3)" by force
  have f: "ui_frame ?b0 b1" "ui_frame ?b0 b2" "ui_frame ?b0 b3"
    using ui_frame_chain [OF c1] ui_frame_enable [OF c2] ui_frame_chain [OF c3]
    by (blast intro: ui_frame_trans)+
  let ?b4 = "act (UiCall k UI_DEV_DESTROY) b3"
  have f4: "ui_frame ?b0 ?b4" by (rule ui_frame_trans [OF f(3) ui_frame_call])
  have opened: "ledger (b_log ?b0) (add_mset ?fd (mset (held_fds b) + lost)) (mset (map p_fd (b_sources b)))"
    using inv by (simp add: bridge_inv_def fd_inv_def ledger_def)
  have gave_up: "bridge_inv lost (act (CloseFd ?fd) c) \<and> b_sources c = b_sources b \<and>
      (\<forall>k'. v_fd (vdev c k') = v_fd (vdev b k'))" if "ui_frame ?b0 c" for c
    using that inv ledger_ui_frame [OF opened that] key_inv_ui_frame [OF _ that] key_inv_acts
    by (auto simp: bridge_inv_def fd_inv_def ui_frame_def held_fds_vdev source_inv_def ledger_def)
  have quiet: "quiet b (act (CloseFd ?fd) c)" if "ui_frame ?b0 c" for c
    by (rule quiet_trans [OF quiet_trans [OF quiet_act quiet_ui_frame [OF that]] quiet_act]) simp_all
  have "quiet b b3" by (rule quiet_trans [OF quiet_act quiet_ui_frame [OF f(3)]]) simp
  then have quiet3: "quiet b (set_vdev k v b3)" for v by (simp add: quiet_def)
  have succeeded: "bridge_inv lost (set_vdev k ((vdev b3 k)\<lparr>v_fd := ?fd, v_path := path\<rparr>) b3)" for path
  proof -
    have "key_inv b3" using key_inv_ui_frame [OF _ f(3)] inv key_inv_acts by (simp add: bridge_inv_def)
    then have "key_inv (set_vdev k ((vdev b3 k)\<lparr>v_fd := ?fd, v_path := path\<rparr>) b3)"
      by (simp add: key_inv_def pressing_def)
    moreover have "mset (held_fds (set_vdev k ((vdev b3 k)\<lparr>v_fd := ?fd, v_path := path\<rparr>) b3)) =
        add_mset ?fd (mset (held_fds b))"
      using f(3) idle False by (cases k) (auto simp: held_fds_vdev ui_frame_def)
    ultimately show ?thesis
      using ledger_ui_frame [OF opened f(3)] f(3) inv
      by (simp add: bridge_inv_def fd_inv_def source_inv_def ui_frame_def)
  qed
  show ?thesis
    using create False c1 c2 c3 gave_up [OF f(1)] gave_up [OF f(2)] gave_up [OF f4] succeeded f(3)
      quiet [OF f(1)] quiet [OF f(2)] quiet [OF f4] quiet3
    by (auto simp: create_virtual_def Let_def ui_frame_def simp del: ui_chain.simps
        split: if_splits option.splits)
qed


lemma release_keys_idle:
  assumes "\<And>code. v_holders (vdev b k) code = 0"
  shows "release_keys k b = b"
proof -
  have "release_codes k codes changed b = (changed, b)" for codes changed
    using assms by (induction codes) auto
  then show ?thesis by (simp add: release_keys_def)
qed

lemma bridge_inv_destroy:
  assumes inv: "bridge_inv lost b" and none: "b_sources b = []"
  shows "bridge_inv lost (destroy_virtual k b) \<and> b_sources (destroy_virtual k b) = [] \<and>
    v_fd (vdev (destroy_virtual k b) k) < 0 \<and>
    (\<forall>k'. k' \<noteq> k \<longrightarrow> v_fd (vdev (destroy_virtual k b) k') = v_fd (vdev b k'))"
proof (cases "v_fd (vdev b k) < 0")
  case True
  with assms show ?thesis by (simp add: destroy_virtual_def)
next
  case False
  have "v_holders (vdev b k) code = 0" for code
    using inv none unfolding bridge_inv_def key_inv_def pressing_def by (metis filter.simps(1) list.size(3) unat_eq_zero)
  then have eq: "destroy_virtual k b = set_vdev k ((vdev b k)\<lparr>v_fd := - 1\<rparr>)
      (act (CloseFd (v_fd (vdev b k))) (act (UiCall k UI_DEV_DESTROY) b))"
    using False by (simp add: destroy_virtual_def release_keys_idle Let_def)
  have "key_inv (act (CloseFd (v_fd (vdev b k))) (act (UiCall k UI_DEV_DESTROY) b))"
    using inv by (simp add: bridge_inv_def key_inv_acts)
  then have "key_inv (destroy_virtual k b)" unfolding eq by (simp add: key_inv_def pressing_def)
  moreover have "fd_inv lost (destroy_virtual k b)"
    using inv False unfolding eq
    by (cases k) (auto simp: bridge_inv_def fd_inv_def ledger_def held_fds_vdev)
  ultimately show ?thesis
    using inv none eq by (simp add: bridge_inv_def source_inv_def)
qed

lemma bridge_inv_disconnect_all:
  "bridge_inv lost b \<Longrightarrow> length (b_sources b) = n \<Longrightarrow>
     bridge_inv lost (disconnect_all n b) \<and> b_sources (disconnect_all n b) = []"
  by (induction n arbitrary: b) (simp_all add: bridge_inv_disconnect length_disconnect)

lemma bridge_inv_idle: "bridge_inv {#} (idle_bridge writes)" "v_fd (vdev (idle_bridge writes) k) = - 1"
proof -
  have v: "v_fd (vdev (idle_bridge writes) k) = - 1"
    "v_holders (vdev (idle_bridge writes) k) = (\<lambda>code. 0)" for k
    by (simp_all add: idle_bridge_def vdev_def idle_virtual_def split: vkind.split)
  then show "v_fd (vdev (idle_bridge writes) k) = - 1" by simp
  show "bridge_inv {#} (idle_bridge writes)"
    using v by (simp add: bridge_inv_def key_inv_def fd_inv_def ledger_def source_inv_def held_fds_vdev
        pressing_def intended_def idle_bridge_def)
qed

text \<open>The ready file: its descriptor is closed exactly if the file was printed and synced.\<close>

definition unclosed_ready :: "ready_io \<Rightarrow> file_op list \<Rightarrow> int multiset" where
  "unclosed_ready rio files =
     (if files \<noteq> [] \<and> 0 \<le> rio_open rio \<and> (\<forall>f. CloseFile f \<notin> set files) then {#rio_open rio#} else {#})"

lemma bridge_inv_acts:
  "bridge_inv lost b \<Longrightarrow> bridge_inv (add_mset fd lost) (act (OpenFd fd) b)"
  "bridge_inv lost b \<Longrightarrow> bridge_inv lost (act (CloseFd fd) (act (OpenFd fd) b))"
  by (simp_all add: bridge_inv_def fd_inv_def ledger_def held_fds_vdev key_inv_acts)

lemma write_ready_bridge:
  assumes "write_ready runtime rio b = (ok, files, b')"
  shows "b' \<in> {b, act (OpenFd (rio_open rio)) b,
      act (CloseFd (rio_open rio)) (act (OpenFd (rio_open rio)) b)}"
    and "files \<noteq> []" and "ok \<Longrightarrow> unclosed_ready rio files = {#}"
    and "bridge_inv {#} b \<Longrightarrow> bridge_inv (unclosed_ready rio files) b'"
  using assms bridge_inv_acts [of "{#}" b "rio_open rio"]
  by (auto simp: write_ready_def Let_def unclosed_ready_def split: if_splits)

subsection \<open>Claims\<close>

text \<open>The bridge with its virtual devices, created as far as the kernel let it.\<close>

definition virtual_devices :: "(int \<times> int) list \<Rightarrow> uinput \<Rightarrow> uinput \<Rightarrow> bridge" where
  "virtual_devices writes um uk =
     snd (create_virtual Keyboard uk (snd (create_virtual Mouse um (idle_bridge writes))))"

lemma bridge_inv_devices:
  "bridge_inv {#} (virtual_devices writes um uk)" "b_sources (virtual_devices writes um uk) = []"
  "quiet (idle_bridge writes) (virtual_devices writes um uk)"
  "v_fd (b_mouse (virtual_devices writes um uk)) \<in> {- 1, u_open um}"
  "v_fd (b_keyboard (virtual_devices writes um uk)) \<in> {- 1, u_open uk}"
proof -
  obtain ok1 b1 where c1: "create_virtual Mouse um (idle_bridge writes) = (ok1, b1)" by force
  obtain ok2 b2 where c2: "create_virtual Keyboard uk b1 = (ok2, b2)" by force
  note idle = bridge_inv_idle(2) [of writes]
  have s1: "bridge_inv {#} b1 \<and> b_sources b1 = [] \<and> quiet (idle_bridge writes) b1 \<and>
      v_fd (vdev b1 Mouse) \<in> {- 1, u_open um} \<and> v_fd (vdev b1 Keyboard) = - 1"
    using bridge_inv_create [OF bridge_inv_idle(1) _ c1] idle by (simp add: idle_bridge_def [of writes])
  have s2: "bridge_inv {#} b2 \<and> b_sources b2 = b_sources b1 \<and> quiet b1 b2 \<and>
      v_fd (vdev b2 Keyboard) \<in> {v_fd (vdev b1 Keyboard), u_open uk} \<and>
      v_fd (vdev b2 Mouse) = v_fd (vdev b1 Mouse)"
    using bridge_inv_create [where lost = "{#}", OF _ _ c2] s1 by simp
  have b2: "virtual_devices writes um uk = b2" using c1 c2 by (simp add: virtual_devices_def)
  show "bridge_inv {#} (virtual_devices writes um uk)" "b_sources (virtual_devices writes um uk) = []"
    using s1 s2 b2 by simp_all
  show "quiet (idle_bridge writes) (virtual_devices writes um uk)"
    using s1 s2 b2 quiet_trans by auto
  show "v_fd (b_mouse (virtual_devices writes um uk)) \<in> {- 1, u_open um}"
    "v_fd (b_keyboard (virtual_devices writes um uk)) \<in> {- 1, u_open uk}"
    using s1 s2 b2 by (auto simp: vdev_def)
qed


text \<open>A USB keyboard, for concrete runs.\<close>

definition sample_probe :: probe where
  "sample_probe =
     \<lparr>pr_open = \<lambda>fds. let fd = 1 + sum_list (map abs fds) in if fd < 2 ^ 31 then fd else - 1,
      pr_name = Some ''Desk keyboard'', pr_bus = Some BUS_USB,
      pr_caps = \<lambda>event_type code. Some (if event_type = EV_KEY then replicate 12 (push_bit 28 5) else [0]),
      pr_grab = True, pr_calloc = True, pr_realloc = True\<rparr>"

definition sample_round :: "int \<Rightarrow> input_event list \<Rightarrow> round" where
  "sample_round now evs =
     \<lparr>rd_now = now, rd_glob = Some [''/dev/input/event3''], rd_probe = \<lambda>path. sample_probe,
      rd_calloc = True, rd_now2 = now, rd_poll = CallOk 1, rd_revents = \<lambda>i. POLLIN,
      rd_io = \<lambda>i. \<lparr>io_reads = [CallOk evs, CallErr EAGAIN], io_keybits = []\<rparr>\<rparr>"

definition key_event :: "nat \<Rightarrow> int \<Rightarrow> input_event" where
  "key_event code val = \<lparr>ie_type = EV_KEY, ie_code = code, ie_value = val\<rparr>"

lemma sum_abs_nonneg: "0 \<le> sum_list (map abs (xs :: int list))"
  by (rule sum_list_nonneg) auto

lemma abs_le_sum_abs: "x \<in> set xs \<Longrightarrow> \<bar>x :: int\<bar> \<le> sum_list (map abs xs)"
  by (induction xs) (auto simp: sum_abs_nonneg intro: order_trans)

lemma fresh_sample: "fresh sample_probe"
proof -
  have "1 + sum_list (map abs fds) \<notin> set fds" for fds :: "int list"
    using abs_le_sum_abs [of "1 + sum_list (map abs fds)" fds] sum_abs_nonneg [of fds] by force
  then show ?thesis by (simp add: fresh_def sample_probe_def Let_def)
qed

lemma sample_roles: "physical_roles sample_probe = (ROLE_KEYBOARD, ''Desk keyboard'')"
  by (simp add: physical_roles_def sample_probe_def has_capability_def classify_device_def c_str_def
      bit_push_bit_iff)

definition sample_uinput :: "int \<Rightarrow> uinput" where
  "sample_uinput fd =
     \<lparr>u_open = fd, u_ioctl = \<lambda>r. True, u_sysname = Some ''input9'',
      u_events = \<lambda>n. Some [(''/sys/class/input/event5'', Some ''/sys/devices/virtual/input/input9'')]\<rparr>"

definition hold_A :: "round list" where
  "hold_A = [sample_round 0 [key_event KEY_A 1, key_event KEY_A 2]]"

lemma fresh_hold_A: "fresh_rounds hold_A"
  by (simp add: fresh_rounds_def hold_A_def sample_round_def fresh_sample)

definition sample_ready :: ready_io where
  "sample_ready = \<lparr>rio_pid = 7, rio_open = 12, rio_answer = \<lambda>op. True\<rparr>"

text \<open>A key is pressed and repeats; the device is busy for the first event and takes the second.\<close>

lemma sample_hold:
  assumes "b_sources b = []" "\<bar>v_fd (b_mouse b)\<bar> < 1000" "\<bar>v_fd (b_keyboard b)\<bar> < 1000"
    "v_holders (vdev b Keyboard) KEY_A = 0" "b_writes b = [(- 1, EAGAIN)]"
  shows "\<exists>ts b'. bridge_loop hold_A 0 [] b = (ts, b') \<and> settled Keyboard KEY_A (b_log b') \<and>
    (\<exists>p \<in> set (b_sources b'). p_pressed p KEY_A \<and> key_target p KEY_A = Some Keyboard) \<and>
    Refused Keyboard (key_event KEY_A 1) \<in> set (b_log b')"
proof -
  have fd: "0 \<le> pr_open sample_probe (held_fds b)"
    using assms by (auto simp: sample_probe_def Let_def held_fds_def abs_less_iff)
  have caps: "pr_grab sample_probe" "pr_calloc sample_probe" "pr_realloc sample_probe"
    by (simp_all add: sample_probe_def)
  let ?fd = "pr_open sample_probe (held_fds b)"
  let ?p = "new_source ?fd ''/dev/input/event3'' ''Desk keyboard'' ROLE_KEYBOARD"
  obtain n where scan: "scan_physical (Some [''/dev/input/event3'']) (\<lambda>path. sample_probe) b =
      (act (Grab ?fd) (act (OpenFd ?fd) b))\<lparr>b_capacity := n, b_sources := [?p]\<rparr>"
    using assms(1) fd caps
    by (auto simp: scan_physical_def scan_path_def source_exists_def Let_def sample_roles)
  define b1 where "b1 = (act (Grab ?fd) (act (OpenFd ?fd) b))\<lparr>b_capacity := n, b_sources := [?p]\<rparr>"
  have b1: "b_sources b1 = [?p]" "v_holders (vdev b1 Keyboard) KEY_A = 0" "b_writes b1 = [(- 1, EAGAIN)]"
    using assms(4,5) by (simp_all add: b1_def vdev_def act_def)
  have tgt: "key_target p KEY_A = Some Keyboard" if "p_roles p = ROLE_KEYBOARD" for p
    using that by (simp add: key_target_def has_bits_def)
  let ?b2 = "change_key 0 KEY_A 1 b1"
  have b2: "b_log ?b2 = b_log b1 @ [Refused Keyboard (key_event KEY_A 1)]" "b_writes ?b2 = []"
    "v_holders (vdev ?b2 Keyboard) KEY_A = 1"
    "b_sources ?b2 = [?p\<lparr>p_pressed := (\<lambda>code. False)(KEY_A := True), p_pending_keyboard := True\<rparr>]"
    using b1 tgt [of ?p] by (simp_all add: change_key_def new_source_def mark_pending_def emit_key_def
      emit_event_def write_answer_def key_event_def set_source_def set_pending_def)
  let ?b3 = "change_key 0 KEY_A 2 ?b2"
  have b3: "b_log ?b3 = b_log ?b2 @ [Emit Keyboard (key_event KEY_A 2)]" "b_sources ?b3 = b_sources ?b2"
    using b2(2-4) tgt [of "b_sources ?b2 ! 0"]
    by (simp_all add: change_key_def new_source_def mark_pending_def emit_key_def outcome_def
      write_answer_def key_event_def set_source_def set_pending_def)
  have fwd: "forward_batch 0 [key_event KEY_A 1, key_event KEY_A 2] [] b1 = (True, [], ?b3)"
    using b1(1) b2(4) by (simp add: forward_event_def key_event_def new_source_def)
  have "bridge_loop hold_A 0 [] b = ([SCAN_MS], ?b3)"
    using fwd b1(1) unfolding b1_def [symmetric]
    by (simp add: hold_A_def sample_round_def scan [folded b1_def] forward_events_def has_bits_def
        poll_timeout_def)
  moreover have "settled Keyboard KEY_A (b_log ?b3)" "Refused Keyboard (key_event KEY_A 1) \<in> set (b_log ?b3)"
    using b2(1) b3(1) by (simp_all add: key_event_def settled_def)
  moreover have "p_pressed (b_sources ?b3 ! 0) KEY_A" "key_target (b_sources ?b3 ! 0) KEY_A = Some Keyboard"
    using b3(2) b2(4) tgt [of "b_sources ?b2 ! 0"] by (simp_all add: new_source_def)
  ultimately show ?thesis using b3(2) b2(4) by auto
qed


text \<open>
  What "nothing left behind" means: no source, no virtual device, no key down, and what was
  opened and grabbed given back, up to the descriptors that were lost.
\<close>

definition nothing_left :: "int multiset \<Rightarrow> bridge \<Rightarrow> bool" where
  "nothing_left lost b \<longleftrightarrow>
     b_sources b = [] \<and> (\<forall>k. v_fd (vdev b k) < 0) \<and>
     (\<forall>k code. \<not> intended k code (b_log b) \<and> (settled k code (b_log b) \<longrightarrow> \<not> shown k code (b_log b))) \<and>
     mset (concat (map opened (b_log b))) = mset (concat (map closed (b_log b))) + lost \<and>
     mset (concat (map grabbed (b_log b))) = mset (concat (map ungrabbed (b_log b)))"

lemma nothing_leftI:
  assumes "bridge_inv lost b" "b_sources b = []" "\<And>k. v_fd (vdev b k) < 0"
  shows "nothing_left lost b"
proof -
  have "held_fds b = []"
    using assms(2) assms(3) [of Mouse] assms(3) [of Keyboard] by (simp add: held_fds_vdev)
  moreover have "\<not> intended k code (b_log b)" for k code
    using assms(1,2) by (simp add: bridge_inv_def key_inv_def pressing_def)
  ultimately show ?thesis
    using assms settled_shown
    by (simp add: nothing_left_def bridge_inv_def fd_inv_def ledger_def del: concat_eq_Nil_conv)
qed

lemma nothing_left_destroyed:
  assumes "bridge_inv lost b" "b_sources b = []"
  shows "nothing_left lost (destroy_virtual Mouse (destroy_virtual Keyboard b))"
proof -
  note k = bridge_inv_destroy [OF assms, of Keyboard]
  note m = bridge_inv_destroy [of lost "destroy_virtual Keyboard b" Mouse]
  have "v_fd (vdev (destroy_virtual Mouse (destroy_virtual Keyboard b)) j) < 0" for j
    using k m by (cases j) auto
  with k m show ?thesis by (intro nothing_leftI) auto
qed

lemma bridge_inv_capacity:
  assumes "bridge_inv lost b"
  shows "bridge_inv lost (b\<lparr>b_capacity := n\<rparr>)"
proof -
  have "vdev (b\<lparr>b_capacity := n\<rparr>) k = vdev b k" for k by (simp add: vdev_def split: vkind.split)
  with assms show ?thesis
    by (simp add: bridge_inv_def key_inv_def fd_inv_def source_inv_def held_fds_vdev pressing_def)
qed


text \<open>A run in which the ready file cannot be synced: its descriptor is the one that stays open.\<close>

lemma ui_chain_accepted: "\<forall>r. u_ioctl u r \<Longrightarrow> ui_chain k u rs b = (ok, b') \<Longrightarrow> ok"
  by (induction rs arbitrary: b) auto

lemma enable_accepted: "\<forall>r. u_ioctl u r \<Longrightarrow> enable_codes k u b = (ok, b') \<Longrightarrow> ok"
  using ui_chain_accepted [of u k _ b]
  by (auto simp: enable_codes_def Let_def simp del: ui_chain.simps ui_each.simps
      split: vkind.splits prod.splits if_splits)

lemma create_accepted: "0 \<le> fd \<Longrightarrow> create_virtual k (sample_uinput fd) b = (ok, b') \<Longrightarrow> ok"
proof -
  let ?u = "sample_uinput fd"
  have all: "\<forall>r. u_ioctl ?u r" and fd: "u_open ?u = fd" by (simp_all add: sample_uinput_def)
  have "\<exists>path. locate_virtual_event ?u = Some path"
    by (simp add: locate_virtual_event_def sample_uinput_def base_name_def upt_rec)
  then show "0 \<le> fd \<Longrightarrow> create_virtual k ?u b = (ok, b') \<Longrightarrow> ok"
    using ui_chain_accepted [OF all, of k] enable_accepted [OF all, of k] fd
    by (auto simp: create_virtual_def Let_def simp del: ui_chain.simps
        split: prod.splits if_splits)
qed

definition unsynced_ready :: ready_io where
  "unsynced_ready = sample_ready\<lparr>rio_answer := \<lambda>op. (case op of Fsync f \<Rightarrow> False | _ \<Rightarrow> True)\<rparr>"


subsection \<open>Dropped events\<close>

lemma reconcile_codes_source:
  assumes "i < length (b_sources b)"
  shows "p_pressed (b_sources (reconcile_codes i bits codes b) ! i) c =
    (if c \<in> set codes \<and> key_target (b_sources b ! i) c \<noteq> None then key_bit bits c
     else p_pressed (b_sources b ! i) c)"
  using assms
proof (induction codes arbitrary: b)
  case (Cons code codes)
  let ?b = "if key_target (b_sources b ! i) code = None then b
     else let down = key_bit bits code in
       if down \<noteq> p_pressed (b_sources b ! i) code then change_key i code (if down then 1 else 0) b else b"
  have f: "frame b ?b" using Cons.prems by (simp add: frame_change_key Let_def)
  have tgt: "key_target (b_sources ?b ! i) c = key_target (b_sources b ! i) c" for c
    by (rule frame_target [OF f Cons.prems])
  have "p_pressed (b_sources ?b ! i) c =
      (if c = code \<and> key_target (b_sources b ! i) code \<noteq> None then key_bit bits code
       else p_pressed (b_sources b ! i) c)" for c
    using Cons.prems by (auto simp: Let_def change_key_source)
  moreover have "i < length (b_sources ?b)" using Cons.prems frame_length [OF f] by simp
  ultimately show ?case
    unfolding reconcile_codes.simps using Cons.IH [of ?b] tgt by auto
qed simp

lemma reconcile_codes_other:
  "j \<noteq> i \<Longrightarrow> b_sources (reconcile_codes i bits codes b) ! j = b_sources b ! j"
  by (induction codes arbitrary: b) (simp_all add: Let_def change_key_other)

lemma forward_batch_append:
  "forward_batch i (evs @ evs') keybits b =
     (let (ok, keybits, b) = forward_batch i evs keybits b in
      if ok then forward_batch i evs' keybits b else (False, keybits, b))"
  by (induction evs arbitrary: keybits b) (simp_all add: Let_def split: prod.split)

lemma forward_batch_dropping:
  assumes "i < length (b_sources b)" "p_dropping (b_sources b ! i)"
    "\<And>ev. ev \<in> set evs \<Longrightarrow> \<not> (ie_type ev = EV_SYN \<and> ie_code ev = SYN_REPORT)"
  shows "forward_batch i evs keybits b = (True, keybits, b)"
  using assms(3)
proof (induction evs)
  case (Cons ev evs)
  have same: "(b_sources b ! i)\<lparr>p_dropping := True\<rparr> = b_sources b ! i" using assms(2) by simp
  have "forward_event i ev keybits b = (True, keybits, b)"
    using Cons.prems [of ev] assms(2) unfolding forward_event_def Let_def same
    by (auto simp: set_source_def)
  with Cons show ?case by simp
qed simp

text \<open>
  C19. Recovery from an event-queue overrun. From the SYN_DROPPED the kernel reports up to
  the next SYN_REPORT, whatever arrives (keys, motion, scan codes, other synchronisation
  events, another SYN_DROPPED), nothing is written and nothing changes but the mark that the
  source skips events. At that report the source is brought in line with the kernel's own
  key state: every key routed to a virtual device is held exactly if the kernel says it is
  down, other keys and other sources are as before, the source no longer skips events and
  its frame is complete. If the kernel cannot tell, the source is given up: the batch ends
  there and the caller disconnects it.
\<close>

theorem forward_event_recovers:
  assumes "i < length (b_sources b)"
    and "ie_type overrun = EV_SYN" and "ie_code overrun = SYN_DROPPED"
    and "\<And>ev. ev \<in> set evs \<Longrightarrow> \<not> (ie_type ev = EV_SYN \<and> ie_code ev = SYN_REPORT)"
    and "ie_type ending = EV_SYN" and "ie_code ending = SYN_REPORT"
  shows "forward_batch i (overrun # evs) keybits b =
      (True, keybits, set_source i ((b_sources b ! i)\<lparr>p_dropping := True\<rparr>) b) \<and>
    (\<exists>b'. forward_batch i (overrun # evs @ [ending]) (Some bits # keybits) b = (True, keybits, b') \<and>
      length (b_sources b') = length (b_sources b) \<and>
      (\<forall>j. j \<noteq> i \<longrightarrow> b_sources b' ! j = b_sources b ! j) \<and>
      \<not> p_dropping (b_sources b' ! i) \<and>
      \<not> p_pending_mouse (b_sources b' ! i) \<and> \<not> p_pending_keyboard (b_sources b' ! i) \<and>
      (\<forall>code. p_pressed (b_sources b' ! i) code =
         (if key_target (b_sources b ! i) code \<noteq> None then key_bit bits code
          else p_pressed (b_sources b ! i) code))) \<and>
    forward_batch i (overrun # evs @ ending # later) (None # keybits) b =
      (False, keybits, set_source i ((b_sources b ! i)\<lparr>p_dropping := True\<rparr>) b)"
proof -
  define b0 where "b0 = set_source i ((b_sources b ! i)\<lparr>p_dropping := True\<rparr>) b"
  have b0: "i < length (b_sources b0)" "p_dropping (b_sources b0 ! i)"
    "b_sources b0 ! i = (b_sources b ! i)\<lparr>p_dropping := True\<rparr>"
    "j \<noteq> i \<Longrightarrow> b_sources b0 ! j = b_sources b ! j" "length (b_sources b0) = length (b_sources b)" for j
    using assms(1) by (simp_all add: b0_def)
  have first: "forward_event i overrun keys b = (True, keys, b0)" for keys
    using assms(2,3) by (simp add: forward_event_def b0_def)
  have skip: "forward_batch i (overrun # evs) keys b = (True, keys, b0)" for keys
    using first forward_batch_dropping [OF b0(1,2) assms(4)] by simp
  have split: "forward_batch i (overrun # evs @ rest) keys b = forward_batch i rest keys b0" for keys rest
    using forward_batch_append [of i "overrun # evs" rest keys b] skip [of keys] by simp
  define b1 where "b1 = reconcile_key_bits i bits b0"
  define b2 where "b2 = flush_frame i (set_source i ((b_sources b1 ! i)\<lparr>p_dropping := False\<rparr>) b1)"
  have len1: "length (b_sources b1) = length (b_sources b)"
    using b0 frame_length [OF frame_reconcile_codes [OF b0(1)]]
    by (simp add: b1_def reconcile_key_bits_def)
  have src2: "b_sources b2 = (b_sources b1)[i := (b_sources b1 ! i)\<lparr>p_dropping := False,
      p_pending_mouse := False, p_pending_keyboard := False\<rparr>]"
    using assms(1) len1 by (simp add: b2_def flush_frame_def bridge_defs)
  have roles: "key_target (b_sources b0 ! i) code = key_target (b_sources b ! i) code" for code
    by (rule key_target_roles) (simp add: b0(3))
  have "p_pressed (b_sources b1 ! i) code =
      (if key_target (b_sources b ! i) code \<noteq> None then key_bit bits code
       else p_pressed (b_sources b ! i) code)" for code
    using reconcile_codes_source [OF b0(1)] key_target_code [of "b_sources b ! i" code] roles b0(3)
    by (auto simp: b1_def reconcile_key_bits_def)
  moreover have "b_sources b1 ! j = b_sources b ! j" if "j \<noteq> i" for j
    using that b0(4) reconcile_codes_other by (simp add: b1_def reconcile_key_bits_def)
  moreover have "forward_batch i [ending] (Some bits # keybits) b0 = (True, keybits, b2)"
    using assms(5,6) b0(2) by (simp add: forward_event_def reconcile_keys_def b1_def b2_def)
  moreover have "forward_batch i (ending # later) (None # keybits) b0 = (False, keybits, b0)"
    using assms(5,6) b0(2) by (simp add: forward_event_def reconcile_keys_def)
  ultimately show ?thesis
    using skip split src2 len1 assms(1) unfolding b0_def [symmetric] by auto
qed

definition typing_bridge :: bridge where
  "typing_bridge = (idle_bridge [])\<lparr>b_sources :=
     [new_source 9 ''/dev/input/event3'' ''Desk keyboard'' ROLE_KEYBOARD]\<rparr>"

theorem forward_event_recovers_witness:
  "\<exists>b'. forward_batch 0 [\<lparr>ie_type = EV_SYN, ie_code = SYN_DROPPED, ie_value = 0\<rparr>, key_event KEY_ENTER 1,
        \<lparr>ie_type = EV_SYN, ie_code = SYN_REPORT, ie_value = 0\<rparr>]
      [Some (replicate 3 0 @ [0x40] @ replicate 92 0)] typing_bridge = (True, [], b') \<and>
     p_pressed (b_sources b' ! 0) KEY_A \<and> \<not> p_pressed (b_sources b' ! 0) KEY_ENTER"
proof -
  let ?overrun = "\<lparr>ie_type = EV_SYN, ie_code = SYN_DROPPED, ie_value = 0\<rparr>"
  let ?ending = "\<lparr>ie_type = EV_SYN, ie_code = SYN_REPORT, ie_value = 0\<rparr>"
  let ?bits = "replicate 3 0 @ [0x40] @ replicate 92 0 :: u8 list"
  have src: "b_sources typing_bridge ! 0 =
      new_source 9 ''/dev/input/event3'' ''Desk keyboard'' ROLE_KEYBOARD" "0 < length (b_sources typing_bridge)"
    by (simp_all add: typing_bridge_def)
  have "key_target (b_sources typing_bridge ! 0) c \<noteq> None" if "c = KEY_A \<or> c = KEY_ENTER" for c
    using that src by (auto simp: new_source_def key_target_def has_bits_def)
  moreover have "key_bit ?bits KEY_A" "\<not> key_bit ?bits KEY_ENTER"
    by (simp_all add: key_bit_def nth_append bit_iff_odd)
  moreover have "\<not> (ie_type ev = EV_SYN \<and> ie_code ev = SYN_REPORT)"
    if "ev \<in> set [key_event KEY_ENTER 1]" for ev
    using that by (simp add: key_event_def)
  note forward_event_recovers [where i = 0 and b = typing_bridge and overrun = ?overrun
      and ending = ?ending and bits = ?bits and keybits = "[]" and evs = "[key_event KEY_ENTER 1]"
      and later = "[]", OF src(2) _ _ this]
  then
  obtain b' where "forward_batch 0 (?overrun # [key_event KEY_ENTER 1] @ [?ending]) [Some ?bits] typing_bridge =
      (True, [], b')"
    "\<And>code. p_pressed (b_sources b' ! 0) code =
      (if key_target (b_sources typing_bridge ! 0) code \<noteq> None then key_bit ?bits code
       else p_pressed (b_sources typing_bridge ! 0) code)"
    by (simp del: forward_batch.simps not_None_eq) blast
  ultimately show ?thesis by (simp del: forward_batch.simps not_None_eq)
qed

subsection \<open>What is grabbed, how long the loop sleeps, the ready file\<close>

text \<open>
  The devices the bridge is for, said without role bits: a mouse moves in both axes and has
  a left button, a keyboard has the keys A and Enter; over USB every such device is wanted,
  over Bluetooth only the two configured names.
\<close>

definition mouse_like :: "probe \<Rightarrow> bool" where
  "mouse_like pr \<longleftrightarrow> has_capability (pr_caps pr EV_REL REL_X) REL_X \<and>
     has_capability (pr_caps pr EV_REL REL_Y) REL_Y \<and>
     has_capability (pr_caps pr EV_KEY BTN_LEFT) BTN_LEFT"

definition keyboard_like :: "probe \<Rightarrow> bool" where
  "keyboard_like pr \<longleftrightarrow> has_capability (pr_caps pr EV_KEY KEY_A) KEY_A \<and>
     has_capability (pr_caps pr EV_KEY KEY_ENTER) KEY_ENTER"

definition wanted_as :: "vkind \<Rightarrow> probe \<Rightarrow> bool" where
  "wanted_as k pr \<longleftrightarrow>
     (case k of Mouse \<Rightarrow> mouse_like pr | Keyboard \<Rightarrow> keyboard_like pr) \<and>
     (\<exists>raw. pr_name pr = Some raw \<and>
        (pr_bus pr = Some BUS_USB \<or>
         pr_bus pr = Some BUS_BLUETOOTH \<and> c_str (take 255 raw) =
           (case k of Mouse \<Rightarrow> ''ASUS MD100 Mouse'' | Keyboard \<Rightarrow> ''BT Keyboard'')))"

definition wanted :: "probe \<Rightarrow> bool" where
  "wanted pr \<longleftrightarrow> wanted_as Mouse pr \<or> wanted_as Keyboard pr"

lemma physical_roles_wanted:
  assumes "physical_roles pr = (roles, name)"
  shows "roles = (if wanted_as Mouse pr then ROLE_MOUSE else 0) OR
      (if wanted_as Keyboard pr then ROLE_KEYBOARD else 0)"
    and "wanted pr \<Longrightarrow> pr_name pr = Some raw \<Longrightarrow> name = c_str (take 255 raw)"
  using assms
  by (auto simp: physical_roles_def Let_def classify_device_def wanted_as_def wanted_def
      mouse_like_def keyboard_like_def split: option.splits if_splits)

text \<open>
  C20. Exactly which devices are taken. A scan of one path takes it if and only if the path
  is not a source already, opens, is wanted (a mouse or a keyboard on USB, whatever its
  name; on Bluetooth only one with a configured name), could be grabbed, and memory sufficed.
  Then it becomes the last source, with the roles it is wanted for and no key held, and the
  table grows to double its size (at first to four) when it is full. Otherwise the bridge is
  what it was, and if the device had been opened or grabbed that was undone in reverse order.
\<close>

theorem scan_path_takes_only_qualified:
  "let fd = pr_open pr (held_fds b) in scan_path path pr b =
    (if source_exists path b \<or> fd < 0 then b
     else if \<not> wanted pr \<or> \<not> pr_grab pr
     then b\<lparr>b_log := b_log b @ [OpenFd fd, CloseFd fd]\<rparr>
     else if \<not> pr_calloc pr \<or> length (b_sources b) = b_capacity b \<and> \<not> pr_realloc pr
     then b\<lparr>b_log := b_log b @ [OpenFd fd, Grab fd, Ungrab fd, CloseFd fd]\<rparr>
     else b\<lparr>b_log := b_log b @ [OpenFd fd, Grab fd],
        b_capacity := (if length (b_sources b) \<noteq> b_capacity b then b_capacity b
          else if b_capacity b = 0 then 4 else 2 * b_capacity b),
        b_sources := b_sources b @
          [\<lparr>p_fd = fd, p_path = take 4095 path, p_name = c_str (take 255 (the (pr_name pr))),
            p_roles = (if wanted_as Mouse pr then ROLE_MOUSE else 0) OR
              (if wanted_as Keyboard pr then ROLE_KEYBOARD else 0),
            p_pressed = \<lambda>code. False, p_dropping = False, p_pending_mouse = False,
            p_pending_keyboard = False\<rparr>]\<rparr>)"
proof -
  obtain roles name where r: "physical_roles pr = (roles, name)" by force
  note roles = physical_roles_wanted(1) [OF r]
  have zero: "roles = 0 \<longleftrightarrow> \<not> wanted pr"
    unfolding roles by (simp add: wanted_def)
  have name: "name = c_str (take 255 (the (pr_name pr)))" if "wanted pr"
    using that physical_roles_wanted(2) [OF r that] by (auto simp: wanted_def wanted_as_def)
  show ?thesis
    using name
    by (auto simp: scan_path_def r zero act_def new_source_def Let_def roles [symmetric])
qed

theorem scan_path_takes_only_qualified_witness:
  "b_sources (scan_path ''/dev/input/event3'' sample_probe (idle_bridge [])) =
     [new_source 1 ''/dev/input/event3'' ''Desk keyboard'' ROLE_KEYBOARD]"
proof -
  have "\<not> wanted_as Mouse sample_probe" "wanted_as Keyboard sample_probe"
    by (simp_all add: wanted_as_def mouse_like_def keyboard_like_def has_capability_def sample_probe_def
        bit_push_bit_iff)
  then show ?thesis
    using scan_path_takes_only_qualified [of sample_probe "idle_bridge []" "''/dev/input/event3''"]
    by (simp add: wanted_def Let_def source_exists_def idle_bridge_def idle_virtual_def held_fds_def
        new_source_def) (simp add: sample_probe_def c_str_def)
qed

fun ordered_times :: "int \<Rightarrow> round list \<Rightarrow> bool" where
  "ordered_times t [] = True"
| "ordered_times t (rd # rounds) =
     (t \<le> rd_now rd \<and> rd_now rd \<le> rd_now2 rd \<and> ordered_times (rd_now2 rd) rounds)"

text \<open>
  With a monotonic clock the loop never sleeps past its next scan: every timeout it
  passes to \<open>poll\<close> lies between 0 and 250 milliseconds, so it fits the \<open>int\<close> it is
  converted to and a device plugged in is looked for within that time.
\<close>

theorem bridge_loop_timeouts:
  assumes "ordered_times t rounds" and "next_scan \<le> t + SCAN_MS" and "list_all (\<lambda>x. 0 \<le> x \<and> x \<le> SCAN_MS) timeouts"
  shows "list_all (\<lambda>x. 0 \<le> x \<and> x \<le> SCAN_MS) (fst (bridge_loop rounds next_scan timeouts b))"
  using assms
proof (induction rounds next_scan timeouts b arbitrary: t rule: bridge_loop.induct)
  case (2 rd rounds next_scan timeouts b)
  let ?next = "if next_scan \<le> rd_now rd then rd_now rd + SCAN_MS else next_scan"
  have "?next \<le> rd_now2 rd + SCAN_MS" "0 \<le> poll_timeout (rd_now2 rd) ?next"
    "poll_timeout (rd_now2 rd) ?next \<le> SCAN_MS"
    using "2.prems" by (auto simp: poll_timeout_def)
  with "2.IH" "2.prems" show ?case
    by (auto simp: Let_def split: call.splits)
qed simp

theorem bridge_loop_timeouts_witness:
  "list_all (\<lambda>x. 0 \<le> x \<and> x \<le> SCAN_MS)
     (fst (bridge_loop [sample_round 5 [], sample_round 90 []] 0 [] (idle_bridge [])))"
  by (rule bridge_loop_timeouts [where t = 0]) (simp_all add: sample_round_def)

text \<open>
  The ready file appears only complete: it is renamed into place only after its
  content was written, synced and closed without error, and that is exactly when
  \<open>write_ready\<close> reports success. On any failure after the temporary file was created, that
  file is removed.
\<close>

theorem write_ready_atomic:
  assumes "write_ready runtime rio b = (ok, ops, b')"
  shows "\<exists>tmp content target. ops = (if ok then
       [Create tmp, Print tmp content, Fsync tmp, CloseFile tmp, Rename tmp target] else ops) \<and>
     hd ops = Create tmp \<and>
     (\<not> ok \<longrightarrow> ops = [Create tmp] \<or> last ops = Unlink tmp) \<and>
     (ok \<longleftrightarrow> 0 \<le> rio_open rio \<and> list_all (rio_answer rio)
        [Print tmp content, Fsync tmp, CloseFile tmp, Rename tmp target])"
proof -
  define tmp where "tmp = take 4095 (runtime @ ''/input.env.tmp.'' @ show_nat (rio_pid rio))"
  define content where "content = ''MOUSE_EVENT='' @ v_path (b_mouse b) @ [CHR 0x0A] @ ''KEYBOARD_EVENT='' @
     v_path (b_keyboard b) @ [CHR 0x0A]"
  define target where "target = take 4095 (runtime @ ''/input.env'')"
  have paths: "v_path (b_mouse (act a b)) = v_path (b_mouse b)"
    "v_path (b_keyboard (act a b)) = v_path (b_keyboard b)" for a
    by (simp_all add: act_def)
  from assms show ?thesis
    unfolding write_ready_def Let_def paths tmp_def [symmetric] content_def [symmetric]
      target_def [symmetric]
    by (intro exI [of _ tmp] exI [of _ content] exI [of _ target]) (auto split: if_splits)
qed


end
