(* ===== verification/Capture_Keeper.thy ===== *)
theory Capture_Keeper
  imports C_Text
begin

section \<open>The capture keeper\<close>

text \<open>
  \<open>src/native/capture-keeper/main.c\<close>: keeps a V4L2 MJPEG capture node streaming and, at most
  once per second, saves the latest complete frame. Every \<open>xioctl\<close> is given the answers of
  the underlying calls in order, interrupted ones included; \<open>None\<close> means that it never
  returns. What the program does to the kernel is logged.
\<close>

subsection \<open>Frames\<close>

text \<open>The backwards search for the end-of-image marker.\<close>

fun find_eoi :: "bytes \<Rightarrow> nat \<Rightarrow> nat" where
  "find_eoi buf i =
     (if i < 2 then 0
      else if buf ! (i - 2) = 0xff \<and> buf ! (i - 1) = 0xd9 then i
      else find_eoi buf (i - 1))"

declare find_eoi.simps [simp del]

definition jpeg_length :: "bytes \<Rightarrow> nat \<Rightarrow> nat" where
  "jpeg_length buf siz =
     (if siz < 4 \<or> buf ! 0 \<noteq> 0xff \<or> buf ! 1 \<noteq> 0xd8 then 0 else find_eoi buf siz)"

subsection \<open>Saving a snapshot\<close>

text \<open>
  The files the keeper touches and the number of descriptors it has open on them. A write
  accepts at most what it is given.
\<close>

record files =
  f_content :: "string \<rightharpoonup> bytes"
  f_open :: nat

record save_io =
  s_open :: bool
  s_writes :: "nat call list"
  s_fsync :: bool
  s_close :: bool
  s_rename :: bool

fun write_all :: "string \<Rightarrow> bytes \<Rightarrow> nat call list \<Rightarrow> files \<Rightarrow> (bool \<times> files) option" where
  "write_all tmp cursor [] fs = (if cursor = [] then Some (True, fs) else None)"
| "write_all tmp cursor (w # ws) fs =
     (if cursor = [] then Some (True, fs)
      else case w of
        CallOk n \<Rightarrow>
          if 0 < n then
            write_all tmp (drop n cursor) ws
              (fs\<lparr>f_content := (f_content fs)(tmp \<mapsto> the (f_content fs tmp) @ take n cursor)\<rparr>)
          else Some (False, fs)
      | CallErr e \<Rightarrow> if e = EINTR then write_all tmp cursor ws fs else Some (False, fs))"

definition unlink_file :: "string \<Rightarrow> files \<Rightarrow> files" where
  "unlink_file path fs = fs\<lparr>f_content := (f_content fs)(path := None)\<rparr>"

definition rename_file :: "string \<Rightarrow> string \<Rightarrow> files \<Rightarrow> files" where
  "rename_file a b fs = fs\<lparr>f_content := (f_content fs)(a := None, b := f_content fs a)\<rparr>"

definition close_file :: "files \<Rightarrow> files" where
  "close_file fs = fs\<lparr>f_open := f_open fs - 1\<rparr>"

definition temporary_name :: "string \<Rightarrow> nat \<Rightarrow> string" where
  "temporary_name path pid = path @ ''.tmp.'' @ show_nat pid"

text \<open>A \<open>close\<close> releases the descriptor whatever it returns.\<close>

definition save_latest :: "nat \<Rightarrow> string \<Rightarrow> bytes \<Rightarrow> save_io \<Rightarrow> files \<Rightarrow> (int \<times> files) option" where
  "save_latest pid path frame io fs =
     (let tmp = temporary_name path pid in
      if 4096 \<le> length tmp then Some (- 1, fs)
      else if \<not> s_open io then Some (- 1, fs)
      else
        let fs = fs\<lparr>f_content := (f_content fs)(tmp \<mapsto> []), f_open := f_open fs + 1\<rparr> in
        case write_all tmp frame (s_writes io) fs of
          None \<Rightarrow> None
        | Some (False, fs) \<Rightarrow> Some (- 1, unlink_file tmp (close_file fs))
        | Some (True, fs) \<Rightarrow>
            if \<not> s_fsync io then Some (- 1, unlink_file tmp fs)
            else if \<not> s_close io \<or> \<not> s_rename io then Some (- 1, unlink_file tmp (close_file fs))
            else Some (0, rename_file tmp path (close_file fs)))"

subsection \<open>Arguments\<close>

fun parse_arguments :: "string list \<Rightarrow> string option \<Rightarrow> string option \<Rightarrow> (string \<times> string) option" where
  "parse_arguments [] device latest =
     (case (device, latest) of (Some d, Some l) \<Rightarrow> Some (d, l) | _ \<Rightarrow> None)"
| "parse_arguments [a] device latest = None"
| "parse_arguments (a # v # rest) device latest =
     (if a = ''--device'' then parse_arguments rest (Some v) latest
      else if a = ''--latest'' then parse_arguments rest device (Some v)
      else None)"

subsection \<open>State\<close>

datatype keeper_action =
    KOpen
  | KMap nat
  | KQueue nat
  | KStreamOn
  | KDequeue nat
  | KSave bytes int
  | KStreamOff
  | KUnmap nat
  | KClose

record mapped_buffer =
  mb_mapped :: bool
  mb_length :: nat

record keeper =
  k_buffers :: "mapped_buffer list"
  k_allocated :: nat
  k_last_snapshot :: int
  k_invalid_frames :: u32
  k_files :: files
  k_log :: "keeper_action list"

definition klog :: "keeper_action \<Rightarrow> keeper \<Rightarrow> keeper" where
  "klog a k = k\<lparr>k_log := k_log k @ [a]\<rparr>"

text \<open>\<open>xioctl\<close>: the calls are repeated while they are interrupted.\<close>

definition xioctl :: "'a call list \<Rightarrow> 'a call option" where
  "xioctl answers = retry_eintr answers"

text \<open>How a stretch of the program ends: at a value, at one of its labels, not at all, or in an
  access outside the array of buffers.\<close>

datatype 'a keeper_flow =
    Next 'a
  | Goto_streamoff
  | Goto_cleanup
  | Never
  | Out_of_bounds

definition kbind :: "(keeper \<Rightarrow> 'a keeper_flow \<times> keeper) \<Rightarrow>
    ('a \<Rightarrow> keeper \<Rightarrow> 'b keeper_flow \<times> keeper) \<Rightarrow> keeper \<Rightarrow> 'b keeper_flow \<times> keeper" where
  "kbind m f k =
     (case m k of
        (Next x, k') \<Rightarrow> f x k'
      | (Goto_streamoff, k') \<Rightarrow> (Goto_streamoff, k')
      | (Goto_cleanup, k') \<Rightarrow> (Goto_cleanup, k')
      | (Never, k') \<Rightarrow> (Never, k')
      | (Out_of_bounds, k') \<Rightarrow> (Out_of_bounds, k'))"

text \<open>An \<open>xioctl\<close> whose failure leaves through the given label.\<close>

definition kcall :: "'a call list \<Rightarrow> 'a keeper_flow \<Rightarrow> keeper \<Rightarrow> 'a keeper_flow \<times> keeper" where
  "kcall answers on_error k =
     (case xioctl answers of
        None \<Rightarrow> (Never, k)
      | Some (CallErr e) \<Rightarrow> (on_error, k)
      | Some (CallOk x) \<Rightarrow> (Next x, k))"

definition kdo :: "keeper_action \<Rightarrow> keeper \<Rightarrow> unit keeper_flow \<times> keeper" where
  "kdo a k = (Next (), klog a k)"

definition kguard :: "bool \<Rightarrow> unit keeper_flow \<Rightarrow> keeper \<Rightarrow> unit keeper_flow \<times> keeper" where
  "kguard ok on_error k = (if ok then Next () else on_error, k)"

subsection \<open>Setting up the stream\<close>

abbreviation BUFFER_COUNT :: nat where "BUFFER_COUNT \<equiv> 4"
abbreviation V4L2_CAP_VIDEO_CAPTURE :: u32 where "V4L2_CAP_VIDEO_CAPTURE \<equiv> 0x1"
abbreviation V4L2_CAP_STREAMING :: u32 where "V4L2_CAP_STREAMING \<equiv> 0x04000000"
abbreviation V4L2_PIX_FMT_MJPEG :: u32 where "V4L2_PIX_FMT_MJPEG \<equiv> 0x47504A4D"

record keeper_env =
  ke_pid :: nat
  ke_open :: bool
  ke_querycap :: "(u32 \<times> u32) call list"
  ke_s_fmt :: "u32 call list"
  ke_s_parm :: "unit call list"
  ke_reqbufs :: "u32 call list"
  ke_querybuf :: "nat \<Rightarrow> u32 call list"
  ke_mmap :: "nat \<Rightarrow> bool"
  ke_qbuf :: "nat \<Rightarrow> unit call list"
  ke_streamon :: "unit call list"
  ke_streamoff :: "unit call list"

definition keeper_init :: "files \<Rightarrow> keeper" where
  "keeper_init fs =
     \<lparr>k_buffers = replicate BUFFER_COUNT \<lparr>mb_mapped = False, mb_length = 0\<rparr>, k_allocated = 0,
      k_last_snapshot = 0, k_invalid_frames = 0, k_files = fs, k_log = []\<rparr>"

text \<open>The body of the loop that maps and queues one buffer.\<close>

definition setup_buffer :: "keeper_env \<Rightarrow> nat \<Rightarrow> keeper \<Rightarrow> unit keeper_flow \<times> keeper" where
  "setup_buffer env i =
     kbind (kcall (ke_querybuf env i) Goto_cleanup) (\<lambda>len k.
       let k = k\<lparr>k_buffers := (k_buffers k)[i := \<lparr>mb_mapped = ke_mmap env i, mb_length = unat len\<rparr>]\<rparr> in
       kbind (kguard (ke_mmap env i) Goto_cleanup) (\<lambda>_.
       kbind (kdo (KMap i)) (\<lambda>_.
       kbind (kcall (ke_qbuf env i) Goto_cleanup) (\<lambda>_.
       kdo (KQueue i)))) k)"

fun setup_buffers :: "keeper_env \<Rightarrow> nat list \<Rightarrow> keeper \<Rightarrow> unit keeper_flow \<times> keeper" where
  "setup_buffers env [] k = (Next (), k)"
| "setup_buffers env (i # is) k = kbind (setup_buffer env i) (\<lambda>_. setup_buffers env is) k"

definition request_buffers :: "keeper_env \<Rightarrow> keeper \<Rightarrow> unit keeper_flow \<times> keeper" where
  "request_buffers env =
     kbind (kcall (ke_reqbufs env) Goto_cleanup) (\<lambda>count.
     kbind (kguard (2 \<le> count) Goto_cleanup) (\<lambda>_ k.
       (Next (), k\<lparr>k_allocated := (if count < of_nat BUFFER_COUNT then unat count else BUFFER_COUNT)\<rparr>)))"

text \<open>A failing \<open>VIDIOC_S_PARM\<close> is only warned about.\<close>

definition set_rate :: "keeper_env \<Rightarrow> keeper \<Rightarrow> unit keeper_flow \<times> keeper" where
  "set_rate env k = (case xioctl (ke_s_parm env) of None \<Rightarrow> (Never, k) | Some r \<Rightarrow> (Next (), k))"

definition setup_stream :: "keeper_env \<Rightarrow> keeper \<Rightarrow> unit keeper_flow \<times> keeper" where
  "setup_stream env =
     kbind (kcall (ke_querycap env) Goto_cleanup) (\<lambda>(device_caps, capabilities).
     let caps = (if device_caps \<noteq> 0 then device_caps else capabilities) in
     kbind (kguard (has_bits caps V4L2_CAP_VIDEO_CAPTURE \<and> has_bits caps V4L2_CAP_STREAMING) Goto_cleanup) (\<lambda>_.
     kbind (kcall (ke_s_fmt env) Goto_cleanup) (\<lambda>pixelformat.
     kbind (kguard (pixelformat = V4L2_PIX_FMT_MJPEG) Goto_cleanup) (\<lambda>_.
     kbind (set_rate env) (\<lambda>_.
     kbind (request_buffers env) (\<lambda>_ k.
     kbind (setup_buffers env [0..<k_allocated k]) (\<lambda>_.
     kbind (kcall (ke_streamon env) Goto_cleanup) (\<lambda>_.
     kdo KStreamOn)) k))))))"

subsection \<open>The capture loop\<close>

record frame_round =
  fr_poll :: "(int \<times> u16) call"
  fr_dqbuf :: "(u32 \<times> u32) call list"
  fr_data :: "nat \<Rightarrow> u8"
  fr_now :: int
  fr_save :: save_io
  fr_qbuf :: "unit call list"

text \<open>
  What is done with the bytes of a dequeued buffer. Its mapped memory holds the bytes that the
  device put there for this frame.
\<close>

definition handle_frame :: "nat \<Rightarrow> string \<Rightarrow> frame_round \<Rightarrow> nat \<Rightarrow> nat \<Rightarrow> keeper \<Rightarrow> unit keeper_flow \<times> keeper" where
  "handle_frame pid latest fr index bytesused k =
     (let address = map (fr_data fr) [0..<mb_length (k_buffers k ! index)];
          valid = jpeg_length address bytesused in
      if 0 < valid \<and> 1000 \<le> fr_now fr - k_last_snapshot k then
        case save_latest pid latest (take valid address) (fr_save fr) (k_files k) of
          None \<Rightarrow> (Never, k)
        | Some (r, fs) \<Rightarrow>
            let k = k\<lparr>k_files := fs\<rparr> in
            if r < 0 then (Next (), k)
            else (Next (), klog (KSave (take valid address) (fr_now fr))
                   (k\<lparr>k_last_snapshot := fr_now fr\<rparr>))
      else if valid = 0 then (Next (), k\<lparr>k_invalid_frames := k_invalid_frames k + 1\<rparr>)
      else (Next (), k))"

text \<open>
  The descriptor returned by \<open>VIDIOC_DQBUF\<close>: the index is compared as a signed \<open>int\<close>, then
  used to index the array of \<open>BUFFER_COUNT\<close> buffers.
\<close>

definition check_descriptor :: "u32 \<Rightarrow> u32 \<Rightarrow> keeper \<Rightarrow> unit keeper_flow \<times> keeper" where
  "check_descriptor index bytesused k =
     (if int (k_allocated k) \<le> sint index then (Goto_streamoff, k)
      else if length (k_buffers k) \<le> unat index then (Out_of_bounds, k)
      else if mb_length (k_buffers k ! unat index) < unat bytesused then (Goto_streamoff, k)
      else (Next (), k))"

definition capture_frame :: "nat \<Rightarrow> string \<Rightarrow> frame_round \<Rightarrow> keeper \<Rightarrow> unit keeper_flow \<times> keeper" where
  "capture_frame pid latest fr k =
     (case xioctl (fr_dqbuf fr) of
        None \<Rightarrow> (Never, k)
      | Some (CallErr e) \<Rightarrow> if e = EAGAIN then (Next (), k) else (Goto_streamoff, k)
      | Some (CallOk (index, bytesused)) \<Rightarrow>
          kbind (kdo (KDequeue (unat index))) (\<lambda>_.
          kbind (check_descriptor index bytesused) (\<lambda>_.
          kbind (handle_frame pid latest fr (unat index) (unat bytesused)) (\<lambda>_.
          kbind (kcall (fr_qbuf fr) Goto_streamoff) (\<lambda>_.
          kdo (KQueue (unat index)))))) k)"

definition capture_round :: "nat \<Rightarrow> string \<Rightarrow> frame_round \<Rightarrow> keeper \<Rightarrow> unit keeper_flow \<times> keeper" where
  "capture_round pid latest fr k =
     (case fr_poll fr of
        CallErr e \<Rightarrow> if e = EINTR then (Next (), k) else (Goto_streamoff, k)
      | CallOk (polled, revents) \<Rightarrow>
          if polled = 0 then (Next (), k)
          else if has_bits revents (POLLERR OR POLLHUP OR POLLNVAL) then (Goto_streamoff, k)
          else if has_bits revents POLLIN then capture_frame pid latest fr k
          else (Next (), k))"

fun capture_loop :: "nat \<Rightarrow> string \<Rightarrow> frame_round list \<Rightarrow> keeper \<Rightarrow> unit keeper_flow \<times> keeper" where
  "capture_loop pid latest [] k = (Next (), k)"
| "capture_loop pid latest (fr # frs) k =
     kbind (capture_round pid latest fr) (\<lambda>_. capture_loop pid latest frs) k"

subsection \<open>Leaving\<close>

fun unmap_buffers :: "nat list \<Rightarrow> keeper \<Rightarrow> keeper" where
  "unmap_buffers [] k = k"
| "unmap_buffers (i # is) k =
     unmap_buffers is (if mb_mapped (k_buffers k ! i) then klog (KUnmap i) k else k)"

definition cleanup :: "keeper \<Rightarrow> keeper" where
  "cleanup k = klog KClose (unmap_buffers [0..<k_allocated k] k)"

text \<open>
  The whole program: the exit status, or \<open>None\<close> when it never ends or leaves the array of
  buffers.
\<close>

definition keeper_run :: "keeper_env \<Rightarrow> string \<Rightarrow> frame_round list \<Rightarrow> keeper \<Rightarrow> int option \<times> keeper" where
  "keeper_run env latest rounds k =
     (let stream_off = (\<lambda>status k.
            case xioctl (ke_streamoff env) of
              None \<Rightarrow> (None, k)
            | Some r \<Rightarrow> (Some status, cleanup (klog KStreamOff k)))
      in case setup_stream env k of
        (Next x, k) \<Rightarrow>
          (case capture_loop (ke_pid env) latest rounds k of
             (Next x, k) \<Rightarrow> stream_off 0 k
           | (Goto_streamoff, k) \<Rightarrow> stream_off 1 k
           | (Goto_cleanup, k) \<Rightarrow> (Some 1, cleanup k)
           | (Never, k) \<Rightarrow> (None, k)
           | (Out_of_bounds, k) \<Rightarrow> (None, k))
      | (Goto_streamoff, k) \<Rightarrow> stream_off 1 k
      | (Goto_cleanup, k) \<Rightarrow> (Some 1, cleanup k)
      | (Never, k) \<Rightarrow> (None, k)
      | (Out_of_bounds, k) \<Rightarrow> (None, k))"

definition keeper_main :: "string list \<Rightarrow> keeper_env \<Rightarrow> frame_round list \<Rightarrow> files \<Rightarrow> int option \<times> keeper" where
  "keeper_main argv env rounds fs =
     (case parse_arguments argv None None of
        None \<Rightarrow> (Some 2, keeper_init fs)
      | Some (device, latest) \<Rightarrow>
          if \<not> ke_open env then (Some 1, keeper_init fs)
          else keeper_run env latest rounds (klog KOpen (keeper_init fs)))"

end
