(* ===== verification/Capture_Keeper_Claims.thy ===== *)
theory Capture_Keeper_Claims
  imports Capture_Keeper
begin

section \<open>What the capture keeper guarantees\<close>

text \<open>
  Frames are cut at the last end-of-image marker; a snapshot replaces the latest file
  atomically; snapshots are at least a second apart; whatever fails, the stream is stopped, the
  buffers are unmapped and the node is closed.
\<close>

subsection \<open>Frames\<close>

definition eoi_at :: "bytes \<Rightarrow> nat \<Rightarrow> bool" where
  "eoi_at buf i \<longleftrightarrow> 2 \<le> i \<and> take 2 (drop (i - 2) buf) = [0xff, 0xd9]"

lemma take2_drop: "i + 2 \<le> length xs \<Longrightarrow> take 2 (drop i xs) = [xs ! i, xs ! (i + 1)]"
  by (simp add: numeral_2_eq_2 take_Suc_conv_app_nth)

lemma eoi_at_nth:
  "2 \<le> i \<Longrightarrow> i \<le> length buf \<Longrightarrow> eoi_at buf i \<longleftrightarrow> buf ! (i - 2) = 0xff \<and> buf ! (i - 1) = 0xd9"
  using take2_drop [of "i - 2" buf] Suc_diff_Suc [of 1 i] by (simp add: eoi_at_def numeral_2_eq_2)

lemma find_eoi_spec:
  "i \<le> length buf \<Longrightarrow> find_eoi buf i = n \<Longrightarrow>
   (\<forall>m. n < m \<longrightarrow> m \<le> i \<longrightarrow> \<not> eoi_at buf m) \<and> n \<le> i \<and> (0 < n \<longrightarrow> eoi_at buf n)"
proof (induction buf i rule: find_eoi.induct)
  case (1 buf i)
  show ?case
  proof (cases "i < 2")
    case True
    with 1 show ?thesis by (auto simp: find_eoi.simps [of buf i] eoi_at_def)
  next
    case False
    then have eq: "eoi_at buf i \<longleftrightarrow> buf ! (i - 2) = 0xff \<and> buf ! (i - 1) = 0xd9"
      using 1(2) by (simp add: eoi_at_nth)
    show ?thesis
    proof (cases "eoi_at buf i")
      case True
      with 1(3) eq False show ?thesis by (simp add: find_eoi.simps [of buf i])
    next
      case no: False
      have "find_eoi buf (i - 1) = n"
        using 1(3) eq False no by (auto simp: find_eoi.simps [of buf i] split: if_splits)
      then have ih: "(\<forall>m. n < m \<longrightarrow> m \<le> i - 1 \<longrightarrow> \<not> eoi_at buf m) \<and> n \<le> i - 1 \<and> (0 < n \<longrightarrow> eoi_at buf n)"
        using 1(1) [OF False] no eq 1(2) by auto
      have "\<not> eoi_at buf m" if "n < m" "m \<le> i" for m
        using ih no that by (cases "m = i") auto
      with ih show ?thesis by auto
    qed
  qed
qed

lemma jpeg_length_le: "siz \<le> length buf \<Longrightarrow> jpeg_length buf siz \<le> siz"
  using find_eoi_spec [of siz buf] by (simp add: jpeg_length_def)

lemma soi_nth: "4 \<le> length buf \<Longrightarrow> take 2 buf = [0xff, 0xd8] \<longleftrightarrow> buf ! 0 = 0xff \<and> buf ! 1 = 0xd8"
  using take2_drop [of 0 buf] by simp

text \<open>A saved frame starts with the start-of-image marker and ends with the end-of-image one.\<close>

definition complete_jpeg :: "bytes \<Rightarrow> bool" where
  "complete_jpeg frame \<longleftrightarrow>
     4 \<le> length frame \<and> take 2 frame = [0xff, 0xd8] \<and> drop (length frame - 2) frame = [0xff, 0xd9]"

lemma jpeg_length_positive:
  assumes "siz \<le> length buf" "jpeg_length buf siz = n" "0 < n"
  shows "4 \<le> n \<and> n \<le> siz \<and> take 2 buf = [0xff, 0xd8] \<and> eoi_at buf n \<and>
    (\<forall>m. n < m \<longrightarrow> m \<le> siz \<longrightarrow> \<not> eoi_at buf m)"
proof -
  have soi: "4 \<le> siz" "buf ! 0 = 0xff" "buf ! 1 = 0xd8" and find: "find_eoi buf siz = n"
    using assms(2,3) by (auto simp: jpeg_length_def split: if_splits)
  have spec: "n \<le> siz" "eoi_at buf n" "\<forall>m. n < m \<longrightarrow> m \<le> siz \<longrightarrow> \<not> eoi_at buf m"
    using find_eoi_spec [OF assms(1) find] assms(3) by auto
  have "2 \<le> n" using spec(2) by (simp add: eoi_at_def)
  then have mark: "buf ! (n - 2) = 0xff" "buf ! (n - 1) = 0xd9"
    using spec(1,2) assms(1) by (auto simp: eoi_at_nth)
  have "n \<noteq> 2" using mark soi by auto
  moreover have "n \<noteq> 3"
  proof
    assume "n = 3"
    then have "buf ! 1 = 0xff" using mark(1) by simp
    with soi show False by simp
  qed
  ultimately have "4 \<le> n" using \<open>2 \<le> n\<close> by simp
  then show ?thesis using spec soi assms(1) by (simp add: soi_nth)
qed

lemma jpeg_length_complete:
  assumes "siz \<le> length buf" "0 < jpeg_length buf siz"
  shows "complete_jpeg (take (jpeg_length buf siz) buf)"
proof -
  define n where "n = jpeg_length buf siz"
  have p: "4 \<le> n \<and> n \<le> siz \<and> take 2 buf = [0xff, 0xd8] \<and> eoi_at buf n"
    using jpeg_length_positive [OF assms(1) n_def [symmetric]] assms(2) n_def by simp
  then have "drop (n - 2) (take n buf) = take 2 (drop (n - 2) buf)"
    by (simp add: drop_take)
  then show ?thesis
    using p assms(1) by (simp add: complete_jpeg_def eoi_at_def flip: n_def)
qed

text \<open>
  C23. For a buffer of which \<open>siz\<close> bytes were used, \<open>jpeg_length\<close> returns a positive
  length exactly when the bytes open with the start-of-image marker and hold an end-of-image
  marker, and then the length that ends at the last such marker: the frame is complete and no
  later marker is cut off. In every other case it returns 0.
\<close>

theorem jpeg_length_exact:
  assumes "siz \<le> length buf"
  shows "(0 < n \<and> jpeg_length buf siz = n) \<longleftrightarrow>
    (4 \<le> n \<and> n \<le> siz \<and> complete_jpeg (take n buf) \<and>
     (\<forall>m. n < m \<longrightarrow> m \<le> siz \<longrightarrow> take 2 (drop (m - 2) buf) \<noteq> [0xff, 0xd9]))"
    (is "?l \<longleftrightarrow> ?r")
proof
  assume l: ?l
  with jpeg_length_positive [OF assms, of n] jpeg_length_complete [OF assms]
  show ?r by (auto simp: eoi_at_def)
next
  assume r: ?r
  then have soi: "take 2 buf = [0xff, 0xd8]" and "drop (n - 2) (take n buf) = [0xff, 0xd9]"
    using assms by (auto simp: complete_jpeg_def)
  then have eoi: "eoi_at buf n" using r by (simp add: eoi_at_def drop_take)
  define k where "k = find_eoi buf siz"
  have k: "\<forall>m. k < m \<longrightarrow> m \<le> siz \<longrightarrow> \<not> eoi_at buf m" "k \<le> siz" "0 < k \<longrightarrow> eoi_at buf k"
    using find_eoi_spec [OF assms k_def [symmetric]] by auto
  have "n \<le> k" using k(1) eoi r by (metis not_le)
  moreover have "k \<le> n" using k r by (metis eoi_at_def le0 not_le le_neq_implies_less)
  ultimately have "find_eoi buf siz = n" by (simp add: k_def)
  then show ?l using r soi assms by (auto simp: jpeg_length_def soi_nth)
qed

theorem jpeg_length_exact_witness:
  "jpeg_length [0xff, 0xd8, 1, 2, 0xff, 0xd9, 7, 0xff, 0xd9, 0xff] 10 = 9"
proof -
  define buf :: bytes where "buf = [0xff, 0xd8, 1, 2, 0xff, 0xd9, 7, 0xff, 0xd9, 0xff]"
  have "take 2 (drop (m - 2) buf) \<noteq> [0xff, 0xd9]" if "9 < m" "m \<le> 10" for m :: nat
  proof -
    have "m = 10" using that by simp
    then show ?thesis by (simp add: buf_def)
  qed
  then show ?thesis
    using jpeg_length_exact [of 10 buf 9] by (simp add: complete_jpeg_def buf_def)
qed

subsection \<open>Snapshots\<close>

lemma fun_upd_same_ex: "\<exists>c. f = f(x := c)"
  by (rule exI [of _ "f x"]) simp

lemma write_all_spec:
  "write_all tmp cursor ws fs = Some (ok, fs') \<Longrightarrow> f_content fs tmp = Some pre \<Longrightarrow>
   \<exists>c. f_open fs' = f_open fs \<and> f_content fs' = (f_content fs)(tmp := c) \<and> (ok \<longrightarrow> c = Some (pre @ cursor))"
proof (induction tmp cursor ws fs arbitrary: pre rule: write_all.induct)
  case (1 tmp cursor fs)
  then show ?case by (auto simp: fun_upd_idem split: if_splits)
next
  case (2 tmp cursor w ws fs)
  show ?case
  proof (cases "cursor = []")
    case True
    with "2.prems" show ?thesis by auto
  next
    case False
    show ?thesis
    proof (cases w)
      case (CallErr e)
      with 2 False show ?thesis by (auto simp: fun_upd_same_ex simp del: fun_upd_apply split: if_splits)
    next
      case (CallOk n)
      show ?thesis
      proof (cases "0 < n")
        case True
        define fs1 where "fs1 = fs\<lparr>f_content := (f_content fs)(tmp \<mapsto> pre @ take n cursor)\<rparr>"
        have w: "write_all tmp (drop n cursor) ws fs1 = Some (ok, fs')"
          and pre: "f_content fs1 tmp = Some (pre @ take n cursor)"
          and "fs1 = fs\<lparr>f_content := (f_content fs)(tmp \<mapsto> the (f_content fs tmp) @ take n cursor)\<rparr>"
          using "2.prems" False CallOk True by (simp_all add: fs1_def)
        then obtain c where "f_open fs' = f_open fs1" "f_content fs' = (f_content fs1)(tmp := c)"
            "ok \<longrightarrow> c = Some ((pre @ take n cursor) @ drop n cursor)"
          using "2.IH"(1) [OF False CallOk True] by blast
        then show ?thesis by (intro exI [of _ c]) (simp add: fs1_def)
      next
        case no: False
        with "2.prems" False CallOk show ?thesis by (auto simp: fun_upd_same_ex simp del: fun_upd_apply)
      qed
    qed
  qed
qed

text \<open>Cases of \<open>save_latest\<close>: not opened, or opened with the outcome of its writes.\<close>

lemma save_latest_cases:
  assumes "save_latest pid path frame io fs = Some (r, fs')"
  defines "tmp \<equiv> temporary_name path pid"
  shows "(r = - 1 \<and> fs' = fs \<and> (4096 \<le> length tmp \<or> \<not> s_open io)) \<or>
    (length tmp < 4096 \<and> s_open io \<and>
     (\<exists>ok c fs1. f_open fs1 = Suc (f_open fs) \<and> f_content fs1 = (f_content fs)(tmp := c) \<and>
        (ok \<longrightarrow> c = Some frame) \<and>
        (if ok \<and> s_fsync io \<and> s_close io \<and> s_rename io
         then r = 0 \<and> fs' = rename_file tmp path (close_file fs1)
         else r = - 1 \<and> fs' = unlink_file tmp (if ok \<and> \<not> s_fsync io then fs1 else close_file fs1))))"
proof (cases "4096 \<le> length tmp \<or> \<not> s_open io")
  case True
  then show ?thesis using assms by (auto simp: save_latest_def Let_def split: if_splits)
next
  case False
  define fs0 where "fs0 = fs\<lparr>f_content := (f_content fs)(tmp \<mapsto> []), f_open := f_open fs + 1\<rparr>"
  have fs0: "f_content fs0 tmp = Some []" by (simp add: fs0_def)
  have "save_latest pid path frame io fs =
    (case write_all tmp frame (s_writes io) fs0 of
          None \<Rightarrow> None
        | Some (False, fs) \<Rightarrow> Some (- 1, unlink_file tmp (close_file fs))
        | Some (True, fs) \<Rightarrow>
            if \<not> s_fsync io then Some (- 1, unlink_file tmp fs)
            else if \<not> s_close io \<or> \<not> s_rename io then Some (- 1, unlink_file tmp (close_file fs))
            else Some (0, rename_file tmp path (close_file fs)))"
    using False by (simp add: save_latest_def Let_def fs0_def flip: tmp_def)
  with assms(1) obtain ok fs1 where w: "write_all tmp frame (s_writes io) fs0 = Some (ok, fs1)"
    and e: "(case (ok, fs1) of (False, fs) \<Rightarrow> Some (- 1, unlink_file tmp (close_file fs))
        | (True, fs) \<Rightarrow>
            if \<not> s_fsync io then Some (- 1, unlink_file tmp fs)
            else if \<not> s_close io \<or> \<not> s_rename io then Some (- 1, unlink_file tmp (close_file fs))
            else Some (0, rename_file tmp path (close_file fs))) = Some (r, fs')"
    by (auto split: option.splits)
  obtain c where "f_open fs1 = Suc (f_open fs) \<and> f_content fs1 = (f_content fs)(tmp := c)"
    and "ok \<longrightarrow> c = Some frame"
    using write_all_spec [OF w fs0] by (auto simp: fs0_def)
  moreover have "(if ok \<and> s_fsync io \<and> s_close io \<and> s_rename io
         then r = 0 \<and> fs' = rename_file tmp path (close_file fs1)
         else r = - 1 \<and> fs' = unlink_file tmp (if ok \<and> \<not> s_fsync io then fs1 else close_file fs1))"
    using e by (cases ok) (auto split: if_splits)
  ultimately show ?thesis
    using False by (intro disjI2 conjI exI [of _ ok] exI [of _ c] exI [of _ fs1]) auto
qed

lemma temporary_name_neq [simp]: "temporary_name path pid \<noteq> path" "path \<noteq> temporary_name path pid"
  by (auto simp: temporary_name_def)

lemma save_latest_result: "save_latest pid path frame io fs = Some (r, fs') \<Longrightarrow> r = 0 \<or> r = - 1"
  by (drule save_latest_cases) (auto split: if_splits)

lemma save_latest_path:
  assumes "save_latest pid path frame io fs = Some (r, fs')"
  shows "f_content fs' path = (if r = 0 then Some frame else f_content fs path)"
  using save_latest_cases [OF assms]
  by (auto simp: rename_file_def unlink_file_def close_file_def split: if_splits)

text \<open>
  A snapshot is saved atomically: if \<open>save_latest\<close> returns 0 the file holds exactly the
  frame, and otherwise it returns -1 and the file is what it was. In both cases no other file
  changes and, once it was created, the temporary file is gone. Its descriptor is closed again
  except after a failing \<open>fsync\<close>, where it is leaked.
\<close>

theorem save_latest_atomic:
  assumes "save_latest pid path frame io fs = Some (r, fs')"
  shows "r \<in> {0, - 1} \<and>
    f_content fs' path = (if r = 0 then Some frame else f_content fs path) \<and>
    (\<forall>p. p \<noteq> path \<longrightarrow> p \<noteq> temporary_name path pid \<longrightarrow> f_content fs' p = f_content fs p) \<and>
    (fs' = fs \<or> f_content fs' (temporary_name path pid) = None) \<and>
    (f_open fs' = f_open fs \<or> \<not> s_fsync io \<and> f_open fs' = f_open fs + 1)"
  using save_latest_cases [OF assms] save_latest_result [OF assms] save_latest_path [OF assms]
  by (auto simp: rename_file_def unlink_file_def close_file_def split: if_splits)

theorem save_latest_atomic_witness:
  "save_latest 7 ''/l'' [1, 2, 3] \<lparr>s_open = True, s_writes = [CallErr EINTR, CallOk 2, CallOk 1],
      s_fsync = False, s_close = True, s_rename = True\<rparr> \<lparr>f_content = (\<lambda>p. None), f_open = 0\<rparr> =
    Some (- 1, \<lparr>f_content = (\<lambda>p. None), f_open = 1\<rparr>)"
proof -
  define io where "io = \<lparr>s_open = True, s_writes = [CallErr EINTR, CallOk 2, CallOk 1],
      s_fsync = False, s_close = True, s_rename = True\<rparr>"
  define fs where "fs = \<lparr>f_content = (\<lambda>p. None), f_open = 0\<rparr>"
  define tmp where "tmp = temporary_name ''/l'' 7"
  have len: "length tmp < 4096" by (simp add: tmp_def temporary_name_def show_nat.simps)
  have save: "save_latest 7 ''/l'' [1, 2, 3] io fs = Some (- 1, \<lparr>f_content = (\<lambda>p. None), f_open = 1\<rparr>)"
    using len unfolding save_latest_def tmp_def [symmetric] Let_def
    by (simp add: io_def fs_def unlink_file_def eval_nat_numeral)
  show ?thesis using save save_latest_atomic [OF save] by (simp add: io_def fs_def)
qed

subsection \<open>The stream and its buffers\<close>

text \<open>
  \<open>setup_ok P m Q C\<close>: from a state that satisfies \<open>P\<close>, the step \<open>m\<close> goes on in a
  state that satisfies \<open>Q\<close>, or leaves for the clean-up in one that satisfies \<open>C\<close>, or
  never returns; it takes no other way out.
\<close>

definition setup_ok :: "(keeper \<Rightarrow> bool) \<Rightarrow> (keeper \<Rightarrow> 'a keeper_flow \<times> keeper) \<Rightarrow> ('a \<Rightarrow> keeper \<Rightarrow> bool) \<Rightarrow>
    (keeper \<Rightarrow> bool) \<Rightarrow> bool" where
  "setup_ok P m Q C \<longleftrightarrow>
     (\<forall>k. P k \<longrightarrow>
        (case m k of
           (Next x, k') \<Rightarrow> Q x k'
         | (Goto_cleanup, k') \<Rightarrow> C k'
         | (Never, k') \<Rightarrow> True
         | (Goto_streamoff, k') \<Rightarrow> False
         | (Out_of_bounds, k') \<Rightarrow> False))"

named_theorems setup_rules

lemma setup_bind [setup_rules]:
  "setup_ok P m Q C \<Longrightarrow> (\<And>x. setup_ok (Q x) (f x) R C) \<Longrightarrow> setup_ok P (kbind m f) R C"
  by (fastforce simp: setup_ok_def kbind_def split: prod.splits keeper_flow.splits)

lemma setup_call [setup_rules]:
  "(\<And>k. P k \<Longrightarrow> C k) \<Longrightarrow> setup_ok P (kcall answers Goto_cleanup) (\<lambda>x. P) C"
  by (auto simp: setup_ok_def kcall_def split: option.splits call.splits)

lemma setup_guard [setup_rules]:
  "(\<And>k. P k \<Longrightarrow> C k) \<Longrightarrow> setup_ok P (kguard ok Goto_cleanup) (\<lambda>x k. P k \<and> ok) C"
  by (auto simp: setup_ok_def kguard_def)

lemma setup_do: "(\<And>k. P k \<Longrightarrow> Q (klog a k)) \<Longrightarrow> setup_ok P (kdo a) (\<lambda>x. Q) C"
  by (auto simp: setup_ok_def kdo_def)

lemma setup_rate [setup_rules]: "setup_ok P (set_rate env) (\<lambda>x. P) C"
  by (auto simp: setup_ok_def set_rate_def split: option.splits)

lemma setup_pre: "(\<And>k. P k \<Longrightarrow> P' k) \<Longrightarrow> setup_ok P' m Q C \<Longrightarrow> setup_ok P m Q C"
  by (auto simp: setup_ok_def)

lemma setup_post: "setup_ok P m Q' C \<Longrightarrow> (\<And>x k. Q' x k \<Longrightarrow> Q x k) \<Longrightarrow> setup_ok P m Q C"
  by (fastforce simp: setup_ok_def split: prod.splits keeper_flow.splits)

text \<open>The buffers that are mapped are the ones whose mapping was logged, in order.\<close>

definition is_map :: "keeper_action \<Rightarrow> bool" where
  "is_map a \<longleftrightarrow> (\<exists>i. a = KMap i)"

definition ends_use :: "keeper_action \<Rightarrow> bool" where
  "ends_use a \<longleftrightarrow> a \<in> {KOpen, KStreamOff, KClose} \<or> (\<exists>i. a = KUnmap i)"

definition mapped :: "keeper \<Rightarrow> nat list" where
  "mapped k = filter (\<lambda>i. mb_mapped (k_buffers k ! i)) [0..<k_allocated k]"

definition running :: "keeper \<Rightarrow> bool" where
  "running k \<longleftrightarrow> length (k_buffers k) = BUFFER_COUNT \<and> k_allocated k \<le> BUFFER_COUNT \<and>
     (\<exists>mid. k_log k = KOpen # mid \<and> filter is_map mid = map KMap (mapped k) \<and> list_all (\<lambda>a. \<not> ends_use a) mid)"

definition unmapped_from :: "nat \<Rightarrow> keeper \<Rightarrow> bool" where
  "unmapped_from i k \<longleftrightarrow> (\<forall>j. i \<le> j \<longrightarrow> j < BUFFER_COUNT \<longrightarrow> \<not> mb_mapped (k_buffers k ! j))"

definition preparing :: "keeper \<Rightarrow> bool" where
  "preparing k \<longleftrightarrow> running k \<and> KStreamOn \<notin> set (k_log k)"

lemma running_log:
  assumes "running k" "\<not> ends_use a" "\<not> is_map a"
  shows "running (klog a k)"
  using assms by (auto simp: running_def klog_def mapped_def)

lemma preparing_queue: "preparing k \<Longrightarrow> preparing (klog (KQueue i) k)"
  by (auto simp: preparing_def klog_def ends_use_def is_map_def running_log [unfolded klog_def])

lemma mapped_update:
  assumes "i < k_allocated k" "k_allocated k \<le> length (k_buffers k)" "unmapped_from i k"
    "length (k_buffers k) = BUFFER_COUNT"
  shows "mapped (k\<lparr>k_buffers := (k_buffers k)[i := \<lparr>mb_mapped = ok, mb_length = n\<rparr>]\<rparr>) =
    mapped k @ (if ok then [i] else [])"
proof -
  have split: "[0..<k_allocated k] = [0..<i] @ i # [Suc i..<k_allocated k]"
    using assms(1) upt_add_eq_append [of 0 i "k_allocated k - i"] by (simp add: upt_conv_Cons)
  have "filter (\<lambda>j. mb_mapped ((k_buffers k)[i := b] ! j)) [0..<i] =
      filter (\<lambda>j. mb_mapped (k_buffers k ! j)) [0..<i]" for b
    by (rule filter_cong) auto
  moreover have "filter (\<lambda>j. mb_mapped ((k_buffers k)[i := b] ! j)) [Suc i..<k_allocated k] = []" for b
    using assms by (auto simp: filter_empty_conv unmapped_from_def)
  moreover have "filter (\<lambda>j. mb_mapped (k_buffers k ! j)) (i # [Suc i..<k_allocated k]) = []"
    using assms by (auto simp: filter_empty_conv unmapped_from_def)
  ultimately show ?thesis using assms by (simp add: mapped_def split)
qed

lemma setup_buffer_ok:
  "setup_ok (\<lambda>k. preparing k \<and> unmapped_from i k \<and> i < k_allocated k \<and> k_allocated k = n)
     (setup_buffer env i)
     (\<lambda>x k. preparing k \<and> unmapped_from (Suc i) k \<and> k_allocated k = n) preparing"
proof -
  define upd where "upd len k = k\<lparr>k_buffers := (k_buffers k)[i := \<lparr>mb_mapped = ke_mmap env i, mb_length = unat len\<rparr>]\<rparr>"
    for len :: u32 and k :: keeper
  define pre where "pre k \<longleftrightarrow> preparing k \<and> unmapped_from i k \<and> i < k_allocated k \<and> k_allocated k = n" for k
  define mid where "mid k \<longleftrightarrow> preparing k \<and> unmapped_from (Suc i) k \<and> k_allocated k = n" for k
  have map: "mid (klog (KMap i) (upd len k))" if "pre k" "ke_mmap env i" for len k
    using that mapped_update [of i k True "unat len"]
    by (auto simp: mid_def pre_def upd_def preparing_def running_def klog_def is_map_def ends_use_def
        unmapped_from_def mapped_def)
  have fail: "preparing (upd len k)" if "pre k" "\<not> ke_mmap env i" for len k
    using that mapped_update [of i k False "unat len"]
    by (auto simp: mid_def pre_def upd_def preparing_def running_def)
  have queue: "mid (klog (KQueue i) k)" if "mid k" for k
    using that preparing_queue [of k i] by (auto simp: mid_def unmapped_from_def klog_def)
  have weak: "mid k \<Longrightarrow> preparing k" for k by (simp add: mid_def)
  have rest: "setup_ok (\<lambda>k. k = k0 \<and> pre k)
     (\<lambda>k. kbind (kguard (ke_mmap env i) Goto_cleanup) (\<lambda>_.
       kbind (kdo (KMap i)) (\<lambda>_.
       kbind (kcall (ke_qbuf env i) Goto_cleanup) (\<lambda>_.
       kdo (KQueue i)))) (upd len k)) (\<lambda>x. mid) preparing" for k0 len
    using map [of k0 len] fail [of k0 len]
    by (auto simp: setup_ok_def kbind_def kguard_def kdo_def kcall_def queue weak
        split: option.splits call.splits)
  have "setup_ok pre (setup_buffer env i) (\<lambda>x. mid) preparing"
    unfolding setup_buffer_def Let_def
  proof (rule setup_bind [where Q = "\<lambda>x. pre"])
    show "setup_ok pre (kcall (ke_querybuf env i) Goto_cleanup) (\<lambda>x. pre) preparing"
      by (rule setup_call) (simp add: pre_def)
  qed (use rest in \<open>auto simp: setup_ok_def upd_def\<close>)
  then show ?thesis by (simp add: pre_def [abs_def] mid_def [abs_def])
qed

lemma setup_buffers_ok:
  "setup_ok (\<lambda>k. preparing k \<and> unmapped_from i k \<and> k_allocated k = n)
     (setup_buffers env [i..<n]) (\<lambda>x. preparing) preparing"
proof (induction "n - i" arbitrary: i)
  case 0
  then show ?case by (auto simp: setup_ok_def)
next
  case (Suc m)
  then have "[i..<n] = i # [Suc i..<n]" by (simp add: upt_conv_Cons)
  then have "setup_buffers env [i..<n] = kbind (setup_buffer env i) (\<lambda>_. setup_buffers env [Suc i..<n])"
    by (simp add: fun_eq_iff)
  moreover have "setup_ok (\<lambda>k. preparing k \<and> unmapped_from i k \<and> k_allocated k = n) \<dots> (\<lambda>x. preparing) preparing"
  proof (rule setup_bind)
    show "setup_ok (\<lambda>k. preparing k \<and> unmapped_from i k \<and> k_allocated k = n) (setup_buffer env i)
      (\<lambda>x k. preparing k \<and> unmapped_from (Suc i) k \<and> k_allocated k = n) preparing"
      using Suc.hyps(2) by (intro setup_pre [OF _ setup_buffer_ok]) auto
    show "setup_ok (\<lambda>k. preparing k \<and> unmapped_from (Suc i) k \<and> k_allocated k = n)
      (setup_buffers env [Suc i..<n]) (\<lambda>x. preparing) preparing"
      using Suc.hyps by simp
  qed
  ultimately show ?case by simp
qed

definition fresh :: "keeper \<Rightarrow> bool" where
  "fresh k \<longleftrightarrow> preparing k \<and> unmapped_from 0 k"

lemma fresh_preparing: "fresh k \<Longrightarrow> preparing k"
  by (simp add: fresh_def)

lemma fresh_allocated:
  assumes "fresh k" "n \<le> BUFFER_COUNT"
  shows "fresh (k\<lparr>k_allocated := n\<rparr>)"
proof -
  have "mapped k = []" "mapped (k\<lparr>k_allocated := n\<rparr>) = []"
    using assms by (auto simp: fresh_def preparing_def running_def mapped_def filter_empty_conv unmapped_from_def)
  with assms show ?thesis by (auto simp: fresh_def preparing_def running_def unmapped_from_def)
qed

lemma request_buffers_ok: "setup_ok fresh (request_buffers env) (\<lambda>x. fresh) preparing"
  unfolding request_buffers_def
proof (intro setup_bind)
  show "setup_ok fresh (kcall (ke_reqbufs env) Goto_cleanup) (\<lambda>x. fresh) preparing"
    by (rule setup_call) (rule fresh_preparing)
  show "setup_ok fresh (kguard (2 \<le> count) Goto_cleanup) (\<lambda>x. fresh) preparing" for count :: u32
    by (rule setup_post [OF setup_guard]) (auto simp: fresh_preparing)
  show "setup_ok fresh (\<lambda>k. (Next (), k\<lparr>k_allocated := if count < of_nat BUFFER_COUNT then unat count else BUFFER_COUNT\<rparr>))
      (\<lambda>x. fresh) preparing" for count :: u32
    using unat_mono [of count 4] by (auto simp: setup_ok_def fresh_allocated)
qed

definition streaming :: "keeper \<Rightarrow> bool" where
  "streaming k \<longleftrightarrow> running k \<and> KStreamOn \<in> set (k_log k)"

lemma preparing_streamon: "preparing k \<Longrightarrow> streaming (klog KStreamOn k)"
  by (auto simp: preparing_def streaming_def running_log ends_use_def is_map_def klog_def
      intro: running_log [unfolded klog_def])

lemma fresh_guard: "setup_ok fresh (kguard ok Goto_cleanup) (\<lambda>x. fresh) preparing"
  by (rule setup_post [OF setup_guard]) (auto simp: fresh_preparing)

lemma fresh_call: "setup_ok fresh (kcall answers Goto_cleanup) (\<lambda>x. fresh) preparing"
  by (rule setup_call) (rule fresh_preparing)

lemma setup_streamon:
  "setup_ok preparing (kbind (kcall answers Goto_cleanup) (\<lambda>_. kdo KStreamOn)) (\<lambda>x. streaming) preparing"
  by (rule setup_bind [OF setup_call setup_do]) (auto simp: preparing_streamon)

text \<open>A step that first reads the number of allocated buffers.\<close>

lemma setup_allocated:
  assumes "\<And>n. setup_ok (\<lambda>k. P k \<and> k_allocated k = n) (m n) Q C"
  shows "setup_ok P (\<lambda>k. m (k_allocated k) k) Q C"
  using assms by (simp add: setup_ok_def)

lemma setup_stream_ok: "setup_ok fresh (setup_stream env) (\<lambda>x. streaming) preparing"
proof -
  have run: "setup_ok fresh (\<lambda>k. kbind (setup_buffers env [0..<k_allocated k])
      (\<lambda>_. kbind (kcall (ke_streamon env) Goto_cleanup) (\<lambda>_. kdo KStreamOn)) k) (\<lambda>x. streaming) preparing"
    by (rule setup_allocated, rule setup_bind [OF setup_pre [OF _ setup_buffers_ok] setup_streamon])
      (simp add: fresh_def)
  show ?thesis
    unfolding setup_stream_def Let_def case_prod_beta
    apply (rule setup_bind [OF fresh_call])
    apply (rule setup_bind [OF fresh_guard])
    apply (rule setup_bind [OF fresh_call])
    apply (rule setup_bind [OF fresh_guard])
    apply (rule setup_bind [OF setup_rate])
    apply (rule setup_bind [OF request_buffers_ok])
    apply (rule run)
    done
qed

text \<open>What the capture loop preserves, step by step.\<close>

definition stays :: "(keeper \<Rightarrow> bool) \<Rightarrow> (keeper \<Rightarrow> 'a keeper_flow \<times> keeper) \<Rightarrow> bool" where
  "stays P m \<longleftrightarrow> (\<forall>k. P k \<longrightarrow> P (snd (m k)))"

lemma stays_bind: "stays P m \<Longrightarrow> (\<And>x. stays P (f x)) \<Longrightarrow> stays P (kbind m f)"
  by (auto simp: stays_def kbind_def split: prod.splits keeper_flow.splits)

lemma stays_call: "stays P (kcall answers e)"
  by (auto simp: stays_def kcall_def split: option.splits call.splits)

lemma stays_do: "(\<And>k. P k \<Longrightarrow> P (klog a k)) \<Longrightarrow> stays P (kdo a)"
  by (auto simp: stays_def kdo_def)

lemma stays_descriptor: "stays P (check_descriptor index bytesused)"
  by (auto simp: stays_def check_descriptor_def)

lemmas stays_rules = stays_bind stays_call stays_do stays_descriptor

lemma streaming_log:
  "streaming k \<Longrightarrow> \<not> ends_use a \<Longrightarrow> \<not> is_map a \<Longrightarrow> streaming (klog a k)"
  using running_log [of k a] by (auto simp: streaming_def klog_def)

lemma streaming_cong:
  "k_buffers k' = k_buffers k \<Longrightarrow> k_allocated k' = k_allocated k \<Longrightarrow> k_log k' = k_log k \<Longrightarrow>
   streaming k' = streaming k"
  by (simp add: streaming_def running_def mapped_def)

lemma loop_actions [simp]:
  "\<not> ends_use (KQueue i)" "\<not> ends_use (KDequeue i)" "\<not> ends_use (KSave f t)"
  "\<not> is_map (KQueue i)" "\<not> is_map (KDequeue i)" "\<not> is_map (KSave f t)"
  by (auto simp: ends_use_def is_map_def)

lemma streaming_update [simp]:
  "streaming (k\<lparr>k_files := fs\<rparr>) = streaming k" "streaming (k\<lparr>k_last_snapshot := t\<rparr>) = streaming k"
  "streaming (k\<lparr>k_invalid_frames := c\<rparr>) = streaming k"
  by (rule streaming_cong; simp)+

lemma handle_frame_streaming: "stays streaming (handle_frame pid latest fr index bytesused)"
  by (auto simp: stays_def handle_frame_def Let_def streaming_log split: option.splits prod.splits)

lemma capture_round_keeps:
  assumes "\<And>i k. P k \<Longrightarrow> P (klog (KDequeue i) k)" "\<And>i k. P k \<Longrightarrow> P (klog (KQueue i) k)"
    and "\<And>index bytesused. stays P (kbind (check_descriptor index bytesused)
      (\<lambda>_. handle_frame pid latest fr (unat index) (unat bytesused)))"
  shows "stays P (capture_round pid latest fr)"
proof -
  have assoc: "kbind a (\<lambda>x. kbind (b x) c) = kbind (kbind a b) c"
    for a :: "keeper \<Rightarrow> unit keeper_flow \<times> keeper" and b :: "unit \<Rightarrow> keeper \<Rightarrow> unit keeper_flow \<times> keeper"
      and c :: "unit \<Rightarrow> keeper \<Rightarrow> unit keeper_flow \<times> keeper"
    by (auto simp: fun_eq_iff kbind_def split: prod.splits keeper_flow.splits)
  have "stays P (\<lambda>k. kbind (kdo (KDequeue (unat index))) (\<lambda>_.
          kbind (check_descriptor index bytesused) (\<lambda>_.
          kbind (handle_frame pid latest fr (unat index) (unat bytesused)) (\<lambda>_.
          kbind (kcall (fr_qbuf fr) Goto_streamoff) (\<lambda>_.
          kdo (KQueue (unat index)))))) k)" for index bytesused
    by (subst assoc [where a = "check_descriptor index bytesused"]) (intro stays_bind stays_do stays_call assms)
  then have "stays P (capture_frame pid latest fr)"
    unfolding stays_def capture_frame_def by (auto split: option.splits call.splits)
  then show ?thesis
    unfolding stays_def capture_round_def by (auto split: call.splits)
qed

lemma capture_loop_keeps:
  "(\<And>fr. fr \<in> set rounds \<Longrightarrow> stays P (capture_round pid latest fr)) \<Longrightarrow> stays P (capture_loop pid latest rounds)"
proof (induction rounds)
  case Nil
  then show ?case by (simp add: stays_def)
next
  case (Cons fr frs)
  then have "stays P (kbind (capture_round pid latest fr) (\<lambda>_. capture_loop pid latest frs))"
    by (intro stays_bind) auto
  then show ?case by (simp add: stays_def)
qed

lemma capture_round_streaming: "stays streaming (capture_round pid latest fr)"
  by (intro capture_round_keeps stays_bind stays_descriptor handle_frame_streaming)
    (auto simp: streaming_log)

lemma capture_loop_streaming: "stays streaming (capture_loop pid latest rounds)"
  by (intro capture_loop_keeps capture_round_streaming)

lemma capture_loop_flow: "fst (capture_loop pid latest rounds k) \<noteq> Goto_cleanup"
proof (induction rounds arbitrary: k)
  case (Cons fr frs)
  have "fst (capture_round pid latest fr k) \<noteq> Goto_cleanup"
    by (auto simp: capture_round_def capture_frame_def kbind_def kdo_def check_descriptor_def
        handle_frame_def kcall_def Let_def split: call.splits option.splits prod.splits keeper_flow.splits if_splits)
  with Cons show ?case
    by (auto simp: kbind_def split: prod.splits keeper_flow.splits)
qed simp

lemma unmap_buffers_log:
  "k_log (unmap_buffers is k) = k_log k @ map KUnmap (filter (\<lambda>i. mb_mapped (k_buffers k ! i)) is)"
  by (induction "is" arbitrary: k) (auto simp: klog_def)

lemma cleanup_log: "k_log (cleanup k) = k_log k @ map KUnmap (mapped k) @ [KClose]"
  by (simp add: cleanup_def klog_def unmap_buffers_log mapped_def)

lemma fresh_open: "fresh (klog KOpen (keeper_init fs))"
  by (auto simp: fresh_def preparing_def running_def keeper_init_def klog_def mapped_def unmapped_from_def
      nth_Cons' eval_nat_numeral)

text \<open>The actions of a run that was cleaned up.\<close>

definition cleaned_up :: "keeper_action list \<Rightarrow> bool \<Rightarrow> bool" where
  "cleaned_up acts streamed \<longleftrightarrow>
     (\<exists>mid js. acts = KOpen # mid @ (if streamed then [KStreamOff] else []) @ map KUnmap js @ [KClose] \<and>
        filter is_map mid = map KMap js \<and> distinct js \<and> (streamed \<longleftrightarrow> KStreamOn \<in> set mid) \<and>
        list_all (\<lambda>a. \<not> ends_use a) mid)"

lemma cleaned_up_preparing: "preparing k \<Longrightarrow> cleaned_up (k_log (cleanup k)) False"
  unfolding cleaned_up_def preparing_def running_def cleanup_log
  by (elim conjE exE, rule_tac x = mid in exI, rule_tac x = "mapped k" in exI) (auto simp: mapped_def)

lemma cleaned_up_streaming: "streaming k \<Longrightarrow> cleaned_up (k_log (cleanup (klog KStreamOff k))) True"
  unfolding cleaned_up_def streaming_def running_def cleanup_log
  by (elim conjE exE, rule_tac x = mid in exI, rule_tac x = "mapped k" in exI) (auto simp: mapped_def klog_def)

lemma keeper_run_cleans_up:
  assumes "fresh k0" "keeper_run env latest rounds k0 = (Some status, k)"
  shows "\<exists>streamed. cleaned_up (k_log k) streamed \<and> status \<in> {0, 1} \<and> (status = 0 \<longrightarrow> streamed)"
proof -
  obtain fl k1 where s: "setup_stream env k0 = (fl, k1)" by fastforce
  have ok: "case (fl, k1) of (Next x, k') \<Rightarrow> streaming k' | (Goto_cleanup, k') \<Rightarrow> preparing k'
      | (Never, k') \<Rightarrow> True | (Goto_streamoff, k') \<Rightarrow> False | (Out_of_bounds, k') \<Rightarrow> False"
    using setup_stream_ok [of env] assms(1) s unfolding setup_ok_def by (metis (no_types, lifting))
  show ?thesis
  proof (cases fl)
    case (Next x)
    obtain fl2 k2 where l: "capture_loop (ke_pid env) latest rounds k1 = (fl2, k2)" by fastforce
    have "streaming k2" "fl2 \<noteq> Goto_cleanup"
      using capture_loop_streaming [of "ke_pid env" latest rounds] capture_loop_flow [of "ke_pid env" latest rounds k1]
        ok Next l by (auto simp: stays_def)
    then show ?thesis
      using assms(2) cleaned_up_streaming [of k2]
      by (auto simp: keeper_run_def s Next l Let_def split: keeper_flow.splits option.splits)
  next
    case Goto_cleanup
    then show ?thesis using assms(2) ok cleaned_up_preparing [of k1] by (auto simp: keeper_run_def s)
  qed (use assms(2) ok in \<open>auto simp: keeper_run_def s\<close>)
qed

text \<open>
  C22. Whatever fails, the keeper cleans up: a run that ends did nothing (bad arguments or no
  device), or opened the node, and then it ends by stopping the stream exactly if it was
  started, unmapping exactly the buffers it mapped, each once and in order, and closing the
  node last; nothing was stopped, unmapped or closed before. It exits with 0 only if it
  streamed, and with 2 only if it did nothing.
\<close>

theorem keeper_main_cleans_up:
  assumes "keeper_main argv env rounds fs = (Some status, k)"
  shows "(k_log k = [] \<and> k_files k = fs \<and> status \<in> {1, 2}) \<or>
    (\<exists>streamed. cleaned_up (k_log k) streamed \<and> status \<in> {0, 1} \<and> (status = 0 \<longrightarrow> streamed))"
proof (cases "parse_arguments argv None None")
  case None
  with assms show ?thesis by (auto simp: keeper_main_def keeper_init_def)
next
  case (Some args)
  show ?thesis
  proof (cases "ke_open env")
    case True
    then have "keeper_run env (snd args) rounds (klog KOpen (keeper_init fs)) = (Some status, k)"
      using assms Some by (simp add: keeper_main_def case_prod_beta)
    from keeper_run_cleans_up [OF fresh_open this] show ?thesis by blast
  next
    case False
    with assms Some show ?thesis by (auto simp: keeper_main_def keeper_init_def case_prod_beta)
  qed
qed

text \<open>A capture node that grants two buffers; whether they can be mapped is left open.\<close>

definition sample_node :: "(nat \<Rightarrow> bool) \<Rightarrow> keeper_env" where
  "sample_node mappable =
     \<lparr>ke_pid = 7, ke_open = True, ke_querycap = [CallErr EINTR, CallOk (0, 0x04000001)],
      ke_s_fmt = [CallOk V4L2_PIX_FMT_MJPEG], ke_s_parm = [CallErr EINVAL], ke_reqbufs = [CallOk 2],
      ke_querybuf = (\<lambda>i. [CallOk 6]), ke_mmap = mappable, ke_qbuf = (\<lambda>i. [CallOk ()]),
      ke_streamon = [CallOk ()], ke_streamoff = [CallOk ()]\<rparr>"

definition no_files :: files where
  "no_files = \<lparr>f_content = (\<lambda>p. None), f_open = 0\<rparr>"

lemma upt_two: "[0..<2] = [0, 1]"
  by (simp add: numeral_2_eq_2)

lemma replicate_few:
  "replicate 2 x = [x, x]" "replicate 3 x = [x, x, x]" "replicate BUFFER_COUNT x = [x, x, x, x]"
  by (simp_all add: eval_nat_numeral)

lemmas setup_eval = setup_stream_def request_buffers_def set_rate_def setup_buffer_def kbind_def kcall_def
  kguard_def kdo_def xioctl_def klog_def Let_def has_bits_def

lemma setup_sample:
  "setup_stream (sample_node m) (klog KOpen (keeper_init no_files)) =
     (if m 0 then if m 1 then
        (Next (), (keeper_init no_files)\<lparr>k_allocated := 2,
          k_buffers := replicate 2 \<lparr>mb_mapped = True, mb_length = 6\<rparr> @ replicate 2 \<lparr>mb_mapped = False, mb_length = 0\<rparr>,
          k_log := [KOpen, KMap 0, KQueue 0, KMap 1, KQueue 1, KStreamOn]\<rparr>)
      else (Goto_cleanup, (keeper_init no_files)\<lparr>k_allocated := 2,
          k_buffers := [\<lparr>mb_mapped = True, mb_length = 6\<rparr>, \<lparr>mb_mapped = False, mb_length = 6\<rparr>] @
            replicate 2 \<lparr>mb_mapped = False, mb_length = 0\<rparr>,
          k_log := [KOpen, KMap 0, KQueue 0]\<rparr>)
      else (Goto_cleanup, (keeper_init no_files)\<lparr>k_allocated := 2,
          k_buffers := \<lparr>mb_mapped = False, mb_length = 6\<rparr> # replicate 3 \<lparr>mb_mapped = False, mb_length = 0\<rparr>,
          k_log := [KOpen]\<rparr>))"
  by (simp add: setup_eval sample_node_def keeper_init_def upt_two replicate_few)

lemma sample_arguments:
  "parse_arguments [''--device'', ''/dev/video0'', ''--latest'', ''/l''] None None = Some (''/dev/video0'', ''/l'')"
  by simp

theorem keeper_main_cleans_up_witness:
  "\<exists>k. keeper_main [''--device'', ''/dev/video0'', ''--latest'', ''/l''] (sample_node (\<lambda>i. i = 0)) [] no_files =
      (Some 1, k) \<and> k_log k = [KOpen, KMap 0, KQueue 0, KUnmap 0, KClose] \<and> cleaned_up (k_log k) False"
proof -
  define k where "k = snd (keeper_main [''--device'', ''/dev/video0'', ''--latest'', ''/l''] (sample_node (\<lambda>i. i = 0)) [] no_files)"
  have run: "keeper_main [''--device'', ''/dev/video0'', ''--latest'', ''/l''] (sample_node (\<lambda>i. i = 0)) [] no_files = (Some 1, k)"
    and acts: "k_log k = [KOpen, KMap 0, KQueue 0, KUnmap 0, KClose]"
    unfolding k_def keeper_main_def sample_arguments
    by (simp_all add: sample_node_def [of "\<lambda>i. i = 0", THEN arg_cong [of _ _ ke_open]] keeper_run_def setup_sample
        cleanup_log mapped_def upt_two replicate_few)
  obtain streamed where "cleaned_up (k_log k) streamed"
    using keeper_main_cleans_up [OF run] acts by auto
  moreover have "\<not> streamed" using calculation acts by (auto simp: cleaned_up_def append_eq_Cons_conv Cons_eq_append_conv)
  ultimately show ?thesis using run acts by auto
qed

subsection \<open>When and what it saves\<close>

fun saves :: "keeper_action list \<Rightarrow> (bytes \<times> int) list" where
  "saves [] = []"
| "saves (KSave f t # acts) = (f, t) # saves acts"
| "saves (a # acts) = saves acts"

lemma saves_append [simp]: "saves (xs @ ys) = saves xs @ saves ys"
  by (induction xs rule: saves.induct) auto

lemma saves_no_save: "(\<And>f t. a \<noteq> KSave f t) \<Longrightarrow> saves [a] = []"
  by (cases a) auto

definition snap_inv :: "files \<Rightarrow> string \<Rightarrow> keeper \<Rightarrow> bool" where
  "snap_inv fs latest k \<longleftrightarrow>
     sorted_wrt (\<lambda>a b. snd a + 1000 \<le> snd b) (saves (k_log k)) \<and>
     list_all (\<lambda>(f, t). complete_jpeg f) (saves (k_log k)) \<and>
     (saves (k_log k) \<noteq> [] \<longrightarrow> k_last_snapshot k = snd (last (saves (k_log k)))) \<and>
     f_content (k_files k) latest =
       (if saves (k_log k) = [] then f_content fs latest else Some (fst (last (saves (k_log k)))))"

lemma snap_inv_log [simp]: "(\<And>f t. a \<noteq> KSave f t) \<Longrightarrow> snap_inv fs latest (klog a k) = snap_inv fs latest k"
  by (simp add: snap_inv_def klog_def saves_no_save)

lemma sorted_wrt_snoc_last:
  fixes f :: "'a \<Rightarrow> int"
  assumes "sorted_wrt (\<lambda>a b. f a + 1000 \<le> f b) xs" "xs \<noteq> [] \<longrightarrow> f (last xs) + 1000 \<le> f y"
  shows "sorted_wrt (\<lambda>a b. f a + 1000 \<le> f b) (xs @ [y])"
  using assms
proof (cases xs rule: rev_cases)
  case (snoc ys z)
  with assms show ?thesis by (fastforce simp: sorted_wrt_append)
qed simp

lemma handle_frame_snap:
  assumes "snap_inv fs latest k" "bytesused \<le> mb_length (k_buffers k ! index)"
  shows "snap_inv fs latest (snd (handle_frame pid latest fr index bytesused k))"
proof -
  define address where "address = map (fr_data fr) [0..<mb_length (k_buffers k ! index)]"
  define frame where "frame = take (jpeg_length address bytesused) address"
  have len: "bytesused \<le> length address" using assms(2) by (simp add: address_def)
  have unsaved: "snap_inv fs latest (k\<lparr>k_files := fs'\<rparr>)"
    if "save_latest pid latest frame (fr_save fr) (k_files k) = Some (r, fs')" "r < 0" for r fs'
    using that assms(1) save_latest_path [OF that(1)] by (simp add: snap_inv_def)
  have saved: "snap_inv fs latest (klog (KSave frame (fr_now fr)) (k\<lparr>k_files := fs', k_last_snapshot := fr_now fr\<rparr>))"
    if "save_latest pid latest frame (fr_save fr) (k_files k) = Some (r, fs')" "\<not> r < 0"
      "0 < jpeg_length address bytesused" "1000 \<le> fr_now fr - k_last_snapshot k" for r fs'
  proof -
    have "f_content fs' latest = Some frame"
      using save_latest_path [OF that(1)] save_latest_result [OF that(1)] that(2) by auto
    moreover have "complete_jpeg frame" using jpeg_length_complete [OF len that(3)] by (simp add: frame_def)
    ultimately show ?thesis
      using assms(1) that(4) sorted_wrt_snoc_last [of snd "saves (k_log k)" "(frame, fr_now fr)"]
      by (auto simp: snap_inv_def klog_def)
  qed
  have invalid: "snap_inv fs latest (k\<lparr>k_invalid_frames := c\<rparr>)" for c
    using assms(1) by (simp add: snap_inv_def)
  show ?thesis
    using assms(1) unsaved saved invalid
    by (auto simp: handle_frame_def Let_def split: option.splits simp flip: address_def frame_def)
qed

lemma capture_round_snap: "stays (snap_inv fs latest) (capture_round pid latest fr)"
proof (rule capture_round_keeps)
  show "stays (snap_inv fs latest) (kbind (check_descriptor index bytesused)
      (\<lambda>_. handle_frame pid latest fr (unat index) (unat bytesused)))" for index bytesused
    by (auto simp: stays_def kbind_def check_descriptor_def handle_frame_snap)
qed auto

lemma snap_inv_setup: "snap_inv fs latest k \<Longrightarrow> saves (k_log k') = saves (k_log k) \<Longrightarrow> k_files k' = k_files k \<Longrightarrow>
    k_last_snapshot k' = k_last_snapshot k \<Longrightarrow> snap_inv fs latest k'"
  by (simp add: snap_inv_def)

lemma setup_stream_snap: "stays (snap_inv fs latest) (setup_stream env)"
proof -
  let ?P = "snap_inv fs latest"
  have guard: "stays ?P (kguard ok e)" for ok e by (simp add: stays_def kguard_def)
  have rate: "stays ?P (set_rate env)" by (auto simp: stays_def set_rate_def split: option.splits)
  have request: "stays ?P (request_buffers env)"
    unfolding request_buffers_def
    by (intro stays_bind stays_call guard) (simp add: stays_def snap_inv_def)
  have buffer: "stays ?P (setup_buffer env i)" for i
  proof -
    define rest where "rest = kbind (kguard (ke_mmap env i) Goto_cleanup) (\<lambda>_.
       kbind (kdo (KMap i)) (\<lambda>_. kbind (kcall (ke_qbuf env i) Goto_cleanup) (\<lambda>_. kdo (KQueue i))))"
    have "stays ?P rest"
      unfolding rest_def by (intro stays_bind stays_call stays_do guard) auto
    then have "?P (snd (rest (k\<lparr>k_buffers := b\<rparr>)))" if "?P k" for k b
      using that by (simp add: stays_def snap_inv_def)
    then show ?thesis
      unfolding setup_buffer_def Let_def rest_def [symmetric]
      by (intro stays_bind stays_call) (simp add: stays_def)
  qed
  have buffers: "stays ?P (setup_buffers env is)" for "is"
  proof (induction "is")
    case (Cons i "is")
    then have "stays ?P (kbind (setup_buffer env i) (\<lambda>_. setup_buffers env is))"
      by (intro stays_bind buffer)
    then show ?case by (simp add: stays_def)
  qed (simp add: stays_def)
  have run: "stays ?P (\<lambda>k. kbind (setup_buffers env [0..<k_allocated k])
      (\<lambda>_. kbind (kcall (ke_streamon env) Goto_cleanup) (\<lambda>_. kdo KStreamOn)) k)"
  proof -
    have "stays ?P (kbind (setup_buffers env is)
      (\<lambda>_. kbind (kcall (ke_streamon env) Goto_cleanup) (\<lambda>_. kdo KStreamOn)))" for "is"
      by (intro stays_bind buffers stays_call stays_do) auto
    then show ?thesis by (simp add: stays_def)
  qed
  show ?thesis
    unfolding setup_stream_def Let_def case_prod_beta
    by (intro stays_bind stays_call guard rate request run)
qed

lemma cleanup_snap [simp]: "snap_inv fs latest (cleanup k) = snap_inv fs latest k"
proof -
  have "snap_inv fs latest (unmap_buffers is k) = snap_inv fs latest k" for "is"
    by (induction "is" arbitrary: k) auto
  then show ?thesis by (simp add: cleanup_def)
qed

lemma keeper_run_snap:
  assumes "snap_inv fs latest k"
  shows "snap_inv fs latest (snd (keeper_run env latest rounds k))"
proof -
  obtain fl k1 where s: "setup_stream env k = (fl, k1)" by fastforce
  obtain fl2 k2 where l: "capture_loop (ke_pid env) latest rounds k1 = (fl2, k2)" by fastforce
  have k1: "snap_inv fs latest k1"
    using setup_stream_snap [of fs latest env] assms s by (auto simp: stays_def)
  then have k2: "snap_inv fs latest k2"
    using capture_loop_keeps [of rounds "snap_inv fs latest", OF capture_round_snap] l
    unfolding stays_def by (metis snd_conv)
  have off: "snap_inv fs latest (snd (case answers of None \<Rightarrow> (None, k') | Some r \<Rightarrow>
      (Some status, cleanup (klog KStreamOff k'))))" if "snap_inv fs latest k'"
    for k' and status :: int and answers :: "unit call option"
    using that by (cases answers) auto
  show ?thesis
  proof (cases fl)
    case (Next x)
    then show ?thesis using k2 off by (cases fl2) (simp_all add: keeper_run_def s l)
  qed (use k1 off in \<open>simp_all add: keeper_run_def s\<close>)
qed

text \<open>
  C21. What the keeper saves: however the capture goes and whether or not the run ends, each
  saved snapshot is a complete JPEG image, any two are at least a second apart, and the latest
  file always holds the last saved snapshot, or what it held before if none was saved: a
  malformed, truncated or unsaved frame never replaces it.
\<close>

theorem keeper_saves_complete_frames:
  assumes "parse_arguments argv None None = Some (device, latest)"
    and "keeper_main argv env rounds fs = (r, k)"
  shows "list_all (\<lambda>(frame, t). complete_jpeg frame) (saves (k_log k)) \<and>
    sorted_wrt (\<lambda>a b. snd a + 1000 \<le> snd b) (saves (k_log k)) \<and>
    f_content (k_files k) latest =
      (if saves (k_log k) = [] then f_content fs latest else Some (fst (last (saves (k_log k)))))"
proof -
  have "snap_inv fs latest (keeper_init fs)" by (simp add: snap_inv_def keeper_init_def)
  then have "snap_inv fs latest k"
    using assms keeper_run_snap [of fs latest "klog KOpen (keeper_init fs)" env rounds]
    by (auto simp: keeper_main_def split: if_splits)
  then show ?thesis by (simp add: snap_inv_def)
qed

text \<open>Two rounds: a complete frame of six bytes, and a truncated one a minute later.\<close>

definition sample_round :: "u8 \<Rightarrow> int \<Rightarrow> frame_round" where
  "sample_round last_byte now =
     \<lparr>fr_poll = CallOk (1, POLLIN), fr_dqbuf = [CallOk (1, 5)],
      fr_data = (\<lambda>i. [0xff, 0xd8, 7, 0xff, last_byte, 0] ! i), fr_now = now,
      fr_save = \<lparr>s_open = True, s_writes = [CallOk 5], s_fsync = True, s_close = True, s_rename = True\<rparr>,
      fr_qbuf = [CallOk ()]\<rparr>"

lemma upt_six: "[0..<6] = [0, 1, 2, 3, 4, 5]"
  by (simp add: eval_nat_numeral)

lemma sample_capture:
  assumes "k = (keeper_init no_files)\<lparr>k_allocated := 2,
          k_buffers := replicate 2 \<lparr>mb_mapped = True, mb_length = 6\<rparr> @ replicate 2 \<lparr>mb_mapped = False, mb_length = 0\<rparr>,
          k_log := acts\<rparr>"
  shows "\<exists>k'. capture_loop 7 ''/l'' [sample_round 0xd9 5000, sample_round 0 65000] k = (Next (), k') \<and>
    saves (k_log k') = saves acts @ [([0xff, 0xd8, 7, 0xff, 0xd9], 5000)]"
proof -
  have good: "jpeg_length [0xff, 0xd8, 7, 0xff, 0xd9, 0] 5 = 5"
    by (simp add: jpeg_length_def find_eoi.simps nth_Cons')
  have bad: "jpeg_length [0xff, 0xd8, 7, 0xff, 0, 0] 5 = 0"
    by (simp add: jpeg_length_def find_eoi.simps nth_Cons')
  define tmp where "tmp = temporary_name ''/l'' 7"
  have len: "length tmp < 4096" by (simp add: tmp_def temporary_name_def show_nat.simps)
  have "\<exists>fs. save_latest 7 ''/l'' [0xff, 0xd8, 7, 0xff, 0xd9]
      \<lparr>s_open = True, s_writes = [CallOk 5], s_fsync = True, s_close = True, s_rename = True\<rparr> no_files = Some (0, fs)"
    using len unfolding save_latest_def tmp_def [symmetric] Let_def by (simp add: no_files_def eval_nat_numeral)
  then obtain fs where save: "save_latest 7 ''/l'' [0xff, 0xd8, 7, 0xff, 0xd9]
      \<lparr>s_open = True, s_writes = [CallOk 5], s_fsync = True, s_close = True, s_rename = True\<rparr> no_files = Some (0, fs)" ..
  show ?thesis
    unfolding assms
    by (simp add: sample_round_def capture_round_def capture_frame_def kbind_def kdo_def kcall_def xioctl_def klog_def
        check_descriptor_def handle_frame_def Let_def has_bits_def keeper_init_def replicate_few upt_six good bad save)
qed

theorem keeper_saves_complete_frames_witness:
  "\<exists>k. keeper_main [''--device'', ''/dev/video0'', ''--latest'', ''/l''] (sample_node (\<lambda>i. True))
      [sample_round 0xd9 5000, sample_round 0 65000] no_files = (Some 0, k) \<and>
    f_content (k_files k) ''/l'' = Some [0xff, 0xd8, 7, 0xff, 0xd9]"
proof -
  define rounds where "rounds = [sample_round 0xd9 5000, sample_round 0 65000]"
  define k1 where "k1 = snd (setup_stream (sample_node (\<lambda>i. True)) (klog KOpen (keeper_init no_files)))"
  obtain k2 where loop: "capture_loop 7 ''/l'' rounds k1 = (Next (), k2)"
    and saved: "saves (k_log k2) = [([0xff, 0xd8, 7, 0xff, 0xd9], 5000)]"
    using sample_capture [of k1 "[KOpen, KMap 0, KQueue 0, KMap 1, KQueue 1, KStreamOn]"]
    by (auto simp: setup_sample k1_def rounds_def)
  define k where "k = cleanup (klog KStreamOff k2)"
  have prepared: "setup_stream (sample_node (\<lambda>i. True)) (klog KOpen (keeper_init no_files)) = (Next (), k1)"
    by (simp add: setup_sample k1_def)
  have "ke_open (sample_node (\<lambda>i. True))" "ke_pid (sample_node (\<lambda>i. True)) = 7"
      "xioctl (ke_streamoff (sample_node (\<lambda>i. True))) = Some (CallOk ())"
    by (simp_all add: sample_node_def xioctl_def)
  then have run: "keeper_main [''--device'', ''/dev/video0'', ''--latest'', ''/l''] (sample_node (\<lambda>i. True))
      rounds no_files = (Some 0, k)"
    unfolding keeper_main_def sample_arguments by (simp add: keeper_run_def prepared loop k_def)
  moreover have "saves (map KUnmap js) = []" for js by (induction js) auto
  then have "saves (k_log k) = saves (k_log k2)"
    by (simp add: k_def cleanup_log klog_def)
  ultimately show ?thesis
    using keeper_saves_complete_frames [OF sample_arguments run] saved run by (simp add: rounds_def)
qed

subsection \<open>The array of buffers\<close>

lemma check_descriptor_bounds:
  assumes "running k"
  shows "fst (check_descriptor index bytesused k) = Out_of_bounds \<longleftrightarrow> 2 ^ 31 \<le> unat index"
proof -
  have small: "sint index = int (unat index)" if "unat index < 2 ^ 31"
  proof -
    have "int (unat index) < int (2 ^ 31)" using that of_nat_less_iff by blast
    then have "uint index < 2 ^ 31" by simp
    moreover have "- (2 ^ 31) \<le> uint index" by (rule order_trans [of _ 0]) simp_all
    ultimately show ?thesis by (simp add: sint_uint signed_take_bit_int_eq_self)
  qed
  have "sint index = signed_take_bit 31 (uint index - 2 ^ 32)"
    by (simp add: sint_uint signed_take_bit_eq_iff_take_bit_eq take_bit_eq_mod mod_diff_right_eq)
  then have big: "sint index < 0" if "2 ^ 31 \<le> unat index"
  proof -
    have "int (2 ^ 31) \<le> int (unat index)" using that of_nat_le_iff by blast
    then have "2 ^ 31 \<le> uint index" by simp
    then show ?thesis
      using uint_lt2p [of index] that signed_take_bit_int_eq_self [of 31 "uint index - 2 ^ 32"]
        \<open>sint index = _\<close> by simp
  qed
  have le: "int n \<le> sint index \<longleftrightarrow> n \<le> unat index" if "unat index < 2 ^ 31" for n
    by (simp only: small [OF that] of_nat_le_iff)
  show ?thesis
    using assms le big
    by (cases "unat index < 2 ^ 31") (auto simp: check_descriptor_def running_def)
qed

lemma retry_eintr_in: "retry_eintr cs = Some c \<Longrightarrow> c \<in> set cs"
  by (induction cs) (auto split: if_splits)

lemma capture_round_in_bounds:
  assumes "streaming k" "\<forall>index bytesused. CallOk (index, bytesused) \<in> set (fr_dqbuf fr) \<longrightarrow> unat index < 2 ^ 31"
  shows "fst (capture_round pid latest fr k) \<noteq> Out_of_bounds"
proof -
  have "fst (check_descriptor index bytesused (klog (KDequeue (unat index)) k)) \<noteq> Out_of_bounds"
    if "xioctl (fr_dqbuf fr) = Some (CallOk (index, bytesused))" for index bytesused
  proof -
    have "unat index < 2 ^ 31"
      using assms(2) retry_eintr_in [OF that [unfolded xioctl_def]] by blast
    moreover have "running (klog (KDequeue (unat index)) k)"
      using assms(1) by (simp add: streaming_def running_log)
    ultimately show ?thesis using check_descriptor_bounds by (simp add: not_le)
  qed
  moreover have "fst (handle_frame pid latest fr index bytesused k') \<noteq> Out_of_bounds" for index bytesused k'
    by (auto simp: handle_frame_def Let_def split: option.splits prod.splits)
  ultimately show ?thesis
    by (auto simp: capture_round_def capture_frame_def kbind_def kdo_def kcall_def
        split: call.splits option.splits prod.splits keeper_flow.splits) (metis fst_conv)+
qed

lemma capture_loop_in_bounds:
  assumes "streaming k"
    "\<forall>fr \<in> set rounds. \<forall>index bytesused. CallOk (index, bytesused) \<in> set (fr_dqbuf fr) \<longrightarrow> unat index < 2 ^ 31"
  shows "fst (capture_loop pid latest rounds k) \<noteq> Out_of_bounds"
  using assms
proof (induction rounds arbitrary: k)
  case (Cons fr frs)
  obtain fl k1 where r: "capture_round pid latest fr k = (fl, k1)" by fastforce
  have "streaming k1"
    using capture_round_streaming [of pid latest fr] Cons.prems(1) r unfolding stays_def by (metis snd_conv)
  moreover have "fl \<noteq> Out_of_bounds" using capture_round_in_bounds [OF Cons.prems(1), of fr pid latest] Cons.prems(2) r by auto
  ultimately show ?case
    using Cons.IH [of k1] Cons.prems(2) by (cases fl) (auto simp: kbind_def r)
qed simp

text \<open>
  C24. The keeper stays inside its array of buffers as long as the driver returns indices below
  \<open>2 ^ 31\<close>: after a successful set-up the capture loop never reads another element,
  whatever indices, sizes and failures occur. Above that bound the signed comparison does not
  reject the index and the very next access is out of bounds.
\<close>

theorem capture_loop_memory_safe:
  assumes "setup_stream env (klog KOpen (keeper_init fs)) = (Next (), k)"
  shows "((\<forall>fr \<in> set rounds. \<forall>index bytesused. CallOk (index, bytesused) \<in> set (fr_dqbuf fr) \<longrightarrow> unat index < 2 ^ 31) \<longrightarrow>
      fst (capture_loop pid latest rounds k) \<noteq> Out_of_bounds) \<and>
    (\<forall>index bytesused. 2 ^ 31 \<le> unat index \<longrightarrow> fst (check_descriptor index bytesused k) = Out_of_bounds)"
proof -
  have "streaming k"
    using setup_stream_ok [of env] fresh_open [of fs] assms unfolding setup_ok_def by fastforce
  then show ?thesis
    using capture_loop_in_bounds [of k rounds pid latest] check_descriptor_bounds [of k]
    by (auto simp: streaming_def)
qed

theorem capture_loop_memory_safe_witness:
  "\<exists>k. setup_stream (sample_node (\<lambda>i. True)) (klog KOpen (keeper_init no_files)) = (Next (), k) \<and>
    fst (capture_loop 7 ''/l'' [sample_round 0xd9 5000] k) \<noteq> Out_of_bounds \<and>
    fst (check_descriptor 0x80000000 5 k) = Out_of_bounds"
proof -
  define k where "k = snd (setup_stream (sample_node (\<lambda>i. True)) (klog KOpen (keeper_init no_files)))"
  have prepared: "setup_stream (sample_node (\<lambda>i. True)) (klog KOpen (keeper_init no_files)) = (Next (), k)"
    by (simp add: setup_sample k_def)
  have "\<forall>fr \<in> set [sample_round 0xd9 5000]. \<forall>index bytesused. CallOk (index, bytesused) \<in> set (fr_dqbuf fr) \<longrightarrow> unat index < 2 ^ 31"
    by (simp add: sample_round_def)
  moreover have "2 ^ 31 \<le> unat (0x80000000 :: u32)" by simp
  ultimately show ?thesis
    using capture_loop_memory_safe [OF prepared, of "[sample_round 0xd9 5000]" 7 "''/l''"] prepared by blast
qed

end
