(* ===== verification/Channel.thy ===== *)
theory Channel
  imports Protocol
begin

section \<open>Sending and receiving control messages\<close>

text \<open>
  The socket helpers that \<open>src/native/broker/main.cpp\<close> and \<open>src/native/agent/main.cpp\<close>
  share. The kernel's answers are scripts that are consumed call by call. A send script lists
  how many bytes each call accepts, or its error; past the script every send accepts what it is
  given. A receive script lists the chunks that arrive, or the errors; past the script nothing
  more arrives and the call fails (a timeout, or the end of the stream). A call that blocks for
  ever is therefore outside the model.
\<close>

subsection \<open>Byte streams\<close>

fun write_full :: "bytes \<Rightarrow> nat call list \<Rightarrow> bool \<times> bytes \<times> nat call list" where
  "write_full buffer [] = (True, buffer, [])"
| "write_full buffer (answer # answers) =
     (if buffer = [] then (True, [], answer # answers)
      else case answer of
        CallOk written \<Rightarrow>
          if 0 < written then
            let (ok, sent, rest) = write_full (drop written buffer) answers
            in (ok, take written buffer @ sent, rest)
          else (False, [], answers)
      | CallErr e \<Rightarrow> if e = EINTR then write_full buffer answers else (False, [], answers))"

text \<open>
  The result says whether everything arrived and carries the bytes that did. A chunk longer
  than what is asked for stays in the queue with its unread part.
\<close>

fun read_full :: "nat \<Rightarrow> bytes call list \<Rightarrow> bool \<times> bytes \<times> bytes call list" where
  "read_full n [] = (n = 0, [], [])"
| "read_full n (answer # answers) =
     (if n = 0 then (True, [], answer # answers)
      else case answer of
        CallErr e \<Rightarrow> if e = EINTR then read_full n answers else (False, [], answers)
      | CallOk chunk \<Rightarrow>
          if chunk = [] then (False, [], answers)
          else if n < length chunk then (True, take n chunk, CallOk (drop n chunk) # answers)
          else
            let (ok, bs, rest) = read_full (n - length chunk) answers
            in (ok, chunk @ bs, rest))"

text \<open>Bytes received into the memory of a message overwrite its beginning.\<close>

definition overlay :: "bytes \<Rightarrow> hdmi_los_message \<Rightarrow> hdmi_los_message" where
  "overlay bs m = message_of_bytes (take HDMI_LOS_MESSAGE_SIZE (bs @ drop (length bs) (bytes_of_message m)))"

subsection \<open>Messages with a descriptor\<close>

fun send_with_fd :: "nat call list \<Rightarrow> bool \<times> nat call list" where
  "send_with_fd [] = (True, [])"
| "send_with_fd (answer # answers) =
     (case answer of
        CallErr e \<Rightarrow> if e = EINTR then send_with_fd answers else (False, answers)
      | CallOk n \<Rightarrow> (n = HDMI_LOS_MESSAGE_SIZE, answers))"

text \<open>A received packet and the descriptor passed with it, \<open>- 1\<close> for none.\<close>

type_synonym packet = "bytes \<times> int"

fun recv_with_fd :: "hdmi_los_message \<Rightarrow> packet call list \<Rightarrow>
    bool \<times> hdmi_los_message \<times> int \<times> packet call list" where
  "recv_with_fd message [] = (False, message, - 1, [])"
| "recv_with_fd message (answer # answers) =
     (case answer of
        CallErr e \<Rightarrow> if e = EINTR then recv_with_fd message answers else (False, message, - 1, answers)
      | CallOk (bs, fd) \<Rightarrow>
          if length bs = HDMI_LOS_MESSAGE_SIZE then (True, message_of_bytes bs, fd, answers)
          else (False, overlay bs message, - 1, answers))"

subsection \<open>Validity\<close>

definition valid_message :: "hdmi_los_message \<Rightarrow> bool" where
  "valid_message m \<longleftrightarrow> m_magic m = HDMI_LOS_MAGIC \<and> m_version m = HDMI_LOS_BROKER_VERSION"

definition valid_composer_message :: "hdmi_los_message \<Rightarrow> bool" where
  "valid_composer_message m \<longleftrightarrow> m_magic m = HDMI_LOS_MAGIC \<and> m_version m = HDMI_LOS_VERSION"

subsection \<open>A stream carries its bytes\<close>

lemma write_full_prefix: "write_full buffer answers = (ok, sent, rest) \<Longrightarrow> \<exists>unsent. buffer = sent @ unsent"
proof (induction buffer answers arbitrary: ok sent rest rule: write_full.induct)
  case (2 buffer answer answers)
  show ?case
  proof (cases answer)
    case (CallOk n)
    with 2 show ?thesis
      by (cases "write_full (drop n buffer) answers")
        (auto split: if_splits simp: Let_def, metis append_assoc append_take_drop_id)
  next
    case (CallErr e)
    with 2 show ?thesis by (auto split: if_splits)
  qed
qed auto

lemma write_full_complete: "write_full buffer answers = (True, sent, rest) \<Longrightarrow> sent = buffer"
proof (induction buffer answers arbitrary: sent rest rule: write_full.induct)
  case (2 buffer answer answers)
  show ?case
  proof (cases answer)
    case (CallOk n)
    with 2 show ?thesis
      by (cases "write_full (drop n buffer) answers") (auto split: if_splits simp: Let_def, metis append_take_drop_id)
  next
    case (CallErr e)
    with 2 show ?thesis by (auto split: if_splits)
  qed
qed auto

text \<open>The bytes of a receive script up to its first failure.\<close>

fun stream_bytes :: "bytes call list \<Rightarrow> bytes" where
  "stream_bytes [] = []"
| "stream_bytes (CallErr e # answers) = (if e = EINTR then stream_bytes answers else [])"
| "stream_bytes (CallOk chunk # answers) = (if chunk = [] then [] else chunk @ stream_bytes answers)"

lemma read_full_spec:
  "read_full n answers = (ok, bs, rest) \<Longrightarrow>
     length bs \<le> n \<and> (ok \<longleftrightarrow> length bs = n) \<and>
     (if ok then stream_bytes answers = bs @ stream_bytes rest else stream_bytes answers = bs)"
proof (induction n answers arbitrary: ok bs rest rule: read_full.induct)
  case (1 n)
  then show ?case by auto
next
  case (2 n answer answers)
  show ?case
  proof (cases answer)
    case (CallOk chunk)
    show ?thesis
    proof (cases "n = 0 \<or> chunk = [] \<or> n < length chunk")
      case True
      with "2.prems" CallOk show ?thesis by (auto split: if_splits)
    next
      case False
      obtain ok' bs' rest' where r: "read_full (n - length chunk) answers = (ok', bs', rest')"
        by (cases "read_full (n - length chunk) answers")
      from "2.IH"(1) [OF _ CallOk _ _ r] False "2.prems" CallOk r show ?thesis by (auto split: if_splits)
    qed
  next
    case (CallErr e)
    with 2 show ?thesis by (auto split: if_splits)
  qed
qed

lemma overlay_full: "length bs = HDMI_LOS_MESSAGE_SIZE \<Longrightarrow> wf_message m \<Longrightarrow> overlay bs m = message_of_bytes bs"
  by (simp add: overlay_def message_wire.length_enc)

lemma wf_overlay: "wf_message m \<Longrightarrow> wf_message (overlay bs m)"
  by (simp add: overlay_def wf_message_of_bytes message_wire.length_enc)

lemma wf_recv_with_fd:
  "recv_with_fd m answers = (ok, m', fd, rest) \<Longrightarrow> wf_message m \<Longrightarrow> wf_message m'"
  by (induction m answers rule: recv_with_fd.induct)
    (auto simp: wf_overlay wf_message_of_bytes split: call.splits if_splits)

lemma read_full_message:
  assumes "wf_message m" and stream: "stream_bytes answers = bytes_of_message m @ later"
  shows "\<exists>rest. read_full HDMI_LOS_MESSAGE_SIZE answers = (True, bytes_of_message m, rest) \<and> stream_bytes rest = later"
proof -
  obtain ok bs rest where r: "read_full HDMI_LOS_MESSAGE_SIZE answers = (ok, bs, rest)"
    by (cases "read_full HDMI_LOS_MESSAGE_SIZE answers")
  note spec = read_full_spec [OF r]
  have len: "length (bytes_of_message m) = HDMI_LOS_MESSAGE_SIZE" by (rule message_wire.length_enc [OF assms(1)])
  have "length (stream_bytes answers) \<ge> HDMI_LOS_MESSAGE_SIZE" using stream len by simp
  then have ok using spec by (cases ok) auto
  then have "bs = bytes_of_message m" "stream_bytes rest = later"
    using spec stream len by auto
  with r \<open>ok\<close> show ?thesis by simp
qed

text \<open>
  A message written to a stream is the message that is read from it: when
  \<open>write_full\<close> reports success the bytes that went out are exactly the message's encoding,
  and \<open>read_full\<close> on any chunking and interruption of a stream that starts with these
  bytes returns the same message and leaves exactly what follows it.
\<close>

theorem message_crosses_stream:
  assumes "wf_message m" and "write_full (bytes_of_message m) sends = (True, sent, sends')"
    and "stream_bytes answers = sent @ later"
  shows "\<exists>bs rest. read_full HDMI_LOS_MESSAGE_SIZE answers = (True, bs, rest) \<and>
    message_of_bytes bs = m \<and> stream_bytes rest = later"
  using read_full_message [OF assms(1), of answers later] assms(3) write_full_complete [OF assms(2)] message_wire.dec_enc [OF assms(1)]
  by auto

theorem message_crosses_stream_witness:
  "\<exists>bs rest. read_full HDMI_LOS_MESSAGE_SIZE
      [CallOk (take 100 (bytes_of_message zero_message)), CallErr EINTR,
       CallOk (drop 100 (bytes_of_message zero_message) @ [1, 2])] = (True, bs, rest) \<and>
    message_of_bytes bs = zero_message \<and> stream_bytes rest = [1, 2]"
proof -
  define m where "m = bytes_of_message zero_message"
  have len: "length m = HDMI_LOS_MESSAGE_SIZE"
    by (simp add: m_def message_wire.length_enc)
  have w: "write_full m [CallErr EINTR] = (True, m, [])" using len by auto
  have "take 100 m \<noteq> []" "drop 100 m \<noteq> []" using len by auto
  then have "stream_bytes [CallOk (take 100 m), CallErr EINTR, CallOk (drop 100 m @ [1, 2])] = m @ [1, 2]"
    by (simp flip: append_assoc)
  from message_crosses_stream [OF wf_zero_message w [unfolded m_def] this [unfolded m_def]]
  show ?thesis by blast
qed

end
