(* ===== verification/C_Float.thy ===== *)
theory C_Float
  imports C_Text "HOL-Library.Log_Nat"
begin

section \<open>Refresh rates as text\<close>

text \<open>
  Refresh rates are kept in thousandths of a Hertz and exchanged as decimal text. Printing is
  \<open>%.3f\<close> of a 32-bit count of thousandths divided by 1000 in double precision, whose three
  decimals are exact. Reading is \<open>%f\<close> into a \<open>float\<close>, a product with \<open>1000.0f\<close>
  and \<open>lroundf\<close>; the two roundings to 24 significant bits are modelled on rationals with
  an unbounded exponent. The special forms of \<open>%f\<close> (infinity, not-a-number, hexadecimal) are
  not accepted by the model.
\<close>

subsection \<open>Printing\<close>

definition digits3 :: "nat \<Rightarrow> string" where
  "digits3 n = [digit_char (n div 100 mod 10), digit_char (n div 10 mod 10), digit_char (n mod 10)]"

definition show_millis :: "nat \<Rightarrow> string" where
  "show_millis n = show_nat (n div 1000) @ ''.'' @ digits3 (n mod 1000)"

subsection \<open>Rounding to single precision\<close>

text \<open>The exponent of the leading bit of a positive number.\<close>

definition exponent2 :: "rat \<Rightarrow> int" where
  "exponent2 q =
     (if 1 \<le> q then int (floorlog 2 (nat \<lfloor>q\<rfloor>)) - 1
      else - int (floorlog 2 (nat \<lceil>inverse q\<rceil> - 1)))"

definition round_half_even :: "rat \<Rightarrow> int" where
  "round_half_even q =
     (let f = \<lfloor>q\<rfloor>; r = q - of_int f
      in if r < 1 / 2 \<or> (r = 1 / 2 \<and> even f) then f else f + 1)"

definition pow2 :: "int \<Rightarrow> rat" where
  "pow2 e = (if 0 \<le> e then 2 ^ nat e else inverse (2 ^ nat (- e)))"

definition to_float :: "rat \<Rightarrow> rat" where
  "to_float q =
     (if q = 0 then 0
      else
        let u = pow2 (exponent2 \<bar>q\<bar> - 23); m = of_int (round_half_even (\<bar>q\<bar> / u)) * u
        in if q < 0 then - m else m)"

text \<open>\<open>lroundf\<close>: to the nearest integer, halves away from zero.\<close>

definition lroundf :: "rat \<Rightarrow> int" where
  "lroundf q = (if q < 0 then - \<lfloor>- q + 1 / 2\<rfloor> else \<lfloor>q + 1 / 2\<rfloor>)"

subsection \<open>Scanning\<close>

text \<open>\<open>%f\<close>: white space, a sign, digits with an optional point, an optional exponent.\<close>

definition scan_exponent :: "string \<Rightarrow> (int \<times> string) option" where
  "scan_exponent s =
     (if s \<noteq> [] \<and> (hd s = CHR ''e'' \<or> hd s = CHR ''E'') then
        let t = tl s;
            neg = (t \<noteq> [] \<and> hd t = CHR ''-'');
            u = (if t \<noteq> [] \<and> (hd t = CHR ''-'' \<or> hd t = CHR ''+'') then tl t else t)
        in if u \<noteq> [] \<and> is_digit (hd u)
           then (let (n, rest) = scan_digits 0 u in Some (if neg then - int n else int n, rest))
           else None
      else Some (0, s))"

definition pow10 :: "int \<Rightarrow> rat" where
  "pow10 e = (if 0 \<le> e then 10 ^ nat e else inverse (10 ^ nat (- e)))"

definition scan_decimal :: "string \<Rightarrow> (rat \<times> string) option" where
  "scan_decimal s =
     (let s1 = skip_space s;
          neg = (s1 \<noteq> [] \<and> hd s1 = CHR ''-'');
          s2 = (if s1 \<noteq> [] \<and> (hd s1 = CHR ''-'' \<or> hd s1 = CHR ''+'') then tl s1 else s1);
          (whole, s3) = scan_digits 0 s2;
          (frac, s4) = (if s3 \<noteq> [] \<and> hd s3 = CHR ''.'' then scan_digits 0 (tl s3) else (0, s3));
          decimals = (if s3 \<noteq> [] \<and> hd s3 = CHR ''.'' then length s3 - 1 - length s4 else 0)
      in if length s2 = length s3 \<and> decimals = 0 then None
         else case scan_exponent s4 of
           None \<Rightarrow> None
         | Some (e, rest) \<Rightarrow>
             let v = (of_nat whole + of_nat frac / 10 ^ decimals) * pow10 e
             in Some (if neg then - v else v, rest))"

definition scan_f :: "string \<Rightarrow> (rat \<times> string) option" where
  "scan_f s = (case scan_decimal s of None \<Rightarrow> None | Some (v, rest) \<Rightarrow> Some (to_float v, rest))"

text \<open>\<open>static_cast<uint32_t>(lroundf(x * 1000.0f))\<close>.\<close>

definition to_millis :: "rat \<Rightarrow> u32" where
  "to_millis x = word_of_int (lroundf (to_float (x * 1000)))"

subsection \<open>How far a rounding moves a value\<close>

lemma round_half_even_close: "\<bar>of_int (round_half_even q) - q\<bar> \<le> 1 / 2"
proof -
  have "of_int \<lfloor>q\<rfloor> \<le> q" "q < of_int \<lfloor>q\<rfloor> + 1" by linarith+
  then show ?thesis
    by (auto simp: round_half_even_def Let_def abs_if) linarith+
qed

lemma pow2_pos [simp]: "0 < pow2 e"
  by (simp add: pow2_def)

lemma pow2_minus23: "pow2 (e - 23) * 2 ^ 23 = pow2 e"
proof -
  have "pow2 e = 2 powi e" for e by (simp add: pow2_def power_int_def power_one_over inverse_eq_divide)
  then have "pow2 (e - 23) * 2 ^ 23 = 2 powi (e - 23) * 2 powi 23" by simp
  also have "\<dots> = 2 powi (e - 23 + 23)" by (rule power_int_add [symmetric]) simp
  finally show ?thesis using \<open>\<And>e. pow2 e = 2 powi e\<close> by simp
qed

lemma exponent2_le:
  assumes "1 \<le> q"
  shows "0 \<le> exponent2 q" and "pow2 (exponent2 q) \<le> q"
proof -
  define n where "n = nat \<lfloor>q\<rfloor>"
  have n: "0 < n" "of_nat n \<le> q" using assms by (auto simp: n_def)
  have f: "0 < floorlog 2 n" using n(1) by (simp add: floorlog_def)
  then show "0 \<le> exponent2 q" using assms by (simp add: exponent2_def flip: n_def)
  have "2 ^ (floorlog 2 n - 1) \<le> n" using floorlog_bounds [of n 2] n(1) by simp
  then have "(2::rat) ^ (floorlog 2 n - 1) \<le> of_nat n"
    by (metis of_nat_le_iff of_nat_numeral of_nat_power)
  with n(2) have "(2::rat) ^ (floorlog 2 n - 1) \<le> q" by linarith
  then show "pow2 (exponent2 q) \<le> q"
    using assms f by (simp add: exponent2_def pow2_def nat_diff_distrib flip: n_def)
qed

text \<open>The relative error of a rounding is at most half a unit in the last place.\<close>

lemma to_float_close:
  assumes "1 \<le> q"
  shows "\<bar>to_float q - q\<bar> \<le> q / 2 ^ 24"
proof -
  define u where "u = pow2 (exponent2 q - 23)"
  have u: "0 < u" "u * 2 ^ 23 \<le> q"
    using exponent2_le [OF assms] pow2_minus23 by (simp_all add: u_def)
  have "to_float q = of_int (round_half_even (q / u)) * u"
    using assms by (simp add: to_float_def u_def Let_def)
  then have "to_float q - q = (of_int (round_half_even (q / u)) - q / u) * u"
    using u(1) by (simp add: left_diff_distrib)
  then have "\<bar>to_float q - q\<bar> = \<bar>of_int (round_half_even (q / u)) - q / u\<bar> * u"
    using u(1) by (simp add: abs_mult)
  also have "\<dots> \<le> 1 / 2 * u"
    using u(1) round_half_even_close [of "q / u"] by (intro mult_right_mono) auto
  also have "\<dots> \<le> q / 2 ^ 24" using u(2) by (simp add: field_simps)
  finally show ?thesis .
qed

lemma lroundf_near: "\<bar>x - of_int n\<bar> < 1 / 2 \<Longrightarrow> 0 \<le> n \<Longrightarrow> 0 \<le> x \<Longrightarrow> lroundf x = n"
  by (auto simp: lroundf_def floor_eq_iff abs_if split: if_splits)

subsection \<open>A printed refresh rate reads back\<close>

lemma scan_digits3:
  assumes "k < 1000" "rest = [] \<or> \<not> is_digit (hd rest)"
  shows "scan_digits 0 (digits3 k @ rest) = (k, rest)"
proof -
  have stop: "scan_digits a rest = (a, rest)" for a using assms(2) by (cases rest) auto
  have lt: "k div 100 < 10" using assms(1) by (simp add: less_mult_imp_div_less)
  then have small: "k div 100 mod 10 = k div 100" by simp
  moreover have "10 * (k div 100) + k div 10 mod 10 = k div 10"
    using mult_div_mod_eq [of 10 "k div 10"] by (simp flip: div_mult2_eq)
  moreover have "10 * (k div 10) + k mod 10 = k" by simp
  ultimately have "10 * (10 * (k div 100 mod 10) + k div 10 mod 10) + k mod 10 = k" by simp
  then show ?thesis by (simp add: digits3_def digit_char_digit stop small digit_char_digit [OF lt])
qed

lemma scan_decimal_show_millis:
  assumes "\<forall>c \<in> set ws. is_space c" and "rest = [] \<or> \<not> is_digit (hd rest) \<and> hd rest \<noteq> CHR ''e'' \<and> hd rest \<noteq> CHR ''E''"
  shows "scan_decimal (ws @ show_millis n @ rest) = Some (of_nat n / 1000, rest)"
proof -
  define frac where "frac = digits3 (n mod 1000) @ rest"
  define tail where "tail = CHR ''.'' # frac"
  have len: "length frac = 3 + length rest" by (simp add: frac_def digits3_def)
  have s1: "skip_space (ws @ show_millis n @ rest) = show_nat (n div 1000) @ tail"
  proof -
    have "dropWhile is_space (show_nat (n div 1000) @ tail) = show_nat (n div 1000) @ tail"
      using hd_show_nat_digit [of "n div 1000"] digit_not_space by (cases "show_nat (n div 1000)") auto
    with assms(1) show ?thesis
      by (simp add: skip_space_def dropWhile_append2 show_millis_def tail_def frac_def)
  qed
  have whole: "scan_digits 0 (show_nat (n div 1000) @ tail) = (n div 1000, tail)"
    using scan_digits_show_nat [of tail 0 "n div 1000"] by (simp add: is_digit_def tail_def)
  have fraction: "scan_digits 0 frac = (n mod 1000, rest)"
    unfolding frac_def using assms(2) by (intro scan_digits3) auto
  have e: "scan_exponent rest = Some (0, rest)" using assms(2) by (auto simp: scan_exponent_def)
  have "(of_nat n :: rat) = of_nat (n div 1000) * 1000 + of_nat (n mod 1000)"
    by (metis div_mult_mod_eq of_nat_add of_nat_mult of_nat_numeral)
  then have v: "(of_nat (n div 1000) + of_nat (n mod 1000) / 1000 :: rat) = of_nat n / 1000"
    by (simp add: add_divide_distrib)
  have sign: "hd (show_nat (n div 1000)) \<noteq> CHR ''-''" "hd (show_nat (n div 1000)) \<noteq> CHR ''+''"
    using digit_not_sign [OF hd_show_nat_digit [of "n div 1000"]] by auto
  have "scan_decimal (ws @ show_millis n @ rest) =
      Some ((of_nat (n div 1000) + of_nat (n mod 1000) / 10 ^ 3) * pow10 0, rest)"
    unfolding scan_decimal_def Let_def s1
    by (simp add: sign whole) (simp add: tail_def fraction e len sign)
  then show ?thesis using v by (simp add: pow10_def)
qed

lemma millis_roundtrip:
  assumes "1000 \<le> n" "n \<le> 4000000"
  shows "to_millis (to_float (of_nat n / 1000)) = word_of_nat n"
proof -
  define q :: rat where "q = of_nat n / 1000"
  define x where "x = to_float q"
  have q: "1 \<le> q" "q \<le> 4000" using assms by (simp_all add: q_def)
  have x: "\<bar>x - q\<bar> \<le> q / 2 ^ 24" using to_float_close [OF q(1)] by (simp add: x_def)
  have x1: "1 \<le> x * 1000" using x q by (simp add: abs_if split: if_splits)
  have y: "\<bar>to_float (x * 1000) - x * 1000\<bar> \<le> x * 1000 / 2 ^ 24" by (rule to_float_close [OF x1])
  have "\<bar>to_float (x * 1000) - of_int (int n)\<bar> < 1 / 2"
    using x y q by (simp add: abs_if q_def split: if_splits)
  moreover have "0 \<le> to_float (x * 1000)" using x1 y by (simp add: abs_if split: if_splits)
  ultimately have "lroundf (to_float (x * 1000)) = int n" by (intro lroundf_near) auto
  then show ?thesis by (simp add: to_millis_def x_def q_def)
qed

lemma scan_f_show_millis:
  assumes "\<forall>c \<in> set ws. is_space c" and "rest = [] \<or> \<not> is_digit (hd rest) \<and> hd rest \<noteq> CHR ''e'' \<and> hd rest \<noteq> CHR ''E''"
  shows "scan_f (ws @ show_millis n @ rest) = Some (to_float (of_nat n / 1000), rest)"
  using scan_decimal_show_millis [OF assms, of n] by (simp add: scan_f_def)

end
