(* ===== verification/Broker_Text.thy ===== *)
theory Broker_Text
  imports C_Float
begin

section \<open>The broker's files and texts\<close>

text \<open>
  The pure parts of \<open>src/native/broker/main.cpp\<close>: reading a text file through \<open>fgets\<close>,
  the uid of the tile from the package list, the display mode that Android prints, and the
  captured output of a display command.
\<close>

subsection \<open>Reading with \<open>fgets\<close>\<close>

text \<open>\<open>fgets\<close> with a buffer of \<open>n + 1\<close> bytes: at most \<open>n\<close> characters, up to a newline.\<close>

fun fgets :: "nat \<Rightarrow> string \<Rightarrow> string \<times> string" where
  "fgets 0 s = ([], s)"
| "fgets (Suc n) [] = ([], [])"
| "fgets (Suc n) (c # s) =
     (if c = CHR 0x0A then ([c], s) else let (line, rest) = fgets n s in (c # line, rest))"

lemma fgets_append: "fgets n s = (line, rest) \<Longrightarrow> s = line @ rest"
  by (induction n s arbitrary: line rest rule: fgets.induct) (auto simp: Let_def split: if_splits prod.splits)

lemma fgets_nonempty: "0 < n \<Longrightarrow> s \<noteq> [] \<Longrightarrow> fst (fgets n s) \<noteq> []"
  by (cases n; cases s) (auto simp: Let_def split: prod.splits)

text \<open>All the chunks that successive calls return.\<close>

function chunks :: "nat \<Rightarrow> string \<Rightarrow> string list" where
  "chunks n s = (if n = 0 \<or> s = [] then [] else fst (fgets n s) # chunks n (snd (fgets n s)))"
  by auto
termination
proof (relation "measure (\<lambda>(n, s). length s)")
  show "((n, snd (fgets n s)), n, s) \<in> measure (\<lambda>(n, s). length s)" if "\<not> (n = 0 \<or> s = [])" for n s
  proof -
    obtain line rest where f: "fgets n s = (line, rest)" by fastforce
    have "s = line @ rest" "line \<noteq> []"
      using fgets_append [OF f] fgets_nonempty [of n s] that f by auto
    then show ?thesis using f by (cases line) auto
  qed
qed simp

declare chunks.simps [simp del]

lemma chunks_empty [simp]: "chunks n [] = []"
  by (simp add: chunks.simps)

fun read_loop :: "string \<Rightarrow> string list \<Rightarrow> string" where
  "read_loop acc [] = acc"
| "read_loop acc (buffer # buffers) =
     (if length acc < 4096 then read_loop (acc @ c_str buffer) buffers else acc)"

text \<open>\<open>read_text\<close> of a file with the given content that is opened and read without error.\<close>

definition read_content :: "string \<Rightarrow> string" where
  "read_content content = read_loop [] (chunks 511 content)"

lemma fgets_line:
  assumes "CHR 0x0A \<notin> set line" "length line < n"
  shows "fgets n (line @ CHR 0x0A # rest) = (line @ [CHR 0x0A], rest)"
  using assms
proof (induction line arbitrary: n)
  case Nil
  then show ?case by (cases n) auto
next
  case (Cons c line)
  then show ?case by (cases n) (auto simp: Let_def)
qed

text \<open>A short file of one line is read back unchanged.\<close>

lemma read_content_line:
  assumes "CHR 0x0A \<notin> set line" "NUL \<notin> set line" "length line < 511"
  shows "read_content (line @ [CHR 0x0A]) = line @ [CHR 0x0A]"
proof -
  have "chunks 511 (line @ [CHR 0x0A]) = [line @ [CHR 0x0A]]"
    using fgets_line [OF assms(1,3), of "[]"] by (subst chunks.simps) simp
  moreover have "c_str (line @ [CHR 0x0A]) = line @ [CHR 0x0A]"
    using assms(2) by (auto simp: c_str_def takeWhile_eq_all_conv)
  ultimately show ?thesis by (simp add: read_content_def)
qed

subsection \<open>The tile's uid\<close>

text \<open>\<open>sscanf(line, "%255s %u", package, &uid) == 2\<close>.\<close>

definition scan_package :: "string \<Rightarrow> (string \<times> u32) option" where
  "scan_package line =
     (let s = skip_space line;
          word = take 255 (takeWhile (\<lambda>c. \<not> is_space c) s)
      in if word = [] then None
         else case scan_u (drop (length word) s) of
           None \<Rightarrow> None
         | Some (uid, rest) \<Rightarrow> Some (word, uid))"

fun find_tile :: "string list \<Rightarrow> u32" where
  "find_tile [] = - 1"
| "find_tile (line # lines) =
     (case scan_package (c_str line) of
        Some (package, uid) \<Rightarrow> if package = ''dev.kiraly.hdmilos'' then uid else find_tile lines
      | None \<Rightarrow> find_tile lines)"

definition tile_uid :: "string option \<Rightarrow> u32" where
  "tile_uid packages = (case packages of None \<Rightarrow> - 1 | Some content \<Rightarrow> find_tile (chunks 1023 content))"

subsection \<open>The saved display mode\<close>

definition after_colon :: "string \<Rightarrow> string" where
  "after_colon s = (let t = dropWhile (\<lambda>c. c \<noteq> CHR '':'') s in if t = [] then s else tl t)"

fun strstr :: "string \<Rightarrow> string \<Rightarrow> bool" where
  "strstr [] needle = (needle = [])"
| "strstr (c # s) needle = (take (length needle) (c # s) = needle \<or> strstr s needle)"

definition scan_char :: "char \<Rightarrow> string \<Rightarrow> string option" where
  "scan_char c s = (if s \<noteq> [] \<and> hd s = c then Some (tl s) else None)"

text \<open>\<open>sscanf(s, "%u %u %f", ...) == 3\<close> and \<open>sscanf(s, "%ux%u@%f", ...) == 3\<close>.\<close>

definition scan_spaced_mode :: "string \<Rightarrow> (u32 \<times> u32 \<times> rat) option" where
  "scan_spaced_mode s =
     do {
       (w, s) \<leftarrow> scan_u s;
       (h, s) \<leftarrow> scan_u s;
       (r, s) \<leftarrow> scan_f s;
       Some (w, h, r)
     }"

definition scan_compact_mode :: "string \<Rightarrow> (u32 \<times> u32 \<times> rat) option" where
  "scan_compact_mode s =
     do {
       (w, s) \<leftarrow> scan_u s;
       s \<leftarrow> scan_char (CHR ''x'') s;
       (h, s) \<leftarrow> scan_u s;
       s \<leftarrow> scan_char (CHR ''@'') s;
       (r, s) \<leftarrow> scan_f s;
       Some (w, h, r)
     }"

definition parse_saved_mode :: "string \<Rightarrow> (u32 \<times> u32 \<times> u32) option" where
  "parse_saved_mode s =
     (let v = after_colon (c_str s) in
      if strstr v ''null'' then Some (0, 0, 0)
      else
        case (case scan_spaced_mode v of Some m \<Rightarrow> Some m | None \<Rightarrow> scan_compact_mode v) of
          None \<Rightarrow> None
        | Some (w, h, r) \<Rightarrow>
            if w = 0 \<or> h = 0 \<or> r < 1 then None else Some (w, h, to_millis r))"

text \<open>The text of a mode in the configuration and in the recovery journal.\<close>

definition mode_text :: "u32 \<Rightarrow> u32 \<Rightarrow> u32 \<Rightarrow> string" where
  "mode_text w h r = show_u w @ '' '' @ show_u h @ '' '' @ show_u r @ [CHR 0x0A]"

subsection \<open>The output of a display command\<close>

text \<open>What becomes of the child: it cannot be started, or its output arrives in the given
  chunks and it exits with a code, or is killed.\<close>

datatype child =
    Not_started
  | Child "string list" "int option"

fun capture :: "string \<Rightarrow> string list \<Rightarrow> string" where
  "capture acc [] = acc"
| "capture acc (buffer # buffers) = capture (if length acc < 4096 then acc @ buffer else acc) buffers"

definition run_display_command :: "child \<Rightarrow> string \<Rightarrow> bool \<times> string" where
  "run_display_command child previous =
     (case child of
        Not_started \<Rightarrow> (False, previous)
      | Child buffers code \<Rightarrow> (code = Some 0, capture [] buffers))"

end
