(* ===== verification/State_Steps.thy ===== *)
theory State_Steps
  imports Prelude "HOL-Library.State_Monad"
begin

section \<open>Stateful programs and their postconditions\<close>

text \<open>
  The broker and the agent are programs of the state monad. \<open>wp m Q s\<close> says that running
  \<open>m\<close> from \<open>s\<close> ends with a result and a state that satisfy \<open>Q\<close>; it is computed by
  rewriting, and a procedure with a proved rule is used through that rule.
\<close>

definition gets :: "('s \<Rightarrow> 'a) \<Rightarrow> ('s, 'a) state" where
  "gets f = State (\<lambda>s. (f s, s))"

definition modify :: "('s \<Rightarrow> 's) \<Rightarrow> ('s, unit) state" where
  "modify f = State (\<lambda>s. ((), f s))"

abbreviation return :: "'a \<Rightarrow> ('s, 'a) state" where
  "return \<equiv> State_Monad.return"

definition whenever :: "bool \<Rightarrow> ('s, unit) state \<Rightarrow> ('s, unit) state" where
  "whenever c m = (if c then m else return ())"

lemma run_gets [simp]: "run_state (gets f) s = (f s, s)"
  by (simp add: gets_def)

lemma run_modify [simp]: "run_state (modify f) s = ((), f s)"
  by (simp add: modify_def)

lemma run_whenever [simp]: "run_state (whenever c m) s = (if c then run_state m s else ((), s))"
  by (simp add: whenever_def)

definition wp :: "('s, 'a) state \<Rightarrow> ('a \<Rightarrow> 's \<Rightarrow> bool) \<Rightarrow> 's \<Rightarrow> bool" where
  "wp m Q s = (case run_state m s of (x, s') \<Rightarrow> Q x s')"

named_theorems wp_simps

lemma wp_return [wp_simps]: "wp (return x) Q s = Q x s"
  by (simp add: wp_def)

lemma wp_bind [wp_simps]: "wp (State_Monad.bind m f) Q = wp m (\<lambda>x. wp (f x) Q)"
  by (auto simp: wp_def fun_eq_iff split: prod.splits)

lemma wp_gets [wp_simps]: "wp (gets f) Q s = Q (f s) s"
  by (simp add: wp_def)

lemma wp_modify [wp_simps]: "wp (modify f) Q s = Q () (f s)"
  by (simp add: wp_def)

lemma wp_whenever [wp_simps]: "wp (whenever c m) Q s = (if c then wp m Q s else Q () s)"
  by (simp add: wp_def)

lemma wp_if [wp_simps]: "wp (if c then a else b) Q s = (if c then wp a Q s else wp b Q s)"
  by simp

lemma wp_prod [wp_simps]: "wp (case p of (a, b) \<Rightarrow> f a b) Q s = (case p of (a, b) \<Rightarrow> wp (f a b) Q s)"
  by (simp split: prod.splits)

lemma wp_option [wp_simps]:
  "wp (case x of None \<Rightarrow> a | Some y \<Rightarrow> f y) Q s = (case x of None \<Rightarrow> wp a Q s | Some y \<Rightarrow> wp (f y) Q s)"
  by (simp split: option.splits)

lemma wp_call [wp_simps]:
  "wp (case x of CallOk y \<Rightarrow> f y | CallErr e \<Rightarrow> g e) Q s =
     (case x of CallOk y \<Rightarrow> wp (f y) Q s | CallErr e \<Rightarrow> wp (g e) Q s)"
  by (simp split: call.splits)

lemma wp_let [wp_simps]: "wp (Let v f) Q s = (let x = v in wp (f x) Q s)"
  by (simp add: Let_def)

lemma wp_mono: "wp m Q s \<Longrightarrow> (\<And>x s'. Q x s' \<Longrightarrow> R x s') \<Longrightarrow> wp m R s"
  by (auto simp: wp_def split: prod.splits)

lemma wp_run: "wp m Q s \<Longrightarrow> run_state m s = (x, s') \<Longrightarrow> Q x s'"
  by (simp add: wp_def)

lemma wp_conj: "wp m Q s \<Longrightarrow> wp m R s \<Longrightarrow> wp m (\<lambda>x s'. Q x s' \<and> R x s') s"
  by (auto simp: wp_def split: prod.splits)

text \<open>
  A program keeps a relation if its state afterwards is related to its state before, whatever
  that was. Programs that keep a preorder compose.
\<close>

definition keeps :: "('s \<Rightarrow> 's \<Rightarrow> bool) \<Rightarrow> ('s, 'a) state \<Rightarrow> bool" where
  "keeps R m \<longleftrightarrow> (\<forall>s. R s (snd (run_state m s)))"

lemma keeps_I: "(\<And>s. wp m (\<lambda>x. R s) s) \<Longrightarrow> keeps R m"
  unfolding keeps_def wp_def by (simp add: case_prod_beta)

lemma keeps_rule:
  assumes "keeps R m" "\<And>x s'. R s s' \<Longrightarrow> Q x s'"
  shows "wp m Q s"
proof -
  obtain x t where m: "run_state m s = (x, t)" by fastforce
  then have "R s t" using assms(1) unfolding keeps_def by (metis snd_conv)
  with assms(2) m show ?thesis by (simp add: wp_def)
qed

lemma keeps_weaken: "keeps R m \<Longrightarrow> (\<And>s s'. R s s' \<Longrightarrow> P s s') \<Longrightarrow> keeps P m"
  by (simp add: keeps_def)

lemma keeps_run: "keeps R m \<Longrightarrow> R s (snd (run_state m s))"
  by (simp add: keeps_def)

lemma keeps_let: "(\<And>x. keeps R (f x)) \<Longrightarrow> keeps R (Let v f)"
  by (simp add: Let_def)

lemma keeps_prod: "(\<And>a b. keeps R (f a b)) \<Longrightarrow> keeps R (case p of (a, b) \<Rightarrow> f a b)"
  by (simp split: prod.splits)

lemma keeps_option:
  "keeps R a \<Longrightarrow> (\<And>y. keeps R (f y)) \<Longrightarrow> keeps R (case x of None \<Rightarrow> a | Some y \<Rightarrow> f y)"
  by (simp split: option.splits)

lemma keeps_call:
  "(\<And>y. keeps R (f y)) \<Longrightarrow> (\<And>e. keeps R (g e)) \<Longrightarrow> keeps R (case x of CallOk y \<Rightarrow> f y | CallErr e \<Rightarrow> g e)"
  by (simp split: call.splits)

lemma keeps_if: "(c \<Longrightarrow> keeps R a) \<Longrightarrow> (\<not> c \<Longrightarrow> keeps R b) \<Longrightarrow> keeps R (if c then a else b)"
  by simp

locale step_preorder =
  fixes R :: "'s \<Rightarrow> 's \<Rightarrow> bool"
  assumes step_refl: "R s s"
    and step_trans: "R s t \<Longrightarrow> R t u \<Longrightarrow> R s u"
begin

lemma keeps_return: "keeps R (return x)"
  by (simp add: keeps_def step_refl)

lemma keeps_gets: "keeps R (gets f)"
  by (simp add: keeps_def step_refl)

lemma keeps_whenever: "(c \<Longrightarrow> keeps R a) \<Longrightarrow> keeps R (whenever c a)"
  by (cases c) (simp_all add: whenever_def keeps_return)

lemma keeps_bind:
  assumes "keeps R m" "\<And>x. keeps R (f x)"
  shows "keeps R (State_Monad.bind m f)"
proof (rule keeps_I, unfold wp_bind, rule keeps_rule [OF assms(1)], rule keeps_rule [OF assms(2)])
  fix s t u assume "R s t" "R t u"
  then show "R s u" by (rule step_trans)
qed

lemmas keeps_intros = keeps_return keeps_gets keeps_whenever keeps_bind keeps_let keeps_prod keeps_option
  keeps_call keeps_if

end

text \<open>An infinite script: its next answer and the script that remains.\<close>

definition later :: "(nat \<Rightarrow> 'a) \<Rightarrow> nat \<Rightarrow> 'a" where
  "later f = (\<lambda>n. f (Suc n))"

lemma later_const [simp]: "later (\<lambda>n. x) = (\<lambda>n. x)"
  by (simp add: later_def)

end
