(* ===== verification/Broker.thy ===== *)
theory Broker
  imports Channel Broker_Text Linux_Input State_Steps
begin

section \<open>The broker\<close>

text \<open>
  \<open>src/native/broker/main.cpp\<close>: the daemon that owns the transition between Android and the
  Xorg session. Its members and its environment are one record; every method is a program of
  the state monad. What the kernel, the composer service, the agent and the clients answer is
  scripted in the environment fields, and every effect on them is logged in order. A script that
  is a function gives the answers of successive calls, so it never ends.
\<close>

subsection \<open>Constants\<close>

abbreviation kSessionSeconds :: int where "kSessionSeconds \<equiv> 60"
abbreviation kComposerHeartbeatSeconds :: int where "kComposerHeartbeatSeconds \<equiv> 20"
abbreviation kChordHoldMs :: int where "kChordHoldMs \<equiv> 3000"
abbreviation kAgentPrepareMs :: int where "kAgentPrepareMs \<equiv> 5000"
abbreviation kAgentStartMs :: int where "kAgentStartMs \<equiv> 15000"
abbreviation kAgentStopMs :: int where "kAgentStopMs \<equiv> 2000"
abbreviation kLeaseHoldMs :: int where "kLeaseHoldMs \<equiv> 3000"
abbreviation kModePollMs :: int where "kModePollMs \<equiv> 250"
abbreviation kModeStableSamples :: int where "kModeStableSamples \<equiv> 3"
abbreviation kModeMismatchMs :: int where "kModeMismatchMs \<equiv> 5000"

definition kModeConfig :: string where
  "kModeConfig = ''/data/adb/hdmi-los/preferred-mode.conf''"

definition kModeJournal :: string where
  "kModeJournal = ''/data/adb/hdmi-los/preferred-mode.journal''"

datatype composer_hotplug = kInvalid | kConnected | kDisconnected

subsection \<open>Environment and state\<close>

text \<open>The events a poll reports, by what the descriptor is used for.\<close>

record poll_events =
  pe_listen :: u16
  pe_composer :: u16
  pe_agent :: u16
  pe_down :: u16
  pe_up :: u16

text \<open>An input device node: the descriptor its opening gives, its name, its key bits.\<close>

record input_node =
  in_open :: int
  in_name :: "string option"
  in_keys :: "u64 list option"

record write_io =
  wi_open :: bool
  wi_written :: int
  wi_fsync :: bool
  wi_close :: bool
  wi_rename :: bool

text \<open>A connection that a client makes: its descriptor, its credentials, what it sends.\<close>

record client =
  cl_fd :: int
  cl_uid :: "u32 option"
  cl_in :: "bytes call list"
  cl_send :: "nat call list"

text \<open>What the broker does. Closing the composer's connection is told apart from other closings,
  because the composer takes the display back when it happens.\<close>

datatype effect =
    Opened int
  | Closed int
  | Hung_up int
  | Grabbed int
  | Ungrabbed int
  | To_composer hdmi_los_message
  | To_agent hdmi_los_message int
  | To_client int hdmi_los_message
  | Wake bool
  | Display "string list" bool string
  | Wrote string string
  | Unlinked string
  | Polled int

record world =
  w_now :: int
  w_ticks :: "nat \<Rightarrow> nat"
  w_compatible :: "nat \<Rightarrow> bool"
  w_diagnostic :: "nat \<Rightarrow> bool"
  w_dump :: "nat \<Rightarrow> bool"
  w_polls :: "poll_events call list"
  w_socket :: "nat \<Rightarrow> int \<times> bool"
  w_composer_send :: "nat call list"
  w_composer_in :: "packet call list"
  w_agent_send :: "nat call list"
  w_agent_in :: "bytes call list"
  w_inputs :: "nat \<Rightarrow> input_node list option"
  w_grab :: "nat \<Rightarrow> bool"
  w_down_reads :: "input_event list call list"
  w_up_reads :: "input_event list call list"
  w_wake :: "nat \<Rightarrow> int option"
  w_display :: "nat \<Rightarrow> child"
  w_files :: "string \<rightharpoonup> string"
  w_read :: "nat \<Rightarrow> bool \<times> bool"
  w_write :: "nat \<Rightarrow> write_io"
  w_packages :: "nat \<Rightarrow> string option"
  w_clients :: "client list"
  w_log :: "effect list"

record broker = world +
  listen_fd :: int
  composer_fd :: int
  agent_fd :: int
  active :: bool
  probing :: bool
  agent_continuous :: bool
  session_continuous :: bool
  armed :: bool
  preference_applied :: bool
  replug_required :: bool
  composer_disconnect_pending :: bool
  requested_width :: u32
  requested_height :: u32
  requested_refresh_millihz :: u32
  active_width :: u32
  active_height :: u32
  active_refresh_millihz :: u32
  composer_flags :: u32
  stable_mode_samples :: int
  armed_since_ms :: int
  next_mode_poll_ms :: int
  deadline_ms :: int
  composer_heartbeat_ms :: int
  vol_down :: int
  vol_up :: int
  down_pressed :: bool
  up_pressed :: bool
  both_since :: int
  state_detail :: string
  g_request_id :: u32

definition log_effect :: "effect \<Rightarrow> (broker, unit) state" where
  "log_effect e = modify (\<lambda>s. s\<lparr>w_log := w_log s @ [e]\<rparr>)"

subsection \<open>Calls to the environment\<close>

text \<open>Any amount of time may pass before a reading of the clock.\<close>

definition monotonic_ms :: "(broker, int) state" where
  "monotonic_ms = do {
     modify (\<lambda>s. s\<lparr>w_now := w_now s + int (w_ticks s 0), w_ticks := later (w_ticks s)\<rparr>);
     gets w_now
   }"

definition compatible :: "(broker, bool) state" where
  "compatible = do {
     r \<leftarrow> gets (\<lambda>s. w_compatible s 0);
     modify (\<lambda>s. s\<lparr>w_compatible := later (w_compatible s)\<rparr>);
     return r
   }"

definition diagnostic_only :: "(broker, bool) state" where
  "diagnostic_only = do {
     r \<leftarrow> gets (\<lambda>s. w_diagnostic s 0);
     modify (\<lambda>s. s\<lparr>w_diagnostic := later (w_diagnostic s)\<rparr>);
     return r
   }"

definition diagnostic_dump_ready :: "(broker, bool) state" where
  "diagnostic_dump_ready = do {
     diagnostic \<leftarrow> diagnostic_only;
     if \<not> diagnostic then return True
     else do {
       r \<leftarrow> gets (\<lambda>s. w_dump s 0);
       modify (\<lambda>s. s\<lparr>w_dump := later (w_dump s)\<rparr>);
       return r
     }
   }"

text \<open>\<open>connect_abstract\<close> and \<open>listen_abstract\<close>: a socket, closed again if the address
  cannot be used.\<close>

definition open_socket :: "(broker, int) state" where
  "open_socket = do {
     answer \<leftarrow> gets (\<lambda>s. w_socket s 0);
     modify (\<lambda>s. s\<lparr>w_socket := later (w_socket s)\<rparr>);
     let (fd, ok) = answer in
     if fd < 0 then return (- 1)
     else do {
       log_effect (Opened fd);
       if ok then return fd
       else do {
         log_effect (Closed fd);
         return (- 1)
       }
     }
   }"

definition connect_abstract :: "(broker, int) state" where
  "connect_abstract = open_socket"

definition listen_abstract :: "(broker, int) state" where
  "listen_abstract = open_socket"

definition make_message :: "u16 \<Rightarrow> (broker, hdmi_los_message) state" where
  "make_message opcode = do {
     n \<leftarrow> gets g_request_id;
     modify (\<lambda>s. s\<lparr>g_request_id := n + 1\<rparr>);
     return (zero_message\<lparr>m_magic := HDMI_LOS_MAGIC, m_version := HDMI_LOS_BROKER_VERSION,
       m_opcode := opcode, m_request_id := n\<rparr>)
   }"

text \<open>The blocker is taken only if all eight characters of its name are written.\<close>

definition set_wake_lock :: "bool \<Rightarrow> (broker, bool) state" where
  "set_wake_lock acquire = do {
     written \<leftarrow> gets (\<lambda>s. w_wake s 0);
     modify (\<lambda>s. s\<lparr>w_wake := later (w_wake s)\<rparr>);
     if written = Some (int (length ''hdmi-los'')) then do {
       log_effect (Wake acquire);
       return True
     }
     else return False
   }"

definition display_command :: "string list \<Rightarrow> string \<Rightarrow> (broker, bool \<times> string) state" where
  "display_command arguments previous = do {
     child \<leftarrow> gets (\<lambda>s. w_display s 0);
     modify (\<lambda>s. s\<lparr>w_display := later (w_display s)\<rparr>);
     let (ok, output) = run_display_command child previous;
     log_effect (Display arguments ok output);
     return (ok, output)
   }"

definition write_atomic_text :: "string \<Rightarrow> string \<Rightarrow> (broker, bool) state" where
  "write_atomic_text path txt = do {
     io \<leftarrow> gets (\<lambda>s. w_write s 0);
     modify (\<lambda>s. s\<lparr>w_write := later (w_write s)\<rparr>);
     let temporary = path @ ''.tmp'';
     if \<not> wi_open io then return False
     else
       let ok = (wi_written io = int (length txt) \<and> wi_fsync io);
           ok = (if wi_close io then ok else False);
           ok = (ok \<and> wi_rename io)
       in do {
         modify (\<lambda>s. s\<lparr>w_files := (if ok then (w_files s)(temporary := None, path \<mapsto> txt)
                                  else (w_files s)(temporary := None))\<rparr>);
         whenever ok (log_effect (Wrote path txt));
         return ok
       }
   }"

definition read_text :: "string \<Rightarrow> string \<Rightarrow> (broker, bool \<times> string) state" where
  "read_text path txt = do {
     answer \<leftarrow> gets (\<lambda>s. w_read s 0);
     modify (\<lambda>s. s\<lparr>w_read := later (w_read s)\<rparr>);
     content \<leftarrow> gets (\<lambda>s. w_files s path);
     let (opened, no_error) = answer;
     case content of
       Some c \<Rightarrow> if opened then return (no_error, read_content c) else return (False, txt)
     | None \<Rightarrow> return (False, txt)
   }"

definition unlink_path :: "string \<Rightarrow> (broker, unit) state" where
  "unlink_path path = do {
     modify (\<lambda>s. s\<lparr>w_files := (w_files s)(path := None)\<rparr>);
     log_effect (Unlinked path)
   }"

subsection \<open>Messages on the broker's sockets\<close>

definition write_agent :: "hdmi_los_message \<Rightarrow> (broker, bool) state" where
  "write_agent m = do {
     answers \<leftarrow> gets w_agent_send;
     let (ok, sent, rest) = write_full (bytes_of_message m) answers;
     modify (\<lambda>s. s\<lparr>w_agent_send := rest\<rparr>);
     whenever ok (log_effect (To_agent m (- 1)));
     return ok
   }"

definition send_agent_fd :: "hdmi_los_message \<Rightarrow> int \<Rightarrow> (broker, bool) state" where
  "send_agent_fd m fd = do {
     answers \<leftarrow> gets w_agent_send;
     let (ok, rest) = send_with_fd answers;
     modify (\<lambda>s. s\<lparr>w_agent_send := rest\<rparr>);
     whenever ok (log_effect (To_agent m fd));
     return ok
   }"

definition read_agent :: "hdmi_los_message \<Rightarrow> (broker, bool \<times> hdmi_los_message) state" where
  "read_agent response = do {
     answers \<leftarrow> gets w_agent_in;
     let (ok, bs, rest) = read_full HDMI_LOS_MESSAGE_SIZE answers;
     modify (\<lambda>s. s\<lparr>w_agent_in := rest\<rparr>);
     return (ok, overlay bs response)
   }"

definition write_client :: "client \<Rightarrow> hdmi_los_message \<Rightarrow> (broker, unit) state" where
  "write_client c m =
     whenever (fst (write_full (bytes_of_message m) (cl_send c))) (log_effect (To_client (cl_fd c) m))"

definition close_fd :: "int \<Rightarrow> (broker, unit) state" where
  "close_fd fd = log_effect (Closed fd)"

definition drop_composer :: "(broker, unit) state" where
  "drop_composer = do {
     fd \<leftarrow> gets composer_fd;
     log_effect (Hung_up fd);
     modify (\<lambda>s. s\<lparr>composer_fd := - 1\<rparr>)
   }"

subsection \<open>The volume guard\<close>

definition input_has_key :: "u64 list option \<Rightarrow> nat \<Rightarrow> bool" where
  "input_has_key answer key =
     (case answer of None \<Rightarrow> False | Some bits \<Rightarrow> bit (bits ! (key div 64)) (key mod 64))"

fun find_volume :: "string \<Rightarrow> nat \<Rightarrow> input_node list \<Rightarrow> (broker, int) state" where
  "find_volume wanted key [] = return (- 1)"
| "find_volume wanted key (node # nodes) =
     (if in_open node < 0 then find_volume wanted key nodes
      else do {
        log_effect (Opened (in_open node));
        if (case in_name node of None \<Rightarrow> False | Some name \<Rightarrow> c_str name = wanted) \<and>
           input_has_key (in_keys node) key
        then return (in_open node)
        else do {
          close_fd (in_open node);
          find_volume wanted key nodes
        }
      })"

definition find_volume_device :: "string \<Rightarrow> nat \<Rightarrow> (broker, int) state" where
  "find_volume_device wanted key = do {
     nodes \<leftarrow> gets (\<lambda>s. w_inputs s 0);
     modify (\<lambda>s. s\<lparr>w_inputs := later (w_inputs s)\<rparr>);
     case nodes of None \<Rightarrow> return (- 1) | Some ns \<Rightarrow> find_volume wanted key ns
   }"

definition grab :: "int \<Rightarrow> (broker, bool) state" where
  "grab fd = do {
     ok \<leftarrow> gets (\<lambda>s. w_grab s 0);
     modify (\<lambda>s. s\<lparr>w_grab := later (w_grab s)\<rparr>);
     whenever ok (log_effect (Grabbed fd));
     return ok
   }"

definition release_volume :: "int \<Rightarrow> (broker, unit) state" where
  "release_volume fd = whenever (0 \<le> fd) (do {
     log_effect (Ungrabbed fd);
     close_fd fd
   })"

definition volumes_Release :: "(broker, unit) state" where
  "volumes_Release = do {
     down \<leftarrow> gets vol_down;
     up \<leftarrow> gets vol_up;
     release_volume down;
     release_volume up;
     modify (\<lambda>s. s\<lparr>vol_down := - 1, vol_up := - 1, down_pressed := False, up_pressed := False,
       both_since := 0\<rparr>)
   }"

definition volumes_Acquire :: "(broker, bool) state" where
  "volumes_Acquire = do {
     down \<leftarrow> find_volume_device ''gpio-keys'' KEY_VOLUMEDOWN;
     modify (\<lambda>s. s\<lparr>vol_down := down\<rparr>);
     up \<leftarrow> find_volume_device ''pmic_resin'' KEY_VOLUMEUP;
     modify (\<lambda>s. s\<lparr>vol_up := up\<rparr>);
     ok \<leftarrow> (if down < 0 \<or> up < 0 then return False
            else do {
              grabbed \<leftarrow> grab down;
              if grabbed then grab up else return False
            });
     if ok then return True
     else do {
       volumes_Release;
       return False
     }
   }"

fun last_state :: "nat \<Rightarrow> input_event list \<Rightarrow> bool \<Rightarrow> bool" where
  "last_state key [] pressed = pressed"
| "last_state key (ev # evs) pressed =
     last_state key evs (if ie_type ev = EV_KEY \<and> ie_code ev = key then ie_value ev \<noteq> 0 else pressed)"

text \<open>Past the script the non-blocking descriptor has nothing more to read.\<close>

fun ReadOne :: "nat \<Rightarrow> input_event list call list \<Rightarrow> bool \<Rightarrow> bool \<times> bool \<times> input_event list call list" where
  "ReadOne key [] pressed = (True, pressed, [])"
| "ReadOne key (CallErr e # reads) pressed = (e = EAGAIN \<or> e = EINTR, pressed, reads)"
| "ReadOne key (CallOk evs # reads) pressed =
     (if evs = [] then (False, pressed, reads) else ReadOne key reads (last_state key evs pressed))"

definition read_down :: "(broker, bool) state" where
  "read_down = do {
     r \<leftarrow> gets (\<lambda>s. ReadOne KEY_VOLUMEDOWN (w_down_reads s) (down_pressed s));
     let (ok, pressed, rest) = r;
     modify (\<lambda>s. s\<lparr>w_down_reads := rest, down_pressed := pressed\<rparr>);
     return ok
   }"

definition read_up :: "(broker, bool) state" where
  "read_up = do {
     r \<leftarrow> gets (\<lambda>s. ReadOne KEY_VOLUMEUP (w_up_reads s) (up_pressed s));
     let (ok, pressed, rest) = r;
     modify (\<lambda>s. s\<lparr>w_up_reads := rest, up_pressed := pressed\<rparr>);
     return ok
   }"

definition POLLBAD :: u16 where
  "POLLBAD = POLLERR OR POLLHUP OR POLLNVAL"

text \<open>Both keys held: whether they have been held long enough.\<close>

definition chord :: "(broker, bool) state" where
  "chord = do {
     now \<leftarrow> monotonic_ms;
     both \<leftarrow> gets (\<lambda>s. down_pressed s \<and> up_pressed s);
     if both then do {
       modify (\<lambda>s. s\<lparr>both_since := (if both_since s = 0 then now else both_since s)\<rparr>);
       since \<leftarrow> gets both_since;
       return (kChordHoldMs \<le> now - since)
     }
     else do {
       modify (\<lambda>s. s\<lparr>both_since := 0\<rparr>);
       return False
     }
   }"

definition volumes_Update :: "u16 \<Rightarrow> u16 \<Rightarrow> (broker, bool) state" where
  "volumes_Update down_events up_events =
     (if has_bits down_events POLLBAD \<or> has_bits up_events POLLBAD then return True
      else do {
        down_ok \<leftarrow> (if has_bits down_events POLLIN then read_down else return True);
        if \<not> down_ok then return True
        else do {
          up_ok \<leftarrow> (if has_bits up_events POLLIN then read_up else return True);
          if \<not> up_ok then return True else chord
        }
      })"

subsection \<open>The composer\<close>

definition EnsureComposer :: "(broker, bool) state" where
  "EnsureComposer = do {
     fd \<leftarrow> gets composer_fd;
     if 0 \<le> fd then return True
     else do {
       fd \<leftarrow> connect_abstract;
       modify (\<lambda>s. s\<lparr>composer_fd := fd\<rparr>);
       return (0 \<le> fd)
     }
   }"

definition CacheComposerStatus :: "hdmi_los_message \<Rightarrow> (broker, unit) state" where
  "CacheComposerStatus status = modify (\<lambda>s. s\<lparr>composer_flags := m_flags status,
     active_width := m_active_width status, active_height := m_active_height status,
     active_refresh_millihz := m_active_refresh_millihz status,
     composer_disconnect_pending :=
       (if has_bits (m_flags status) HDMI_LOS_FLAG_CONNECTED then False else composer_disconnect_pending s)\<rparr>)"

definition close_passed :: "int \<Rightarrow> (broker, unit) state" where
  "close_passed fd = whenever (0 \<le> fd) (close_fd fd)"

text \<open>A passed descriptor is open in this process from the moment it is received.\<close>

definition note_passed :: "int \<Rightarrow> (broker, unit) state" where
  "note_passed fd = whenever (0 \<le> fd) (log_effect (Opened fd))"

definition recv_composer :: "hdmi_los_message \<Rightarrow> (broker, bool \<times> hdmi_los_message \<times> int) state" where
  "recv_composer message = do {
     r \<leftarrow> gets (\<lambda>s. recv_with_fd message (w_composer_in s));
     let (ok, message, fd, rest) = r;
     modify (\<lambda>s. s\<lparr>w_composer_in := rest\<rparr>);
     note_passed fd;
     return (ok, message, fd)
   }"

text \<open>
  The loop that waits for the answer to a request: it takes over hotplug events on the way. Each
  round consumes a packet of the script, so a fuel above its length is never used up.
\<close>

fun composer_answer :: "nat \<Rightarrow> u32 \<Rightarrow> bool \<Rightarrow> hdmi_los_message \<Rightarrow>
    (broker, bool \<times> hdmi_los_message \<times> int) state" where
  "composer_answer 0 request_id want_fd response = return (False, response, - 1)"
| "composer_answer (Suc fuel) request_id want_fd response = do {
     (ok, response, fd) \<leftarrow> recv_composer response;
     if \<not> ok \<or> \<not> valid_composer_message response then do {
       close_passed fd;
       drop_composer;
       return (False, response, - 1)
     }
     else if m_opcode response = HDMI_LOS_OP_HOTPLUG \<and> m_request_id response = 0 then do {
       close_passed fd;
       CacheComposerStatus response;
       modify (\<lambda>s. s\<lparr>composer_disconnect_pending := \<not> has_bits (m_flags response) HDMI_LOS_FLAG_CONNECTED\<rparr>);
       composer_answer fuel request_id want_fd response
     }
     else if m_request_id response \<noteq> request_id then do {
       close_passed fd;
       drop_composer;
       return (False, response, - 1)
     }
     else do {
       whenever (\<not> want_fd) (close_passed fd);
       CacheComposerStatus response;
       pending \<leftarrow> gets composer_disconnect_pending;
       return (\<not> pending, response, if want_fd then fd else - 1)
     }
   }"

text \<open>
  A request to the composer: whether it was answered, the contents of the response afterwards,
  and the descriptor that came with it (\<open>- 1\<close> for none).
\<close>

definition ComposerRequest :: "u16 \<Rightarrow> hdmi_los_message \<Rightarrow> bool \<Rightarrow> u32 \<Rightarrow>
    (broker, bool \<times> hdmi_los_message \<times> int) state" where
  "ComposerRequest opcode response want_fd flags = do {
     connected \<leftarrow> EnsureComposer;
     if \<not> connected then return (False, response, - 1)
     else do {
       request \<leftarrow> make_message opcode;
       let request = request\<lparr>m_version := HDMI_LOS_VERSION, m_flags := flags\<rparr>;
       answers \<leftarrow> gets w_composer_send;
       let (ok, rest) = send_with_fd answers;
       modify (\<lambda>s. s\<lparr>w_composer_send := rest\<rparr>);
       if \<not> ok then do {
         drop_composer;
         return (False, response, - 1)
       }
       else do {
         log_effect (To_composer request);
         fuel \<leftarrow> gets (\<lambda>s. Suc (length (w_composer_in s)));
         composer_answer fuel (m_request_id request) want_fd response
       }
     }
   }"

definition HandleComposerReadable :: "(broker, composer_hotplug) state" where
  "HandleComposerReadable = do {
     (ok, event, fd) \<leftarrow> recv_composer zero_message;
     if \<not> ok \<or> \<not> valid_composer_message event \<or> m_opcode event \<noteq> HDMI_LOS_OP_HOTPLUG \<or>
        m_request_id event \<noteq> 0
     then do {
       close_passed fd;
       return kInvalid
     }
     else do {
       close_passed fd;
       CacheComposerStatus event;
       let connected = has_bits (m_flags event) HDMI_LOS_FLAG_CONNECTED;
       modify (\<lambda>s. s\<lparr>composer_disconnect_pending := \<not> connected\<rparr>);
       return (if connected then kConnected else kDisconnected)
     }
   }"

subsection \<open>The agent\<close>

definition HandleAgentEvent :: "hdmi_los_message \<Rightarrow> (broker, bool) state" where
  "HandleAgentEvent event =
     (if m_opcode event = HDMI_LOS_OP_AGENT_PROGRESS then do {
        acknowledgement \<leftarrow> make_message HDMI_LOS_OP_AGENT_PROGRESS_ACK;
        write_agent (acknowledgement\<lparr>m_request_id := m_request_id event, m_status := HDMI_LOS_OK,
          m_flags := m_flags event\<rparr>)
      }
      else return (m_opcode event \<noteq> HDMI_LOS_OP_AGENT_FAILED))"

text \<open>A descriptor that is \<open>- 1\<close> is ignored by \<open>poll\<close>.\<close>

definition revents :: "int \<Rightarrow> u16 \<Rightarrow> u16" where
  "revents fd ev = (if fd < 0 then 0 else ev)"

text \<open>The time a wait still has: at most a tenth of a second, its end, the deadline.\<close>

definition wait_remaining :: "int \<Rightarrow> (broker, int) state" where
  "wait_remaining end_ms = do {
     now \<leftarrow> monotonic_ms;
     let remaining = min 100 (end_ms - now);
     deadline \<leftarrow> gets deadline_ms;
     if 0 < deadline then do {
       now \<leftarrow> monotonic_ms;
       return (min remaining (deadline - now))
     }
     else return remaining
   }"

text \<open>The composer's part of a wakeup: whether the wait goes on.\<close>

definition wait_composer :: "u16 \<Rightarrow> (broker, bool) state" where
  "wait_composer events = do {
     fd \<leftarrow> gets composer_fd;
     if 0 \<le> fd \<and> has_bits events POLLBAD then return False
     else if 0 \<le> fd \<and> has_bits events POLLIN then do {
       hotplug \<leftarrow> HandleComposerReadable;
       if hotplug \<noteq> kConnected then do {
         modify (\<lambda>s. s\<lparr>composer_disconnect_pending := True\<rparr>);
         return False
       }
       else return True
     }
     else return True
   }"

definition deadline_passed :: "(broker, bool) state" where
  "deadline_passed = do {
     deadline \<leftarrow> gets deadline_ms;
     if 0 < deadline then do {
       now \<leftarrow> monotonic_ms;
       return (deadline \<le> now)
     }
     else return False
   }"

text \<open>
  One wakeup of a wait: the wait is over with a result, or goes on. The response is the memory
  the agent's message is read into.
\<close>

definition wait_event :: "u16 \<Rightarrow> poll_events \<Rightarrow> hdmi_los_message \<Rightarrow>
    (broker, bool option \<times> hdmi_los_message) state" where
  "wait_event wanted ev response = do {
     agent \<leftarrow> gets agent_fd;
     down \<leftarrow> gets vol_down;
     up \<leftarrow> gets vol_up;
     composer \<leftarrow> gets composer_fd;
     let agent_events = revents agent (pe_agent ev);
     if has_bits agent_events POLLBAD then return (Some False, response)
     else do {
       escaped \<leftarrow> volumes_Update (revents down (pe_down ev)) (revents up (pe_up ev));
       if escaped then return (Some False, response)
       else do {
         go_on \<leftarrow> wait_composer (revents composer (pe_composer ev));
         if \<not> go_on then return (Some False, response)
         else do {
           late \<leftarrow> deadline_passed;
           if late then return (Some False, response)
           else if \<not> has_bits agent_events POLLIN then return (None, response)
           else do {
             (ok, response) \<leftarrow> read_agent response;
             if \<not> ok \<or> \<not> valid_message response then return (Some False, response)
             else if m_opcode response = HDMI_LOS_OP_AGENT_PROGRESS then do {
               handled \<leftarrow> HandleAgentEvent response;
               return (if handled then None else Some False, response)
             }
             else if m_opcode response = wanted \<or> m_opcode response = HDMI_LOS_OP_AGENT_FAILED then
               return (Some (m_opcode response = wanted \<and> m_status response = HDMI_LOS_OK), response)
             else return (None, response)
           }
         }
       }
     }
   }"

text \<open>
  The loop of \<open>WaitAgent\<close> over the scripted polls, those that time out included. When the
  script ends, the wait has run out: it ends unanswered at its end or at the deadline.
\<close>

fun wait_loop :: "poll_events call list \<Rightarrow> int \<Rightarrow> u16 \<Rightarrow> hdmi_los_message \<Rightarrow>
    (broker, bool \<times> hdmi_los_message) state" where
  "wait_loop [] end_ms wanted response = do {
     modify (\<lambda>s. s\<lparr>w_now := max (w_now s) (if 0 < deadline_ms s then min end_ms (deadline_ms s) else end_ms)\<rparr>);
     return (False, response)
   }"
| "wait_loop (answer # answers) end_ms wanted response = do {
     now \<leftarrow> monotonic_ms;
     if end_ms \<le> now then return (False, response)
     else do {
       remaining \<leftarrow> wait_remaining end_ms;
       if remaining \<le> 0 then return (False, response)
       else do {
         log_effect (Polled remaining);
         modify (\<lambda>s. s\<lparr>w_polls := answers\<rparr>);
         case answer of
           CallErr e \<Rightarrow>
             if e = EINTR then wait_loop answers end_ms wanted response else return (False, response)
         | CallOk ev \<Rightarrow> do {
             (over, response) \<leftarrow> wait_event wanted ev response;
             case over of
               Some result \<Rightarrow> return (result, response)
             | None \<Rightarrow> wait_loop answers end_ms wanted response
           }
       }
     }
   }"

definition WaitAgent :: "u16 \<Rightarrow> int \<Rightarrow> hdmi_los_message \<Rightarrow> (broker, bool \<times> hdmi_los_message) state" where
  "WaitAgent wanted timeout_ms response = do {
     now \<leftarrow> monotonic_ms;
     answers \<leftarrow> gets w_polls;
     wait_loop answers (now + timeout_ms) wanted response
   }"

subsection \<open>Android's preferred mode\<close>

definition mode_in_range :: "u32 \<Rightarrow> u32 \<Rightarrow> u32 \<Rightarrow> bool" where
  "mode_in_range w h r \<longleftrightarrow>
     (w = 0 \<and> h = 0 \<and> r = 0) \<or> (640 \<le> w \<and> 480 \<le> h \<and> 10000 \<le> r \<and> r \<le> 240000)"

definition set_requested :: "u32 \<Rightarrow> u32 \<Rightarrow> u32 \<Rightarrow> (broker, unit) state" where
  "set_requested w h r = modify (\<lambda>s. s\<lparr>requested_width := w, requested_height := h,
     requested_refresh_millihz := r\<rparr>)"

definition LoadConfiguredMode :: "(broker, unit) state" where
  "LoadConfiguredMode = do {
     (ok, txt) \<leftarrow> read_text kModeConfig '''';
     if \<not> ok then return ()
     else case scan_u3 txt of
       None \<Rightarrow> return ()
     | Some (w, h, r) \<Rightarrow> whenever (mode_in_range w h r) (set_requested w h r)
   }"

definition SaveConfiguredMode :: "(broker, bool) state" where
  "SaveConfiguredMode = do {
     txt \<leftarrow> gets (\<lambda>s. mode_text (requested_width s) (requested_height s) (requested_refresh_millihz s));
     write_atomic_text kModeConfig txt
   }"

text \<open>Setting Android's preferred mode; all zero clears it.\<close>

definition set_preferred :: "u32 \<Rightarrow> u32 \<Rightarrow> u32 \<Rightarrow> (broker, bool \<times> string) state" where
  "set_preferred w h r =
     (if w = 0 \<and> h = 0 \<and> r = 0 then display_command [''clear-user-preferred-display-mode''] ''''
      else display_command [''set-user-preferred-display-mode'', show_u w, show_u h, show_millis (unat r)] '''')"

definition RecoverPreferredMode :: "(broker, bool) state" where
  "RecoverPreferredMode = do {
     (ok, journal) \<leftarrow> read_text kModeJournal '''';
     if \<not> ok then return True
     else case scan_u3 journal of
       None \<Rightarrow> return False
     | Some (w, h, r) \<Rightarrow> do {
         (ok, output) \<leftarrow> set_preferred w h r;
         whenever ok (unlink_path kModeJournal);
         return ok
       }
   }"

definition ApplyPreferredMode :: "string \<Rightarrow> (broker, bool \<times> string) state" where
  "ApplyPreferredMode detail = do {
     (ok, previous) \<leftarrow> display_command [''get-user-preferred-display-mode''] '''';
     case (if ok then parse_saved_mode previous else None) of
       None \<Rightarrow> return (False, ''cannot snapshot Android's global preferred display mode'')
     | Some (old_w, old_h, old_r) \<Rightarrow> do {
         saved \<leftarrow> write_atomic_text kModeJournal (mode_text old_w old_h old_r);
         if \<not> saved then return (False, ''cannot create the preferred-mode recovery journal'')
         else do {
           w \<leftarrow> gets requested_width;
           h \<leftarrow> gets requested_height;
           r \<leftarrow> gets requested_refresh_millihz;
           (applied, output) \<leftarrow> set_preferred w h r;
           if \<not> applied then do {
             RecoverPreferredMode;
             return (False, ''Android rejected the preferred external display mode: '' @ output)
           }
           else return (True, detail)
         }
       }
   }"

definition RequestedModeMatches :: "broker \<Rightarrow> bool" where
  "RequestedModeMatches s \<longleftrightarrow>
     (if \<not> has_bits (composer_flags s) HDMI_LOS_FLAG_CONNECTED \<or>
         \<not> has_bits (composer_flags s) HDMI_LOS_FLAG_ACTIVE_MODE then False
      else if requested_width s = 0 \<and> requested_height s = 0 \<and> requested_refresh_millihz s = 0 then True
      else active_width s = requested_width s \<and> active_height s = requested_height s \<and>
           \<bar>uint (active_refresh_millihz s) - uint (requested_refresh_millihz s)\<bar> \<le> 100)"

definition SetMode :: "hdmi_los_message \<Rightarrow> (broker, u32 \<times> string) state" where
  "SetMode request = do {
     busy \<leftarrow> gets (\<lambda>s. active s \<or> armed s \<or> probing s);
     if busy then return (HDMI_LOS_ERR_BUSY, ''stop or disarm HDMI Xorg before changing its preferred mode'')
     else
       let w = m_requested_width request; h = m_requested_height request;
           r = m_requested_refresh_millihz request;
           native = (w = 0 \<and> h = 0 \<and> r = 0)
       in if \<not> native \<and> (w < 640 \<or> h < 480 \<or> r < 10000 \<or> 240000 < r)
          then return (HDMI_LOS_ERR_PROTOCOL, ''invalid preferred mode'')
          else do {
            set_requested w h r;
            saved \<leftarrow> SaveConfiguredMode;
            return (if saved then (HDMI_LOS_OK, ''preferred mode saved; arm before connecting HDMI'')
                    else (HDMI_LOS_ERR_IO, ''could not persist preferred mode''))
          }
   }"

subsection \<open>Guards\<close>

definition CleanupGuards :: "(broker, unit) state" where
  "CleanupGuards = do {
     volumes_Release;
     set_wake_lock False;
     modify (\<lambda>s. s\<lparr>deadline_ms := 0, composer_heartbeat_ms := 0, session_continuous := False\<rparr>)
   }"

text \<open>The compatibility gate, the volume keys and the suspend blocker; a failure has its status
  and detail.\<close>

definition take_guards :: "(broker, (u32 \<times> string) option) state" where
  "take_guards = do {
     acquired \<leftarrow> volumes_Acquire;
     if \<not> acquired then return (Some (HDMI_LOS_ERR_UNAVAILABLE, ''both physical volume inputs are required''))
     else do {
       awake \<leftarrow> set_wake_lock True;
       if \<not> awake then do {
         CleanupGuards;
         return (Some (HDMI_LOS_ERR_UNAVAILABLE, ''could not acquire the mandatory suspend blocker''))
       }
       else return None
     }
   }"

definition check_gates :: "(broker, (u32 \<times> string) option) state" where
  "check_gates = do {
     ok \<leftarrow> compatible;
     if \<not> ok then return (Some (HDMI_LOS_ERR_INCOMPATIBLE, ''module compatibility gate is closed''))
     else do {
       ready \<leftarrow> diagnostic_dump_ready;
       return (if ready then None
               else Some (HDMI_LOS_ERR_INCOMPATIBLE, ''display recovery dump gate is not enabled''))
     }
   }"

subsection \<open>Starting a session\<close>

definition stop_agent :: "(broker, bool) state" where
  "stop_agent = do {
     stop \<leftarrow> make_message HDMI_LOS_OP_AGENT_STOP;
     write_agent stop
   }"

definition detail_or :: "hdmi_los_message \<Rightarrow> string \<Rightarrow> string" where
  "detail_or response fallback =
     (if c_str (m_detail response) \<noteq> [] then c_str (m_detail response) else fallback)"

definition status_or_io :: "hdmi_los_message \<Rightarrow> u32" where
  "status_or_io response = (if m_status response \<noteq> 0 then m_status response else HDMI_LOS_ERR_IO)"

text \<open>One of the three phases of the acquisition; each has the same clean-up.\<close>

definition acquire_phase :: "u32 \<Rightarrow> bool \<Rightarrow> string \<Rightarrow>
    (broker, (u32 \<times> string) option \<times> hdmi_los_message \<times> int) state" where
  "acquire_phase phase want_fd fallback = do {
     continuous \<leftarrow> gets session_continuous;
     (ok, response, lease) \<leftarrow> ComposerRequest HDMI_LOS_OP_ACQUIRE zero_message want_fd
       (phase OR (if continuous then HDMI_LOS_FLAG_CONTINUOUS else 0));
     if \<not> ok \<or> m_status response \<noteq> HDMI_LOS_OK \<or> (want_fd \<and> lease < 0) then do {
       let failure = (status_or_io response, detail_or response fallback);
       stop_agent;
       close_passed lease;
       ComposerRequest HDMI_LOS_OP_RELEASE response False 0;
       CleanupGuards;
       return (Some failure, response, - 1)
     }
     else return (None, response, lease)
   }"

definition prepare_agent :: "u32 \<Rightarrow> (broker, (u32 \<times> string) option) state" where
  "prepare_agent probe_mode = do {
     request \<leftarrow> make_message HDMI_LOS_OP_AGENT_PREPARE;
     sent \<leftarrow> write_agent (request\<lparr>m_flags := probe_mode\<rparr>);
     (ok, response) \<leftarrow> (if sent then WaitAgent HDMI_LOS_OP_AGENT_READY kAgentPrepareMs zero_message
                        else return (False, zero_message));
     if \<not> ok then do {
       stop_agent;
       CleanupGuards;
       return (Some (HDMI_LOS_ERR_AGENT, ''chroot agent preparation failed''))
     }
     else return None
   }"

text \<open>
  Handing the lease to the agent and waiting for its verified scanout. The response is the
  composer's, with the objects of the lease; the agent's answer and, on a failure, the
  composer's answer to the release are read into the same memory.
\<close>

definition start_agent :: "u32 \<Rightarrow> hdmi_los_message \<Rightarrow> int \<Rightarrow> (broker, (u32 \<times> string) option) state" where
  "start_agent probe_mode response lease = do {
     request \<leftarrow> make_message HDMI_LOS_OP_AGENT_START;
     sent \<leftarrow> send_agent_fd (request\<lparr>m_connector_id := m_connector_id response,
       m_crtc_id := m_crtc_id response, m_plane_id := m_plane_id response, m_flags := probe_mode\<rparr>) lease;
     close_fd lease;
     if \<not> sent then do {
       ComposerRequest HDMI_LOS_OP_RELEASE response False 0;
       CleanupGuards;
       return (Some (HDMI_LOS_ERR_AGENT, ''could not deliver lease fd to chroot agent''))
     }
     else do {
       (ok, response) \<leftarrow> WaitAgent HDMI_LOS_OP_AGENT_READY kAgentStartMs response;
       if \<not> ok then do {
         stop_agent;
         (released, response, fd) \<leftarrow> ComposerRequest HDMI_LOS_OP_RELEASE response False 0;
         CleanupGuards;
         let failed = (m_opcode response = HDMI_LOS_OP_AGENT_FAILED);
         return (Some (if failed then HDMI_LOS_ERR_AGENT else HDMI_LOS_ERR_TIMEOUT,
           if failed then detail_or response ''Xorg did not complete verified scanout within 15 seconds''
           else ''Xorg did not complete verified scanout within 15 seconds''))
       }
       else return None
     }
   }"

definition begin_session :: "u32 \<Rightarrow> (broker, u32 \<times> string) state" where
  "begin_session probe_mode = do {
     modify (\<lambda>s. s\<lparr>active := True\<rparr>);
     continuous \<leftarrow> gets session_continuous;
     whenever continuous (do {
       now \<leftarrow> monotonic_ms;
       modify (\<lambda>s. s\<lparr>composer_heartbeat_ms := now + kComposerHeartbeatSeconds * 1000\<rparr>)
     });
     let detail = (if probe_mode = HDMI_LOS_PROBE_XORG_ATOMIC then ''traced atomic Xorg owns external display''
                   else ''traced legacy Xorg owns external display'') @
                  (if continuous then ''; continuous watchdog mode'' else '''');
     modify (\<lambda>s. s\<lparr>state_detail := detail\<rparr>);
     return (HDMI_LOS_OK, detail)
   }"

text \<open>The session window starts before the agent is prepared.\<close>

definition open_window :: "(broker, unit) state" where
  "open_window = do {
     modify (\<lambda>s. s\<lparr>session_continuous := agent_continuous s\<rparr>);
     continuous \<leftarrow> gets session_continuous;
     if continuous then modify (\<lambda>s. s\<lparr>deadline_ms := 0\<rparr>)
     else do {
       now \<leftarrow> monotonic_ms;
       modify (\<lambda>s. s\<lparr>deadline_ms := now + kSessionSeconds * 1000\<rparr>)
     }
   }"

text \<open>A step whose failure ends the operation.\<close>

definition attempt :: "(broker, 'a option) state \<Rightarrow> (broker, 'a) state \<Rightarrow> (broker, 'a) state" where
  "attempt m rest = do {
     r \<leftarrow> m;
     case r of Some failure \<Rightarrow> return failure | None \<Rightarrow> rest
   }"

definition take_lease :: "u32 \<Rightarrow> (broker, u32 \<times> string) state" where
  "take_lease probe_mode = do {
     (failure, response, lease) \<leftarrow> acquire_phase HDMI_LOS_ACQUIRE_PREPARE False ''composer lease request failed'';
     case failure of Some f \<Rightarrow> return f | None \<Rightarrow> do {
       (failure, response, lease) \<leftarrow> acquire_phase HDMI_LOS_ACQUIRE_PAUSE False ''composer display pause failed'';
       case failure of Some f \<Rightarrow> return f | None \<Rightarrow> do {
         (failure, response, lease) \<leftarrow> acquire_phase HDMI_LOS_ACQUIRE_CREATE True ''composer lease creation failed'';
         case failure of Some f \<Rightarrow> return f
         | None \<Rightarrow> attempt (start_agent probe_mode response lease) (begin_session probe_mode)
       }
     }
   }"

definition Start :: "u32 \<Rightarrow> string \<Rightarrow> (broker, u32 \<times> string) state" where
  "Start probe_mode detail = do {
     busy \<leftarrow> gets active;
     if busy then return (HDMI_LOS_ERR_BUSY, detail)
     else if probe_mode \<noteq> HDMI_LOS_PROBE_XORG_LEGACY \<and> probe_mode \<noteq> HDMI_LOS_PROBE_XORG_ATOMIC
     then return (HDMI_LOS_ERR_PROTOCOL, ''invalid Xorg probe mode'')
     else attempt check_gates (do {
       agent \<leftarrow> gets agent_fd;
       if agent < 0 then return (HDMI_LOS_ERR_AGENT, ''start the chroot agent first'')
       else attempt take_guards (do {
         open_window;
         attempt (prepare_agent probe_mode) (take_lease probe_mode)
       })
     })
   }"

subsection \<open>The lease probe\<close>

definition FinishLeaseProbe :: "int \<Rightarrow> u32 \<Rightarrow> string \<Rightarrow> (broker, u32 \<times> string) state" where
  "FinishLeaseProbe lease status message = do {
     close_passed lease;
     (ok, response, fd) \<leftarrow> ComposerRequest HDMI_LOS_OP_RELEASE zero_message False 0;
     let released = (ok \<and> m_status response = HDMI_LOS_OK);
     modify (\<lambda>s. s\<lparr>probing := False\<rparr>);
     CleanupGuards;
     modify (\<lambda>s. s\<lparr>state_detail := message\<rparr>);
     return (if status = HDMI_LOS_OK \<and> \<not> released
             then (HDMI_LOS_ERR_IO, ''lease probe completed but composer restore failed'')
             else (status, message))
   }"

text \<open>The loop of the hold over the scripted polls: whether it was escaped.\<close>

fun hold_loop :: "poll_events call list \<Rightarrow> int \<Rightarrow> (broker, bool) state" where
  "hold_loop [] end_ms = do {
     modify (\<lambda>s. s\<lparr>w_now := max (w_now s) end_ms\<rparr>);
     return False
   }"
| "hold_loop (answer # answers) end_ms = do {
     now \<leftarrow> monotonic_ms;
     if end_ms \<le> now then return False
     else do {
       log_effect (Polled 50);
       modify (\<lambda>s. s\<lparr>w_polls := answers\<rparr>);
       case answer of
         CallErr e \<Rightarrow> if e = EINTR then hold_loop answers end_ms else return True
       | CallOk ev \<Rightarrow> do {
           down \<leftarrow> gets vol_down;
           up \<leftarrow> gets vol_up;
           escaped \<leftarrow> volumes_Update (revents down (pe_down ev)) (revents up (pe_up ev));
           if escaped then return True else hold_loop answers end_ms
         }
     }
   }"

definition hold_lease :: "int \<Rightarrow> (broker, u32 \<times> string) state" where
  "hold_lease lease = do {
     now \<leftarrow> monotonic_ms;
     answers \<leftarrow> gets w_polls;
     escaped \<leftarrow> hold_loop answers (now + kLeaseHoldMs);
     FinishLeaseProbe lease HDMI_LOS_OK
       (if escaped then ''lease-only probe restored early by volume escape''
        else ''lease-only probe completed and Android restored'')
   }"

definition probe_phase :: "u32 \<Rightarrow> bool \<Rightarrow> string \<Rightarrow> (int \<Rightarrow> (broker, u32 \<times> string) state) \<Rightarrow>
    (broker, u32 \<times> string) state" where
  "probe_phase phase want_fd fallback rest = do {
     (ok, response, lease) \<leftarrow> ComposerRequest HDMI_LOS_OP_ACQUIRE zero_message want_fd phase;
     if \<not> ok \<or> m_status response \<noteq> HDMI_LOS_OK \<or> (want_fd \<and> lease < 0)
     then FinishLeaseProbe lease (status_or_io response) (detail_or response fallback)
     else rest lease
   }"

definition ProbeLease :: "string \<Rightarrow> (broker, u32 \<times> string) state" where
  "ProbeLease detail = do {
     busy \<leftarrow> gets (\<lambda>s. active s \<or> probing s);
     if busy then return (HDMI_LOS_ERR_BUSY, detail)
     else attempt check_gates (attempt take_guards (do {
       now \<leftarrow> monotonic_ms;
       modify (\<lambda>s. s\<lparr>probing := True, deadline_ms := now + 15000,
         state_detail := ''lease-only diagnostic probe running''\<rparr>);
       probe_phase HDMI_LOS_ACQUIRE_PREPARE False ''composer lease preparation failed'' (\<lambda>_.
       probe_phase HDMI_LOS_ACQUIRE_PAUSE False ''composer display pause failed'' (\<lambda>_.
       probe_phase HDMI_LOS_ACQUIRE_CREATE True ''composer lease creation failed'' hold_lease))
     }))
   }"

subsection \<open>Arming and restoring\<close>

definition Disarm :: "string \<Rightarrow> (broker, unit) state" where
  "Disarm reason = do {
     modify (\<lambda>s. s\<lparr>armed := False, preference_applied := False, replug_required := False,
       stable_mode_samples := 0, next_mode_poll_ms := 0, composer_disconnect_pending := False\<rparr>);
     RecoverPreferredMode;
     modify (\<lambda>s. s\<lparr>state_detail := reason\<rparr>)
   }"

definition set_detail :: "string \<Rightarrow> (broker, unit) state" where
  "set_detail d = modify (\<lambda>s. s\<lparr>state_detail := d\<rparr>)"

text \<open>Arming proper, after the checks.\<close>

definition arm_now :: "string \<Rightarrow> (broker, u32 \<times> string) state" where
  "arm_now detail = do {
     now \<leftarrow> monotonic_ms;
     modify (\<lambda>s. s\<lparr>armed := True, preference_applied := False, stable_mode_samples := 0,
       armed_since_ms := now, next_mode_poll_ms := 0, composer_disconnect_pending := False\<rparr>);
     (ok, status, fd) \<leftarrow> ComposerRequest HDMI_LOS_OP_STATUS zero_message False 0;
     connected \<leftarrow> gets (\<lambda>s. has_bits (composer_flags s) HDMI_LOS_FLAG_CONNECTED);
     if \<not> ok then do {
       modify (\<lambda>s. s\<lparr>replug_required := True\<rparr>);
       set_detail ''armed; waiting for composer to confirm HDMI is disconnected'';
       d \<leftarrow> gets state_detail;
       return (HDMI_LOS_OK, d)
     }
     else if connected then do {
       modify (\<lambda>s. s\<lparr>replug_required := True\<rparr>);
       set_detail ''armed; unplug HDMI so the preferred mode can be set safely'';
       d \<leftarrow> gets state_detail;
       return (HDMI_LOS_OK, d)
     }
     else do {
       modify (\<lambda>s. s\<lparr>replug_required := False\<rparr>);
       (applied, detail) \<leftarrow> ApplyPreferredMode detail;
       if \<not> applied then do {
         modify (\<lambda>s. s\<lparr>armed := False\<rparr>);
         return (HDMI_LOS_ERR_IO, detail)
       }
       else do {
         modify (\<lambda>s. s\<lparr>preference_applied := True\<rparr>);
         set_detail ''armed; connect HDMI, accept Mirror, and start the chroot agent'';
         d \<leftarrow> gets state_detail;
         return (HDMI_LOS_OK, d)
       }
     }
   }"

definition Arm :: "hdmi_los_message \<Rightarrow> string \<Rightarrow> (broker, u32 \<times> string) state" where
  "Arm request detail = do {
     busy \<leftarrow> gets (\<lambda>s. active s \<or> probing s);
     already \<leftarrow> gets armed;
     if busy then return (HDMI_LOS_ERR_BUSY, detail)
     else if already then do {
       d \<leftarrow> gets state_detail;
       return (HDMI_LOS_OK, d)
     }
     else do {
       (status, detail) \<leftarrow>
         (if m_requested_width request \<noteq> 0 \<or> m_requested_height request \<noteq> 0 \<or>
             m_requested_refresh_millihz request \<noteq> 0
          then SetMode request else return (HDMI_LOS_OK, detail));
       if status \<noteq> HDMI_LOS_OK then return (status, detail)
       else do {
         failure \<leftarrow> check_gates;
         case failure of
           Some f \<Rightarrow> return (HDMI_LOS_ERR_INCOMPATIBLE, ''module compatibility gate is closed'')
         | None \<Rightarrow> arm_now detail
       }
     }
   }"

definition PreserveArmAcrossDisconnect :: "(broker, unit) state" where
  "PreserveArmAcrossDisconnect = modify (\<lambda>s. s\<lparr>composer_disconnect_pending := False,
     replug_required := False, stable_mode_samples := 0, next_mode_poll_ms := 0,
     state_detail := ''armed; HDMI disconnected, applying preferred mode''\<rparr>)"

definition fail_armed :: "string \<Rightarrow> (broker, unit) state" where
  "fail_armed failure = do {
     Disarm failure;
     set_detail failure
   }"

definition reset_samples :: "(broker, unit) state" where
  "reset_samples = modify (\<lambda>s. s\<lparr>stable_mode_samples := 0\<rparr>)"

text \<open>A poll of the composer while it reports no display.\<close>

definition advance_disconnected :: "(broker, unit) state" where
  "advance_disconnected = do {
     reset_samples;
     applied \<leftarrow> gets preference_applied;
     (ok, detail) \<leftarrow> (if applied then return (True, '''') else ApplyPreferredMode '''');
     if \<not> ok then
       fail_armed (if detail = [] then ''could not set the preferred mode while HDMI was disconnected'' else detail)
     else modify (\<lambda>s. s\<lparr>preference_applied := True, replug_required := False,
            state_detail := ''armed; connect HDMI and accept Mirror''\<rparr>)
   }"

text \<open>A poll while it reports one.\<close>

definition advance_connected :: "int \<Rightarrow> (broker, unit) state" where
  "advance_connected now = do {
     s \<leftarrow> gets (\<lambda>s. s);
     if replug_required s \<or> \<not> preference_applied s
     then set_detail ''armed; unplug HDMI so the preferred mode can be set safely''
     else if \<not> RequestedModeMatches s then do {
       reset_samples;
       set_detail (if kModeMismatchMs \<le> now - armed_since_ms s
                   then ''armed; connected HDMI mode does not match the configured preset''
                   else ''armed; waiting for Android to settle on the configured mode'')
     }
     else if \<not> has_bits (composer_flags s) HDMI_LOS_FLAG_LEASE_READY then do {
       reset_samples;
       set_detail ''armed; Mirror is connected but the display is not lease-ready yet''
     }
     else if agent_fd s < 0 then do {
       reset_samples;
       set_detail ''armed; matching HDMI is ready, start the chroot run-agent''
     }
     else do {
       modify (\<lambda>s. s\<lparr>stable_mode_samples := stable_mode_samples s + 1,
         state_detail := ''armed; matching mode is stable, starting Xorg''\<rparr>);
       samples \<leftarrow> gets stable_mode_samples;
       if samples < kModeStableSamples then return ()
       else do {
         (status, detail) \<leftarrow> Start HDMI_LOS_PROBE_XORG_LEGACY '''';
         whenever (status \<noteq> HDMI_LOS_OK)
           (fail_armed (if detail = [] then ''automatic Xorg startup failed'' else detail))
       }
     }
   }"

definition AdvanceArmed :: "(broker, unit) state" where
  "AdvanceArmed = do {
     now \<leftarrow> monotonic_ms;
     next \<leftarrow> gets next_mode_poll_ms;
     if now < next then return ()
     else do {
       modify (\<lambda>s. s\<lparr>next_mode_poll_ms := now + kModePollMs\<rparr>);
       (ok, status, fd) \<leftarrow> ComposerRequest HDMI_LOS_OP_STATUS zero_message False 0;
       if \<not> ok then do {
         reset_samples;
         set_detail ''armed; waiting for the patched composer service''
       }
       else do {
         connected \<leftarrow> gets (\<lambda>s. has_bits (composer_flags s) HDMI_LOS_FLAG_CONNECTED);
         if \<not> connected then advance_disconnected else advance_connected now
       }
     }
   }"

definition Release :: "string \<Rightarrow> bool \<Rightarrow> (broker, unit) state" where
  "Release reason tell_composer = do {
     idle \<leftarrow> gets (\<lambda>s. \<not> active s \<and> vol_down s < 0 \<and> vol_up s < 0);
     if idle then return ()
     else do {
       agent \<leftarrow> gets agent_fd;
       whenever (0 \<le> agent) (do {
         sent \<leftarrow> stop_agent;
         whenever sent (do {
           WaitAgent HDMI_LOS_OP_AGENT_READY kAgentStopMs zero_message;
           return ()
         })
       });
       composer \<leftarrow> gets composer_fd;
       whenever (tell_composer \<and> 0 \<le> composer) (do {
         ComposerRequest HDMI_LOS_OP_RELEASE zero_message False 0;
         return ()
       });
       modify (\<lambda>s. s\<lparr>active := False\<rparr>);
       CleanupGuards;
       was_armed \<leftarrow> gets armed;
       whenever was_armed (do {
         modify (\<lambda>s. s\<lparr>armed := False, preference_applied := False, replug_required := False,
           stable_mode_samples := 0\<rparr>);
         RecoverPreferredMode;
         return ()
       });
       set_detail reason
     }
   }"

subsection \<open>Status\<close>

definition put_detail :: "string \<Rightarrow> hdmi_los_message \<Rightarrow> hdmi_los_message" where
  "put_detail d m = m\<lparr>m_detail := c_snprintf (m_detail m) d\<rparr>"

definition remaining_seconds :: "(broker, u32) state" where
  "remaining_seconds = do {
     now \<leftarrow> monotonic_ms;
     deadline \<leftarrow> gets deadline_ms;
     return (word_of_int (max 0 ((deadline - now + 999) div 1000)))
   }"

text \<open>The part of the status that is common to all states.\<close>

definition status_base :: "u32 \<Rightarrow> bool \<Rightarrow> broker \<Rightarrow> hdmi_los_message \<Rightarrow> hdmi_los_message" where
  "status_base request_id gates s m =
     m\<lparr>m_request_id := request_id,
       m_status := (if gates then HDMI_LOS_OK else HDMI_LOS_ERR_INCOMPATIBLE),
       m_requested_width := requested_width s, m_requested_height := requested_height s,
       m_requested_refresh_millihz := requested_refresh_millihz s,
       m_active_width := active_width s, m_active_height := active_height s,
       m_active_refresh_millihz := active_refresh_millihz s,
       m_flags := (composer_flags s AND (HDMI_LOS_FLAG_CONNECTED OR HDMI_LOS_FLAG_LEASE_READY OR
           HDMI_LOS_FLAG_ACTIVE_MODE)) OR
         (if armed s then HDMI_LOS_FLAG_ARMED else 0) OR
         (if replug_required s then HDMI_LOS_FLAG_REPLUG_REQUIRED else 0)\<rparr>"

definition Status :: "u32 \<Rightarrow> (broker, hdmi_los_message) state" where
  "Status request_id = do {
     status \<leftarrow> make_message (HDMI_LOS_OP_STATUS OR HDMI_LOS_OP_RESPONSE);
     compat \<leftarrow> compatible;
     gates \<leftarrow> (if compat then diagnostic_dump_ready else return False);
     status \<leftarrow> gets (\<lambda>s. status_base request_id gates s status);
     compat \<leftarrow> compatible;
     if \<not> compat then
       return (put_detail ''incompatible or unverified Lineage build'' (status\<lparr>m_state := HDMI_LOS_STATE_UNAVAILABLE\<rparr>))
     else do {
       ready \<leftarrow> diagnostic_dump_ready;
       s \<leftarrow> gets (\<lambda>s. s);
       if \<not> ready then
         return (put_detail ''diagnostic display recovery dump gate is closed''
           (status\<lparr>m_state := HDMI_LOS_STATE_UNAVAILABLE\<rparr>))
       else if probing s then do {
         remaining \<leftarrow> remaining_seconds;
         return (put_detail (state_detail s)
           (status\<lparr>m_state := HDMI_LOS_STATE_PROBING, m_remaining_seconds := remaining\<rparr>))
       }
       else if active s then do {
         remaining \<leftarrow> (if session_continuous s then return 0 else remaining_seconds);
         return (put_detail (state_detail s)
           (status\<lparr>m_state := HDMI_LOS_STATE_LEASED, m_remaining_seconds := remaining,
              m_flags := m_flags status OR (if session_continuous s then HDMI_LOS_FLAG_CONTINUOUS else 0)\<rparr>))
       }
       else if armed s then
         return (put_detail (state_detail s) (status\<lparr>m_state :=
           (if RequestedModeMatches s then HDMI_LOS_STATE_ARMED else HDMI_LOS_STATE_WAITING)\<rparr>))
       else if 0 \<le> agent_fd s then do {
         diagnostic \<leftarrow> diagnostic_only;
         return (put_detail
           (if diagnostic then ''diagnostic build ready; use a root probe command''
            else if agent_continuous s then ''continuous chroot agent ready; Android owns display''
            else ''bounded chroot agent ready; Android owns display'')
           (status\<lparr>m_state := HDMI_LOS_STATE_AGENT_READY,
              m_flags := m_flags status OR (if agent_continuous s then HDMI_LOS_FLAG_CONTINUOUS else 0)\<rparr>))
       }
       else return (put_detail ''Android owns display; chroot agent absent''
              (status\<lparr>m_state := HDMI_LOS_STATE_ANDROID\<rparr>))
     }
   }"

subsection \<open>Clients\<close>

definition register_agent :: "client \<Rightarrow> hdmi_los_message \<Rightarrow> (broker, unit) state" where
  "register_agent c request = do {
     s \<leftarrow> gets (\<lambda>s. s);
     if has_bits (m_flags request) (NOT HDMI_LOS_FLAG_CONTINUOUS) then do {
       rejected \<leftarrow> Status (m_request_id request);
       write_client c (put_detail ''unknown agent registration flag'' (rejected\<lparr>m_status := HDMI_LOS_ERR_PROTOCOL\<rparr>));
       close_fd (cl_fd c)
     }
     else if active s \<or> probing s \<or> 0 \<le> agent_fd s then do {
       busy \<leftarrow> Status (m_request_id request);
       write_client c (busy\<lparr>m_status := HDMI_LOS_ERR_BUSY\<rparr>);
       close_fd (cl_fd c)
     }
     else do {
       modify (\<lambda>s. s\<lparr>agent_fd := cl_fd c, w_agent_send := cl_send c, w_agent_in := cl_in c,
         agent_continuous := has_bits (m_flags request) HDMI_LOS_FLAG_CONTINUOUS\<rparr>);
       ready \<leftarrow> Status (m_request_id request);
       write_agent (ready\<lparr>m_status := HDMI_LOS_OK, m_state := HDMI_LOS_STATE_AGENT_READY\<rparr>);
       return ()
     }
   }"

text \<open>The answer to a command: the status afterwards with the command's own result.\<close>

definition command_reply :: "hdmi_los_message \<Rightarrow> u32 \<times> string \<Rightarrow> (broker, hdmi_los_message) state" where
  "command_reply request result = do {
     response \<leftarrow> Status (m_request_id request);
     return (put_detail (snd result) (response\<lparr>m_status := fst result\<rparr>))
   }"

definition command_reply_nonempty :: "hdmi_los_message \<Rightarrow> u32 \<times> string \<Rightarrow> (broker, hdmi_los_message) state" where
  "command_reply_nonempty request result = do {
     response \<leftarrow> Status (m_request_id request);
     let response = response\<lparr>m_status := fst result\<rparr>;
     return (if snd result = [] then response else put_detail (snd result) response)
   }"

definition toggle :: "hdmi_los_message \<Rightarrow> hdmi_los_message \<Rightarrow> (broker, hdmi_los_message) state" where
  "toggle request response = do {
     s \<leftarrow> gets (\<lambda>s. s);
     if active s then do {
       Release ''Quick Settings tile requested restore'' True;
       Status (m_request_id request)
     }
     else if armed s then do {
       Disarm ''HDMI Xorg disarmed; Android preferred mode restored'';
       Status (m_request_id request)
     }
     else do {
       diagnostic \<leftarrow> diagnostic_only;
       if diagnostic then
         return (put_detail ''diagnostic build: use a root probe command'' (response\<lparr>m_status := HDMI_LOS_ERR_STATE\<rparr>))
       else do {
         result \<leftarrow> Arm request '''';
         command_reply_nonempty request result
       }
     }
   }"

definition probe :: "hdmi_los_message \<Rightarrow> (broker, u32 \<times> string) state" where
  "probe request =
     (if m_flags request = HDMI_LOS_PROBE_LEASE_HOLD then ProbeLease ''''
      else if m_flags request = HDMI_LOS_PROBE_XORG_LEGACY \<or> m_flags request = HDMI_LOS_PROBE_XORG_ATOMIC
      then Start (m_flags request) ''''
      else return (HDMI_LOS_ERR_PROTOCOL, ''unknown diagnostic probe mode''))"

definition command :: "bool \<Rightarrow> hdmi_los_message \<Rightarrow> hdmi_los_message \<Rightarrow> (broker, hdmi_los_message) state" where
  "command is_root request response =
     (if m_opcode request = HDMI_LOS_OP_TOGGLE then toggle request response
      else if m_opcode request = HDMI_LOS_OP_SET_MODE then do {
        result \<leftarrow> SetMode request;
        command_reply request result
      }
      else if m_opcode request = HDMI_LOS_OP_ARM then do {
        result \<leftarrow> Arm request '''';
        command_reply request result
      }
      else if m_opcode request = HDMI_LOS_OP_DISARM then do {
        running \<leftarrow> gets active;
        (if running then Release ''HDMI Xorg stopped and disarmed'' True
         else Disarm ''HDMI Xorg disarmed; Android preferred mode restored'');
        Status (m_request_id request)
      }
      else if m_opcode request = HDMI_LOS_OP_PROBE then
        if \<not> is_root then
          return (put_detail ''diagnostic probes require root'' (response\<lparr>m_status := HDMI_LOS_ERR_PERMISSION\<rparr>))
        else do {
          result \<leftarrow> probe request;
          command_reply_nonempty request result
        }
      else if m_opcode request \<noteq> HDMI_LOS_OP_STATUS \<and> m_opcode request \<noteq> HDMI_LOS_OP_PING then
        return (put_detail ''unsupported broker command'' (response\<lparr>m_status := HDMI_LOS_ERR_PROTOCOL\<rparr>))
      else return response)"

definition deny :: "client \<Rightarrow> hdmi_los_message \<Rightarrow> (broker, unit) state" where
  "deny c request = do {
     denied \<leftarrow> Status (m_request_id request);
     write_client c (put_detail ''peer uid is not authorized'' (denied\<lparr>m_status := HDMI_LOS_ERR_PERMISSION\<rparr>));
     close_fd (cl_fd c)
   }"

definition serve_command :: "bool \<Rightarrow> client \<Rightarrow> hdmi_los_message \<Rightarrow> (broker, unit) state" where
  "serve_command is_root c request = do {
     ComposerRequest HDMI_LOS_OP_STATUS zero_message False 0;
     response \<leftarrow> Status (m_request_id request);
     response \<leftarrow> command is_root request response;
     write_client c response;
     close_fd (cl_fd c)
   }"

text \<open>A client whose request was read, by its uid.\<close>

definition serve_client :: "u32 \<Rightarrow> client \<Rightarrow> hdmi_los_message \<Rightarrow> (broker, unit) state" where
  "serve_client uid c request = do {
     packages \<leftarrow> gets (\<lambda>s. w_packages s 0);
     modify (\<lambda>s. s\<lparr>w_packages := later (w_packages s)\<rparr>);
     let expected_tile = tile_uid packages;
     let is_root = (uid = 0);
     let tile = (expected_tile \<noteq> - 1 \<and> uid = expected_tile);
     if \<not> is_root \<and> \<not> tile then deny c request
     else if m_opcode request = HDMI_LOS_OP_AGENT_REGISTER \<and> is_root then register_agent c request
     else serve_command is_root c request
   }"

definition AcceptClient :: "(broker, unit) state" where
  "AcceptClient = do {
     clients \<leftarrow> gets w_clients;
     case clients of
       [] \<Rightarrow> return ()
     | c # rest \<Rightarrow> do {
         modify (\<lambda>s. s\<lparr>w_clients := rest\<rparr>);
         if cl_fd c < 0 then return ()
         else do {
           log_effect (Opened (cl_fd c));
           case cl_uid c of
             None \<Rightarrow> close_fd (cl_fd c)
           | Some uid \<Rightarrow>
               let (ok, bs, unread) = read_full HDMI_LOS_MESSAGE_SIZE (cl_in c);
                   request = overlay bs zero_message
               in if \<not> ok \<or> \<not> valid_message request then close_fd (cl_fd c)
                  else serve_client uid (c\<lparr>cl_in := unread\<rparr>) request
         }
       }
   }"

subsection \<open>The main loop\<close>

definition on_composer :: "u16 \<Rightarrow> (broker, unit) state" where
  "on_composer events = do {
     fd \<leftarrow> gets composer_fd;
     if 0 \<le> fd \<and> has_bits events POLLBAD then do {
       drop_composer;
       running \<leftarrow> gets active;
       whenever running (Release ''composer disconnected'' False)
     }
     else if 0 \<le> fd \<and> has_bits events POLLIN then do {
       hotplug \<leftarrow> HandleComposerReadable;
       s \<leftarrow> gets (\<lambda>s. s);
       case hotplug of
         kInvalid \<Rightarrow>
           if active s then Release ''invalid composer hotplug event'' True
           else whenever (armed s) (Disarm ''invalid composer hotplug event'')
       | kDisconnected \<Rightarrow>
           if active s then Release ''composer hotplug/disconnect event'' True
           else whenever (armed s) PreserveArmAcrossDisconnect
       | kConnected \<Rightarrow> return ()
     }
     else return ()
   }"

definition on_agent :: "u16 \<Rightarrow> (broker, unit) state" where
  "on_agent events = do {
     fd \<leftarrow> gets agent_fd;
     if 0 \<le> fd \<and> has_bits events POLLBAD then do {
       close_fd fd;
       modify (\<lambda>s. s\<lparr>agent_fd := - 1, agent_continuous := False\<rparr>);
       running \<leftarrow> gets active;
       whenever running (Release ''chroot agent disconnected'' True)
     }
     else if 0 \<le> fd \<and> has_bits events POLLIN then do {
       (ok, event) \<leftarrow> read_agent zero_message;
       handled \<leftarrow> (if ok \<and> valid_message event then HandleAgentEvent event else return False);
       running \<leftarrow> gets active;
       whenever (\<not> handled \<and> running) (Release ''Xorg agent reported failure'' True)
     }
     else return ()
   }"

definition on_volumes :: "u16 \<Rightarrow> u16 \<Rightarrow> (broker, unit) state" where
  "on_volumes down_events up_events = do {
     running \<leftarrow> gets active;
     escaped \<leftarrow> (if running then volumes_Update down_events up_events else return False);
     whenever escaped (Release ''both-volume escape or volume input loss'' True)
   }"

definition renew_watchdog :: "(broker, unit) state" where
  "renew_watchdog = do {
     (ok, response, fd) \<leftarrow> ComposerRequest HDMI_LOS_OP_PING zero_message False HDMI_LOS_FLAG_CONTINUOUS;
     if \<not> ok \<or> m_status response \<noteq> HDMI_LOS_OK \<or> m_state response \<noteq> HDMI_LOS_STATE_LEASED \<or>
        \<not> has_bits (m_flags response) HDMI_LOS_FLAG_CONTINUOUS
     then Release ''continuous composer watchdog renewal failed'' True
     else do {
       now \<leftarrow> monotonic_ms;
       modify (\<lambda>s. s\<lparr>composer_heartbeat_ms := now + kComposerHeartbeatSeconds * 1000\<rparr>)
     }
   }"

definition heartbeat :: "(broker, unit) state" where
  "heartbeat = do {
     due \<leftarrow> gets (\<lambda>s. active s \<and> session_continuous s);
     whenever due (do {
       now \<leftarrow> monotonic_ms;
       beat \<leftarrow> gets composer_heartbeat_ms;
       whenever (beat \<le> now) renew_watchdog
     })
   }"

definition enforce_deadline :: "(broker, unit) state" where
  "enforce_deadline = do {
     bounded \<leftarrow> gets (\<lambda>s. active s \<and> 0 < deadline_ms s);
     whenever bounded (do {
       now \<leftarrow> monotonic_ms;
       deadline \<leftarrow> gets deadline_ms;
       whenever (deadline \<le> now) (Release ''mandatory 60 second timeout'' True)
     })
   }"

text \<open>
  One iteration after a successful poll. The events belong to the descriptors that were polled,
  not to those that the handlers may have put in their place since.
\<close>

definition broker_step :: "poll_events \<Rightarrow> (broker, unit) state" where
  "broker_step ev = do {
     polled \<leftarrow> gets (\<lambda>s. s);
     whenever (has_bits (revents (listen_fd polled) (pe_listen ev)) POLLIN) AcceptClient;
     on_composer (revents (composer_fd polled) (pe_composer ev));
     on_agent (revents (agent_fd polled) (pe_agent ev));
     on_volumes (revents (vol_down polled) (pe_down ev)) (revents (vol_up polled) (pe_up ev));
     heartbeat;
     enforce_deadline;
     waiting \<leftarrow> gets (\<lambda>s. armed s \<and> \<not> active s);
     whenever waiting AdvanceArmed
   }"

text \<open>The loop until a stop is requested, which is the end of the list, or a poll fails.\<close>

fun broker_loop :: "poll_events call list \<Rightarrow> (broker, unit) state" where
  "broker_loop [] = return ()"
| "broker_loop (answer # answers) = do {
     timeout \<leftarrow> gets (\<lambda>s. if active s \<or> armed s then 100 else 1000);
     log_effect (Polled timeout);
     case answer of
       CallErr e \<Rightarrow> if e = EINTR then broker_loop answers else return ()
     | CallOk ev \<Rightarrow> do {
         broker_step ev;
         broker_loop answers
       }
   }"

definition close_if_open :: "int \<Rightarrow> (broker, unit) state" where
  "close_if_open fd = whenever (0 \<le> fd) (close_fd fd)"

definition shut_down :: "(broker, unit) state" where
  "shut_down = do {
     Release ''broker stopping'' True;
     was_armed \<leftarrow> gets armed;
     whenever was_armed (Disarm ''broker stopping'');
     s \<leftarrow> gets (\<lambda>s. s);
     close_if_open (agent_fd s);
     whenever (0 \<le> composer_fd s) (log_effect (Hung_up (composer_fd s)));
     close_if_open (listen_fd s)
   }"

definition broker_run :: "poll_events call list \<Rightarrow> (broker, int) state" where
  "broker_run answers = do {
     LoadConfiguredMode;
     RecoverPreferredMode;
     fd \<leftarrow> listen_abstract;
     modify (\<lambda>s. s\<lparr>listen_fd := fd\<rparr>);
     if fd < 0 then return 1
     else do {
       broker_loop answers;
       shut_down;
       return 0
     }
   }"

definition new_broker :: "world \<Rightarrow> broker" where
  "new_broker w = world.extend w
     \<lparr>listen_fd = - 1, composer_fd = - 1, agent_fd = - 1, active = False, probing = False,
      agent_continuous = False, session_continuous = False, armed = False,
      preference_applied = False, replug_required = False, composer_disconnect_pending = False,
      requested_width = 1920, requested_height = 1080, requested_refresh_millihz = 60000,
      active_width = 0, active_height = 0, active_refresh_millihz = 0, composer_flags = 0,
      stable_mode_samples = 0, armed_since_ms = 0, next_mode_poll_ms = 0, deadline_ms = 0,
      composer_heartbeat_ms = 0, vol_down = - 1, vol_up = - 1, down_pressed = False,
      up_pressed = False, both_since = 0, state_detail = ''Android owns display'', g_request_id = 1\<rparr>"

end
