(* ===== verification/Broker_Correct.thy ===== *)
theory Broker_Correct
  imports Broker "HOL-Library.Multiset"
begin

section \<open>Invariants of the broker\<close>

text \<open>
  For every method: what it keeps of the session state, that it neither leaks a descriptor nor
  closes one twice, and that the composer's lease is never left open behind its back. Each
  method has one rule, used for all the invariants; the properties follow from the rules.
\<close>

declare composer_answer.simps [simp del] wait_loop.simps [simp del] hold_loop.simps [simp del]
  find_volume.simps [simp del] broker_loop.simps [simp del]

lemma wp_ifI: "(c \<Longrightarrow> wp a Q s) \<Longrightarrow> (\<not> c \<Longrightarrow> wp b Q s) \<Longrightarrow> wp (if c then a else b) Q s"
  by simp

subsection \<open>Projections of the log\<close>

fun opened1 :: "effect \<Rightarrow> int multiset" where
  "opened1 (Opened fd) = {#fd#}"
| "opened1 _ = {#}"

fun closed1 :: "effect \<Rightarrow> int multiset" where
  "closed1 (Closed fd) = {#fd#}"
| "closed1 (Hung_up fd) = {#fd#}"
| "closed1 _ = {#}"

definition opened :: "effect list \<Rightarrow> int multiset" where
  "opened es = sum_list (map opened1 es)"

definition closed :: "effect list \<Rightarrow> int multiset" where
  "closed es = sum_list (map closed1 es)"

text \<open>Whether a lease was asked for and neither released nor given up with the connection since.\<close>

fun lease_step :: "bool \<Rightarrow> effect \<Rightarrow> bool" where
  "lease_step lease (To_composer m) =
     (if m_opcode m = HDMI_LOS_OP_ACQUIRE then True
      else if m_opcode m = HDMI_LOS_OP_RELEASE then False else lease)"
| "lease_step lease (Hung_up fd) = False"
| "lease_step lease _ = lease"

definition lease_open :: "effect list \<Rightarrow> bool" where
  "lease_open es = foldl lease_step False es"

text \<open>What is done to Android's preferred mode and to the files.\<close>

fun is_pref :: "effect \<Rightarrow> bool" where
  "is_pref (Display arguments ok output) = True"
| "is_pref (Wrote path txt) = True"
| "is_pref (Unlinked path) = True"
| "is_pref _ = False"

definition prefs :: "effect list \<Rightarrow> effect list" where
  "prefs es = filter is_pref es"

fun wake1 :: "effect \<Rightarrow> bool list" where
  "wake1 (Wake acquire) = [acquire]"
| "wake1 _ = []"

definition wakes :: "effect list \<Rightarrow> bool list" where
  "wakes es = concat (map wake1 es)"

lemma log_append [simp]:
  "opened (es @ fs) = opened es + opened fs"
  "closed (es @ fs) = closed es + closed fs"
  "lease_open (es @ fs) = foldl lease_step (lease_open es) fs"
  "prefs (es @ fs) = prefs es @ prefs fs"
  "wakes (es @ fs) = wakes es @ wakes fs"
  by (simp_all add: opened_def closed_def lease_open_def prefs_def wakes_def)

lemma log_cons [simp]:
  "opened [] = {#}" "closed [] = {#}" "prefs [] = []" "wakes [] = []" "\<not> lease_open []"
  "opened (e # es) = opened1 e + opened es"
  "closed (e # es) = closed1 e + closed es"
  "prefs (e # es) = (if is_pref e then e # prefs es else prefs es)"
  "wakes (e # es) = wake1 e @ wakes es"
  by (simp_all add: opened_def closed_def prefs_def wakes_def lease_open_def)

subsection \<open>Descriptors and leases\<close>

definition held :: "broker \<Rightarrow> int list" where
  "held s = filter (\<lambda>fd. 0 \<le> fd) [listen_fd s, composer_fd s, agent_fd s, vol_down s, vol_up s]"

text \<open>Every descriptor that was opened is closed, held by a member, or in the given hands.\<close>

definition ledger :: "int multiset \<Rightarrow> broker \<Rightarrow> bool" where
  "ledger X s \<longleftrightarrow> opened (w_log s) = closed (w_log s) + mset (held s) + X"

definition lease_ok :: "broker \<Rightarrow> bool" where
  "lease_ok s \<longleftrightarrow> (lease_open (w_log s) \<longrightarrow> 0 \<le> composer_fd s)"

definition opt_fd :: "int \<Rightarrow> int multiset" where
  "opt_fd fd = (if 0 \<le> fd then {#fd#} else {#})"

lemma held_opt: "mset (held s) = opt_fd (listen_fd s) + opt_fd (composer_fd s) + opt_fd (agent_fd s) +
    opt_fd (vol_down s) + opt_fd (vol_up s)"
  by (simp add: held_def opt_fd_def)

lemma opt_fd_neg [simp]: "fd < 0 \<Longrightarrow> opt_fd fd = {#}" "opt_fd (- 1) = {#}"
  by (simp_all add: opt_fd_def)

lemma opt_fd_nonneg [simp]: "0 \<le> fd \<Longrightarrow> opt_fd fd = {#fd#}"
  by (simp add: opt_fd_def)

subsection \<open>What communication leaves alone\<close>

definition core :: "broker \<Rightarrow> _" where
  "core s = (listen_fd s, agent_fd s, active s, probing s, agent_continuous s, session_continuous s,
     armed s, preference_applied s, replug_required s,
     (requested_width s, requested_height s, requested_refresh_millihz s, stable_mode_samples s,
      armed_since_ms s, next_mode_poll_ms s, deadline_ms s, composer_heartbeat_ms s),
     (vol_down s, vol_up s, state_detail s, w_files s, w_clients s))"

definition calm :: "broker \<Rightarrow> broker \<Rightarrow> bool" where
  "calm s s' \<longleftrightarrow> core s' = core s \<and> w_now s \<le> w_now s' \<and>
     prefs (w_log s') = prefs (w_log s) \<and> wakes (w_log s') = wakes (w_log s)"

lemma calm_refl [simp]: "calm s s"
  by (simp add: calm_def)

lemma calm_trans [trans]: "calm s t \<Longrightarrow> calm t u \<Longrightarrow> calm s u"
  by (auto simp: calm_def)

lemma calm_core: "calm s s' \<Longrightarrow> core s' = core s"
  by (simp add: calm_def)

lemma core_fields:
  assumes "core s' = core s"
  shows "listen_fd s' = listen_fd s" "agent_fd s' = agent_fd s" "active s' = active s" "probing s' = probing s"
    "agent_continuous s' = agent_continuous s" "session_continuous s' = session_continuous s"
    "armed s' = armed s" "preference_applied s' = preference_applied s" "replug_required s' = replug_required s"
    "requested_width s' = requested_width s" "requested_height s' = requested_height s"
    "requested_refresh_millihz s' = requested_refresh_millihz s"
    "stable_mode_samples s' = stable_mode_samples s" "armed_since_ms s' = armed_since_ms s"
    "next_mode_poll_ms s' = next_mode_poll_ms s" "deadline_ms s' = deadline_ms s"
    "composer_heartbeat_ms s' = composer_heartbeat_ms s" "vol_down s' = vol_down s" "vol_up s' = vol_up s"
    "state_detail s' = state_detail s" "w_files s' = w_files s" "w_clients s' = w_clients s"
  using assms by (simp_all add: core_def)

lemmas calm_fields = core_fields [OF calm_core]

text \<open>A step that talks: what it keeps, for every set of descriptors in other hands.\<close>

definition still :: "broker \<Rightarrow> broker \<Rightarrow> bool" where
  "still s s' \<longleftrightarrow> calm s s' \<and> composer_fd s' = composer_fd s \<and>
     lease_open (w_log s') = lease_open (w_log s) \<and> (\<forall>X. ledger X s \<longrightarrow> ledger X s')"

lemma still_refl [simp]: "still s s"
  by (simp add: still_def)

lemma still_trans [trans]: "still s t \<Longrightarrow> still t u \<Longrightarrow> still s u"
  by (auto simp: still_def intro: calm_trans)

interpretation communication: step_preorder still
  by unfold_locales (simp, rule still_trans)

abbreviation talk :: "(broker, 'a) state \<Rightarrow> bool" where
  "talk \<equiv> keeps still"

named_theorems talk_intros

lemmas [talk_intros] = communication.keeps_intros

lemmas talk_rule = keeps_rule [of still]

text \<open>A change of the other fields.\<close>

lemma talk_modify:
  assumes "\<And>s. core (f s) = core s" "\<And>s. w_now s \<le> w_now (f s)" "\<And>s. composer_fd (f s) = composer_fd s"
    "\<And>s. w_log (f s) = w_log s"
  shows "talk (modify f)"
  using assms by (auto simp: keeps_def still_def calm_def ledger_def held_opt core_fields [OF assms(1)])

text \<open>An effect other than those on descriptors, the lease, the preference and the blocker.\<close>

lemma talk_log:
  assumes "opened1 e = {#}" "closed1 e = {#}" "\<not> is_pref e" "wake1 e = []" "\<And>l. lease_step l e = l"
  shows "talk (log_effect e)"
  using assms by (auto simp: keeps_def still_def calm_def log_effect_def ledger_def held_def core_def)

lemma talk_monotonic [talk_intros]: "talk monotonic_ms"
  unfolding monotonic_ms_def by (intro talk_intros talk_modify) (auto simp: core_def)

lemma talk_make_message [talk_intros]: "talk (make_message opcode)"
  unfolding make_message_def by (intro talk_intros talk_modify) (auto simp: core_def)

lemma talk_compatible [talk_intros]: "talk compatible"
  unfolding compatible_def by (intro talk_intros talk_modify) (auto simp: core_def)

lemma talk_diagnostic [talk_intros]: "talk diagnostic_only"
  unfolding diagnostic_only_def by (intro talk_intros talk_modify) (auto simp: core_def)

lemma talk_dump [talk_intros]: "talk diagnostic_dump_ready"
  unfolding diagnostic_dump_ready_def by (intro talk_intros talk_modify) (auto simp: core_def)

lemma talk_write_agent [talk_intros]: "talk (write_agent m)"
  unfolding write_agent_def by (intro talk_intros talk_modify talk_log) (auto simp: core_def)

lemma talk_send_agent_fd [talk_intros]: "talk (send_agent_fd m fd)"
  unfolding send_agent_fd_def by (intro talk_intros talk_modify talk_log) (auto simp: core_def)

lemma talk_read_agent [talk_intros]: "talk (read_agent m)"
  unfolding read_agent_def by (intro talk_intros talk_modify) (auto simp: core_def)

lemma talk_write_client [talk_intros]: "talk (write_client c m)"
  unfolding write_client_def by (intro talk_intros talk_log) auto

lemma talk_check_gates [talk_intros]: "talk check_gates"
  unfolding check_gates_def by (intro talk_intros)

lemma talk_stop_agent [talk_intros]: "talk stop_agent"
  unfolding stop_agent_def by (intro talk_intros)

lemma talk_HandleAgentEvent [talk_intros]: "talk (HandleAgentEvent event)"
  unfolding HandleAgentEvent_def by (intro talk_intros)

lemma talk_volumes_Update [talk_intros]: "talk (volumes_Update d u)"
  unfolding volumes_Update_def read_down_def read_up_def chord_def
  by (intro talk_intros talk_modify) (auto simp: core_def)

lemma talk_CacheComposerStatus [talk_intros]: "talk (CacheComposerStatus m)"
  unfolding CacheComposerStatus_def by (intro talk_modify) (auto simp: core_def)

lemma talk_pending [talk_intros]: "talk (modify (\<lambda>s. s\<lparr>composer_disconnect_pending := p s\<rparr>))"
  by (intro talk_modify) (auto simp: core_def)

lemma talk_remaining [talk_intros]: "talk remaining_seconds"
  unfolding remaining_seconds_def by (intro talk_intros)

lemma talk_Status [talk_intros]: "talk (Status i)"
  unfolding Status_def by (intro talk_intros)

lemma talk_wait_remaining [talk_intros]: "talk (wait_remaining e)"
  unfolding wait_remaining_def by (intro talk_intros)

lemma talk_deadline_passed [talk_intros]: "talk deadline_passed"
  unfolding deadline_passed_def by (intro talk_intros)

subsection \<open>Passed descriptors\<close>

definition received :: "broker \<Rightarrow> int \<Rightarrow> broker \<Rightarrow> bool" where
  "received s fd s' \<longleftrightarrow> calm s s' \<and> composer_fd s' = composer_fd s \<and>
     lease_open (w_log s') = lease_open (w_log s) \<and> (\<forall>X. ledger X s \<longrightarrow> ledger (X + opt_fd fd) s')"

lemma recv_composer_rule:
  assumes "\<And>ok m fd s'. received s fd s' \<Longrightarrow> Q (ok, m, fd) s'"
  shows "wp (recv_composer message) Q s"
  unfolding recv_composer_def note_passed_def log_effect_def
  by (auto simp: wp_simps split: prod.splits intro!: assms)
    (auto simp: received_def calm_def core_def ledger_def held_opt)

lemma close_passed_rule:
  assumes "received s fd t" "\<And>s'. still s s' \<Longrightarrow> Q () s'"
  shows "wp (close_passed fd) Q t"
  using assms(1) unfolding close_passed_def close_fd_def log_effect_def
  by (auto simp: wp_simps intro!: assms(2))
    (auto simp: received_def still_def calm_def core_def ledger_def held_opt)

lemma received_still: "received s fd t \<Longrightarrow> still t u \<Longrightarrow> received s fd u"
  by (auto simp: received_def still_def intro: calm_trans)

subsection \<open>The composer\<close>

lemma drop_composer_rule:
  assumes "0 \<le> composer_fd s" "\<And>s'. calm s s' \<Longrightarrow> composer_fd s' = - 1 \<Longrightarrow> \<not> lease_open (w_log s') \<Longrightarrow>
      (\<And>X. ledger X s \<Longrightarrow> ledger X s') \<Longrightarrow> Q () s'"
  shows "wp drop_composer Q s"
  unfolding drop_composer_def log_effect_def
  using assms(1) by (auto simp: wp_simps intro!: assms(2)) (auto simp: calm_def core_def ledger_def held_opt)

text \<open>What every exchange with the composer guarantees. Only an acquisition opens a lease.\<close>

definition exchanged :: "broker \<Rightarrow> int \<Rightarrow> broker \<Rightarrow> bool" where
  "exchanged s fd s' \<longleftrightarrow> calm s s' \<and> lease_ok s' \<and> (lease_open (w_log s') \<longrightarrow> lease_open (w_log s)) \<and>
     (\<forall>X. ledger X s \<longrightarrow> ledger (X + opt_fd fd) s')"

lemma exchanged_trans: "exchanged s (- 1) t \<Longrightarrow> exchanged t fd u \<Longrightarrow> exchanged s fd u"
  by (auto simp: exchanged_def intro: calm_trans)

lemma still_exchanged: "still s s' \<Longrightarrow> lease_ok s \<Longrightarrow> exchanged s (- 1) s'"
  by (auto simp: exchanged_def still_def lease_ok_def)

lemma cache_rule:
  assumes "\<And>s'. still s s' \<Longrightarrow> composer_flags s' = m_flags m \<Longrightarrow>
      (composer_disconnect_pending s' \<longrightarrow> composer_disconnect_pending s) \<Longrightarrow> Q () s'"
  shows "wp (CacheComposerStatus m) Q s"
  using talk_CacheComposerStatus [of m] assms
  by (auto simp: keeps_def wp_def CacheComposerStatus_def split: if_splits)

lemma received_exchanged: "received s fd t \<Longrightarrow> lease_ok s \<Longrightarrow> exchanged s fd t"
  by (auto simp: exchanged_def received_def lease_ok_def)

lemma composer_answer_rule:
  assumes "0 \<le> composer_fd s" "\<And>ok m fd s'. exchanged s fd s' \<Longrightarrow> (\<not> want_fd \<Longrightarrow> fd = - 1) \<Longrightarrow>
      (ok \<Longrightarrow> composer_flags s' = m_flags m \<and> 0 \<le> composer_fd s') \<Longrightarrow> Q (ok, m, fd) s'"
  shows "wp (composer_answer fuel i want_fd response) Q s"
  using assms
proof (induction fuel arbitrary: s response)
  case 0
  then show ?case by (auto simp: wp_simps composer_answer.simps exchanged_def lease_ok_def)
next
  case (Suc fuel)
  have ok: "lease_ok s" using Suc.prems(1) by (simp add: lease_ok_def)
  have fd_kept: "0 \<le> composer_fd t" if "still s t" for t using that Suc.prems(1) by (simp add: still_def)
  have drop: "wp drop_composer (\<lambda>_. wp (return (False, m, - 1)) Q) t" if "still s t" for t m
  proof (rule drop_composer_rule)
    show "0 \<le> composer_fd t" by (rule fd_kept [OF that])
    show "wp (return (False, m, - 1)) Q u" if "calm t u" "composer_fd u = - 1" "\<not> lease_open (w_log u)"
        "\<And>X. ledger X t \<Longrightarrow> ledger X u" for u
      using that \<open>still s t\<close> unfolding wp_return
      by (intro Suc.prems(2)) (auto simp: exchanged_def still_def lease_ok_def intro: calm_trans)
  qed
  have again: "wp (CacheComposerStatus m) (\<lambda>_. wp (modify (\<lambda>s. s\<lparr>composer_disconnect_pending := p s\<rparr>))
      (\<lambda>_. wp (composer_answer fuel i want_fd m) Q)) t" if t: "still s t" for t m p
  proof (intro talk_rule [OF talk_CacheComposerStatus] talk_rule [OF talk_pending] Suc.IH)
    fix u v assume uv: "still t u" "still u v"
    then have v: "still s v" using t still_trans by blast
    show "0 \<le> composer_fd v" by (rule fd_kept [OF v])
    show "Q (ok, m, fd) s'" if "exchanged v fd s'" "\<not> want_fd \<Longrightarrow> fd = - 1"
        "ok \<Longrightarrow> composer_flags s' = m_flags m \<and> 0 \<le> composer_fd s'" for ok m fd s'
      using that exchanged_trans [OF still_exchanged [OF v \<open>lease_ok s\<close>]] by (intro Suc.prems(2)) auto
  qed
  have final: "wp (whenever (\<not> want_fd) (close_passed fd)) (\<lambda>_. wp (CacheComposerStatus m)
      (\<lambda>_. wp (gets composer_disconnect_pending) (\<lambda>pending. wp (return (\<not> pending, m, if want_fd then fd else - 1)) Q))) t"
    if r: "received s fd t" for fd t m
  proof (cases want_fd)
    case True
    show ?thesis
      unfolding wp_whenever
    proof (simp add: True, rule cache_rule, simp add: wp_simps, rule Suc.prems(2))
      fix u assume u: "still t u" "composer_flags u = m_flags m"
      have "received s fd u" by (rule received_still [OF r u(1)])
      then show "exchanged s fd u" "composer_flags u = m_flags m \<and> 0 \<le> composer_fd u"
        using u Suc.prems(1) ok by (auto simp: received_exchanged received_def)
    qed (simp add: True)
  next
    case False
    show ?thesis
      unfolding wp_whenever
    proof (simp add: False, rule close_passed_rule [OF r], rule cache_rule, simp add: wp_simps, rule Suc.prems(2))
      fix u v assume u: "still s u" "still u v" "composer_flags v = m_flags m"
      then have v: "still s v" using still_trans by blast
      show "exchanged s (- 1) v" by (rule still_exchanged [OF v ok])
      show "composer_flags v = m_flags m \<and> 0 \<le> composer_fd v" using u(3) fd_kept [OF v] by simp
    qed simp
  qed
  show ?case
    unfolding composer_answer.simps wp_bind
  proof (rule recv_composer_rule, goal_cases)
    case (1 ok m fd t)
    then show ?case
      by (simp only: prod.case) (intro wp_ifI; simp only: wp_bind; intro close_passed_rule [OF 1] drop again final)
  qed
qed

lemma talk_HandleComposerReadable [talk_intros]: "talk HandleComposerReadable"
proof (rule keeps_I)
  fix s
  have tail: "wp m (\<lambda>x. still s) t" if "talk m" "still s t" for t and m :: "(broker, composer_hotplug) state"
    using that by (intro talk_rule [OF that(1)]) (auto intro: still_trans)
  show "wp HandleComposerReadable (\<lambda>x. still s) s"
    unfolding HandleComposerReadable_def
    by (subst wp_bind, rule recv_composer_rule, simp only: prod.case, intro wp_ifI)
      (subst wp_bind, rule close_passed_rule, assumption, rule tail, intro talk_intros, assumption)+
qed

lemma talk_wait_composer [talk_intros]: "talk (wait_composer ev)"
  unfolding wait_composer_def by (intro talk_intros)

lemma talk_wait_event [talk_intros]: "talk (wait_event wanted ev response)"
  unfolding wait_event_def by (intro talk_intros)

lemma talk_wait_loop [talk_intros]: "talk (wait_loop answers end_ms wanted response)"
proof (induction answers arbitrary: response)
  case Nil
  show ?case unfolding wait_loop.simps
    by (intro talk_intros talk_modify) (auto simp: core_def)
next
  case (Cons answer answers)
  show ?case unfolding wait_loop.simps
    by (intro talk_intros talk_modify talk_log Cons.IH) (auto simp: core_def)
qed

lemma talk_WaitAgent [talk_intros]: "talk (WaitAgent wanted timeout response)"
  unfolding WaitAgent_def by (intro talk_intros)

lemma talk_hold_loop [talk_intros]: "talk (hold_loop answers end_ms)"
proof (induction answers)
  case Nil
  show ?case unfolding hold_loop.simps
    by (intro talk_intros talk_modify) (auto simp: core_def)
next
  case (Cons answer answers)
  show ?case unfolding hold_loop.simps
    by (intro talk_intros talk_modify talk_log Cons.IH) (auto simp: core_def)
qed

lemma open_socket_rule:
  assumes "\<And>fd s'. received s fd s' \<Longrightarrow> fd < 0 \<longrightarrow> fd = - 1 \<Longrightarrow> Q fd s'"
  shows "wp open_socket Q s"
  unfolding open_socket_def log_effect_def
  by (auto simp: wp_simps split: prod.splits intro!: assms)
    (auto simp: received_def calm_def core_def ledger_def held_opt)

lemma EnsureComposer_rule:
  assumes "lease_ok s" "\<And>ok s'. exchanged s (- 1) s' \<Longrightarrow> (ok \<longleftrightarrow> 0 \<le> composer_fd s') \<Longrightarrow>
      (ok \<longleftrightarrow> lease_open (w_log s') \<or> ok) \<Longrightarrow> lease_open (w_log s') = lease_open (w_log s) \<Longrightarrow> Q ok s'"
  shows "wp EnsureComposer Q s"
  unfolding EnsureComposer_def connect_abstract_def wp_bind wp_gets
proof (intro wp_ifI)
  show "wp (return True) Q s" if "0 \<le> composer_fd s"
    unfolding wp_return using that assms(1) by (intro assms(2)) (auto simp: exchanged_def)
  show "wp (open_socket \<bind> (\<lambda>fd. modify (\<lambda>s. s\<lparr>composer_fd := fd\<rparr>) \<bind> (\<lambda>_. return (0 \<le> fd)))) Q s"
    if "\<not> 0 \<le> composer_fd s"
    unfolding wp_bind
  proof (rule open_socket_rule, simp add: wp_simps, rule assms(2))
    fix fd t assume "received s fd t" "fd < 0 \<longrightarrow> fd = - 1"
    then show "exchanged s (- 1) (t\<lparr>composer_fd := fd\<rparr>)"
      using that assms(1)
      by (auto simp: exchanged_def received_def calm_def core_def ledger_def held_opt lease_ok_def)
  qed (use that assms(1) in \<open>auto simp: lease_ok_def received_def\<close>)
qed

text \<open>A request: only an acquisition can open a lease, and after a release none is open.\<close>

definition asked :: "u16 \<Rightarrow> broker \<Rightarrow> int \<Rightarrow> broker \<Rightarrow> bool" where
  "asked opcode s fd s' \<longleftrightarrow> calm s s' \<and> lease_ok s' \<and>
     (opcode \<noteq> HDMI_LOS_OP_ACQUIRE \<longrightarrow> lease_open (w_log s') \<longrightarrow> lease_open (w_log s)) \<and>
     (opcode = HDMI_LOS_OP_RELEASE \<longrightarrow> \<not> lease_open (w_log s')) \<and>
     (\<forall>X. ledger X s \<longrightarrow> ledger (X + opt_fd fd) s')"

lemma ComposerRequest_rule:
  assumes "lease_ok s" "\<And>ok m fd s'. asked opcode s fd s' \<Longrightarrow> (\<not> want_fd \<Longrightarrow> fd = - 1) \<Longrightarrow>
      (ok \<Longrightarrow> composer_flags s' = m_flags m \<and> 0 \<le> composer_fd s') \<Longrightarrow> Q (ok, m, fd) s'"
  shows "wp (ComposerRequest opcode response want_fd flags) Q s"
  unfolding ComposerRequest_def
proof (subst wp_bind, rule EnsureComposer_rule [OF assms(1)], intro wp_ifI)
  fix ok t
  assume t: "exchanged s (- 1) t" "ok \<longleftrightarrow> 0 \<le> composer_fd t" "lease_open (w_log t) = lease_open (w_log s)"
  show "wp (return (False, response, - 1)) Q t" if "\<not> ok"
    unfolding wp_return using t that by (intro assms(2)) (auto simp: asked_def exchanged_def lease_ok_def)
  assume "\<not> \<not> ok"
  then have fd: "0 \<le> composer_fd t" using t(2) by simp
  have send: "wp (if \<not> sent then drop_composer \<bind> (\<lambda>_. return (False, response, - 1))
      else log_effect (To_composer request) \<bind> (\<lambda>_. gets (\<lambda>s. Suc (length (w_composer_in s))) \<bind>
        (\<lambda>fuel. composer_answer fuel (m_request_id request) want_fd response))) Q u"
    if u: "still t u" and op: "m_opcode request = opcode" for sent request u
  proof (intro wp_ifI)
    have fdu: "0 \<le> composer_fd u" using u fd by (simp add: still_def)
    show "wp (drop_composer \<bind> (\<lambda>_. return (False, response, - 1))) Q u"
      unfolding wp_bind
    proof (rule drop_composer_rule [OF fdu], simp add: wp_simps, rule assms(2))
      fix v assume "calm u v" "composer_fd v = - 1" "\<not> lease_open (w_log v)" "\<And>X. ledger X u \<Longrightarrow> ledger X v"
      then show "asked opcode s (- 1) v"
        using t(1) u by (auto simp: asked_def exchanged_def still_def lease_ok_def intro: calm_trans)
    qed auto
    define v where "v = u\<lparr>w_log := w_log u @ [To_composer request]\<rparr>"
    have v: "calm u v" "composer_fd v = composer_fd u" "\<And>X. ledger X u \<Longrightarrow> ledger X v"
        "lease_open (w_log v) = lease_step (lease_open (w_log u)) (To_composer request)"
      by (auto simp: v_def calm_def core_def ledger_def held_opt)
    have "wp (composer_answer fuel (m_request_id request) want_fd response) Q v" for fuel
    proof (rule composer_answer_rule)
      show "0 \<le> composer_fd v" using fdu v(2) by simp
      show "Q (ok, m, fd) w" if "exchanged v fd w" "\<not> want_fd \<Longrightarrow> fd = - 1"
          "ok \<Longrightarrow> composer_flags w = m_flags m \<and> 0 \<le> composer_fd w" for ok m fd w
      proof (rule assms(2))
        show "asked opcode s fd w"
          using that(1) v t(1,3) u op
          by (auto simp: asked_def exchanged_def still_def intro: calm_trans split: if_splits)
      qed (use that in auto)
    qed
    then show "wp (log_effect (To_composer request) \<bind> (\<lambda>_. gets (\<lambda>s. Suc (length (w_composer_in s))) \<bind>
        (\<lambda>fuel. composer_answer fuel (m_request_id request) want_fd response))) Q u"
      by (simp add: wp_simps log_effect_def v_def)
  qed
  have made: "wp (make_message opcode) R t" if "\<And>request u. still t u \<Longrightarrow> m_opcode request = opcode \<Longrightarrow> R request u" for R
  proof -
    have "still t (snd (run_state (make_message opcode) t))" by (rule keeps_run [OF talk_make_message])
    moreover have "m_opcode (fst (run_state (make_message opcode) t)) = opcode" by (simp add: make_message_def)
    ultimately show ?thesis using that by (simp add: wp_def case_prod_beta)
  qed
  have sends: "talk (modify (\<lambda>s. s\<lparr>w_composer_send := rest\<rparr>))" for rest by (rule talk_modify) (auto simp: core_def)
  show "wp (make_message opcode \<bind> (\<lambda>request. let request = request\<lparr>m_version := HDMI_LOS_VERSION, m_flags := flags\<rparr>
      in gets w_composer_send \<bind> (\<lambda>answers. let (ok, rest) = send_with_fd answers
        in modify (\<lambda>s. s\<lparr>w_composer_send := rest\<rparr>) \<bind> (\<lambda>_.
          if \<not> ok then drop_composer \<bind> (\<lambda>_. return (False, response, - 1))
          else log_effect (To_composer request) \<bind> (\<lambda>_. gets (\<lambda>s. Suc (length (w_composer_in s))) \<bind>
            (\<lambda>fuel. composer_answer fuel (m_request_id request) want_fd response)))))) Q t"
    apply (subst wp_bind, rule made)
    apply (simp only: Let_def)
    apply (subst wp_bind, simp only: wp_gets wp_prod split: prod.split)
    apply (intro allI impI)
    apply (subst wp_bind, rule talk_rule [OF sends], rule send)
     apply (auto intro: still_trans)
    done
qed

end
