(* ===== verification/Broker_Session.thy ===== *)
theory Broker_Session
  imports Broker_Correct
begin

section \<open>Sessions of the broker\<close>

text \<open>
  A session is prepared behind guards (both volume keys grabbed, suspend blocked, a deadline) and
  ends by clearing them. Between the operations the broker is either idle, with no guard left,
  or running, with all of them; a lease is open only while it runs.
\<close>

subsection \<open>Guards\<close>

text \<open>The state becomes that of \<open>f s\<close>, apart from communication and the suspend blocker.\<close>

definition becomes :: "(broker \<Rightarrow> broker) \<Rightarrow> broker \<Rightarrow> broker \<Rightarrow> bool" where
  "becomes f s s' \<longleftrightarrow> core s' = core (f s) \<and> w_now s \<le> w_now s' \<and> composer_fd s' = composer_fd s \<and>
     lease_open (w_log s') = lease_open (w_log s) \<and> prefs (w_log s') = prefs (w_log s) \<and>
     (\<forall>X. ledger X s \<longrightarrow> ledger X s')"

definition cleared :: "broker \<Rightarrow> broker" where
  "cleared s = s\<lparr>vol_down := - 1, vol_up := - 1, deadline_ms := 0, composer_heartbeat_ms := 0,
     session_continuous := False\<rparr>"

lemma find_volume_rule:
  assumes "\<And>fd s'. received s fd s' \<Longrightarrow> fd < 0 \<longrightarrow> fd = - 1 \<Longrightarrow> Q fd s'"
  shows "wp (find_volume wanted key nodes) Q s"
  using assms
proof (induction nodes arbitrary: s)
  case Nil
  then show ?case by (simp add: wp_simps find_volume.simps received_def)
next
  case (Cons node nodes)
  define t where "t = s\<lparr>w_log := w_log s @ [Opened (in_open node)]\<rparr>"
  define u where "u = t\<lparr>w_log := w_log t @ [Closed (in_open node)]\<rparr>"
  have u: "received s (- 1) u" by (auto simp: u_def t_def received_def calm_def core_def ledger_def held_opt)
  have taken: "Q (in_open node) t" if "0 \<le> in_open node"
    using that by (intro Cons.prems) (auto simp: t_def received_def calm_def core_def ledger_def held_opt)
  have onward: "wp (find_volume wanted key nodes) Q u"
  proof (rule Cons.IH, rule Cons.prems)
    fix fd v assume "received u fd v"
    with u show "received s fd v" by (auto simp: received_def intro: calm_trans)
  qed
  show ?case
    unfolding find_volume.simps
    using taken onward Cons.IH [OF Cons.prems] by (auto simp: wp_simps log_effect_def close_fd_def t_def u_def)
qed

lemma find_volume_device_rule:
  assumes "\<And>fd s'. received s fd s' \<Longrightarrow> fd < 0 \<longrightarrow> fd = - 1 \<Longrightarrow> Q fd s'"
  shows "wp (find_volume_device wanted key) Q s"
proof -
  define t where "t = s\<lparr>w_inputs := later (w_inputs s)\<rparr>"
  have t: "received s (- 1) t" by (auto simp: t_def received_def calm_def core_def ledger_def held_opt)
  have "Q (- 1) t" using assms [OF t] by simp
  moreover have "wp (find_volume wanted key ns) Q t" for ns
  proof (rule find_volume_rule, rule assms)
    fix fd v assume "received t fd v"
    with t show "received s fd v" by (auto simp: received_def intro: calm_trans)
  qed
  ultimately show ?thesis
    unfolding find_volume_device_def by (simp add: wp_simps split: option.splits flip: t_def)
qed

lemma release_volume_rule:
  assumes "\<And>s'. calm s s' \<Longrightarrow> composer_fd s' = composer_fd s \<Longrightarrow> lease_open (w_log s') = lease_open (w_log s) \<Longrightarrow>
      opened (w_log s') = opened (w_log s) \<Longrightarrow> closed (w_log s') = closed (w_log s) + opt_fd fd \<Longrightarrow> Q () s'"
  shows "wp (release_volume fd) Q s"
  unfolding release_volume_def close_fd_def log_effect_def
  by (auto simp: wp_simps intro!: assms) (auto simp: calm_def core_def)

lemma volumes_Release_rule:
  assumes "\<And>s'. becomes (\<lambda>s. s\<lparr>vol_down := - 1, vol_up := - 1\<rparr>) s s' \<Longrightarrow> Q () s'"
  shows "wp volumes_Release Q s"
  unfolding volumes_Release_def wp_bind wp_gets
proof (rule release_volume_rule, rule release_volume_rule, simp only: wp_modify, rule assms, goal_cases)
  case (1 t u)
  then show ?case
    by (auto simp: becomes_def calm_def core_def ledger_def held_opt)
qed

lemma set_wake_lock_rule:
  assumes "\<And>ok s'. becomes (\<lambda>s. s) s s' \<Longrightarrow> wakes (w_log s') = wakes (w_log s) @ (if ok then [acquire] else []) \<Longrightarrow> Q ok s'"
  shows "wp (set_wake_lock acquire) Q s"
  unfolding set_wake_lock_def log_effect_def
  by (auto simp: wp_simps intro!: assms) (auto simp: becomes_def core_def ledger_def held_opt)

lemma CleanupGuards_rule:
  assumes "\<And>s'. becomes cleared s s' \<Longrightarrow> Q () s'"
  shows "wp CleanupGuards Q s"
  unfolding CleanupGuards_def wp_bind
proof (rule volumes_Release_rule, rule set_wake_lock_rule, simp only: wp_modify, rule assms, goal_cases)
  case (1 t ok u)
  then show ?case
    by (auto simp: becomes_def core_def ledger_def held_opt cleared_def)
qed

lemma grab_rule:
  assumes "\<And>ok s'. still s s' \<Longrightarrow> Q ok s'"
  shows "wp (grab fd) Q s"
  unfolding grab_def log_effect_def
  by (auto simp: wp_simps intro!: assms) (auto simp: still_def calm_def core_def ledger_def held_opt)

lemma becomes_still: "becomes f s t \<Longrightarrow> still t u \<Longrightarrow> becomes f s u"
  by (auto simp: becomes_def still_def calm_def)

lemma still_becomes: "still s t \<Longrightarrow> becomes f t u \<Longrightarrow> core (f t) = core (f s) \<Longrightarrow> becomes f s u"
  by (auto simp: becomes_def still_def calm_def)

text \<open>What is left after guards were taken, or could not be taken, from an idle state.\<close>

definition guarded_by :: "int \<Rightarrow> int \<Rightarrow> broker \<Rightarrow> broker" where
  "guarded_by down up s = s\<lparr>vol_down := down, vol_up := up\<rparr>"

lemma volumes_Acquire_rule:
  assumes "vol_down s < 0" "vol_up s < 0"
    and "\<And>down up s'. 0 \<le> down \<Longrightarrow> 0 \<le> up \<Longrightarrow> becomes (guarded_by down up) s s' \<Longrightarrow> Q True s'"
    and "\<And>s'. becomes (guarded_by (- 1) (- 1)) s s' \<Longrightarrow> Q False s'"
  shows "wp volumes_Acquire Q s"
  unfolding volumes_Acquire_def wp_bind
proof (rule find_volume_device_rule, simp only: wp_modify, rule find_volume_device_rule, simp only: wp_modify, goal_cases)
  case (1 down t up u)
  define v where "v = u\<lparr>vol_up := up\<rparr>"
  have v: "becomes (guarded_by down up) s v"
    using 1 assms(1,2)
    by (auto simp: becomes_def received_def calm_def core_def ledger_def held_opt guarded_by_def v_def)
  have fail: "wp (volumes_Release \<bind> (\<lambda>_. return False)) Q w" if "becomes (guarded_by down up) s w" for w
    unfolding wp_bind
  proof (rule volumes_Release_rule, simp only: wp_return, rule assms(4))
    fix x assume "becomes (\<lambda>s. s\<lparr>vol_down := - 1, vol_up := - 1\<rparr>) w x"
    with that show "becomes (guarded_by (- 1) (- 1)) s x"
      by (auto simp: becomes_def core_def guarded_by_def)
  qed
  have finish: "wp (if ok then return True else volumes_Release \<bind> (\<lambda>_. return False)) Q w"
    if "becomes (guarded_by down up) s w" "ok \<Longrightarrow> 0 \<le> down \<and> 0 \<le> up" for ok w
    using that fail [OF that(1)] assms(3) by (cases ok) (auto simp: wp_simps)
  have first: "wp (grab down) (\<lambda>x. wp (if x then grab up else return False)
      (\<lambda>ok. wp (if ok then return True else volumes_Release \<bind> (\<lambda>_. return False)) Q)) v"
    if "0 \<le> down" "0 \<le> up"
  proof (rule grab_rule)
    fix ok w assume w: "still v w"
    show "wp (if ok then grab up else return False)
      (\<lambda>ok. wp (if ok then return True else volumes_Release \<bind> (\<lambda>_. return False)) Q) w"
    proof (cases ok)
      case True
      have "wp (grab up) (\<lambda>ok. wp (if ok then return True else volumes_Release \<bind> (\<lambda>_. return False)) Q) w"
        using that v w becomes_still by (intro grab_rule finish) blast+
      then show ?thesis using True by simp
    next
      case False
      have "wp (if False then return True else volumes_Release \<bind> (\<lambda>_. return False)) Q w"
        using v w becomes_still by (intro finish) auto
      then show ?thesis using False by (simp add: wp_return)
    qed
  qed
  have "wp (if False then return True else volumes_Release \<bind> (\<lambda>_. return False)) Q v"
    using v by (intro finish) auto
  then show ?case
    using first by (auto simp: wp_simps v_def)
qed

text \<open>The result of a step that may fail: its failures are not successes.\<close>

definition refused :: "(u32 \<times> string) option \<Rightarrow> bool" where
  "refused r \<longleftrightarrow> (case r of Some failure \<Rightarrow> fst failure \<noteq> HDMI_LOS_OK | None \<Rightarrow> False)"

lemma refused_simps [simp]: "refused (Some failure) \<longleftrightarrow> fst failure \<noteq> HDMI_LOS_OK" "\<not> refused None"
  by (simp_all add: refused_def)

lemma take_guards_rule:
  assumes "vol_down s = - 1" "vol_up s = - 1"
    and "\<And>down up s'. 0 \<le> down \<Longrightarrow> 0 \<le> up \<Longrightarrow> becomes (guarded_by down up) s s' \<Longrightarrow> Q None s'"
    and "\<And>r s'. refused (Some r) \<Longrightarrow> becomes (\<lambda>s. s) s s' \<or> becomes cleared s s' \<Longrightarrow> Q (Some r) s'"
  shows "wp take_guards Q s"
  unfolding take_guards_def wp_bind
proof (rule volumes_Acquire_rule)
  show "vol_down s < 0" "vol_up s < 0" using assms(1,2) by simp_all
next
  fix s' assume "becomes (guarded_by (- 1) (- 1)) s s'"
  then have "becomes (\<lambda>s. s) s s'" using assms(1,2) by (auto simp: becomes_def guarded_by_def core_def)
  then show "wp (if \<not> False then return (Some (HDMI_LOS_ERR_UNAVAILABLE, ''both physical volume inputs are required''))
       else set_wake_lock True \<bind> (\<lambda>awake. if \<not> awake then CleanupGuards \<bind> (\<lambda>_. return (Some
         (HDMI_LOS_ERR_UNAVAILABLE, ''could not acquire the mandatory suspend blocker''))) else return None)) Q s'"
    using assms(4) by (simp add: wp_simps)
next
  fix down up t assume t: "0 \<le> down" "0 \<le> up" "becomes (guarded_by down up) s t"
  define m where "m = ''could not acquire the mandatory suspend blocker''"
  have "wp (set_wake_lock True) (\<lambda>awake. wp (if \<not> awake then CleanupGuards \<bind> (\<lambda>_. return (Some (HDMI_LOS_ERR_UNAVAILABLE, m)))
      else return None) Q) t"
  proof (rule set_wake_lock_rule, intro wp_ifI)
    fix ok u assume u: "becomes (\<lambda>s. s) t u"
    then have gu: "becomes (guarded_by down up) s u" using t(3) by (auto simp: becomes_def)
    then show "wp (return None) Q u" unfolding wp_return by (rule assms(3) [OF t(1,2)])
    show "wp (CleanupGuards \<bind> (\<lambda>_. return (Some (HDMI_LOS_ERR_UNAVAILABLE, m)))) Q u"
      unfolding wp_bind
    proof (rule CleanupGuards_rule, simp only: wp_return, rule assms(4))
      fix v assume "becomes cleared u v"
      with gu show "becomes (\<lambda>s. s) s v \<or> becomes cleared s v"
        by (auto simp: becomes_def cleared_def guarded_by_def core_def)
    qed simp
  qed
  then show "wp (if \<not> True then return (Some (HDMI_LOS_ERR_UNAVAILABLE, ''both physical volume inputs are required''))
       else set_wake_lock True \<bind> (\<lambda>awake. if \<not> awake then CleanupGuards \<bind> (\<lambda>_. return (Some
         (HDMI_LOS_ERR_UNAVAILABLE, ''could not acquire the mandatory suspend blocker''))) else return None)) Q t"
    unfolding m_def by (simp add: wp_bind)
qed

subsection \<open>Idle and running\<close>

definition idle :: "broker \<Rightarrow> bool" where
  "idle s \<longleftrightarrow> \<not> active s \<and> \<not> probing s \<and> vol_down s = - 1 \<and> vol_up s = - 1 \<and> deadline_ms s = 0 \<and>
     composer_heartbeat_ms s = 0 \<and> \<not> session_continuous s"

definition running :: "broker \<Rightarrow> bool" where
  "running s \<longleftrightarrow> active s \<and> \<not> probing s \<and> 0 \<le> vol_down s \<and> 0 \<le> vol_up s \<and> 0 \<le> agent_fd s \<and>
     (if session_continuous s then deadline_ms s = 0 else 0 < deadline_ms s)"

definition settled :: "broker \<Rightarrow> bool" where
  "settled s \<longleftrightarrow> (idle s \<or> running s) \<and> lease_ok s \<and> (lease_open (w_log s) \<longrightarrow> active s) \<and> 0 \<le> w_now s \<and>
     deadline_ms s \<le> w_now s + kSessionSeconds * 1000"

text \<open>What a session does not touch.\<close>

definition outer :: "broker \<Rightarrow> _" where
  "outer s = (listen_fd s, agent_fd s, agent_continuous s, armed s, preference_applied s, replug_required s,
     (requested_width s, requested_height s, requested_refresh_millihz s, stable_mode_samples s,
      armed_since_ms s, next_mode_poll_ms s, w_files s, w_clients s))"

definition kept :: "broker \<Rightarrow> broker \<Rightarrow> bool" where
  "kept s s' \<longleftrightarrow> outer s' = outer s \<and> w_now s \<le> w_now s' \<and> prefs (w_log s') = prefs (w_log s)"

lemma kept_refl [simp]: "kept s s"
  by (simp add: kept_def)

lemma kept_trans: "kept s t \<Longrightarrow> kept t u \<Longrightarrow> kept s u"
  by (auto simp: kept_def)

lemma core_outer: "core s' = core s \<Longrightarrow> outer s' = outer s"
  by (simp add: core_def outer_def)

lemma calm_kept: "calm s s' \<Longrightarrow> kept s s'"
  unfolding calm_def kept_def using core_outer by blast

lemma still_calm: "still s s' \<Longrightarrow> calm s s'"
  by (simp add: still_def)

lemma still_kept: "still s s' \<Longrightarrow> kept s s'"
  by (rule calm_kept [OF still_calm])

lemma still_ledger: "still s s' \<Longrightarrow> ledger X s \<Longrightarrow> ledger X s'"
  by (simp add: still_def)

lemma becomes_kept: "becomes f s s' \<Longrightarrow> outer (f s) = outer s \<Longrightarrow> kept s s'"
  unfolding becomes_def kept_def using core_outer by metis

lemma outer_cleared [simp]: "outer (cleared s) = outer s" "outer (guarded_by d u s) = outer s"
  by (simp_all add: outer_def cleared_def guarded_by_def)

text \<open>
  The state inside a starting session: guarded, not yet active, with a window; the ledger of the
  caller counts the descriptors in hand.
\<close>

definition starting :: "broker \<Rightarrow> bool" where
  "starting s \<longleftrightarrow> \<not> active s \<and> \<not> probing s \<and> 0 \<le> vol_down s \<and> 0 \<le> vol_up s \<and> 0 \<le> agent_fd s \<and>
     (if session_continuous s then deadline_ms s = 0 else 0 < deadline_ms s) \<and>
     deadline_ms s \<le> w_now s + kSessionSeconds * 1000 \<and> 0 \<le> w_now s \<and> lease_ok s"

lemma starting_calm: "starting s \<Longrightarrow> calm s s' \<Longrightarrow> lease_ok s' \<Longrightarrow> starting s'"
  by (auto simp: starting_def calm_fields) (auto simp: calm_def)

lemma starting_still: "starting s \<Longrightarrow> still s s' \<Longrightarrow> starting s'"
  by (rule starting_calm) (auto simp: still_def starting_def lease_ok_def)

lemma cleared_settled:
  assumes "starting s" "becomes cleared s s'" "\<not> lease_open (w_log s)"
  shows "settled s' \<and> idle s'"
  using assms
  by (auto simp: becomes_def core_def cleared_def settled_def idle_def starting_def lease_ok_def)

text \<open>The clean-up of a failed start: the composer is asked to release, the guards are cleared.\<close>

definition ended :: "broker \<Rightarrow> broker \<Rightarrow> bool" where
  "ended s s' \<longleftrightarrow> kept s s' \<and> settled s' \<and> idle s'"

lemma release_and_clear_rule:
  assumes "starting s" "\<And>s' m. kept s s' \<Longrightarrow> settled s' \<Longrightarrow> idle s' \<Longrightarrow> (\<And>X. ledger X s \<Longrightarrow> ledger X s') \<Longrightarrow>
      wp (f m) Q s'"
  shows "wp (ComposerRequest HDMI_LOS_OP_RELEASE response False 0 \<bind> (\<lambda>r. CleanupGuards \<bind> (\<lambda>_. f r))) Q s"
  unfolding wp_bind
proof (rule ComposerRequest_rule)
  show "lease_ok s" using assms(1) by (simp add: starting_def)
  fix ok m fd t assume t: "asked HDMI_LOS_OP_RELEASE s fd t" "\<not> False \<Longrightarrow> fd = - 1"
  show "wp CleanupGuards (\<lambda>_. wp (f (ok, m, fd)) Q) t"
  proof (rule CleanupGuards_rule, rule assms(2))
    fix u assume u: "becomes cleared t u"
    have st: "starting t" using t(1) assms(1) by (intro starting_calm [OF assms(1)]) (auto simp: asked_def)
    have "\<not> lease_open (w_log t)" using t(1) by (simp add: asked_def)
    then show "settled u" "idle u" using cleared_settled [OF st u] by auto
    show "kept s u" using t(1) becomes_kept [OF u] by (auto simp: asked_def intro: kept_trans calm_kept)
    show "ledger X u" if "ledger X s" for X using that t u by (auto simp: asked_def becomes_def)
  qed
qed

subsection \<open>Starting\<close>

lemma close_hand_rule:
  assumes "\<And>u. calm t u \<Longrightarrow> composer_fd u = composer_fd t \<Longrightarrow> lease_open (w_log u) = lease_open (w_log t) \<Longrightarrow>
      (\<And>X. ledger (X + opt_fd fd) t \<Longrightarrow> ledger X u) \<Longrightarrow> Q () u"
  shows "wp (close_passed fd) Q t"
  unfolding close_passed_def close_fd_def log_effect_def
  by (auto simp: wp_simps intro!: assms) (auto simp: calm_def core_def ledger_def held_opt)

lemma close_fd_hand_rule:
  assumes "0 \<le> fd" "\<And>u. calm t u \<Longrightarrow> composer_fd u = composer_fd t \<Longrightarrow> lease_open (w_log u) = lease_open (w_log t) \<Longrightarrow>
      (\<And>X. ledger (X + opt_fd fd) t \<Longrightarrow> ledger X u) \<Longrightarrow> Q () u"
  shows "wp (close_fd fd) Q t"
  using close_hand_rule [of t fd Q] assms by (simp add: close_passed_def wp_whenever)

lemma status_or_io_refused: "status_or_io m \<noteq> HDMI_LOS_OK"
  by (simp add: status_or_io_def)

lemma acquire_phase_rule:
  assumes s: "starting s"
    and success: "\<And>m lease t. starting t \<Longrightarrow> kept s t \<Longrightarrow> (\<And>X. ledger X s \<Longrightarrow> ledger (X + opt_fd lease) t) \<Longrightarrow>
      (want_fd \<Longrightarrow> 0 \<le> lease) \<Longrightarrow> (\<not> want_fd \<Longrightarrow> lease = - 1) \<Longrightarrow> Q (None, m, lease) t"
    and failure: "\<And>r m t. refused (Some r) \<Longrightarrow> kept s t \<Longrightarrow> settled t \<Longrightarrow> idle t \<Longrightarrow>
      (\<And>X. ledger X s \<Longrightarrow> ledger X t) \<Longrightarrow> Q (Some r, m, - 1) t"
  shows "wp (acquire_phase phase want_fd fallback) Q s"
  unfolding acquire_phase_def
proof (subst wp_bind, simp only: wp_gets, subst wp_bind, rule ComposerRequest_rule, goal_cases)
  case 1
  then show ?case using s by (simp add: starting_def)
next
  case (2 ok m lease t)
  have t: "starting t" "kept s t"
    using 2(1) starting_calm [OF s] by (auto simp: asked_def intro: calm_kept)
  have fail: "wp (stop_agent \<bind> (\<lambda>_. close_passed lease \<bind> (\<lambda>_. ComposerRequest HDMI_LOS_OP_RELEASE m False 0 \<bind>
      (\<lambda>_. CleanupGuards \<bind> (\<lambda>_. return (Some r, m, - 1)))))) Q t" if r: "refused (Some r)" for r
  proof (subst wp_bind, rule talk_rule [OF talk_stop_agent], subst wp_bind, rule close_hand_rule, rule release_and_clear_rule)
    fix u v
    assume u: "still t u" and v: "calm u v" "composer_fd v = composer_fd u" "lease_open (w_log v) = lease_open (w_log u)"
      "\<And>X. ledger (X + opt_fd lease) u \<Longrightarrow> ledger X v"
    have su: "starting u" by (rule starting_still [OF t(1) u])
    show "starting v" using su v by (intro starting_calm [OF su v(1)]) (auto simp: starting_def lease_ok_def)
    show "wp (return (Some r, m, - 1)) Q w" if "kept v w" "settled w" "idle w" "\<And>X. ledger X v \<Longrightarrow> ledger X w" for w
      unfolding wp_return
    proof (rule failure [OF r])
      show "kept s w"
        using t(2) u v(1) that(1) by (auto dest!: calm_kept still_kept simp: kept_def)
      show "ledger X w" if "ledger X s" for X
        using that 2(1) u v(4) \<open>\<And>X. ledger X v \<Longrightarrow> ledger X w\<close> by (auto simp: asked_def still_def)
    qed (use that in auto)
  qed
  show ?case
    unfolding prod.case
  proof (intro wp_ifI, goal_cases)
    case 1
    show ?case unfolding Let_def by (rule fail) (simp add: status_or_io_refused)
  next
    case 2
    then show ?case
      unfolding wp_return using t \<open>asked HDMI_LOS_OP_ACQUIRE s lease t\<close> \<open>\<not> want_fd \<Longrightarrow> lease = - 1\<close>
      by (intro success) (auto simp: asked_def)
  qed
qed

lemma prepare_agent_rule:
  assumes s: "starting s" "\<not> lease_open (w_log s)"
    and success: "\<And>t. starting t \<Longrightarrow> kept s t \<Longrightarrow> (\<And>X. ledger X s \<Longrightarrow> ledger X t) \<Longrightarrow> Q None t"
    and failure: "\<And>r t. refused (Some r) \<Longrightarrow> kept s t \<Longrightarrow> settled t \<Longrightarrow> idle t \<Longrightarrow>
      (\<And>X. ledger X s \<Longrightarrow> ledger X t) \<Longrightarrow> Q (Some r) t"
  shows "wp (prepare_agent probe_mode) Q s"
proof -
  define wait where "wait = (make_message HDMI_LOS_OP_AGENT_PREPARE \<bind> (\<lambda>request.
    write_agent (request\<lparr>m_flags := probe_mode\<rparr>) \<bind> (\<lambda>sent.
    if sent then WaitAgent HDMI_LOS_OP_AGENT_READY kAgentPrepareMs zero_message else return (False, zero_message))))"
  have w: "talk wait" unfolding wait_def by (intro talk_intros)
  have split: "prepare_agent probe_mode = wait \<bind> (\<lambda>(ok, response).
      if \<not> ok then stop_agent \<bind> (\<lambda>_. CleanupGuards \<bind> (\<lambda>_. return (Some (HDMI_LOS_ERR_AGENT, ''chroot agent preparation failed''))))
      else return None)"
    unfolding prepare_agent_def wait_def by simp
  show ?thesis
    unfolding split
  proof (subst wp_bind, rule talk_rule [OF w], clarsimp simp only: prod.case, intro wp_ifI)
    fix ok :: bool and response :: hdmi_los_message and t
    assume t: "still s t"
    have st: "starting t" by (rule starting_still [OF s(1) t])
    show "wp (return None) Q t"
      unfolding wp_return using st t by (intro success) (auto simp: still_def intro: calm_kept)
    show "wp (stop_agent \<bind> (\<lambda>_. CleanupGuards \<bind> (\<lambda>_. return (Some (HDMI_LOS_ERR_AGENT, ''chroot agent preparation failed''))))) Q t"
    proof (subst wp_bind, rule talk_rule [OF talk_stop_agent], subst wp_bind, rule CleanupGuards_rule, simp only: wp_return, rule failure)
      fix u v assume u: "still t u" and v: "becomes cleared u v"
      have su: "starting u" by (rule starting_still [OF st u])
      have "\<not> lease_open (w_log u)" using s(2) t u by (simp add: still_def)
      then show "settled v" "idle v" using cleared_settled [OF su v] by auto
      show "kept s v" using t u becomes_kept [OF v] by (auto dest!: still_kept simp: kept_def)
      show "ledger X v" if "ledger X s" for X using that t u v by (auto simp: still_def becomes_def)
    qed simp
  qed
qed

lemma start_agent_rule:
  assumes s: "starting s" "0 \<le> lease"
    and success: "\<And>t. starting t \<Longrightarrow> kept s t \<Longrightarrow> (\<And>X. ledger (X + opt_fd lease) s \<Longrightarrow> ledger X t) \<Longrightarrow> Q None t"
    and failure: "\<And>r t. refused (Some r) \<Longrightarrow> kept s t \<Longrightarrow> settled t \<Longrightarrow> idle t \<Longrightarrow>
      (\<And>X. ledger (X + opt_fd lease) s \<Longrightarrow> ledger X t) \<Longrightarrow> Q (Some r) t"
  shows "wp (start_agent probe_mode response lease) Q s"
proof -
  define send where "send = (make_message HDMI_LOS_OP_AGENT_START \<bind> (\<lambda>request.
    send_agent_fd (request\<lparr>m_connector_id := m_connector_id response,
       m_crtc_id := m_crtc_id response, m_plane_id := m_plane_id response, m_flags := probe_mode\<rparr>) lease))"
  have w: "talk send" unfolding send_def by (intro talk_intros)
  define verdict where "verdict r = (let response = fst (snd (r :: bool \<times> hdmi_los_message \<times> int));
      failed = (m_opcode response = HDMI_LOS_OP_AGENT_FAILED)
    in (if failed then HDMI_LOS_ERR_AGENT else HDMI_LOS_ERR_TIMEOUT,
        if failed then detail_or response ''Xorg did not complete verified scanout within 15 seconds''
        else ''Xorg did not complete verified scanout within 15 seconds''))" for r
  have verdict: "refused (Some (verdict r))" for r by (simp add: verdict_def Let_def)
  have split: "start_agent probe_mode response lease = send \<bind> (\<lambda>sent. close_fd lease \<bind> (\<lambda>_.
      if \<not> sent then ComposerRequest HDMI_LOS_OP_RELEASE response False 0 \<bind> (\<lambda>_. CleanupGuards \<bind>
        (\<lambda>_. return (Some (HDMI_LOS_ERR_AGENT, ''could not deliver lease fd to chroot agent''))))
      else WaitAgent HDMI_LOS_OP_AGENT_READY kAgentStartMs response \<bind> (\<lambda>(ok, response).
        if \<not> ok then stop_agent \<bind> (\<lambda>_. ComposerRequest HDMI_LOS_OP_RELEASE response False 0 \<bind> (\<lambda>r. CleanupGuards \<bind>
          (\<lambda>_. return (Some (verdict r)))))
        else return None)))"
    unfolding start_agent_def send_def verdict_def by (simp add: Let_def case_prod_beta' cong: if_cong)
  show ?thesis
    unfolding split
  proof (subst wp_bind, rule talk_rule [OF w], subst wp_bind, rule close_fd_hand_rule [OF s(2)], intro wp_ifI)
    fix sent t u
    assume t: "still s t" and u: "calm t u" "composer_fd u = composer_fd t" "lease_open (w_log u) = lease_open (w_log t)"
      "\<And>X. ledger (X + opt_fd lease) t \<Longrightarrow> ledger X u"
    have st: "starting t" by (rule starting_still [OF s(1) t])
    have su: "starting u" using st u by (intro starting_calm [OF st u(1)]) (auto simp: starting_def lease_ok_def)
    have ku: "kept s u" using still_kept [OF t] calm_kept [OF u(1)] by (rule kept_trans)
    have lu: "ledger X u" if "ledger (X + opt_fd lease) s" for X using that t u(4) by (auto simp: still_def)
    have release: "wp (ComposerRequest HDMI_LOS_OP_RELEASE m False 0 \<bind> (\<lambda>r. CleanupGuards \<bind> (\<lambda>_. return (Some (f r))))) Q v"
      if v: "still u v" and f: "\<And>r. refused (Some (f r))" for m v and f :: "_ \<Rightarrow> u32 \<times> string"
    proof (rule release_and_clear_rule)
      show "starting v" by (rule starting_still [OF su v])
      fix x r assume "kept v x" "settled x" "idle x" "\<And>X. ledger X v \<Longrightarrow> ledger X x"
      then show "wp (return (Some (f r))) Q x"
        unfolding wp_return using f ku still_kept [OF v] still_ledger [OF v] lu
        by (intro failure) (auto simp: kept_def)
    qed
    show "wp (ComposerRequest HDMI_LOS_OP_RELEASE response False 0 \<bind> (\<lambda>_. CleanupGuards \<bind>
        (\<lambda>_. return (Some (HDMI_LOS_ERR_AGENT, ''could not deliver lease fd to chroot agent''))))) Q u"
      by (rule release) auto
    show "wp (WaitAgent HDMI_LOS_OP_AGENT_READY kAgentStartMs response \<bind> (\<lambda>(ok, response).
        if \<not> ok then stop_agent \<bind> (\<lambda>_. ComposerRequest HDMI_LOS_OP_RELEASE response False 0 \<bind> (\<lambda>r. CleanupGuards \<bind>
          (\<lambda>_. return (Some (verdict r))))) else return None)) Q u"
    proof (subst wp_bind, rule talk_rule [OF talk_WaitAgent], clarsimp simp only: prod.case, intro wp_ifI)
      fix ok :: bool and m v assume v: "still u v"
      show "wp (return None) Q v"
        unfolding wp_return using starting_still [OF su v] ku still_kept [OF v] still_ledger [OF v] lu
        by (intro success) (auto simp: kept_def)
      show "wp (stop_agent \<bind> (\<lambda>_. ComposerRequest HDMI_LOS_OP_RELEASE m False 0 \<bind> (\<lambda>r. CleanupGuards \<bind>
          (\<lambda>_. return (Some (verdict r)))))) Q v"
        using v by (subst wp_bind, intro talk_rule [OF talk_stop_agent] release verdict) (rule still_trans)
    qed
  qed
qed

lemma attempt_rule:
  assumes "wp m (\<lambda>r s'. case r of Some f \<Rightarrow> Q f s' | None \<Rightarrow> wp rest Q s') s"
  shows "wp (attempt m rest) Q s"
  using assms unfolding attempt_def wp_bind wp_option by (simp add: wp_return cong: option.case_cong)

lemma begin_session_rule:
  assumes "starting s"
    and "\<And>d t. settled t \<Longrightarrow> active t \<Longrightarrow> kept s t \<Longrightarrow> (\<And>X. ledger X s \<Longrightarrow> ledger X t) \<Longrightarrow> Q (HDMI_LOS_OK, d) t"
  shows "wp (begin_session probe_mode) Q s"
  unfolding begin_session_def monotonic_ms_def using assms(1)
  by (auto simp: wp_simps Let_def intro!: assms(2))
    (auto simp: starting_def settled_def running_def lease_ok_def kept_def outer_def ledger_def held_opt)

text \<open>What a start leaves: it succeeded exactly if a session is active.\<close>

abbreviation started :: "broker \<Rightarrow> u32 \<times> string \<Rightarrow> broker \<Rightarrow> bool" where
  "started s r t \<equiv> settled t \<and> kept s t \<and> (active t \<longleftrightarrow> fst r = HDMI_LOS_OK)"

lemma refused_started: "refused (Some r) \<Longrightarrow> kept s t \<Longrightarrow> settled t \<Longrightarrow> idle t \<Longrightarrow> started s r t"
  by (cases r) (simp add: idle_def)

lemma take_lease_rule:
  assumes s: "starting s" and Q: "\<And>r t. started s r t \<Longrightarrow> (\<And>X. ledger X s \<Longrightarrow> ledger X t) \<Longrightarrow> Q r t"
  shows "wp (take_lease probe_mode) Q s"
  unfolding take_lease_def
proof (subst wp_bind, rule acquire_phase_rule [OF s], goal_cases)
  case (1 m1 l1 t1)
  show ?case
    unfolding prod.case option.case
  proof (subst wp_bind, rule acquire_phase_rule [OF 1(1)], goal_cases)
    case (1 m2 l2 t2)
    note t1 = \<open>kept s t1\<close> \<open>\<And>X. ledger X s \<Longrightarrow> ledger (X + opt_fd l1) t1\<close> \<open>\<not> False \<Longrightarrow> l1 = - 1\<close>
    note t2 = 1
    have k2: "kept s t2" using t1(1) t2(2) by (rule kept_trans)
    have l2: "ledger X t2" if "ledger X s" for X using t1(2) [OF that] t1(3) t2(3) [of X] t2(5) by simp
    show ?case
      unfolding prod.case option.case
    proof (subst wp_bind, rule acquire_phase_rule [OF t2(1)], goal_cases)
      case (1 m3 l3 t3)
      then have nn: "0 \<le> l3" by simp
      show ?case
        unfolding prod.case option.case
      proof (rule attempt_rule, rule start_agent_rule [OF 1(1) nn], unfold option.case, rule begin_session_rule, assumption, goal_cases)
        case (1 t d u)
        show ?case
          by (rule Q) (use 1 k2 l2 \<open>kept t2 t3\<close> \<open>\<And>X. ledger X t2 \<Longrightarrow> ledger (X + opt_fd l3) t3\<close> in \<open>auto intro: kept_trans\<close>)
      next
        case (2 r t)
        show ?case
          by (rule Q, rule refused_started)
            (use 2 k2 l2 \<open>kept t2 t3\<close> \<open>\<And>X. ledger X t2 \<Longrightarrow> ledger (X + opt_fd l3) t3\<close> in \<open>auto intro: kept_trans\<close>)
      qed
    next
      case (2 r m t)
      then show ?case
        unfolding prod.case option.case wp_return
        by (intro Q refused_started) (auto intro: kept_trans [OF k2] dest: l2)
    qed
  next
    case (2 r m t)
    then show ?case
      unfolding prod.case option.case wp_return using 1(2-5)
      by (intro Q refused_started) (auto intro: kept_trans)
  qed
next
  case (2 r m t)
  then show ?case
    unfolding prod.case option.case wp_return by (intro Q refused_started) auto
qed

lemma open_window_rule:
  assumes "settled s" "idle s" "0 \<le> agent_fd s" "0 \<le> down" "0 \<le> up" "becomes (guarded_by down up) s t"
    and "\<And>u. starting u \<Longrightarrow> kept s u \<Longrightarrow> \<not> lease_open (w_log u) \<Longrightarrow> (\<And>X. ledger X s \<Longrightarrow> ledger X u) \<Longrightarrow> Q () u"
  shows "wp open_window Q t"
proof -
  have t: "0 \<le> vol_down t" "0 \<le> vol_up t" "0 \<le> agent_fd t" "\<not> active t" "\<not> probing t" "0 \<le> w_now t"
    "\<not> lease_open (w_log t)"
    using assms(1-6) by (auto simp: becomes_def core_def guarded_by_def settled_def idle_def)
  have kt: "kept s t" by (rule becomes_kept [OF assms(6)]) simp
  have lt: "ledger X t" if "ledger X s" for X using that assms(6) by (simp add: becomes_def)
  show ?thesis
    unfolding open_window_def monotonic_ms_def
    using t kt lt
    by (auto simp: wp_simps intro!: assms(7))
      (auto simp: starting_def lease_ok_def kept_def outer_def ledger_def held_opt)
qed

lemma idle_still: "settled s \<Longrightarrow> still s t \<Longrightarrow> settled t \<and> (idle t \<longleftrightarrow> idle s)"
proof -
  assume s: "settled s" and t: "still s t"
  have c: "calm s t" using t by (simp add: still_def)
  then have "w_now s \<le> w_now t" by (simp add: calm_def)
  with s t show ?thesis
    by (auto simp: settled_def idle_def running_def lease_ok_def still_def calm_fields [OF c])
qed

text \<open>A check that fails leaves everything as it is; its failure is not a success.\<close>

lemma check_gates_refused: "wp check_gates (\<lambda>r _. r = None \<or> refused r) s"
  unfolding check_gates_def diagnostic_dump_ready_def compatible_def diagnostic_only_def
  by (simp add: wp_simps)

lemma check_gates_rule:
  assumes "\<And>t. still s t \<Longrightarrow> Q None t" "\<And>r t. refused (Some r) \<Longrightarrow> still s t \<Longrightarrow> Q (Some r) t"
  shows "wp check_gates Q s"
proof (rule wp_mono [OF wp_conj [OF check_gates_refused talk_rule [OF talk_check_gates, of s "\<lambda>_. still s"]]])
  fix r t assume "(r = None \<or> refused r) \<and> still s t"
  then show "Q r t" using assms by (cases r) auto
qed

lemma Start_rule:
  assumes s: "settled s"
    and Q: "\<And>r t. settled t \<Longrightarrow> kept s t \<Longrightarrow> (\<And>X. ledger X s \<Longrightarrow> ledger X t) \<Longrightarrow>
      (active s \<Longrightarrow> t = s \<and> fst r \<noteq> HDMI_LOS_OK) \<Longrightarrow> (\<not> active s \<Longrightarrow> active t \<longleftrightarrow> fst r = HDMI_LOS_OK) \<Longrightarrow> Q r t"
  shows "wp (Start probe_mode detail) Q s"
proof (cases "active s")
  case True
  then show ?thesis unfolding Start_def using s by (auto simp: wp_simps intro!: Q)
next
  case False
  then have i: "idle s" using s by (auto simp: settled_def running_def)
  have Q': "Q r u" if "started t r u" "\<And>X. ledger X t \<Longrightarrow> ledger X u" "kept s t" "\<And>X. ledger X s \<Longrightarrow> ledger X t" for r t u
    using that False by (intro Q) (auto intro: kept_trans)
  have refuse: "started t r t" if "refused (Some r)" "settled t" "idle t" for r t
    using that by (intro refused_started) auto
  have "wp (attempt check_gates (gets agent_fd \<bind> (\<lambda>agent.
       if agent < 0 then return (HDMI_LOS_ERR_AGENT, m)
       else attempt take_guards (open_window \<bind> (\<lambda>_. attempt (prepare_agent probe_mode) (take_lease probe_mode)))))) Q s" for m
  proof (rule attempt_rule, rule check_gates_rule; (unfold option.case)?)
    fix t assume t: "still s t"
    then have st: "settled t" "idle t" using idle_still [OF s t] i by auto
    show "wp (gets agent_fd \<bind> (\<lambda>agent. if agent < 0 then return (HDMI_LOS_ERR_AGENT, m)
       else attempt take_guards (open_window \<bind> (\<lambda>_. attempt (prepare_agent probe_mode) (take_lease probe_mode))))) Q t"
    proof (subst wp_bind, subst wp_gets, rule wp_ifI, goal_cases)
      case 1
      show ?case unfolding wp_return
        by (rule Q' [OF refuse]) (use st still_kept [OF t] still_ledger [OF t] in auto)
    next
      case 2
      then have a: "0 \<le> agent_fd t" by simp
      show ?case
      proof (rule attempt_rule, rule take_guards_rule; (unfold option.case)?)
        show "vol_down t = - 1" "vol_up t = - 1" using st by (auto simp: idle_def)
      next
        fix down up u assume u: "0 \<le> down" "0 \<le> up" "becomes (guarded_by down up) t u"
        show "wp (open_window \<bind> (\<lambda>_. attempt (prepare_agent probe_mode) (take_lease probe_mode))) Q u"
        proof (subst wp_bind, rule open_window_rule [OF st a u])
          fix v assume v: "starting v" "kept t v" "\<not> lease_open (w_log v)" "\<And>X. ledger X t \<Longrightarrow> ledger X v"
          have kv: "kept s v" using still_kept [OF t] v(2) by (rule kept_trans)
          have lv: "ledger X v" if "ledger X s" for X using that still_ledger [OF t] v(4) by blast
          show "wp (attempt (prepare_agent probe_mode) (take_lease probe_mode)) Q v"
          proof (rule attempt_rule, rule prepare_agent_rule [OF v(1,3)]; unfold option.case)
            fix w assume w: "starting w" "kept v w" "\<And>X. ledger X v \<Longrightarrow> ledger X w"
            show "wp (take_lease probe_mode) Q w"
              by (rule take_lease_rule [OF w(1)], rule Q') (use w kv lv in \<open>auto intro: kept_trans\<close>)
          next
            fix r :: "u32 \<times> string" and w
            assume "refused (Some r)" "kept v w" "settled w" "idle w" "\<And>X. ledger X v \<Longrightarrow> ledger X w"
            then show "Q r w" by (intro Q' [OF refused_started _ kv lv])
          qed
        qed
      next
        fix r :: "u32 \<times> string" and u assume r: "refused (Some r)" and u: "becomes (\<lambda>s. s) t u \<or> becomes cleared t u"
        have "settled u \<and> idle u" using u st
          by (auto simp: becomes_def core_def settled_def idle_def cleared_def lease_ok_def running_def)
        moreover have "kept t u" using u becomes_kept by (metis outer_cleared(1))
        moreover have "ledger X u" if "ledger X t" for X using that u by (auto simp: becomes_def)
        ultimately show "Q r u"
          by (intro Q' [OF refused_started [OF r] _ still_kept [OF t] still_ledger [OF t]]) auto
      qed
    qed
  next
    fix r :: "u32 \<times> string" and t assume r: "refused (Some r)" and t: "still s t"
    show "Q r t" using idle_still [OF s t] i
      by (intro Q' [OF refuse [OF r] _ still_kept [OF t] still_ledger [OF t]]) auto
  qed
  then show ?thesis
    unfolding Start_def using False s i
    by (auto simp: wp_simps intro!: Q' [OF refuse])
qed

subsection \<open>The lease probe\<close>

definition under_probe :: "broker \<Rightarrow> bool" where
  "under_probe s \<longleftrightarrow> \<not> active s \<and> 0 \<le> w_now s \<and> lease_ok s"

lemma under_probe_calm: "under_probe s \<Longrightarrow> calm s t \<Longrightarrow> lease_ok t \<Longrightarrow> under_probe t"
  by (auto simp: under_probe_def calm_fields) (auto simp: calm_def)

lemma under_probe_still: "under_probe s \<Longrightarrow> still s t \<Longrightarrow> under_probe t"
  by (rule under_probe_calm) (auto simp: still_def under_probe_def lease_ok_def)

lemma FinishLeaseProbe_rule:
  assumes s: "under_probe s"
    and Q: "\<And>r t. kept s t \<Longrightarrow> settled t \<Longrightarrow> idle t \<Longrightarrow> (\<And>X. ledger (X + opt_fd lease) s \<Longrightarrow> ledger X t) \<Longrightarrow> Q r t"
  shows "wp (FinishLeaseProbe lease status message) Q s"
  unfolding FinishLeaseProbe_def
proof (subst wp_bind, rule close_hand_rule, subst wp_bind, rule ComposerRequest_rule, goal_cases)
  case (1 t)
  then show ?case using s by (auto simp: under_probe_def lease_ok_def)
next
  case (2 t ok m fd u)
  define u' where "u' = u\<lparr>probing := False\<rparr>"
  have t: "under_probe t" using s 2(1-3) by (intro under_probe_calm [OF s 2(1)]) (auto simp: under_probe_def lease_ok_def)
  have u: "under_probe u" "\<not> lease_open (w_log u)" using 2(5) by (auto simp: asked_def intro: under_probe_calm [OF t])
  have ku: "kept s u" using 2(1,5) by (auto simp: asked_def intro: kept_trans calm_kept)
  have lu: "ledger X u'" if "ledger (X + opt_fd lease) s" for X
    using 2(4) [OF that] 2(5,6) by (auto simp: asked_def u'_def ledger_def held_opt)
  have *: "kept s (v\<lparr>state_detail := d\<rparr>)" "settled (v\<lparr>state_detail := d\<rparr>)" "idle (v\<lparr>state_detail := d\<rparr>)"
    "\<And>X. ledger (X + opt_fd lease) s \<Longrightarrow> ledger X (v\<lparr>state_detail := d\<rparr>)"
    if v: "becomes cleared u' v" for v d
  proof -
    show "kept s (v\<lparr>state_detail := d\<rparr>)"
      using ku v by (auto simp: kept_def outer_def becomes_def core_def cleared_def u'_def)
    show "settled (v\<lparr>state_detail := d\<rparr>)" "idle (v\<lparr>state_detail := d\<rparr>)"
      using u v by (auto simp: settled_def idle_def lease_ok_def becomes_def core_def cleared_def u'_def under_probe_def)
    show "ledger X (v\<lparr>state_detail := d\<rparr>)" if "ledger (X + opt_fd lease) s" for X
      using lu [OF that] v by (auto simp: becomes_def ledger_def held_opt)
  qed
  show ?case
    unfolding prod.case Let_def
    by (subst wp_bind, unfold wp_modify, subst wp_bind, fold u'_def, rule CleanupGuards_rule)
      (auto simp: wp_simps intro!: Q *)
qed

lemma hold_lease_rule:
  assumes s: "under_probe s"
    and Q: "\<And>r t. kept s t \<Longrightarrow> settled t \<Longrightarrow> idle t \<Longrightarrow> (\<And>X. ledger (X + opt_fd lease) s \<Longrightarrow> ledger X t) \<Longrightarrow> Q r t"
  shows "wp (hold_lease lease) Q s"
proof -
  define m where "m = (monotonic_ms \<bind> (\<lambda>now. gets w_polls \<bind> (\<lambda>answers. hold_loop answers (now + kLeaseHoldMs))))"
  have m: "talk m" unfolding m_def by (intro talk_intros)
  have split: "hold_lease lease = m \<bind> (\<lambda>escaped. FinishLeaseProbe lease HDMI_LOS_OK
       (if escaped then ''lease-only probe restored early by volume escape''
        else ''lease-only probe completed and Android restored''))"
    unfolding hold_lease_def m_def by simp
  show ?thesis
    unfolding split
  proof (subst wp_bind, rule talk_rule [OF m], rule FinishLeaseProbe_rule)
    fix t assume t: "still s t"
    show "under_probe t" by (rule under_probe_still [OF s t])
    show "Q r u" if "kept t u" "settled u" "idle u" "\<And>X. ledger (X + opt_fd lease) t \<Longrightarrow> ledger X u" for r u
      using that still_kept [OF t] still_ledger [OF t] by (intro Q) (auto intro: kept_trans)
  qed
qed

lemma probe_phase_rule:
  assumes s: "under_probe s"
    and Q: "\<And>r t. kept s t \<Longrightarrow> settled t \<Longrightarrow> idle t \<Longrightarrow> (\<And>X. ledger X s \<Longrightarrow> ledger X t) \<Longrightarrow> Q r t"
    and rest: "\<And>lease t. under_probe t \<Longrightarrow> kept s t \<Longrightarrow> (\<And>X. ledger X s \<Longrightarrow> ledger (X + opt_fd lease) t) \<Longrightarrow>
      (\<not> want_fd \<Longrightarrow> lease = - 1) \<Longrightarrow> wp (rest lease) Q t"
  shows "wp (probe_phase phase want_fd fallback rest) Q s"
  unfolding probe_phase_def
proof (subst wp_bind, rule ComposerRequest_rule, goal_cases)
  case 1
  then show ?case using s by (simp add: under_probe_def)
next
  case (2 ok m lease t)
  have t: "under_probe t" "kept s t" "\<And>X. ledger X s \<Longrightarrow> ledger (X + opt_fd lease) t"
    using 2(1) under_probe_calm [OF s] by (auto simp: asked_def intro: calm_kept)
  show ?case
    unfolding prod.case
  proof (rule wp_ifI, rule FinishLeaseProbe_rule [OF t(1)], goal_cases)
    case 1
    then show ?case using t by (intro Q) (auto intro: kept_trans)
  next
    case 2
    show ?case by (rule rest) (use t \<open>\<not> want_fd \<Longrightarrow> lease = - 1\<close> in auto)
  qed
qed

lemma guards_left:
  assumes "settled t" "idle t" "becomes (\<lambda>s. s) t u \<or> becomes cleared t u"
  shows "settled u" "idle u" "kept t u" "ledger X t \<Longrightarrow> ledger X u"
proof -
  show "settled u" "idle u" using assms
    by (auto simp: becomes_def core_def settled_def idle_def cleared_def lease_ok_def running_def)
  show "kept t u" using assms(3) becomes_kept by (metis outer_cleared(1))
  show "ledger X t \<Longrightarrow> ledger X u" using assms(3) by (auto simp: becomes_def)
qed

lemma ProbeLease_rule:
  assumes s: "settled s"
    and Q: "\<And>r t. settled t \<Longrightarrow> kept s t \<Longrightarrow> (\<And>X. ledger X s \<Longrightarrow> ledger X t) \<Longrightarrow>
      (active s \<Longrightarrow> t = s \<and> fst r \<noteq> HDMI_LOS_OK) \<Longrightarrow> (\<not> active s \<Longrightarrow> idle t) \<Longrightarrow> Q r t"
  shows "wp (ProbeLease detail) Q s"
proof (cases "active s")
  case True
  then show ?thesis unfolding ProbeLease_def using s by (auto simp: wp_simps intro!: Q)
next
  case False
  then have i: "idle s" using s by (auto simp: settled_def running_def)
  define phases where "phases = (probe_phase HDMI_LOS_ACQUIRE_PREPARE False ''composer lease preparation failed'' (\<lambda>_.
       probe_phase HDMI_LOS_ACQUIRE_PAUSE False ''composer display pause failed'' (\<lambda>_.
       probe_phase HDMI_LOS_ACQUIRE_CREATE True ''composer lease creation failed'' hold_lease)))"
  have phases: "wp phases Q t" if t: "under_probe t" "kept s t" "\<And>X. ledger X s \<Longrightarrow> ledger X t" for t
  proof -
    have Q': "Q r v" if "kept s u" "\<And>X. ledger X s \<Longrightarrow> ledger X u" "kept u v" "settled v" "idle v" "\<And>X. ledger X u \<Longrightarrow> ledger X v" for r u v
      using that False by (intro Q) (auto intro: kept_trans)
    show ?thesis
      unfolding phases_def
    proof (rule probe_phase_rule [OF t(1)], rule Q' [OF t(2,3)], assumption+, rule probe_phase_rule, assumption, goal_cases)
      case (1 l t1 r u)
      then show ?case using t by (intro Q' [of t1]) (auto intro: kept_trans)
    next
      case (2 l1 t1 l2 t2)
      have k: "kept s t2" "\<And>X. ledger X s \<Longrightarrow> ledger X t2" using 2 t by (auto intro: kept_trans)
      show ?case
      proof (rule probe_phase_rule [OF 2(5)], rule Q' [OF k], assumption+, rule hold_lease_rule, assumption, goal_cases)
        case (1 l3 t3 r u)
        then show ?case using k by (intro Q' [OF k]) (auto intro: kept_trans)
      qed
    qed
  qed
  have "wp (attempt check_gates (attempt take_guards (monotonic_ms \<bind> (\<lambda>now.
      modify (\<lambda>s. s\<lparr>probing := True, deadline_ms := now + 15000, state_detail := d\<rparr>) \<bind> (\<lambda>_. phases))))) Q s" for d
  proof (rule attempt_rule, rule check_gates_rule; unfold option.case)
    fix t assume t: "still s t"
    have st: "settled t" "idle t" using idle_still [OF s t] i by auto
    show "wp (attempt take_guards (monotonic_ms \<bind> (\<lambda>now.
      modify (\<lambda>s. s\<lparr>probing := True, deadline_ms := now + 15000, state_detail := d\<rparr>) \<bind> (\<lambda>_. phases)))) Q t"
    proof (rule attempt_rule, rule take_guards_rule; (unfold option.case)?)
      show "vol_down t = - 1" "vol_up t = - 1" using st by (auto simp: idle_def)
    next
      fix down up u assume u: "becomes (guarded_by down up) t u"
      have ku: "kept t u" by (rule becomes_kept [OF u]) simp
      have un: "under_probe u" "kept s u" "\<And>X. ledger X s \<Longrightarrow> ledger X u"
        using u st kept_trans [OF still_kept [OF t] ku] still_ledger [OF t]
        by (auto simp: becomes_def core_def under_probe_def guarded_by_def settled_def lease_ok_def idle_def)
      show "wp (monotonic_ms \<bind> (\<lambda>now.
        modify (\<lambda>s. s\<lparr>probing := True, deadline_ms := now + 15000, state_detail := d\<rparr>) \<bind> (\<lambda>_. phases))) Q u"
        unfolding wp_bind
      proof (rule talk_rule [OF talk_monotonic], unfold wp_modify, rule phases)
        fix now v assume v: "still u v"
        show "under_probe (v\<lparr>probing := True, deadline_ms := now + 15000, state_detail := d\<rparr>)"
          using under_probe_still [OF un(1) v] by (simp add: under_probe_def lease_ok_def)
        show "kept s (v\<lparr>probing := True, deadline_ms := now + 15000, state_detail := d\<rparr>)"
          using un(2) still_kept [OF v] by (simp add: kept_def outer_def)
        show "ledger X (v\<lparr>probing := True, deadline_ms := now + 15000, state_detail := d\<rparr>)" if "ledger X s" for X
          using un(3) [OF that] still_ledger [OF v] by (simp add: ledger_def held_opt)
      qed
    next
      fix r :: "u32 \<times> string" and u assume u: "becomes (\<lambda>s. s) t u \<or> becomes cleared t u"
      show "Q r u" using guards_left [OF st u] still_kept [OF t] still_ledger [OF t] False
        by (intro Q) (auto intro: kept_trans)
    qed
  next
    fix r :: "u32 \<times> string" and t assume t: "still s t"
    show "Q r t" using idle_still [OF s t] i still_kept [OF t] still_ledger [OF t] False by (intro Q) auto
  qed
  then show ?thesis
    unfolding ProbeLease_def phases_def using False i by (simp add: wp_simps idle_def)
qed

end
