(* ===== verification/Broker_Run.thy ===== *)
theory Broker_Run
  imports Broker_Session
begin

section \<open>The broker from start to stop\<close>

text \<open>
  Every method, and so every iteration of the loop, leads from a state that is idle or running to
  such a state, with every descriptor accounted for, the requested mode in range and time only
  passing. The methods that concern Android's preferred mode touch nothing of the session.
\<close>

lemma wp_returns: "wp (return x) Q = Q x"
  by (simp add: wp_return fun_eq_iff)

subsection \<open>Methods that leave the session alone\<close>

definition session_view :: "broker \<Rightarrow> _" where
  "session_view s = (listen_fd s, agent_fd s, active s, probing s, agent_continuous s, session_continuous s,
     deadline_ms s, composer_heartbeat_ms s, vol_down s, vol_up s, w_clients s)"

definition mode_ok :: "broker \<Rightarrow> bool" where
  "mode_ok s \<longleftrightarrow> mode_in_range (requested_width s) (requested_height s) (requested_refresh_millihz s)"

definition aside :: "broker \<Rightarrow> broker \<Rightarrow> bool" where
  "aside s s' \<longleftrightarrow> session_view s' = session_view s \<and> composer_fd s' = composer_fd s \<and>
     lease_open (w_log s') = lease_open (w_log s) \<and> w_now s \<le> w_now s' \<and>
     (mode_ok s \<longrightarrow> mode_ok s') \<and> (\<forall>X. ledger X s \<longrightarrow> ledger X s')"

interpretation apart: step_preorder aside
  by unfold_locales (auto simp: aside_def)

named_theorems aside_intros

lemmas [aside_intros] = apart.keeps_intros

lemma core_session_view: "core s' = core s \<Longrightarrow> session_view s' = session_view s \<and> mode_ok s' = mode_ok s"
  by (simp add: core_def session_view_def mode_ok_def)

lemma still_aside: "still s s' \<Longrightarrow> aside s s'"
  using core_session_view [of s' s] by (simp add: still_def calm_def aside_def)

lemma talk_aside: "talk m \<Longrightarrow> keeps aside m"
  by (erule keeps_weaken) (rule still_aside)

lemma aside_modify:
  assumes "\<And>s. session_view (f s) = session_view s" "\<And>s. composer_fd (f s) = composer_fd s" "\<And>s. w_log (f s) = w_log s"
    "\<And>s. w_now s \<le> w_now (f s)" "\<And>s. mode_ok s \<Longrightarrow> mode_ok (f s)"
  shows "keeps aside (modify f)"
proof -
  have "vol_down (f s) = vol_down s \<and> vol_up (f s) = vol_up s \<and> listen_fd (f s) = listen_fd s \<and> agent_fd (f s) = agent_fd s" for s
    using assms(1) [of s] by (simp add: session_view_def)
  then show ?thesis using assms by (auto simp: keeps_def aside_def ledger_def held_opt)
qed

lemma aside_log:
  assumes "opened1 e = {#}" "closed1 e = {#}" "\<And>l. lease_step l e = l"
  shows "keeps aside (log_effect e)"
  using assms by (auto simp: keeps_def aside_def log_effect_def ledger_def held_opt session_view_def mode_ok_def)

lemma aside_display [aside_intros]: "keeps aside (display_command arguments previous)"
  unfolding display_command_def
  by (intro aside_intros aside_modify aside_log) (auto simp: session_view_def mode_ok_def)

lemma aside_write [aside_intros]: "keeps aside (write_atomic_text path txt)"
  unfolding write_atomic_text_def
  by (intro aside_intros aside_modify aside_log) (auto simp: session_view_def mode_ok_def)

lemma aside_read [aside_intros]: "keeps aside (read_text path txt)"
  unfolding read_text_def
  by (intro aside_intros aside_modify) (auto simp: session_view_def mode_ok_def)

lemma aside_unlink [aside_intros]: "keeps aside (unlink_path path)"
  unfolding unlink_path_def
  by (intro aside_intros aside_modify aside_log) (auto simp: session_view_def mode_ok_def)

lemma aside_set_preferred [aside_intros]: "keeps aside (set_preferred w h r)"
  unfolding set_preferred_def by (intro aside_intros)

lemma aside_RecoverPreferredMode [aside_intros]: "keeps aside RecoverPreferredMode"
  unfolding RecoverPreferredMode_def by (intro aside_intros)

lemma aside_ApplyPreferredMode [aside_intros]: "keeps aside (ApplyPreferredMode detail)"
  unfolding ApplyPreferredMode_def by (intro aside_intros)

lemma aside_set_requested: "mode_in_range w h r \<Longrightarrow> keeps aside (set_requested w h r)"
  unfolding set_requested_def by (intro aside_modify) (auto simp: session_view_def mode_ok_def)

lemma aside_LoadConfiguredMode [aside_intros]: "keeps aside LoadConfiguredMode"
  unfolding LoadConfiguredMode_def by (intro aside_intros aside_set_requested)

lemma aside_SaveConfiguredMode [aside_intros]: "keeps aside SaveConfiguredMode"
  unfolding SaveConfiguredMode_def by (intro aside_intros)

lemma mode_in_rangeI:
  "\<not> (\<not> (w = 0 \<and> h = 0 \<and> r = 0) \<and> (w < 640 \<or> h < 480 \<or> r < 10000 \<or> 240000 < r)) \<Longrightarrow> mode_in_range w h r"
  by (auto simp: mode_in_range_def not_less)

lemma aside_SetMode [aside_intros]: "keeps aside (SetMode request)"
  unfolding SetMode_def Let_def by (intro aside_intros aside_set_requested mode_in_rangeI)

lemma aside_set_detail [aside_intros]: "keeps aside (set_detail d)"
  unfolding set_detail_def by (intro aside_modify) (auto simp: session_view_def mode_ok_def)

lemma aside_reset_samples [aside_intros]: "keeps aside reset_samples"
  unfolding reset_samples_def by (intro aside_modify) (auto simp: session_view_def mode_ok_def)

lemma aside_Disarm [aside_intros]: "keeps aside (Disarm reason)"
  unfolding Disarm_def by (intro aside_intros aside_modify) (auto simp: session_view_def mode_ok_def)

lemma aside_Preserve [aside_intros]: "keeps aside PreserveArmAcrossDisconnect"
  unfolding PreserveArmAcrossDisconnect_def by (intro aside_modify) (auto simp: session_view_def mode_ok_def)

lemma aside_fail_armed [aside_intros]: "keeps aside (fail_armed failure)"
  unfolding fail_armed_def by (intro aside_intros)

lemma aside_advance_disconnected [aside_intros]: "keeps aside advance_disconnected"
  unfolding advance_disconnected_def
  by (intro aside_intros aside_modify) (auto simp: session_view_def mode_ok_def)

lemmas [aside_intros] = talk_check_gates [THEN talk_aside] talk_monotonic [THEN talk_aside]
  talk_Status [THEN talk_aside] talk_diagnostic [THEN talk_aside]

text \<open>What is written to the files does not arm.\<close>

abbreviation same_armed :: "broker \<Rightarrow> broker \<Rightarrow> bool" where
  "same_armed s s' \<equiv> armed s' = armed s"

interpretation arming: step_preorder same_armed
  by unfold_locales simp_all

lemma armed_modify: "(\<And>s. armed (f s) = armed s) \<Longrightarrow> keeps same_armed (modify f)"
  by (simp add: keeps_def)

lemma armed_Recover: "keeps same_armed RecoverPreferredMode"
  unfolding RecoverPreferredMode_def read_text_def set_preferred_def display_command_def unlink_path_def log_effect_def
  by (intro arming.keeps_intros armed_modify) simp_all

subsection \<open>The invariant\<close>

definition good :: "broker \<Rightarrow> bool" where
  "good s \<longleftrightarrow> settled s \<and> mode_ok s"

definition moves :: "broker \<Rightarrow> broker \<Rightarrow> bool" where
  "moves s s' \<longleftrightarrow> (good s \<longrightarrow> good s' \<and> w_now s \<le> w_now s' \<and> (\<forall>X. ledger X s \<longrightarrow> ledger X s'))"

interpretation progress: step_preorder moves
  by unfold_locales (auto simp: moves_def)

named_theorems sound_intros

lemma sound_I: "(\<And>s. good s \<Longrightarrow> wp m (\<lambda>_. moves s) s) \<Longrightarrow> keeps moves m"
  by (rule keeps_I) (metis (mono_tags, lifting) moves_def wp_def case_prod_unfold)

lemmas [sound_intros] = progress.keeps_intros

lemma aside_settled: "settled s \<Longrightarrow> aside s s' \<Longrightarrow> settled s'"
  by (auto simp: settled_def aside_def session_view_def idle_def running_def lease_ok_def)

lemma aside_moves: "aside s s' \<Longrightarrow> moves s s'"
  using aside_settled by (auto simp: moves_def good_def aside_def)

lemma sound_aside: "keeps aside m \<Longrightarrow> keeps moves m"
  by (erule keeps_weaken) (rule aside_moves)

lemma sound_talk: "talk m \<Longrightarrow> keeps moves m"
  by (intro sound_aside talk_aside)

lemma kept_moves:
  "settled s' \<Longrightarrow> kept s s' \<Longrightarrow> (\<And>X. ledger X s \<Longrightarrow> ledger X s') \<Longrightarrow> moves s s'"
  by (auto simp: moves_def good_def kept_def outer_def mode_ok_def)

lemma request_rule:
  assumes "settled s" "opcode \<noteq> HDMI_LOS_OP_ACQUIRE"
    and Q: "\<And>r t. moves s t \<Longrightarrow> settled t \<Longrightarrow> calm s t \<Longrightarrow> Q r t"
  shows "wp (ComposerRequest opcode response False flags) Q s"
proof (rule ComposerRequest_rule)
  show "lease_ok s" using assms(1) by (simp add: settled_def)
  fix ok m fd t assume "asked opcode s fd t" "\<not> False \<Longrightarrow> fd = - 1"
  then have c: "calm s t" and l: "lease_ok t" "lease_open (w_log t) \<longrightarrow> lease_open (w_log s)" and X: "\<And>X. ledger X s \<Longrightarrow> ledger X t"
    using assms(2) by (auto simp: asked_def)
  have "settled t" using assms(1) c l
    by (auto simp: settled_def idle_def running_def calm_fields [OF c]) (auto simp: calm_def)
  then show "Q (ok, m, fd) t" using kept_moves [OF _ calm_kept [OF c] X] c by (intro Q)
qed

lemma sound_ComposerRequest [sound_intros]:
  assumes "opcode \<noteq> HDMI_LOS_OP_ACQUIRE"
  shows "keeps moves (ComposerRequest opcode response False flags)"
proof (rule sound_I)
  fix s assume "good s"
  then show "wp (ComposerRequest opcode response False flags) (\<lambda>_. moves s) s"
    using request_rule [of s opcode "\<lambda>_. moves s"] assms by (simp add: good_def)
qed

lemma sound_Start [sound_intros]: "keeps moves (Start probe_mode detail)"
proof (rule sound_I)
  fix s assume "good s"
  then have True: "settled s" by (simp add: good_def)
  show "wp (Start probe_mode detail) (\<lambda>_. moves s) s"
    by (rule Start_rule [OF True]) (rule kept_moves)
qed

lemma sound_ProbeLease [sound_intros]: "keeps moves (ProbeLease detail)"
proof (rule sound_I)
  fix s assume "good s"
  then have True: "settled s" by (simp add: good_def)
  show "wp (ProbeLease detail) (\<lambda>_. moves s) s"
    by (rule ProbeLease_rule [OF True]) (rule kept_moves)
qed

subsection \<open>Releasing\<close>

text \<open>A release may begin where a member of a running session is already gone.\<close>

definition stoppable :: "bool \<Rightarrow> broker \<Rightarrow> bool" where
  "stoppable tell s \<longleftrightarrow> (idle s \<or> active s \<and> \<not> probing s) \<and> lease_ok s \<and>
     (lease_open (w_log s) \<longrightarrow> active s \<and> tell) \<and> 0 \<le> w_now s"

lemma settled_stoppable: "settled s \<Longrightarrow> stoppable True s"
  by (auto simp: settled_def stoppable_def running_def)

lemma idle_settled: "idle s \<Longrightarrow> lease_ok s \<Longrightarrow> \<not> lease_open (w_log s) \<Longrightarrow> 0 \<le> w_now s \<Longrightarrow> settled s"
  by (simp add: settled_def idle_def)

text \<open>The end of a release: the guards are cleared and the arming is undone.\<close>

definition released :: "broker \<Rightarrow> broker \<Rightarrow> bool" where
  "released s t \<longleftrightarrow> settled t \<and> idle t \<and> w_now s \<le> w_now t \<and> (mode_ok s \<longrightarrow> mode_ok t) \<and>
     (\<forall>X. ledger X s \<longrightarrow> ledger X t)"

lemma stop_session_rule:
  assumes s: "\<not> lease_open (w_log s)" "lease_ok s" "\<not> probing s" "0 \<le> w_now s"
    and Q: "\<And>t. released s t \<Longrightarrow> \<not> armed t \<Longrightarrow> agent_fd t = agent_fd s \<Longrightarrow> Q () t"
  shows "wp (modify (\<lambda>s. s\<lparr>active := False\<rparr>) \<bind> (\<lambda>_. CleanupGuards \<bind> (\<lambda>_. gets armed \<bind> (\<lambda>was_armed.
       whenever was_armed (modify (\<lambda>s. s\<lparr>armed := False, preference_applied := False, replug_required := False,
           stable_mode_samples := 0\<rparr>) \<bind> (\<lambda>_. RecoverPreferredMode \<bind> (\<lambda>_. return ()))) \<bind> (\<lambda>_. set_detail reason))))) Q s"
proof (subst wp_bind, unfold wp_modify, subst wp_bind, rule CleanupGuards_rule, goal_cases)
  case (1 t)
  have t: "idle t" "\<not> lease_open (w_log t)" "lease_ok t" "w_now s \<le> w_now t" "mode_ok s \<longrightarrow> mode_ok t" "agent_fd t = agent_fd s"
    "\<And>X. ledger X s \<Longrightarrow> ledger X t"
    using 1 s by (auto simp: becomes_def core_def cleared_def idle_def lease_ok_def mode_ok_def ledger_def held_opt)
  have Q': "Q () u" if "aside t u" "\<not> armed u" for u
    using that t s(4) by (intro Q)
      (auto simp: released_def aside_def session_view_def idle_def lease_ok_def intro!: idle_settled)
  define t' where "t' = t\<lparr>armed := False, preference_applied := False, replug_required := False, stable_mode_samples := 0\<rparr>"
  have t': "aside t t'" by (simp add: t'_def aside_def session_view_def mode_ok_def ledger_def held_opt)
  have detail: "wp (set_detail reason) Q u" if "aside t u" "\<not> armed u" for u
    unfolding set_detail_def wp_modify
    by (rule Q') (use that in \<open>auto simp: aside_def session_view_def mode_ok_def ledger_def held_opt\<close>)
  have "wp RecoverPreferredMode (\<lambda>_ u. wp (set_detail reason) Q u) t'"
  proof (rule wp_mono [OF wp_conj [OF keeps_rule [OF aside_RecoverPreferredMode] keeps_rule [OF armed_Recover]]])
    fix u assume "aside t' u" show "aside t' u" by fact
  next
    fix u assume "armed u = armed t'" show "armed u = armed t'" by fact
  next
    fix u assume "aside t' u \<and> armed u = armed t'"
    then show "wp (set_detail reason) Q u" using t' by (intro detail) (auto intro: apart.step_trans simp: t'_def)
  qed
  then show ?case using detail [of t] by (auto simp: wp_simps wp_returns t'_def apart.step_refl)
qed

lemma Release_rule:
  assumes s: "stoppable tell s"
    and Q: "\<And>t. released s t \<Longrightarrow> (active s \<Longrightarrow> \<not> armed t) \<Longrightarrow> (\<not> active s \<Longrightarrow> t = s) \<Longrightarrow> agent_fd t = agent_fd s \<Longrightarrow> Q () t"
  shows "wp (Release reason tell) Q s"
proof (cases "active s")
  case False
  then have "idle s" using s by (simp add: stoppable_def)
  moreover from this have "settled s" using s by (auto simp: stoppable_def idle_def intro!: idle_settled)
  ultimately show ?thesis
    unfolding Release_def using False by (auto simp: wp_simps idle_def released_def intro!: Q)
next
  case True
  define ask where "ask = gets agent_fd \<bind> (\<lambda>agent. whenever (0 \<le> agent) (stop_agent \<bind> (\<lambda>sent. whenever sent
       (WaitAgent HDMI_LOS_OP_AGENT_READY kAgentStopMs zero_message \<bind> (\<lambda>_. return ())))))"
  define stop where "stop = modify (\<lambda>s. s\<lparr>active := False\<rparr>) \<bind> (\<lambda>_. CleanupGuards \<bind> (\<lambda>_. gets armed \<bind> (\<lambda>was_armed.
       whenever was_armed (modify (\<lambda>s. s\<lparr>armed := False, preference_applied := False, replug_required := False,
           stable_mode_samples := 0\<rparr>) \<bind> (\<lambda>_. RecoverPreferredMode \<bind> (\<lambda>_. return ()))) \<bind> (\<lambda>_. set_detail reason))))"
  have ask: "talk ask" unfolding ask_def by (intro talk_intros)
  have stop: "wp stop Q t" if t: "calm s t" "\<not> lease_open (w_log t)" "lease_ok t" "\<And>X. ledger X s \<Longrightarrow> ledger X t" for t
    unfolding stop_def
  proof (rule stop_session_rule)
    show "\<not> lease_open (w_log t)" "lease_ok t" by fact+
    show "\<not> probing t" "0 \<le> w_now t" using s True t(1) by (auto simp: stoppable_def idle_def calm_def core_def)
    fix u assume u: "released t u" "\<not> armed u" "agent_fd u = agent_fd t"
    show "Q () u"
      using u t True by (intro Q) (auto simp: released_def calm_def core_def mode_ok_def)
  qed
  have "wp (ask \<bind> (\<lambda>_. gets composer_fd \<bind> (\<lambda>composer. whenever (tell \<and> 0 \<le> composer)
      (ComposerRequest HDMI_LOS_OP_RELEASE zero_message False 0 \<bind> (\<lambda>_. return ())) \<bind> (\<lambda>_. stop)))) Q s"
  proof (subst wp_bind, rule talk_rule [OF ask], goal_cases)
    case (1 x t)
    then have t: "lease_ok t" "calm s t" "lease_open (w_log t) = lease_open (w_log s)" "composer_fd t = composer_fd s"
      "\<And>X. ledger X s \<Longrightarrow> ledger X t" using s by (auto simp: stoppable_def still_def lease_ok_def)
    have quiet: "\<not> lease_open (w_log t)" if "\<not> (tell \<and> 0 \<le> composer_fd t)"
      using that t(1,3) s by (auto simp: stoppable_def lease_ok_def)
    have "wp (ComposerRequest HDMI_LOS_OP_RELEASE zero_message False 0) (\<lambda>_. wp stop Q) t"
    proof (rule ComposerRequest_rule [OF t(1)], rule stop)
      fix ok m fd u assume u: "asked HDMI_LOS_OP_RELEASE t fd u" "\<not> False \<Longrightarrow> fd = - 1"
      show "calm s u" using u t by (auto simp: asked_def intro: calm_trans)
      show "\<not> lease_open (w_log u)" "lease_ok u" "\<And>X. ledger X s \<Longrightarrow> ledger X u" using u t by (auto simp: asked_def)
    qed
    then show ?case using stop [OF t(2) quiet t(1,5)] by (auto simp: wp_simps wp_returns)
  qed
  then show ?thesis
    unfolding Release_def ask_def stop_def using True by (simp add: wp_bind wp_gets)
qed

lemma released_moves: "released s t \<Longrightarrow> moves s t"
  by (auto simp: released_def moves_def good_def)

lemma sound_Release [sound_intros]: "keeps moves (Release reason True)"
proof (rule sound_I)
  fix s assume "good s"
  then have True: "settled s" by (simp add: good_def)
  show "wp (Release reason True) (\<lambda>_. moves s) s"
    by (rule Release_rule [OF settled_stoppable [OF True]], rule released_moves)
qed

subsection \<open>Arming\<close>

lemmas [sound_intros] =
  aside_RecoverPreferredMode [THEN sound_aside] aside_ApplyPreferredMode [THEN sound_aside]
  aside_SetMode [THEN sound_aside] aside_set_detail [THEN sound_aside] aside_reset_samples [THEN sound_aside]
  aside_Disarm [THEN sound_aside] aside_Preserve [THEN sound_aside] aside_fail_armed [THEN sound_aside]
  aside_advance_disconnected [THEN sound_aside] talk_check_gates [THEN sound_talk]
  talk_monotonic [THEN sound_talk] talk_Status [THEN sound_talk] talk_diagnostic [THEN sound_talk]
  talk_write_agent [THEN sound_talk] talk_write_client [THEN sound_talk] talk_read_agent [THEN sound_talk]
  talk_HandleAgentEvent [THEN sound_talk] talk_HandleComposerReadable [THEN sound_talk]
  talk_volumes_Update [THEN sound_talk]

lemma sound_modify:
  assumes "\<And>s. session_view (f s) = session_view s" "\<And>s. composer_fd (f s) = composer_fd s" "\<And>s. w_log (f s) = w_log s"
    "\<And>s. w_now s \<le> w_now (f s)" "\<And>s. mode_ok s \<Longrightarrow> mode_ok (f s)"
  shows "keeps moves (modify f)"
  by (intro sound_aside aside_modify assms)

lemma not_acquire [simp, intro]:
  "HDMI_LOS_OP_STATUS \<noteq> HDMI_LOS_OP_ACQUIRE" "HDMI_LOS_OP_PING \<noteq> HDMI_LOS_OP_ACQUIRE" "HDMI_LOS_OP_RELEASE \<noteq> HDMI_LOS_OP_ACQUIRE"
  by simp_all

lemma sound_arm_now [sound_intros]: "keeps moves (arm_now detail)"
  unfolding arm_now_def by (intro sound_intros sound_modify) (auto simp: session_view_def mode_ok_def)

lemma sound_Arm [sound_intros]: "keeps moves (Arm request detail)"
  unfolding Arm_def by (intro sound_intros)

lemma sound_advance_connected [sound_intros]: "keeps moves (advance_connected now)"
  unfolding advance_connected_def by (intro sound_intros sound_modify) (auto simp: session_view_def mode_ok_def)

lemma sound_AdvanceArmed [sound_intros]: "keeps moves AdvanceArmed"
  unfolding AdvanceArmed_def by (intro sound_intros sound_modify) (auto simp: session_view_def mode_ok_def)

subsection \<open>Clients\<close>

text \<open>Serving a client ends with its descriptor closed, or held as the agent's.\<close>

definition serves :: "int \<Rightarrow> broker \<Rightarrow> broker \<Rightarrow> bool" where
  "serves fd s s' \<longleftrightarrow> (good s \<longrightarrow> good s' \<and> w_now s \<le> w_now s' \<and> (\<forall>X. ledger (X + opt_fd fd) s \<longrightarrow> ledger X s'))"

lemma serves_first:
  assumes "keeps moves m" "\<And>x. keeps (serves fd) (f x)"
  shows "keeps (serves fd) (m \<bind> f)"
  by (rule keeps_I, unfold wp_bind, rule keeps_rule [OF assms(1)], rule keeps_rule [OF assms(2)])
    (auto simp: serves_def moves_def)

lemma serves_close:
  assumes "0 \<le> fd"
  shows "keeps (serves fd) (close_fd fd)"
  unfolding close_fd_def log_effect_def keeps_def serves_def using assms
  by (auto simp: good_def mode_ok_def settled_def idle_def running_def lease_ok_def ledger_def held_opt)

lemma serves_accept_agent:
  assumes "0 \<le> fd" "\<not> (active s \<or> probing s \<or> 0 \<le> agent_fd s)"
  shows "wp (modify (\<lambda>s. s\<lparr>agent_fd := fd, w_agent_send := a, w_agent_in := b, agent_continuous := c\<rparr>)) (\<lambda>_. serves fd s) s"
  using assms unfolding wp_modify serves_def
  by (auto simp: good_def mode_ok_def settled_def idle_def running_def lease_ok_def ledger_def held_opt)

lemma serves_then: "keeps moves m \<Longrightarrow> serves fd s t \<Longrightarrow> wp m (\<lambda>_. serves fd s) t"
  by (erule keeps_rule) (auto simp: serves_def moves_def)

lemma serves_register_agent:
  assumes fd: "0 \<le> cl_fd c"
  shows "keeps (serves (cl_fd c)) (register_agent c request)"
proof (rule keeps_I)
  fix s
  define flag :: bool where "flag = has_bits (m_flags request) (NOT HDMI_LOS_FLAG_CONTINUOUS)"
  have refuse: "wp (Status (m_request_id request) \<bind> (\<lambda>m. write_client c (f m) \<bind> (\<lambda>_. close_fd (cl_fd c)))) (\<lambda>_. serves (cl_fd c) s) s" for f
    by (rule keeps_rule [of "serves (cl_fd c)"]) (intro serves_first sound_intros serves_close fd, assumption)
  have accept: "wp (modify g \<bind> (\<lambda>_. Status (m_request_id request) \<bind> (\<lambda>m. write_agent (f m) \<bind> (\<lambda>_. return ()))))
      (\<lambda>_. serves (cl_fd c) s) s"
    if "wp (modify g) (\<lambda>_. serves (cl_fd c) s) s" for f g
    using that unfolding wp_bind wp_modify
    by (rule serves_then [unfolded wp_bind, of "Status (m_request_id request) \<bind> (\<lambda>m. write_agent (f m) \<bind> (\<lambda>_. return ()))", unfolded wp_bind, rotated])
      (intro sound_intros)
  show "wp (register_agent c request) (\<lambda>_. serves (cl_fd c) s) s"
    unfolding register_agent_def
    by (subst wp_bind, unfold wp_gets, intro wp_ifI refuse accept serves_accept_agent fd)
qed

lemma sound_toggle [sound_intros]: "keeps moves (toggle request response)"
  unfolding toggle_def command_reply_nonempty_def by (intro sound_intros)

lemma sound_probe [sound_intros]: "keeps moves (probe request)"
  unfolding probe_def by (intro sound_intros)

lemma sound_command [sound_intros]: "keeps moves (command is_root request response)"
  unfolding command_def command_reply_def command_reply_nonempty_def by (intro sound_intros)

lemma serves_client:
  assumes "0 \<le> cl_fd c"
  shows "keeps (serves (cl_fd c)) (serve_client uid c request)"
proof -
  have "keeps (serves (cl_fd c)) (deny c request)"
    unfolding deny_def by (intro serves_first sound_intros serves_close assms)
  moreover have "keeps (serves (cl_fd c)) (serve_command r c request)" for r
    unfolding serve_command_def by (intro serves_first sound_intros serves_close assms not_acquire)
  ultimately show ?thesis
    unfolding serve_client_def Let_def
    by (intro serves_first sound_intros sound_modify keeps_if serves_register_agent assms)
      (auto simp: session_view_def mode_ok_def)
qed

lemma sound_AcceptClient [sound_intros]: "keeps moves AcceptClient"
proof (rule keeps_I)
  fix s
  show "wp AcceptClient (\<lambda>_. moves s) s"
  proof (cases "w_clients s")
    case Nil
    then show ?thesis unfolding AcceptClient_def by (simp add: wp_simps moves_def)
  next
    case (Cons c rest)
    define t where "t = s\<lparr>w_clients := rest\<rparr>"
    define u where "u = t\<lparr>w_log := w_log t @ [Opened (cl_fd c)]\<rparr>"
    have t: "moves s t"
      by (auto simp: t_def moves_def good_def mode_ok_def settled_def idle_def running_def lease_ok_def ledger_def held_opt)
    have gu: "good s \<Longrightarrow> good u"
      by (auto simp: u_def t_def good_def mode_ok_def settled_def idle_def running_def lease_ok_def)
    have lu: "ledger X s \<Longrightarrow> ledger (X + opt_fd (cl_fd c)) u" if "0 \<le> cl_fd c" for X
      using that by (simp add: u_def t_def ledger_def held_opt)
    have nu: "w_now u = w_now s" by (simp add: u_def t_def)
    have u: "moves s v" if "0 \<le> cl_fd c" "serves (cl_fd c) u v" for v
      using that(2) gu lu [OF that(1)] nu unfolding moves_def serves_def by simp
    have shut: "wp (close_fd (cl_fd c)) (\<lambda>_. moves s) u" if "0 \<le> cl_fd c"
      using that by (intro keeps_rule [OF serves_close [OF that]] u)
    have serve: "wp (serve_client uid (c\<lparr>cl_in := b\<rparr>) request) (\<lambda>_. moves s) u" if "0 \<le> cl_fd c" for uid b request
      using that serves_client [of "c\<lparr>cl_in := b\<rparr>"] by (intro keeps_rule [of "serves (cl_fd c)"] u) auto
    have body: "wp (case cl_uid c of None \<Rightarrow> close_fd (cl_fd c)
        | Some uid \<Rightarrow> let (ok, bs, unread) = r; request = overlay bs zero_message
            in if \<not> ok \<or> \<not> valid_message request then close_fd (cl_fd c)
               else serve_client uid (c\<lparr>cl_in := unread\<rparr>) request) (\<lambda>_. moves s) u" if "0 \<le> cl_fd c" for r
      using shut [OF that] serve [OF that] by (cases r) (simp add: Let_def split: option.split)
    show ?thesis
      unfolding AcceptClient_def
    proof (subst wp_bind, unfold wp_gets Cons list.case, subst wp_bind, unfold wp_modify, fold t_def, rule wp_ifI)
      show "wp (return ()) (\<lambda>_. moves s) t" unfolding wp_return by (rule t)
    next
      assume "\<not> cl_fd c < 0"
      then show "wp (log_effect (Opened (cl_fd c)) \<bind> (\<lambda>_. case cl_uid c of None \<Rightarrow> close_fd (cl_fd c)
        | Some uid \<Rightarrow> let (ok, bs, unread) = read_full HDMI_LOS_MESSAGE_SIZE (cl_in c); request = overlay bs zero_message
            in if \<not> ok \<or> \<not> valid_message request then close_fd (cl_fd c)
               else serve_client uid (c\<lparr>cl_in := unread\<rparr>) request)) (\<lambda>_. moves s) t"
        unfolding log_effect_def by (subst wp_bind, unfold wp_modify, fold u_def, intro body) simp
    qed
  qed
qed

subsection \<open>The main loop\<close>

lemma drop_composer_stoppable:
  assumes "settled s" "0 \<le> composer_fd s"
    and "\<And>t. settled t \<Longrightarrow> stoppable False t \<Longrightarrow> kept s t \<Longrightarrow> active t = active s \<Longrightarrow> (\<And>X. ledger X s \<Longrightarrow> ledger X t) \<Longrightarrow> Q () t"
  shows "wp drop_composer Q s"
proof (rule drop_composer_rule [OF assms(2)], rule assms(3))
  fix t assume t: "calm s t" "composer_fd t = - 1" "\<not> lease_open (w_log t)" "\<And>X. ledger X s \<Longrightarrow> ledger X t"
  have n: "w_now s \<le> w_now t" using t(1) by (simp add: calm_def)
  show "settled t" using assms(1) t n
    by (auto simp: settled_def idle_def running_def lease_ok_def calm_fields [OF t(1)])
  then show "stoppable False t" using t(3) by (auto simp: settled_def stoppable_def running_def)
  show "kept s t" by (rule calm_kept [OF t(1)])
  show "active t = active s" by (rule calm_fields [OF t(1)])
  show "\<And>X. ledger X s \<Longrightarrow> ledger X t" by (rule t(4))
qed

lemma composer_lost_rule:
  assumes s: "settled s" "0 \<le> composer_fd s"
    and Q: "\<And>t. moves s t \<Longrightarrow> (active s \<Longrightarrow> \<not> active t \<and> \<not> armed t) \<Longrightarrow> (\<not> active s \<Longrightarrow> kept s t \<and> \<not> active t) \<Longrightarrow> Q () t"
  shows "wp (drop_composer \<bind> (\<lambda>_. gets active \<bind> (\<lambda>running. whenever running (Release reason False)))) Q s"
proof (subst wp_bind, rule drop_composer_stoppable [OF s], unfold wp_bind wp_gets wp_whenever, goal_cases)
  case (1 t)
  have m: "moves s t" using 1 by (intro kept_moves)
  show ?case
  proof (cases "active t")
    case True
    have "wp (Release reason False) Q t"
    proof (rule Release_rule [OF 1(2)])
      fix u assume u: "released t u" "active t \<Longrightarrow> \<not> armed u"
      have "\<not> active u" using u(1) by (simp add: released_def idle_def)
      then show "Q () u" using u(2) True 1(4) progress.step_trans [OF m released_moves [OF u(1)]] by (intro Q) auto
    qed
    with True show ?thesis by simp
  next
    case False
    then show ?thesis using m 1 by (auto intro: Q)
  qed
qed

lemma sound_on_composer [sound_intros]: "keeps moves (on_composer events)"
proof (rule sound_I)
  fix s assume s: "good s"
  have lost: "wp (drop_composer \<bind> (\<lambda>_. gets active \<bind> (\<lambda>running. whenever running (Release reason False)))) (\<lambda>_. moves s) s"
    if "0 \<le> composer_fd s" for reason
    using that s by (intro composer_lost_rule) (auto simp: good_def)
  have other: "keeps moves (HandleComposerReadable \<bind> (\<lambda>hotplug. gets (\<lambda>s. s) \<bind> (\<lambda>s. case hotplug of
         kInvalid \<Rightarrow> if active s then Release a True else whenever (armed s) (Disarm a)
       | kConnected \<Rightarrow> return ()
       | kDisconnected \<Rightarrow> if active s then Release b True else whenever (armed s) PreserveArmAcrossDisconnect)))" for a b
  proof (intro progress.keeps_bind sound_intros)
    fix h :: composer_hotplug and s
    show "keeps moves (case h of kInvalid \<Rightarrow> if active s then Release a True else whenever (armed s) (Disarm a)
       | kConnected \<Rightarrow> return ()
       | kDisconnected \<Rightarrow> if active s then Release b True else whenever (armed s) PreserveArmAcrossDisconnect)"
      by (cases h) (simp_all only: composer_hotplug.case, intro sound_intros, intro sound_intros, intro sound_intros)
  qed
  show "wp (on_composer events) (\<lambda>_. moves s) s"
    unfolding on_composer_def
    by (subst wp_bind, unfold wp_gets, intro wp_ifI, rule lost, simp, rule keeps_rule [OF other], assumption)
      (simp add: wp_return moves_def)
qed

lemma agent_lost_rule:
  assumes s: "good s" "0 \<le> agent_fd s"
    and Q: "\<And>t. moves s t \<Longrightarrow> (active s \<Longrightarrow> \<not> active t \<and> \<not> armed t) \<Longrightarrow>
      (\<not> active s \<Longrightarrow> \<not> active t \<and> armed t = armed s) \<Longrightarrow> agent_fd t = - 1 \<Longrightarrow> Q () t"
  shows "wp (close_fd (agent_fd s) \<bind> (\<lambda>_. modify (\<lambda>s. s\<lparr>agent_fd := - 1, agent_continuous := False\<rparr>) \<bind> (\<lambda>_.
       gets active \<bind> (\<lambda>running. whenever running (Release reason True))))) Q s"
proof -
  define t where "t = s\<lparr>w_log := w_log s @ [Closed (agent_fd s)], agent_fd := - 1, agent_continuous := False\<rparr>"
  have st: "stoppable True t" using s(1)
    by (auto simp: t_def stoppable_def good_def settled_def idle_def running_def lease_ok_def)
  have fields: "active t = active s" "armed t = armed s" "w_now t = w_now s" "mode_ok t = mode_ok s" "agent_fd t = - 1"
    by (simp_all add: t_def mode_ok_def)
  have lt: "ledger X t" if "ledger X s" for X
    using that s(2) by (simp add: t_def ledger_def held_opt)
  have gt: "good t" if "\<not> active s"
    using that s(1) by (auto simp: t_def good_def mode_ok_def settled_def idle_def running_def lease_ok_def)
  have "wp (whenever (active t) (Release reason True)) Q t"
  proof (cases "active t")
    case True
    have "wp (Release reason True) Q t"
      using fields lt True s(1) by (intro Release_rule [OF st] Q) (auto simp: released_def idle_def moves_def good_def)
    with True show ?thesis by (simp add: wp_whenever)
  next
    case False
    have m: "moves s t" using gt lt fields False by (simp add: moves_def)
    show ?thesis using False fields Q [OF m] by (simp add: wp_whenever)
  qed
  then show ?thesis
    unfolding close_fd_def log_effect_def wp_bind wp_modify wp_gets by (simp add: t_def)
qed

lemma sound_on_agent [sound_intros]: "keeps moves (on_agent events)"
proof (rule sound_I)
  fix s assume s: "good s"
  have lost: "wp (close_fd (agent_fd s) \<bind> (\<lambda>_. modify (\<lambda>s. s\<lparr>agent_fd := - 1, agent_continuous := False\<rparr>) \<bind> (\<lambda>_.
       gets active \<bind> (\<lambda>running. whenever running (Release reason True))))) (\<lambda>_. moves s) s"
    if "0 \<le> agent_fd s" for reason
    by (rule agent_lost_rule [OF s that])
  have other: "keeps moves (read_agent zero_message \<bind> (\<lambda>(ok, event).
       (if ok \<and> valid_message event then HandleAgentEvent event else return False) \<bind> (\<lambda>handled.
       gets active \<bind> (\<lambda>running. whenever (\<not> handled \<and> running) (Release a True)))))" for a
    by (intro sound_intros)
  show "wp (on_agent events) (\<lambda>_. moves s) s"
    unfolding on_agent_def
    by (subst wp_bind, unfold wp_gets, intro wp_ifI, rule lost, simp, rule keeps_rule [OF other], assumption)
      (simp add: wp_return moves_def)
qed

lemma sound_on_volumes [sound_intros]: "keeps moves (on_volumes d u)"
  unfolding on_volumes_def by (intro sound_intros)

text \<open>The watchdog's next renewal is not part of what is settled.\<close>

lemma renew_watchdog_rule:
  assumes s: "settled s" "active s"
    and Q: "\<And>t. moves s t \<Longrightarrow> (active t \<Longrightarrow> kept s t \<and> deadline_ms t = deadline_ms s \<and> session_continuous t = session_continuous s) \<Longrightarrow>
      (\<not> active t \<Longrightarrow> \<not> armed t) \<Longrightarrow> Q () t"
  shows "wp renew_watchdog Q s"
  unfolding renew_watchdog_def
proof (subst wp_bind, rule request_rule [OF s(1)], simp, unfold case_prod_beta, rule wp_ifI, goal_cases)
  case (1 r t)
  show ?case
  proof (rule Release_rule [OF settled_stoppable [OF \<open>settled t\<close>]])
    fix u assume u: "released t u" "active t \<Longrightarrow> \<not> armed u"
    have "\<not> active u" using u(1) by (simp add: released_def idle_def)
    then show "Q () u" using u(2) s(2) 1(3) progress.step_trans [OF 1(1) released_moves [OF u(1)]]
      by (intro Q) (auto simp: calm_fields)
  qed
next
  case (2 r t)
  have "wp (modify (\<lambda>s. s\<lparr>composer_heartbeat_ms := b\<rparr>)) Q u" if u: "still t u" for u b
    unfolding wp_modify
  proof (rule Q)
    define v where "v = u\<lparr>composer_heartbeat_ms := b\<rparr>"
    have su: "settled u" using idle_still [OF 2(2) u] by simp
    have cu: "calm s u" using 2(3) still_calm [OF u] by (rule calm_trans)
    have au: "active u" using calm_fields(3) [OF cu] s(2) by simp
    have sv: "settled v" using su au by (auto simp: v_def settled_def running_def idle_def lease_ok_def)
    have kv: "kept s v" using calm_kept [OF cu] by (simp add: v_def kept_def outer_def)
    have ku: "kept t v" using still_kept [OF u] by (simp add: v_def kept_def outer_def)
    have lv: "ledger X v" if "ledger X t" for X using still_ledger [OF u that] by (simp add: v_def ledger_def held_opt)
    show "moves s v" using progress.step_trans [OF 2(1) kept_moves [OF sv ku lv]] .
    show "kept s v \<and> deadline_ms v = deadline_ms s \<and> session_continuous v = session_continuous s"
      using kv calm_fields [OF cu] by (simp add: v_def)
    show "\<not> active v \<Longrightarrow> \<not> armed v" using au by (simp add: v_def)
  qed
  then show ?case by (subst wp_bind, intro talk_rule [OF talk_monotonic])
qed

lemma sound_heartbeat [sound_intros]: "keeps moves heartbeat"
proof (rule sound_I)
  fix s assume "good s"
  then have s: "settled s" by (simp add: good_def)
  have "wp (monotonic_ms \<bind> (\<lambda>now. gets composer_heartbeat_ms \<bind> (\<lambda>beat. whenever (beat \<le> now) renew_watchdog))) (\<lambda>_. moves s) s"
    if "active s"
  proof (subst wp_bind, rule talk_rule [OF talk_monotonic], unfold wp_bind wp_gets wp_whenever)
    fix now t assume t: "still s t"
    have m: "moves s t" using still_aside [OF t] by (rule aside_moves)
    have "wp renew_watchdog (\<lambda>_. moves s) t"
      by (rule renew_watchdog_rule)
        (use idle_still [OF s t] that calm_fields(3) [OF still_calm [OF t]] progress.step_trans [OF m] in auto)
    then show "if composer_heartbeat_ms t \<le> now then wp renew_watchdog (\<lambda>_. moves s) t else moves s t" using m by simp
  qed
  then show "wp heartbeat (\<lambda>_. moves s) s"
    unfolding heartbeat_def
    by (auto simp: wp_simps moves_def)
qed

lemma sound_enforce_deadline [sound_intros]: "keeps moves enforce_deadline"
  unfolding enforce_deadline_def by (intro sound_intros)

lemma sound_broker_step [sound_intros]: "keeps moves (broker_step ev)"
  unfolding broker_step_def by (intro sound_intros)

lemma sound_polled [sound_intros]: "keeps moves (log_effect (Polled timeout))"
  by (intro sound_talk talk_log) auto

lemma sound_broker_loop [sound_intros]: "keeps moves (broker_loop answers)"
proof (induction answers)
  case Nil
  show ?case unfolding broker_loop.simps by (intro sound_intros)
next
  case (Cons answer answers)
  show ?case unfolding broker_loop.simps by (intro sound_intros Cons.IH)
qed

subsection \<open>Shutting down\<close>

text \<open>Nothing is left open: every descriptor was closed as often as it was opened, and no lease.\<close>

definition all_closed :: "broker \<Rightarrow> bool" where
  "all_closed s \<longleftrightarrow> opened (w_log s) = closed (w_log s) \<and> \<not> lease_open (w_log s) \<and> \<not> active s \<and> \<not> probing s"

lemma close_members:
  assumes "settled s" "idle s" "ledger {#} s"
    and "\<And>t. all_closed t \<Longrightarrow> mode_ok t = mode_ok s \<Longrightarrow> prefs (w_log t) = prefs (w_log s) \<Longrightarrow> w_files t = w_files s \<Longrightarrow> Q () t"
  shows "wp (gets (\<lambda>s. s) \<bind> (\<lambda>s. close_if_open (agent_fd s) \<bind> (\<lambda>_.
      whenever (0 \<le> composer_fd s) (log_effect (Hung_up (composer_fd s))) \<bind> (\<lambda>_. close_if_open (listen_fd s))))) Q s"
  unfolding close_if_open_def close_fd_def log_effect_def wp_bind wp_gets wp_whenever wp_modify
  using assms(1-3)
  by (auto intro!: assms(4) simp: all_closed_def settled_def idle_def ledger_def held_opt mode_ok_def lease_ok_def)

lemma shut_down_rule:
  assumes s: "good s" "ledger {#} s" and Q: "\<And>t. all_closed t \<Longrightarrow> mode_ok t \<Longrightarrow> Q () t"
  shows "wp shut_down Q s"
  unfolding shut_down_def
proof (subst wp_bind, rule Release_rule [OF settled_stoppable])
  show "settled s" using s(1) by (simp add: good_def)
next
  fix t assume t: "released s t"
  define finish where "finish = gets (\<lambda>s. s) \<bind> (\<lambda>s. close_if_open (agent_fd s) \<bind> (\<lambda>_.
      whenever (0 \<le> composer_fd s) (log_effect (Hung_up (composer_fd s))) \<bind> (\<lambda>_. close_if_open (listen_fd s))))"
  have t': "settled t" "idle t" "ledger {#} t" "mode_ok t" using t s by (auto simp: released_def good_def)
  have finish: "wp finish Q u" if u: "aside t u" for u
    unfolding finish_def
  proof (rule close_members)
    show "settled u" by (rule aside_settled [OF t'(1) u])
    show "idle u" using u t'(2) by (simp add: aside_def session_view_def idle_def)
    show "ledger {#} u" using u t'(3) by (simp add: aside_def)
    show "Q () v" if "all_closed v" "mode_ok v = mode_ok u" for v
      using that u t'(4) by (intro Q) (auto simp: aside_def)
  qed
  have "wp (whenever (armed t) (Disarm d) \<bind> (\<lambda>_. finish)) Q t" for d
    by (subst wp_bind, rule keeps_rule [of aside]) (intro aside_intros, rule finish)
  then show "wp (gets armed \<bind> (\<lambda>was_armed. whenever was_armed (Disarm ''broker stopping'') \<bind> (\<lambda>_. gets (\<lambda>s. s) \<bind> (\<lambda>s.
      close_if_open (agent_fd s) \<bind> (\<lambda>_. whenever (0 \<le> composer_fd s) (log_effect (Hung_up (composer_fd s))) \<bind>
      (\<lambda>_. close_if_open (listen_fd s))))))) Q t"
    unfolding finish_def by (simp add: wp_bind wp_gets)
qed

lemma good_new: "0 \<le> w_now w \<Longrightarrow> w_log w = [] \<Longrightarrow> good (new_broker w) \<and> ledger {#} (new_broker w) \<and> idle (new_broker w)"
  by (simp add: new_broker_def good_def mode_ok_def mode_in_range_def settled_def idle_def lease_ok_def ledger_def
      held_opt world.extend_def)

text \<open>The state in which the loop is entered.\<close>

definition boot :: "(broker, int) state" where
  "boot = LoadConfiguredMode \<bind> (\<lambda>_. RecoverPreferredMode \<bind> (\<lambda>_. listen_abstract \<bind> (\<lambda>fd.
     modify (\<lambda>s. s\<lparr>listen_fd := fd\<rparr>) \<bind> (\<lambda>_. return fd))))"

lemma boot_rule:
  assumes s: "good s" "ledger {#} s" "idle s" "listen_fd s < 0" "composer_fd s < 0" "agent_fd s < 0"
    and Q: "\<And>fd t. good t \<Longrightarrow> ledger {#} t \<Longrightarrow> (fd < 0 \<Longrightarrow> all_closed t) \<Longrightarrow> Q fd t"
  shows "wp boot Q s"
  unfolding boot_def
proof (subst wp_bind, rule keeps_rule [OF aside_LoadConfiguredMode], subst wp_bind,
    rule keeps_rule [OF aside_RecoverPreferredMode], subst wp_bind, unfold listen_abstract_def, rule open_socket_rule, goal_cases)
  case (1 x1 t x2 u fd v)
  have u: "aside s u" using 1 by (blast intro: apart.step_trans)
  have gu: "good u" "ledger {#} u" using aside_moves [OF u] s by (auto simp: moves_def)
  have iu: "idle u" "listen_fd u < 0" "composer_fd u < 0" "agent_fd u < 0" using u s by (auto simp: aside_def session_view_def idle_def)
  have v: "calm u v" "composer_fd v = composer_fd u" "lease_open (w_log v) = lease_open (w_log u)" "ledger (opt_fd fd) v"
    using 1(3) gu(2) unfolding received_def by (auto dest: spec [of _ "{#}"])
  have nv: "w_now u \<le> w_now v" using v(1) by (simp add: calm_def)
  have quiet: "\<not> lease_open (w_log u)" using gu(1) iu(1) by (auto simp: good_def settled_def idle_def)
  have "good (v\<lparr>listen_fd := fd\<rparr>)"
    using gu(1) iu(1) v(2,3) nv quiet
    by (auto simp: good_def settled_def mode_ok_def idle_def lease_ok_def calm_fields [OF v(1)])
  moreover have l: "ledger {#} (v\<lparr>listen_fd := fd\<rparr>)"
    using v(4) iu(2) by (simp add: ledger_def held_opt calm_fields [OF v(1)])
  moreover have "all_closed (v\<lparr>listen_fd := fd\<rparr>)" if "fd < 0"
    using l that iu v(2,3) quiet by (simp add: all_closed_def ledger_def held_opt idle_def calm_fields [OF v(1)])
  ultimately show ?case unfolding wp_bind wp_modify wp_return by (rule Q)
qed

lemma broker_run_boot:
  "broker_run answers = boot \<bind> (\<lambda>fd. if fd < 0 then return 1 else broker_loop answers \<bind> (\<lambda>_. shut_down \<bind> (\<lambda>_. return 0)))"
  unfolding broker_run_def boot_def by simp

lemma broker_run_rule:
  assumes "0 \<le> w_now w" "w_log w = []" and Q: "\<And>r t. all_closed t \<Longrightarrow> mode_ok t \<Longrightarrow> Q r t"
  shows "wp (broker_run answers) Q (new_broker w)"
  unfolding broker_run_boot
proof (subst wp_bind, rule boot_rule)
  show "good (new_broker w)" "ledger {#} (new_broker w)" "idle (new_broker w)" using good_new [OF assms(1,2)] by auto
  show "listen_fd (new_broker w) < 0" "composer_fd (new_broker w) < 0" "agent_fd (new_broker w) < 0"
    by (simp_all add: new_broker_def world.extend_def)
next
  fix fd t assume t: "good t" "ledger {#} t" "fd < 0 \<Longrightarrow> all_closed t"
  have "wp (broker_loop answers) (\<lambda>_. wp (shut_down \<bind> (\<lambda>_. return 0)) Q) t"
  proof (rule keeps_rule [OF sound_broker_loop], unfold wp_bind, rule shut_down_rule, unfold wp_return)
    fix u assume "moves t u"
    then show "good u" "ledger {#} u" using t by (auto simp: moves_def)
  qed (rule Q)
  then show "wp (if fd < 0 then return 1 else broker_loop answers \<bind> (\<lambda>_. shut_down \<bind> (\<lambda>_. return 0))) Q t"
    using t by (auto simp: wp_bind wp_return good_def intro: Q)
qed

end
