(* ===== verification/Broker_Deadline.thy ===== *)
theory Broker_Deadline
  imports Broker_Run
begin

section \<open>The session window\<close>

text \<open>
  An iteration of the loop that begins in a session either keeps that session, with its deadline,
  or ends it for good: it is disarmed as well, so that nothing in the same iteration starts
  another. A session that is kept has not reached its deadline.
\<close>

definition over :: "broker \<Rightarrow> bool" where
  "over s \<longleftrightarrow> \<not> active s \<and> \<not> armed s"

definition same_session :: "broker \<Rightarrow> broker \<Rightarrow> bool" where
  "same_session s s' \<longleftrightarrow> active s' = active s \<and> armed s' = armed s \<and> deadline_ms s' = deadline_ms s \<and>
     session_continuous s' = session_continuous s"

interpretation steady: step_preorder same_session
  by unfold_locales (auto simp: same_session_def)

lemma calm_same_session: "calm s s' \<Longrightarrow> same_session s s'"
  by (simp add: same_session_def calm_fields)

lemma still_same_session: "still s s' \<Longrightarrow> same_session s s'"
  by (intro calm_same_session still_calm)

text \<open>Relations of the states before and after a step, for states that satisfy the invariant.\<close>

definition endures :: "broker \<Rightarrow> broker \<Rightarrow> bool" where
  "endures s s' \<longleftrightarrow> (good s \<longrightarrow> good s' \<and>
     (active s \<longrightarrow> active s' \<and> deadline_ms s' = deadline_ms s \<and> session_continuous s' = session_continuous s \<or> over s') \<and>
     (over s \<longrightarrow> over s'))"

interpretation lasting: step_preorder endures
  by unfold_locales (auto simp: endures_def)

named_theorems endures_intros

lemmas [endures_intros] = lasting.keeps_intros

lemma endures_still: "still s s' \<Longrightarrow> endures s s'"
  using aside_moves [OF still_aside] still_same_session
  by (auto simp: endures_def moves_def same_session_def over_def)

lemma endures_talk: "talk m \<Longrightarrow> keeps endures m"
  by (erule keeps_weaken) (rule endures_still)

lemma endures_aside: "aside s t \<Longrightarrow> (armed t \<Longrightarrow> armed s) \<Longrightarrow> endures s t"
  using aside_moves [of s t] by (auto simp: endures_def moves_def aside_def session_view_def over_def)

lemma endures_I: "(\<And>s. good s \<Longrightarrow> wp m (\<lambda>_. endures s) s) \<Longrightarrow> keeps endures m"
  by (rule keeps_I) (metis (mono_tags, lifting) endures_def wp_def case_prod_unfold)

lemma Disarm_armed: "wp (Disarm reason) (\<lambda>_ t. \<not> armed t) s"
  unfolding Disarm_def wp_bind wp_modify by (rule keeps_rule [OF armed_Recover]) simp

lemma endures_Disarm [endures_intros]: "keeps endures (Disarm reason)"
  by (rule keeps_I, rule wp_mono [OF wp_conj [OF keeps_rule [OF aside_Disarm] Disarm_armed]])
    (assumption, auto intro: endures_aside)

lemma endures_Preserve [endures_intros]: "keeps endures PreserveArmAcrossDisconnect"
proof -
  have "keeps same_armed PreserveArmAcrossDisconnect" by (simp add: PreserveArmAcrossDisconnect_def keeps_def)
  then show ?thesis using aside_Preserve unfolding keeps_def by (auto intro: endures_aside)
qed

lemma endures_Release [endures_intros]: "keeps endures (Release reason True)"
proof (rule endures_I)
  fix s assume s: "good s"
  show "wp (Release reason True) (\<lambda>_. endures s) s"
  proof (rule Release_rule [OF settled_stoppable])
    show "settled s" using s by (simp add: good_def)
    fix t assume "released s t" "active s \<Longrightarrow> \<not> armed t" "\<not> active s \<Longrightarrow> t = s"
    then show "endures s t" using released_moves [of s t] s
      by (auto simp: endures_def moves_def over_def released_def idle_def)
  qed
qed

lemmas [endures_intros] = talk_read_agent [THEN endures_talk] talk_HandleAgentEvent [THEN endures_talk]
  talk_HandleComposerReadable [THEN endures_talk] talk_volumes_Update [THEN endures_talk]
  talk_monotonic [THEN endures_talk]

lemma endures_on_composer [endures_intros]: "keeps endures (on_composer events)"
proof (rule endures_I)
  fix s assume s: "good s"
  have lost: "wp (drop_composer \<bind> (\<lambda>_. gets active \<bind> (\<lambda>running. whenever running (Release reason False)))) (\<lambda>_. endures s) s"
    if "0 \<le> composer_fd s" for reason
  proof (rule composer_lost_rule [OF _ that])
    show "settled s" using s by (simp add: good_def)
    fix t assume "moves s t" "active s \<Longrightarrow> \<not> active t \<and> \<not> armed t" "\<not> active s \<Longrightarrow> kept s t \<and> \<not> active t"
    then show "endures s t" using s by (auto simp: endures_def moves_def over_def kept_def outer_def)
  qed
  have other: "keeps endures (HandleComposerReadable \<bind> (\<lambda>hotplug. gets (\<lambda>s. s) \<bind> (\<lambda>s. case hotplug of
         kInvalid \<Rightarrow> if active s then Release a True else whenever (armed s) (Disarm a)
       | kConnected \<Rightarrow> return ()
       | kDisconnected \<Rightarrow> if active s then Release b True else whenever (armed s) PreserveArmAcrossDisconnect)))" for a b
  proof (intro lasting.keeps_bind endures_intros)
    fix h :: composer_hotplug and s
    show "keeps endures (case h of kInvalid \<Rightarrow> if active s then Release a True else whenever (armed s) (Disarm a)
       | kConnected \<Rightarrow> return ()
       | kDisconnected \<Rightarrow> if active s then Release b True else whenever (armed s) PreserveArmAcrossDisconnect)"
      by (cases h) (simp_all only: composer_hotplug.case, intro endures_intros, intro endures_intros, intro endures_intros)
  qed
  show "wp (on_composer events) (\<lambda>_. endures s) s"
    unfolding on_composer_def
    by (subst wp_bind, unfold wp_gets, intro wp_ifI, rule lost, simp, rule keeps_rule [OF other], assumption)
      (simp add: wp_return lasting.step_refl)
qed

lemma endures_on_agent [endures_intros]: "keeps endures (on_agent events)"
proof (rule endures_I)
  fix s assume s: "good s"
  have lost: "wp (close_fd (agent_fd s) \<bind> (\<lambda>_. modify (\<lambda>s. s\<lparr>agent_fd := - 1, agent_continuous := False\<rparr>) \<bind> (\<lambda>_.
       gets active \<bind> (\<lambda>running. whenever running (Release reason True))))) (\<lambda>_. endures s) s"
    if "0 \<le> agent_fd s" for reason
    by (rule agent_lost_rule [OF s that]) (use s in \<open>auto simp: endures_def moves_def over_def\<close>)
  have other: "keeps endures (read_agent zero_message \<bind> (\<lambda>(ok, event).
       (if ok \<and> valid_message event then HandleAgentEvent event else return False) \<bind> (\<lambda>handled.
       gets active \<bind> (\<lambda>running. whenever (\<not> handled \<and> running) (Release a True)))))" for a
    by (intro endures_intros)
  show "wp (on_agent events) (\<lambda>_. endures s) s"
    unfolding on_agent_def
    by (subst wp_bind, unfold wp_gets, intro wp_ifI, rule lost, simp, rule keeps_rule [OF other], assumption)
      (simp add: wp_return lasting.step_refl)
qed

lemma endures_on_volumes [endures_intros]: "keeps endures (on_volumes d u)"
  unfolding on_volumes_def by (intro endures_intros)

lemma endures_heartbeat [endures_intros]: "keeps endures heartbeat"
proof (rule endures_I)
  fix s assume s: "good s"
  have "wp (monotonic_ms \<bind> (\<lambda>now. gets composer_heartbeat_ms \<bind> (\<lambda>beat. whenever (beat \<le> now) renew_watchdog))) (\<lambda>_. endures s) s"
    if "active s"
  proof (subst wp_bind, rule talk_rule [OF talk_monotonic], unfold wp_bind wp_gets wp_whenever)
    fix now t assume t: "still s t"
    have st: "endures s t" by (rule endures_still [OF t])
    have gt: "settled t" using st s by (simp add: endures_def good_def)
    have at: "active t" using still_same_session [OF t] that by (simp add: same_session_def)
    have "wp renew_watchdog (\<lambda>_. endures s) t"
    proof (rule renew_watchdog_rule [OF gt at])
      fix u assume u: "moves t u" "active u \<Longrightarrow> kept t u \<and> deadline_ms u = deadline_ms t \<and> session_continuous u = session_continuous t"
        "\<not> active u \<Longrightarrow> \<not> armed u"
      then have "endures t u" using at by (auto simp: endures_def moves_def over_def)
      with st show "endures s u" by (rule lasting.step_trans)
    qed
    then show "if composer_heartbeat_ms t \<le> now then wp renew_watchdog (\<lambda>_. endures s) t else endures s t" using st by simp
  qed
  then show "wp heartbeat (\<lambda>_. endures s) s"
    unfolding heartbeat_def by (auto simp: wp_simps lasting.step_refl)
qed

text \<open>The deadline is enforced: a session that is left is younger.\<close>

lemma enforce_deadline_rule:
  assumes s: "good s"
    and Q: "\<And>t. endures s t \<Longrightarrow> (active t \<Longrightarrow> 0 < deadline_ms t \<Longrightarrow> w_now t < deadline_ms t) \<Longrightarrow> Q () t"
  shows "wp enforce_deadline Q s"
  unfolding enforce_deadline_def
proof (subst wp_bind, unfold wp_gets wp_whenever, cases "active s \<and> 0 < deadline_ms s")
  case False
  then show "if active s \<and> 0 < deadline_ms s then wp (monotonic_ms \<bind> (\<lambda>now. gets deadline_ms \<bind> (\<lambda>deadline.
      whenever (deadline \<le> now) (Release ''mandatory 60 second timeout'' True)))) Q s else Q () s"
    using Q [OF lasting.step_refl] by auto
next
  case True
  define t where "t = s\<lparr>w_now := w_now s + int (w_ticks s 0), w_ticks := later (w_ticks s)\<rparr>"
  have t: "still s t" by (auto simp: t_def still_def calm_def core_def ledger_def held_opt)
  have st: "endures s t" by (rule endures_still [OF t])
  have gt: "settled t" using st s by (simp add: endures_def good_def)
  have stop: "wp (Release reason True) Q t" for reason
  proof (rule Release_rule [OF settled_stoppable [OF gt]])
    fix u assume u: "released t u" "active t \<Longrightarrow> \<not> armed u"
    have "endures t u" using u True by (auto simp: t_def endures_def good_def over_def released_def idle_def)
    with st have "endures s u" by (rule lasting.step_trans)
    moreover have "\<not> active u" using u(1) by (simp add: released_def idle_def)
    ultimately show "Q () u" by (intro Q) auto
  qed
  have go_on: "Q () t" if "\<not> deadline_ms t \<le> w_now t" using that by (intro Q [OF st]) simp
  have now: "monotonic_ms \<bind> f = modify (\<lambda>s. s\<lparr>w_now := w_now s + int (w_ticks s 0), w_ticks := later (w_ticks s)\<rparr>) \<bind>
      (\<lambda>_. gets w_now \<bind> f)" for f :: "int \<Rightarrow> (broker, unit) state"
    unfolding monotonic_ms_def by simp
  have "wp (monotonic_ms \<bind> (\<lambda>now. gets deadline_ms \<bind> (\<lambda>deadline. whenever (deadline \<le> now) (Release reason True)))) Q s" for reason
    unfolding now wp_bind wp_modify wp_gets wp_whenever by (fold t_def) (simp add: stop go_on)
  then show "if active s \<and> 0 < deadline_ms s then wp (monotonic_ms \<bind> (\<lambda>now. gets deadline_ms \<bind> (\<lambda>deadline.
      whenever (deadline \<le> now) (Release ''mandatory 60 second timeout'' True)))) Q s else Q () s"
    using True by simp
qed

subsection \<open>A client during a session\<close>

text \<open>From a running session: the session goes on as it was, or it is over.\<close>

definition holds :: "broker \<Rightarrow> broker \<Rightarrow> bool" where
  "holds s s' \<longleftrightarrow> (good s \<longrightarrow> active s \<longrightarrow>
     active s' \<and> deadline_ms s' = deadline_ms s \<and> session_continuous s' = session_continuous s \<or> over s')"

lemma holds_first:
  assumes "keeps endures m" "keeps same_session m" "\<And>x. keeps holds (f x)"
  shows "keeps holds (m \<bind> f)"
proof (rule keeps_I, unfold wp_bind, rule wp_mono [OF wp_conj [OF keeps_rule [OF assms(1)] keeps_rule [OF assms(2)]]])
  fix s x t assume "endures s t \<and> same_session s t"
  then show "wp (f x) (\<lambda>_. holds s) t"
    by (intro keeps_rule [OF assms(3)]) (auto simp: holds_def same_session_def endures_def)
qed

lemma holds_then:
  assumes "keeps holds m" "\<And>x. keeps same_session (f x)"
  shows "keeps holds (m \<bind> f)"
  by (rule keeps_I, unfold wp_bind, rule keeps_rule [OF assms(1)], rule keeps_rule [OF assms(2)])
    (auto simp: holds_def same_session_def over_def)

lemma endures_holds: "keeps endures m \<Longrightarrow> keeps holds m"
  by (erule keeps_weaken) (auto simp: endures_def holds_def)

lemma same_holds: "keeps same_session m \<Longrightarrow> keeps holds m"
  by (erule keeps_weaken) (auto simp: same_session_def holds_def)

lemma holds_I: "(\<And>s. good s \<Longrightarrow> active s \<Longrightarrow> wp m (\<lambda>_. holds s) s) \<Longrightarrow> keeps holds m"
  by (rule keeps_I) (metis (mono_tags, lifting) holds_def wp_def case_prod_unfold)

lemma same_talk: "talk m \<Longrightarrow> keeps same_session m"
  by (erule keeps_weaken) (rule still_same_session)

lemmas same_intros = steady.keeps_intros talk_Status [THEN same_talk] talk_write_client [THEN same_talk]
  talk_write_agent [THEN same_talk] talk_check_gates [THEN same_talk]

lemma holds_Start: "keeps holds (Start probe_mode detail)"
  by (rule holds_I, rule Start_rule) (auto simp: good_def holds_def)

lemma holds_ProbeLease: "keeps holds (ProbeLease detail)"
  by (rule holds_I, rule ProbeLease_rule) (auto simp: good_def holds_def)

lemma holds_SetMode: "keeps holds (SetMode request)"
  by (rule holds_I) (simp add: SetMode_def wp_simps holds_def)

lemma holds_Arm: "keeps holds (Arm request detail)"
  by (rule holds_I) (simp add: Arm_def wp_simps holds_def)

lemma holds_toggle: "keeps holds (toggle request response)"
proof (rule holds_I)
  fix s assume s: "good s" "active s"
  have r: "wp (Release r True \<bind> (\<lambda>_. Status (m_request_id request))) (\<lambda>_. holds s) s" for r
    by (rule keeps_rule [OF holds_then [OF endures_holds [OF endures_Release]]]) (intro same_intros)
  show "wp (toggle request response) (\<lambda>_. holds s) s"
    unfolding toggle_def by (subst wp_bind, unfold wp_gets) (simp add: s r)
qed

lemma holds_disarm: "keeps holds (gets active \<bind> (\<lambda>running. (if running then Release a True else Disarm b) \<bind>
    (\<lambda>_. Status (m_request_id request))))"
proof (rule holds_I)
  fix s assume s: "good s" "active s"
  have r: "wp (Release r True \<bind> (\<lambda>_. Status (m_request_id request))) (\<lambda>_. holds s) s" for r
    by (rule keeps_rule [OF holds_then [OF endures_holds [OF endures_Release]]]) (intro same_intros)
  show "wp (gets active \<bind> (\<lambda>running. (if running then Release a True else Disarm b) \<bind>
    (\<lambda>_. Status (m_request_id request)))) (\<lambda>_. holds s) s"
    by (subst wp_bind, unfold wp_gets) (simp add: s r)
qed

lemma holds_command: "keeps holds (command is_root request response)"
  unfolding command_def command_reply_def command_reply_nonempty_def Let_def probe_def
  by (intro keeps_if holds_toggle holds_disarm holds_then holds_SetMode holds_Arm holds_Start holds_ProbeLease
      same_holds same_intros)

lemma same_close: "keeps same_session (close_fd fd)"
  by (simp add: keeps_def close_fd_def log_effect_def same_session_def)

lemma same_modify: "(\<And>s. same_session s (f s)) \<Longrightarrow> keeps same_session (modify f)"
  by (simp add: keeps_def)

lemma request_endures:
  assumes "opcode \<noteq> HDMI_LOS_OP_ACQUIRE"
  shows "keeps endures (ComposerRequest opcode response False flags)"
  by (rule endures_I, rule request_rule)
    (use assms calm_same_session in \<open>auto simp: good_def endures_def moves_def same_session_def over_def\<close>)

lemma holds_request:
  assumes "opcode \<noteq> HDMI_LOS_OP_ACQUIRE" "\<And>x. keeps holds (f x)"
  shows "keeps holds (ComposerRequest opcode response False flags \<bind> f)"
proof (rule holds_I, unfold wp_bind, rule request_rule)
  fix s r t assume s: "good s" "active s" and t: "moves s t" "calm s t"
  show "wp (f r) (\<lambda>_. holds s) t"
    by (rule keeps_rule [OF assms(2)])
      (use s t calm_same_session [OF t(2)] in \<open>auto simp: holds_def same_session_def moves_def\<close>)
qed (use assms(1) in \<open>auto simp: good_def\<close>)

lemma holds_serve_client: "keeps holds (serve_client uid c request)"
proof -
  have "keeps holds (register_agent c request)"
  proof (rule holds_I)
    fix s assume s: "good s" "active s"
    have r: "wp (Status i \<bind> (\<lambda>m. write_client c (f m) \<bind> (\<lambda>_. close_fd (cl_fd c)))) (\<lambda>_. holds s) s" for i f
      by (rule keeps_rule [of holds]) (intro same_holds same_intros same_close)
    show "wp (register_agent c request) (\<lambda>_. holds s) s"
      unfolding register_agent_def by (subst wp_bind, unfold wp_gets, intro wp_ifI r) (use s in simp)
  qed
  moreover have "keeps holds (deny c request)"
    unfolding deny_def by (intro same_holds same_intros same_close)
  moreover have "keeps holds (serve_command r c request)" for r
    unfolding serve_command_def
    by (intro holds_request not_acquire holds_first [OF talk_Status [THEN endures_talk]] same_intros
        holds_then [OF holds_command] same_close)
  ultimately show ?thesis
    unfolding serve_client_def Let_def
    by (intro keeps_if holds_first [OF lasting.keeps_gets] same_intros holds_first [OF endures_talk [OF talk_modify]] same_modify)
      (auto simp: core_def same_session_def)
qed

lemma holds_AcceptClient: "keeps holds AcceptClient"
proof (rule holds_I)
  fix s assume s: "good s" "active s"
  show "wp AcceptClient (\<lambda>_. holds s) s"
  proof (cases "w_clients s")
    case Nil
    then show ?thesis unfolding AcceptClient_def by (simp add: wp_simps holds_def)
  next
    case (Cons c rest)
    define t where "t = s\<lparr>w_clients := rest\<rparr>"
    define u where "u = t\<lparr>w_log := w_log t @ [Opened (cl_fd c)]\<rparr>"
    have su: "same_session s t" "same_session s u" by (simp_all add: same_session_def t_def u_def)
    have gu: "good u"
      using s(1) by (auto simp: u_def t_def good_def mode_ok_def settled_def idle_def running_def lease_ok_def)
    have via: "holds s v" if "holds u v" for v
      using that gu s su(2) by (auto simp: holds_def same_session_def)
    have shut: "wp (close_fd (cl_fd c)) (\<lambda>_. holds s) u"
      by (rule keeps_rule [OF same_holds [OF same_close]], rule via)
    have serve: "wp (serve_client uid d request) (\<lambda>_. holds s) u" for uid d request
      by (rule keeps_rule [OF holds_serve_client], rule via)
    have body: "wp (case cl_uid c of None \<Rightarrow> close_fd (cl_fd c)
        | Some uid \<Rightarrow> let (ok, bs, unread) = r; request = overlay bs zero_message
            in if \<not> ok \<or> \<not> valid_message request then close_fd (cl_fd c)
               else serve_client uid (c\<lparr>cl_in := unread\<rparr>) request) (\<lambda>_. holds s) u" for r
      using shut serve by (cases r) (simp add: Let_def split: option.split)
    show ?thesis
      unfolding AcceptClient_def log_effect_def
      by (subst wp_bind, unfold wp_gets Cons list.case, subst wp_bind, unfold wp_modify, fold t_def, rule wp_ifI,
          unfold wp_return, use su in \<open>simp add: holds_def same_session_def\<close>,
          subst wp_bind, unfold wp_modify, fold u_def, intro body)
  qed
qed

subsection \<open>An iteration\<close>

lemma broker_step_session:
  assumes s: "good s" "active s"
  shows "wp (broker_step ev) (\<lambda>_ t. over t \<or> active t \<and> deadline_ms t = deadline_ms s \<and>
     session_continuous t = session_continuous s \<and> (0 < deadline_ms s \<longrightarrow> w_now t < deadline_ms s)) s"
proof -
  let ?Q = "\<lambda>_ t. over t \<or> active t \<and> deadline_ms t = deadline_ms s \<and>
     session_continuous t = session_continuous s \<and> (0 < deadline_ms s \<longrightarrow> w_now t < deadline_ms s)"
  define handlers where "handlers d u c a = on_composer c \<bind> (\<lambda>_. on_agent a \<bind> (\<lambda>_. on_volumes d u \<bind> (\<lambda>_. heartbeat)))" for d u c a
  have handlers: "keeps endures (handlers d u c a)" for d u c a
    unfolding handlers_def by (intro endures_intros)
  define rest where "rest = enforce_deadline \<bind> (\<lambda>_. gets (\<lambda>s. armed s \<and> \<not> active s) \<bind> (\<lambda>waiting. whenever waiting AdvanceArmed))"
  have split: "broker_step ev = gets (\<lambda>s. s) \<bind> (\<lambda>polled.
      whenever (has_bits (revents (listen_fd polled) (pe_listen ev)) POLLIN) AcceptClient \<bind> (\<lambda>_.
      handlers (revents (vol_down polled) (pe_down ev)) (revents (vol_up polled) (pe_up ev))
        (revents (composer_fd polled) (pe_composer ev)) (revents (agent_fd polled) (pe_agent ev)) \<bind> (\<lambda>_. rest)))"
    unfolding broker_step_def handlers_def rest_def by simp
  have tail: "wp (handlers d u c a \<bind> (\<lambda>_. rest)) ?Q t" if t: "moves s t" "holds s t" for d u c a t
    unfolding wp_bind
  proof (rule keeps_rule [OF handlers])
    fix v assume v: "endures t v"
    have gv: "good v" using v t s by (simp add: endures_def moves_def)
    show "wp rest ?Q v"
      unfolding rest_def wp_bind
    proof (rule enforce_deadline_rule [OF gv], unfold wp_gets wp_whenever)
      fix w assume w: "endures v w" "active w \<Longrightarrow> 0 < deadline_ms w \<Longrightarrow> w_now w < deadline_ms w"
      have "endures t w" using v w(1) by (rule lasting.step_trans)
      then show "if armed w \<and> \<not> active w then wp AdvanceArmed ?Q w else ?Q () w"
        using t s w(2) by (auto simp: endures_def holds_def moves_def over_def)
    qed
  qed
  have accept: "wp (whenever b AcceptClient) (\<lambda>_ t. moves s t \<and> holds s t) s" for b
    using wp_conj [OF keeps_rule [OF sound_AcceptClient, of s "\<lambda>_. moves s"] keeps_rule [OF holds_AcceptClient, of s "\<lambda>_. holds s"]]
    by (cases b) (simp_all add: wp_whenever progress.step_refl, simp add: holds_def)
  show ?thesis
    unfolding split by (subst wp_bind, unfold wp_gets, subst wp_bind, rule wp_mono [OF accept], rule tail) auto
qed

end
