(* ===== verification/Broker_Sample.thy ===== *)
theory Broker_Sample
  imports Broker_Deadline
begin

section \<open>Reachable states of the broker\<close>

text \<open>
  The states that the main loop can reach, and one run of it: worlds that the witnesses of the
  broker's properties are evaluated in.
\<close>

text \<open>
  The states between two polls of the main loop, from a started broker on. A failed poll ends the
  loop and an interrupted one changes nothing, so both are covered by a round.
\<close>

inductive reachable :: "world \<Rightarrow> broker \<Rightarrow> bool" for w :: world where
  listening: "run_state boot (new_broker w) = (fd, s) \<Longrightarrow> 0 \<le> fd \<Longrightarrow> reachable w s"
| round: "reachable w s \<Longrightarrow> run_state (broker_loop [answer]) s = ((), t) \<Longrightarrow> reachable w t"

text \<open>A world that has just begun: nothing was done yet.\<close>

definition fresh :: "world \<Rightarrow> bool" where
  "fresh w \<longleftrightarrow> 0 \<le> w_now w \<and> w_log w = []"

lemma reachable_good:
  assumes "reachable w s" "fresh w"
  shows "good s \<and> ledger {#} s"
  using assms
proof (induction rule: reachable.induct)
  case (listening fd s)
  have "wp boot (\<lambda>_ t. good t \<and> ledger {#} t) (new_broker w)"
    using good_new [of w] listening(3)
    by (intro boot_rule) (auto simp: fresh_def new_broker_def world.extend_def)
  from wp_run [OF this listening(1)] show ?case .
next
  case (round s answer t)
  have "moves s t" using keeps_run [OF sound_broker_loop [of "[answer]"], of s] round(2) by simp
  with round show ?case by (simp add: moves_def)
qed

text \<open>What happens in the loop stays within the reachable states.\<close>

lemma reachable_loop: "reachable w s \<Longrightarrow> reachable w (snd (run_state (broker_loop answers) s))"
proof (induction answers arbitrary: s)
  case Nil
  then show ?case by (simp add: broker_loop.simps)
next
  case (Cons answer answers)
  obtain t where t: "run_state (broker_loop [answer]) s = ((), t)" by (cases "run_state (broker_loop [answer]) s") auto
  have "snd (run_state (broker_loop (answer # answers)) s) \<in> {t, snd (run_state (broker_loop answers) t)}"
    using t by (auto simp: broker_loop.simps log_effect_def split: call.splits if_splits prod.splits)
  then show ?case using round [OF Cons.prems t] Cons.IH by auto
qed

text \<open>A world for the witnesses: every gate is open, no message and no client arrives.\<close>

definition quiet_world :: world where
  "quiet_world = \<lparr>w_now = 0, w_ticks = (\<lambda>n. 1), w_compatible = (\<lambda>n. True), w_diagnostic = (\<lambda>n. False),
     w_dump = (\<lambda>n. True), w_polls = [], w_socket = (\<lambda>n. (3, True)), w_composer_send = [],
     w_composer_in = [], w_agent_send = [], w_agent_in = [], w_inputs = (\<lambda>n. None), w_grab = (\<lambda>n. True),
     w_down_reads = [], w_up_reads = [], w_wake = (\<lambda>n. Some 8), w_display = (\<lambda>n. Child [] (Some 0)),
     w_files = Map.empty, w_read = (\<lambda>n. (True, True)),
     w_write = (\<lambda>n. \<lparr>wi_open = True, wi_written = 0, wi_fsync = True, wi_close = True, wi_rename = True\<rparr>),
     w_packages = (\<lambda>n. None), w_clients = [], w_log = []\<rparr>"
text \<open>
  A world in which the agent registers and root then asks for a legacy Xorg session; the composer
  grants the three phases of the lease and the agent reports ready twice.
\<close>

definition sample_message :: "u16 \<Rightarrow> u16 \<Rightarrow> u32 \<Rightarrow> u32 \<Rightarrow> hdmi_los_message" where
  "sample_message version opcode request_id flags = zero_message\<lparr>m_magic := HDMI_LOS_MAGIC, m_version := version,
     m_opcode := opcode, m_request_id := request_id, m_flags := flags\<rparr>"

definition sample_bytes :: "u16 \<Rightarrow> u32 \<Rightarrow> u32 \<Rightarrow> bytes call" where
  "sample_bytes opcode request_id flags =
     CallOk (bytes_of_message (sample_message HDMI_LOS_BROKER_VERSION opcode request_id flags))"

definition sample_reply :: "u32 \<Rightarrow> int \<Rightarrow> packet call" where
  "sample_reply request_id fd =
     CallOk (bytes_of_message (sample_message HDMI_LOS_VERSION HDMI_LOS_OP_RESPONSE request_id 0), fd)"

definition sample_node :: "int \<Rightarrow> string \<Rightarrow> nat \<Rightarrow> input_node" where
  "sample_node fd name key = \<lparr>in_open = fd, in_name = Some name,
     in_keys = Some ((replicate 12 0)[key div 64 := 2 ^ (key mod 64)])\<rparr>"

definition sample_events :: "u16 \<Rightarrow> u16 \<Rightarrow> u16 \<Rightarrow> poll_events" where
  "sample_events l c a = \<lparr>pe_listen = l, pe_composer = c, pe_agent = a, pe_down = 0, pe_up = 0\<rparr>"

definition session_world :: world where
  "session_world = quiet_world\<lparr>
     w_clients :=
       [\<lparr>cl_fd = 10, cl_uid = Some 0, cl_in = [sample_bytes HDMI_LOS_OP_AGENT_REGISTER 9 0,
           sample_bytes HDMI_LOS_OP_AGENT_READY 1 0, sample_bytes HDMI_LOS_OP_AGENT_READY 2 0], cl_send = []\<rparr>,
        \<lparr>cl_fd = 11, cl_uid = Some 0, cl_in = [sample_bytes HDMI_LOS_OP_PROBE 8 HDMI_LOS_PROBE_XORG_LEGACY],
           cl_send = []\<rparr>],
     w_inputs := (\<lambda>n. Some [sample_node 20 ''gpio-keys'' KEY_VOLUMEDOWN, sample_node 21 ''pmic_resin'' KEY_VOLUMEUP]),
     w_polls := [CallOk (sample_events 0 0 POLLIN), CallOk (sample_events 0 0 POLLIN)],
     w_socket := (\<lambda>n. (if n = 0 then 3 else 4, True)),
     w_composer_in := [sample_reply 2 (- 1), sample_reply 5 (- 1), sample_reply 6 (- 1), sample_reply 7 30]\<rparr>"

definition session_state :: broker where
  "session_state = snd (run_state (broker_loop [CallOk (sample_events POLLIN 0 0), CallOk (sample_events POLLIN 0 0)])
     (snd (run_state boot (new_broker session_world))))"

lemma fresh_session_world: "fresh session_world"
  by (simp add: fresh_def session_world_def quiet_world_def)

lemma session_boot: "fst (run_state boot (new_broker session_world)) = 3"
  by code_simp

lemma reachable_session_state: "reachable session_world session_state"
  unfolding session_state_def
  by (rule reachable_loop, rule listening [of _ 3]) (use session_boot in \<open>simp_all add: prod_eq_iff\<close>)

text \<open>The session of that world is started within its window, with the descriptors as given.\<close>

definition session_summary :: "broker \<Rightarrow> bool \<times> bool \<times> int list \<times> int \<times> int" where
  "session_summary s = (active s, session_continuous s, held s, deadline_ms s, w_now s)"

lemma session_state_facts: "session_summary session_state = (True, False, [3, 4, 10, 20, 21], 60001, 16)"
  by code_simp

end
