(* ===== verification/Broker_Claims.thy ===== *)
theory Broker_Claims
  imports Broker_Sample
begin

section \<open>Properties of the broker\<close>

text \<open>
  What the broker guarantees towards Android, the composer, the agent and its clients, for every
  behaviour of these.
\<close>

subsection \<open>Invariants\<close>

text \<open>
  C25. Between two polls the broker is either idle or in a session, and never in between: while
  no session is active no lease is open at the composer, no volume key is grabbed and no deadline
  is set; while one is active both volume keys are grabbed, the agent is connected, and the
  session is either continuous or has a deadline at most sixty seconds ahead.
\<close>

theorem broker_idle_or_running:
  assumes "fresh w" and "reachable w s"
  shows "\<not> probing s \<and>
    (if active s then 0 \<le> vol_down s \<and> 0 \<le> vol_up s \<and> 0 \<le> agent_fd s \<and>
       (if session_continuous s then deadline_ms s = 0
        else 0 < deadline_ms s \<and> deadline_ms s \<le> w_now s + kSessionSeconds * 1000)
     else \<not> lease_open (w_log s) \<and> vol_down s = - 1 \<and> vol_up s = - 1 \<and> deadline_ms s = 0)"
proof -
  have "settled s" using reachable_good [OF assms(2,1)] by (simp add: good_def)
  then show ?thesis by (auto simp: settled_def idle_def running_def)
qed

theorem broker_idle_or_running_witness:
  "0 \<le> vol_down session_state \<and> 0 \<le> vol_up session_state \<and> 0 \<le> agent_fd session_state \<and>
   0 < deadline_ms session_state \<and> deadline_ms session_state \<le> w_now session_state + 60000"
  using broker_idle_or_running [OF fresh_session_world reachable_session_state] session_state_facts
  by (simp add: session_summary_def)





text \<open>
  C26. The mandatory window: a session with a deadline that is still active after an iteration of
  the main loop is the same session, with the same deadline, and the deadline has not been
  reached. An iteration never replaces a session that it ends by a new one.
\<close>

theorem session_ends_by_deadline:
  assumes "fresh w" and "reachable w s" and "active s" and "\<not> session_continuous s"
    and "run_state (broker_step ev) s = ((), t)"
  shows "if active t then \<not> session_continuous t \<and> deadline_ms t = deadline_ms s \<and> w_now t < deadline_ms s
    else \<not> armed t"
proof -
  have g: "good s" using reachable_good [OF assms(2,1)] by simp
  have "0 < deadline_ms s" using g assms(3,4) by (auto simp: good_def settled_def idle_def running_def)
  with wp_run [OF broker_step_session [OF g assms(3)] assms(5)] show ?thesis
    using assms(4) by (auto simp: over_def)
qed

theorem session_ends_by_deadline_witness:
  "if active (snd (run_state (broker_step (sample_events 0 0 0)) session_state))
   then w_now (snd (run_state (broker_step (sample_events 0 0 0)) session_state)) < 60001
   else \<not> armed (snd (run_state (broker_step (sample_events 0 0 0)) session_state))"
  using session_ends_by_deadline [OF fresh_session_world reachable_session_state, of "sample_events 0 0 0"
      "snd (run_state (broker_step (sample_events 0 0 0)) session_state)"] session_state_facts
  by (simp add: session_summary_def prod_eq_iff split: if_splits)

subsection \<open>Starting and probing\<close>


lemma good_quiet: "good (new_broker quiet_world)" "\<not> active (new_broker quiet_world)" "ledger {#} (new_broker quiet_world)"
  using good_new [of quiet_world] by (auto simp: quiet_world_def idle_def)




end
