(* ===== verification/Broker_Client.thy ===== *)
theory Broker_Client
  imports Broker
begin

section \<open>The command-line client of the broker\<close>

text \<open>
  \<open>client_main\<close> and \<open>main\<close> of \<open>src/native/broker/main.cpp\<close>: the commands, the
  request they make, and the exit status. What is printed is not modelled.
\<close>

record client_request =
  cr_opcode :: u16
  cr_flags :: u32
  cr_width :: u32
  cr_height :: u32
  cr_refresh :: u32

definition simple_request :: "u16 \<Rightarrow> client_request" where
  "simple_request opcode =
     \<lparr>cr_opcode = opcode, cr_flags = HDMI_LOS_PROBE_NONE, cr_width = 0, cr_height = 0, cr_refresh = 0\<rparr>"

definition mode_request :: "string \<Rightarrow> client_request option" where
  "mode_request mode =
     (let r = simple_request HDMI_LOS_OP_SET_MODE in
      if mode = ''native'' then Some r
      else if mode = ''1080p60'' then Some (r\<lparr>cr_width := 1920, cr_height := 1080, cr_refresh := 60000\<rparr>)
      else if mode = ''2160p60'' then Some (r\<lparr>cr_width := 3840, cr_height := 2160, cr_refresh := 60000\<rparr>)
      else case scan_compact_mode mode of
        Some (w, h, refresh) \<Rightarrow> Some (r\<lparr>cr_width := w, cr_height := h, cr_refresh := to_millis refresh\<rparr>)
      | None \<Rightarrow> None)"

definition probe_request :: "string \<Rightarrow> client_request option" where
  "probe_request mode =
     (let r = simple_request HDMI_LOS_OP_PROBE in
      if mode = ''lease-hold'' then Some (r\<lparr>cr_flags := HDMI_LOS_PROBE_LEASE_HOLD\<rparr>)
      else if mode = ''xorg-legacy'' then Some (r\<lparr>cr_flags := HDMI_LOS_PROBE_XORG_LEGACY\<rparr>)
      else if mode = ''xorg-atomic'' then Some (r\<lparr>cr_flags := HDMI_LOS_PROBE_XORG_ATOMIC\<rparr>)
      else None)"

definition client_arguments :: "string list \<Rightarrow> client_request option" where
  "client_arguments argv =
     (case argv of
        [a] \<Rightarrow>
          if a = ''toggle'' then Some (simple_request HDMI_LOS_OP_TOGGLE)
          else if a = ''arm'' then Some (simple_request HDMI_LOS_OP_ARM)
          else if a = ''disarm'' then Some (simple_request HDMI_LOS_OP_DISARM)
          else if a = ''status'' then Some (simple_request HDMI_LOS_OP_STATUS)
          else None
      | [a, b] \<Rightarrow>
          if a = ''mode'' then mode_request b
          else if a = ''probe'' then probe_request b
          else None
      | _ \<Rightarrow> None)"

definition client_message :: "client_request \<Rightarrow> hdmi_los_message" where
  "client_message r =
     zero_message\<lparr>m_magic := HDMI_LOS_MAGIC, m_version := HDMI_LOS_BROKER_VERSION,
       m_opcode := cr_opcode r, m_request_id := 1, m_flags := cr_flags r,
       m_requested_width := cr_width r, m_requested_height := cr_height r,
       m_requested_refresh_millihz := cr_refresh r\<rparr>"

text \<open>The exit status and the bytes sent, given how the connection behaves.\<close>

definition client_main :: "string list \<Rightarrow> bool \<Rightarrow> nat call list \<Rightarrow> bytes call list \<Rightarrow> int \<times> bytes" where
  "client_main argv online sends answers =
     (case client_arguments argv of
        None \<Rightarrow> (2, [])
      | Some r \<Rightarrow>
          if \<not> online then (1, [])
          else
            let (written, sent, rest) = write_full (bytes_of_message (client_message r)) sends;
                (got, bs, rest) = (if written then read_full HDMI_LOS_MESSAGE_SIZE answers
                                   else (False, [], answers));
                response = overlay bs zero_message
            in if \<not> got \<or> \<not> valid_message response then (1, sent)
               else (if m_status response = HDMI_LOS_OK then 0 else 1, sent))"

text \<open>\<open>main\<close>: a first argument other than \<open>daemon\<close> makes it a client.\<close>

datatype invocation = As_client "string list" | As_daemon | Bad_usage

definition invocation_of :: "string list \<Rightarrow> invocation" where
  "invocation_of argv =
     (case argv of
        a # rest \<Rightarrow> if a \<noteq> ''daemon'' then As_client (a # rest) else if rest = [] then As_daemon else Bad_usage
      | [] \<Rightarrow> As_daemon)"

subsection \<open>A mode typed at the command line\<close>

lemma scan_compact_mode_roundtrip:
  "scan_compact_mode (show_u w @ ''x'' @ show_u h @ ''@'' @ show_millis n) =
     Some (w, h, to_float (of_nat n / 1000))"
proof -
  let ?h = "show_u h @ ''@'' @ show_millis n"
  have 1: "scan_u (show_u w @ ''x'' @ ?h) = Some (w, ''x'' @ ?h)"
    using scan_u_show_u [of "[]" "''x'' @ ?h" w] by (simp add: is_digit_def)
  have 2: "scan_u ?h = Some (h, ''@'' @ show_millis n)"
    using scan_u_show_u [of "[]" "''@'' @ show_millis n" h] by (simp add: is_digit_def)
  have 3: "scan_f (show_millis n) = Some (to_float (of_nat n / 1000), [])"
    using scan_f_show_millis [of "[]" "[]" n] by simp
  show ?thesis
    unfolding scan_compact_mode_def 1 by (simp add: scan_char_def 2 [simplified] 3)
qed

lemma show_u_not_letter: "show_u w @ CHR ''x'' # s \<noteq> CHR ''n'' # t" "show_u w @ CHR ''x'' # s \<noteq> ''1080p60''"
    "show_u w @ CHR ''x'' # s \<noteq> ''2160p60''"
proof -
  have d: "is_digit (hd (show_u w))" by (simp add: show_u_def hd_show_nat_digit)
  moreover have "hd (show_u w @ CHR ''x'' # s) = hd (show_u w)" by (simp add: show_u_def)
  ultimately have "show_u w @ CHR ''x'' # s = CHR ''n'' # t \<Longrightarrow> is_digit (CHR ''n'')" by (metis list.sel(1))
  then show "show_u w @ CHR ''x'' # s \<noteq> CHR ''n'' # t" by (auto simp: is_digit_def)
  have x: "CHR ''x'' \<in> set (show_u w @ CHR ''x'' # s)" by simp
  have "CHR ''x'' \<notin> set ''1080p60''" "CHR ''x'' \<notin> set ''2160p60''" by simp_all
  with x show "show_u w @ CHR ''x'' # s \<noteq> ''1080p60''" "show_u w @ CHR ''x'' # s \<noteq> ''2160p60''"
    by (metis (no_types))+
qed

end
