(* ===== verification/Broker_Modes.thy ===== *)
theory Broker_Modes
  imports Broker_Sample Broker_Client
begin

section \<open>Preferred modes: typed, stored, journalled\<close>

text \<open>
  The texts in which a mode leaves the process: typed by a user, stored in the configuration,
  written to the recovery journal before Android's own preference is replaced.
\<close>

lemma length_show_nat: "n < 10 ^ Suc k \<Longrightarrow> length (show_nat n) \<le> Suc k"
proof (induction k arbitrary: n)
  case 0
  then show ?case by (subst show_nat.simps) simp
next
  case (Suc k)
  then have "n div 10 < 10 ^ Suc k" by (simp add: less_mult_imp_div_less mult.commute)
  with Suc.IH show ?case by (subst show_nat.simps) auto
qed

lemma length_show_u32: "length (show_u (w :: u32)) \<le> 10"
proof -
  have "unat w < 2 ^ LENGTH(32)" by (rule unsigned_less)
  then have "unat w < 10 ^ Suc 9" by simp
  from length_show_nat [OF this] show ?thesis by (simp add: show_u_def)
qed

lemma show_u_chars: "c \<in> set (show_u w) \<Longrightarrow> is_digit c"
  using show_nat_digits by (auto simp: show_u_def)

lemma show_u_no_control: "CHR 0x0A \<notin> set (show_u w)" "NUL \<notin> set (show_u w)"
proof -
  have "\<not> is_digit (CHR 0x0A)" "\<not> is_digit NUL" by (simp_all add: is_digit_def)
  then show "CHR 0x0A \<notin> set (show_u w)" "NUL \<notin> set (show_u w)" using show_u_chars by blast+
qed

lemma read_mode_text: "read_content (mode_text w h r) = mode_text w h r"
proof -
  define line where "line = show_u w @ '' '' @ show_u h @ '' '' @ show_u r"
  have "CHR 0x0A \<notin> set line" "NUL \<notin> set line"
    by (simp_all add: line_def show_u_no_control)
  moreover have "length line < 511"
    using length_show_u32 [of w] length_show_u32 [of h] length_show_u32 [of r] by (simp add: line_def)
  ultimately have "read_content (line @ [CHR 0x0A]) = line @ [CHR 0x0A]" by (rule read_content_line)
  then show ?thesis by (simp add: mode_text_def line_def)
qed

lemma scan_mode_text: "scan_u3 (read_content (mode_text w h r)) = Some (w, h, r)"
  using scan_u3_roundtrip [of w h r] unfolding read_mode_text by (simp add: mode_text_def)

text \<open>
  C32. A mode that was set survives a restart of the broker: when \<open>SetMode\<close> reports success, a
  broker that later loads the configuration, from the file as it was written, requests exactly
  the mode that the client asked for.
\<close>

theorem configured_mode_roundtrip:
  assumes "run_state (SetMode request) s = ((HDMI_LOS_OK, detail), t)"
    and "w_files u kModeConfig = w_files t kModeConfig" and "w_read u 0 = (True, True)"
    and "run_state LoadConfiguredMode u = ((), v)"
  shows "requested_width v = m_requested_width request \<and> requested_height v = m_requested_height request \<and>
    requested_refresh_millihz v = m_requested_refresh_millihz request"
proof -
  let ?w = "m_requested_width request" and ?h = "m_requested_height request" and ?r = "m_requested_refresh_millihz request"
  have "wp (SetMode request) (\<lambda>res t. fst res = HDMI_LOS_OK \<longrightarrow>
      mode_in_range ?w ?h ?r \<and> w_files t kModeConfig = Some (mode_text ?w ?h ?r)) s"
    unfolding SetMode_def SaveConfiguredMode_def write_atomic_text_def set_requested_def log_effect_def Let_def
    by (auto simp: wp_simps intro!: mode_in_rangeI)
  from wp_run [OF this assms(1)]
  have m: "mode_in_range ?w ?h ?r" "w_files u kModeConfig = Some (mode_text ?w ?h ?r)" using assms(2) by auto
  have "wp LoadConfiguredMode (\<lambda>_ v. requested_width v = ?w \<and> requested_height v = ?h \<and> requested_refresh_millihz v = ?r) u"
    unfolding LoadConfiguredMode_def read_text_def set_requested_def
    using m assms(3) scan_mode_text [of ?w ?h ?r] by (simp add: wp_simps Let_def)
  from wp_run [OF this assms(4)] show ?thesis by simp
qed

text \<open>A world that stores what is written to it, and answers the display commands.\<close>

definition storing :: "nat \<Rightarrow> world \<Rightarrow> world" where
  "storing n w = w\<lparr>w_write := (\<lambda>_. \<lparr>wi_open = True, wi_written = int n, wi_fsync = True, wi_close = True, wi_rename = True\<rparr>),
     w_display := (\<lambda>_. Child [''User preferred display mode: null''] (Some 0))\<rparr>"

lemma storing_reads: "w_read (new_broker (storing n quiet_world)) 0 = (True, True)"
  by (simp add: new_broker_def world.extend_def storing_def quiet_world_def)

theorem configured_mode_roundtrip_witness:
  "\<exists>s t v. run_state (SetMode zero_message) s = ((HDMI_LOS_OK, ''preferred mode saved; arm before connecting HDMI''), t) \<and>
     run_state LoadConfiguredMode (s\<lparr>w_files := w_files t\<rparr>) = ((), v) \<and> requested_width s = 1920 \<and> requested_width v = 0"
proof -
  define s where "s = new_broker (storing 6 quiet_world)"
  define t where "t = snd (run_state (SetMode zero_message) s)"
  define v where "v = snd (run_state LoadConfiguredMode (s\<lparr>w_files := w_files t\<rparr>))"
  have "fst (run_state (SetMode zero_message) s) = (HDMI_LOS_OK, ''preferred mode saved; arm before connecting HDMI'')"
    unfolding s_def by code_simp
  then have 1: "run_state (SetMode zero_message) s = ((HDMI_LOS_OK, ''preferred mode saved; arm before connecting HDMI''), t)"
    by (simp add: t_def prod_eq_iff)
  have 2: "run_state LoadConfiguredMode (s\<lparr>w_files := w_files t\<rparr>) = ((), v)" by (simp add: v_def prod_eq_iff)
  have "requested_width v = 0"
    using configured_mode_roundtrip [OF 1 _ _ 2] storing_reads by (simp add: s_def zero_message_def)
  moreover have "requested_width s = 1920" by (simp add: s_def new_broker_def world.extend_def)
  ultimately show ?thesis using 1 2 by blast
qed

text \<open>
  C33. A refresh rate typed at the command line with three decimals reaches the broker exactly:
  for every rate from 1 to 4000 Hz, \<open>mode WIDTHxHEIGHT@HZ\<close> sends a well-formed request with the
  typed width and height and the rate in millihertz, although it is read as a single-precision
  float on the way.
\<close>

theorem typed_mode_is_requested:
  assumes "1000 \<le> unat r" and "unat r \<le> 4000000"
    and "client_main [''mode'', show_u w @ ''x'' @ show_u h @ ''@'' @ show_millis (unat r)] True [] answers = (code, sent)"
  shows "valid_message (message_of_bytes sent) \<and> m_opcode (message_of_bytes sent) = HDMI_LOS_OP_SET_MODE \<and>
    m_requested_width (message_of_bytes sent) = w \<and> m_requested_height (message_of_bytes sent) = h \<and>
    m_requested_refresh_millihz (message_of_bytes sent) = r"
proof -
  define req where "req = (simple_request HDMI_LOS_OP_SET_MODE)\<lparr>cr_width := w, cr_height := h, cr_refresh := r\<rparr>"
  let ?t = "show_u w @ ''x'' @ show_u h @ ''@'' @ show_millis (unat r)"
  have "to_millis (to_float (of_nat (unat r) / 1000)) = r" using millis_roundtrip [OF assms(1,2)] by simp
  then have "mode_request ?t = Some req"
    unfolding mode_request_def using scan_compact_mode_roundtrip [of w h "unat r"] show_u_not_letter [of w]
    by (simp add: req_def Let_def)
  then have a: "client_arguments [''mode'', ?t] = Some req" by (simp add: client_arguments_def)
  have wf: "wf_message (client_message req)" by (simp add: client_message_def wf_message_def zero_message_def)
  have "sent = bytes_of_message (client_message req)"
    using assms(3) unfolding client_main_def a by (auto simp: Let_def split: prod.splits if_splits)
  then have "message_of_bytes sent = client_message req" using message_wire.dec_enc [OF wf] by simp
  then show ?thesis by (simp add: client_message_def req_def simple_request_def valid_message_def)
qed

theorem typed_mode_is_requested_witness:
  "m_requested_refresh_millihz (message_of_bytes (snd (client_main
      [''mode'', show_u (1920 :: u32) @ ''x'' @ show_u (1080 :: u32) @ ''@'' @ show_millis (unat (59940 :: u32))] True [] []))) = 59940"
  using typed_mode_is_requested [of 59940 1920 1080 "[]" _ _, OF _ _ surjective_pairing] by simp

subsection \<open>The recovery journal\<close>

text \<open>The display command that restores a mode; all zero stands for no preference.\<close>

definition restore_arguments :: "u32 \<Rightarrow> u32 \<Rightarrow> u32 \<Rightarrow> string list" where
  "restore_arguments w h r =
     (if w = 0 \<and> h = 0 \<and> r = 0 then [''clear-user-preferred-display-mode'']
      else [''set-user-preferred-display-mode'', show_u w, show_u h, show_millis (unat r)])"

lemma display_command_rule:
  assumes "\<And>ok out s'. run_display_command (w_display s 0) previous = (ok, out) \<Longrightarrow> w_files s' = w_files s \<Longrightarrow>
      w_log s' = w_log s @ [Display arguments ok out] \<Longrightarrow> w_read s' = w_read s \<Longrightarrow>
      requested_width s' = requested_width s \<Longrightarrow> requested_height s' = requested_height s \<Longrightarrow>
      requested_refresh_millihz s' = requested_refresh_millihz s \<Longrightarrow> Q (ok, out) s'"
  shows "wp (display_command arguments previous) Q s"
  unfolding display_command_def log_effect_def
  by (cases "run_display_command (w_display s 0) previous") (auto simp: wp_simps Let_def intro!: assms)

lemma set_preferred_restore: "set_preferred w h r = display_command (restore_arguments w h r) ''''"
  by (simp add: set_preferred_def restore_arguments_def)

lemma write_atomic_rule:
  assumes "\<And>ok s'. (ok \<Longrightarrow> w_files s' path = Some txt) \<Longrightarrow> Q ok s'"
  shows "wp (write_atomic_text path txt) Q s"
  unfolding write_atomic_text_def log_effect_def Let_def
  by (auto simp: wp_simps intro!: assms)

lemma Recover_rule:
  assumes "w_files s kModeJournal = Some (mode_text w h r)" "w_read s 0 = (True, True)"
    and "\<And>ok out s'. w_log s' = w_log s @ Display (restore_arguments w h r) ok out # (if ok then [Unlinked kModeJournal] else []) \<Longrightarrow>
      w_files s' = (if ok then (w_files s)(kModeJournal := None) else w_files s) \<Longrightarrow> Q ok s'"
  shows "wp RecoverPreferredMode Q s"
proof -
  define t where "t = s\<lparr>w_read := later (w_read s)\<rparr>"
  have "wp (display_command (restore_arguments w h r) '''') (\<lambda>(ok, out). wp (whenever ok (unlink_path kModeJournal) \<bind> (\<lambda>_. return ok)) Q) t"
    by (rule display_command_rule)
      (auto simp: wp_simps unlink_path_def log_effect_def t_def intro!: assms(3))
  then show ?thesis
    unfolding RecoverPreferredMode_def read_text_def set_preferred_restore
    using assms(1,2) scan_mode_text [of w h r] by (simp add: wp_simps Let_def t_def case_prod_beta')
qed



end
