(* ===== verification/Broker_Access.thy ===== *)
theory Broker_Access
  imports Broker_Sample
begin

section \<open>Clients, volume keys and composer answers\<close>

text \<open>
  What an unauthorized or unprivileged client can do, when the volume keys end a session, and
  which message of the composer counts as the answer to a request.
\<close>

subsection \<open>Reading the status\<close>

definition silent :: "broker \<Rightarrow> broker \<Rightarrow> bool" where
  "silent s s' \<longleftrightarrow> core s' = core s \<and> composer_fd s' = composer_fd s \<and> w_log s' = w_log s"

interpretation quiet: step_preorder silent
  by unfold_locales (auto simp: silent_def)

lemma silent_modify:
  "(\<And>s. core (f s) = core s) \<Longrightarrow> (\<And>s. composer_fd (f s) = composer_fd s) \<Longrightarrow> (\<And>s. w_log (f s) = w_log s) \<Longrightarrow>
     keeps silent (modify f)"
  by (simp add: keeps_def silent_def)

lemma silent_Status: "keeps silent (Status request_id)"
  unfolding Status_def make_message_def compatible_def diagnostic_dump_ready_def diagnostic_only_def
    remaining_seconds_def monotonic_ms_def
  by (intro quiet.keeps_intros silent_modify) (auto simp: core_def)

subsection \<open>Authorization\<close>

text \<open>
  C34. A client that is neither root nor the Quick Settings tile changes nothing: whatever it
  sends, the broker's state stays as it was, no message goes to the composer or the agent, and
  the only effects are that its connection is opened, possibly answered with the permission
  error, and closed.
\<close>

theorem strangers_change_nothing:
  assumes "w_clients s = c # rest" and "cl_uid c = Some uid" and "uid \<noteq> 0"
    and "tile_uid (w_packages s 0) = - 1 \<or> uid \<noteq> tile_uid (w_packages s 0)"
    and "run_state AcceptClient s = ((), t)"
  shows "core t = core (s\<lparr>w_clients := rest\<rparr>) \<and> composer_fd t = composer_fd s \<and>
    (\<exists>effects. w_log t = w_log s @ effects \<and>
       (\<forall>e \<in> set effects. e = Opened (cl_fd c) \<or> e = Closed (cl_fd c) \<or>
          (\<exists>m. e = To_client (cl_fd c) m \<and> m_status m = HDMI_LOS_ERR_PERMISSION)))"
proof -
  define s0 where "s0 = s\<lparr>w_clients := rest\<rparr>"
  define s1 where "s1 = s0\<lparr>w_log := w_log s0 @ [Opened (cl_fd c)]\<rparr>"
  let ?ok = "\<lambda>e. e = Opened (cl_fd c) \<or> e = Closed (cl_fd c) \<or> (\<exists>m. e = To_client (cl_fd c) m \<and> m_status m = HDMI_LOS_ERR_PERMISSION)"
  let ?Q = "\<lambda>_ t. core t = core s0 \<and> composer_fd t = composer_fd s0 \<and> (\<exists>es. w_log t = w_log s @ es \<and> (\<forall>e \<in> set es. ?ok e))"
  have close: "wp (close_fd (cl_fd c)) ?Q u"
    if "core u = core s0" "composer_fd u = composer_fd s0" "w_log u = w_log s @ es" "\<forall>e \<in> set es. ?ok e" for u es
    unfolding close_fd_def log_effect_def wp_modify using that
    by (auto simp: core_def intro!: exI [of _ "es @ [Closed (cl_fd c)]"])
  have s1: "core s1 = core s0" "composer_fd s1 = composer_fd s0" "w_log s1 = w_log s @ [Opened (cl_fd c)]"
    by (simp_all add: s1_def s0_def core_def)
  have deny: "wp (deny (c\<lparr>cl_in := b\<rparr>) request) ?Q u" if u: "silent s1 u" for b request u
    unfolding deny_def
  proof (subst wp_bind, rule keeps_rule [OF silent_Status], subst wp_bind)
    fix m v assume v: "silent u v"
    define r where "r = put_detail ''peer uid is not authorized'' (m\<lparr>m_status := HDMI_LOS_ERR_PERMISSION\<rparr>)"
    have st: "m_status r = HDMI_LOS_ERR_PERMISSION" by (simp add: r_def put_detail_def)
    have v1: "core v = core s0" "composer_fd v = composer_fd s0" "w_log v = w_log s @ [Opened (cl_fd c)]"
      using v u s1 by (auto simp: silent_def)
    show "wp (write_client (c\<lparr>cl_in := b\<rparr>) (put_detail ''peer uid is not authorized'' (m\<lparr>m_status := HDMI_LOS_ERR_PERMISSION\<rparr>)))
        (\<lambda>_. wp (close_fd (cl_fd (c\<lparr>cl_in := b\<rparr>))) ?Q) v"
      unfolding r_def [symmetric] write_client_def log_effect_def wp_whenever wp_modify client.simps
    proof (cases "fst (write_full (bytes_of_message r) (cl_send c))", simp_all, goal_cases)
      case 1
      show ?case
        by (rule close [of _ "[Opened (cl_fd c), To_client (cl_fd c) r]"]) (use v1 st in \<open>auto simp: core_def\<close>)
    next
      case 2
      show ?case by (rule close [of _ "[Opened (cl_fd c)]"]) (use v1 in auto)
    qed
  qed
  have serve: "wp (serve_client uid (c\<lparr>cl_in := b\<rparr>) request) ?Q s1" for b request
  proof -
    have "\<not> (tile_uid (w_packages s1 0) \<noteq> - 1 \<and> uid = tile_uid (w_packages s1 0))"
      using assms(4) by (auto simp: s1_def s0_def)
    then show ?thesis
      unfolding serve_client_def Let_def using assms(3)
      by (simp add: wp_simps, intro deny) (simp add: silent_def core_def)
  qed
  have shut: "wp (close_fd (cl_fd c)) ?Q s1" by (rule close [OF s1]) simp
  have "wp AcceptClient ?Q s"
  proof (cases "cl_fd c < 0")
    case True
    then show ?thesis
      unfolding AcceptClient_def by (simp add: wp_simps assms(1) s0_def)
  next
    case False
    then show ?thesis
      unfolding AcceptClient_def log_effect_def using shut serve
      by (simp add: wp_simps assms(1,2) Let_def case_prod_beta flip: s0_def s1_def)
  qed
  from wp_run [OF this assms(5)] show ?thesis by (simp add: s0_def)
qed
text \<open>A world with one client, of an ordinary user.\<close>

definition stranger :: "u32 \<Rightarrow> u16 \<Rightarrow> client" where
  "stranger uid opcode = \<lparr>cl_fd = 10, cl_uid = Some uid, cl_in = [sample_bytes opcode 9 0], cl_send = []\<rparr>"

theorem strangers_change_nothing_witness:
  "core (snd (run_state AcceptClient (new_broker (quiet_world\<lparr>w_clients := [stranger 10123 HDMI_LOS_OP_ARM]\<rparr>)))) =
   core (new_broker quiet_world)"
proof -
  define s where "s = new_broker (quiet_world\<lparr>w_clients := [stranger 10123 HDMI_LOS_OP_ARM]\<rparr>)"
  have s: "w_clients s = [stranger 10123 HDMI_LOS_OP_ARM]" "tile_uid (w_packages s 0) = - 1"
    "core (s\<lparr>w_clients := []\<rparr>) = core (new_broker quiet_world)"
    by (simp_all add: s_def new_broker_def world.extend_def quiet_world_def tile_uid_def core_def)
  have "run_state AcceptClient s = ((), snd (run_state AcceptClient s))" by (simp add: prod_eq_iff)
  from strangers_change_nothing [OF s(1) _ _ _ this, of 10123] s(2,3) show ?thesis
    by (simp add: stranger_def s_def)
qed

text \<open>What a query of the composer's status may change.\<close>

definition mild :: "broker \<Rightarrow> broker \<Rightarrow> bool" where
  "mild s s' \<longleftrightarrow> (lease_ok s \<longrightarrow> lease_ok s' \<and> core s' = core s \<and> prefs (w_log s') = prefs (w_log s) \<and>
     (lease_open (w_log s') \<longrightarrow> lease_open (w_log s)))"

interpretation gentle: step_preorder mild
  by unfold_locales (auto simp: mild_def)

lemma mild_talk: "talk m \<Longrightarrow> keeps mild m"
  by (erule keeps_weaken) (auto simp: mild_def still_def calm_def lease_ok_def)

lemma mild_status_request: "keeps mild (ComposerRequest HDMI_LOS_OP_STATUS response False flags)"
proof (rule keeps_I)
  fix s
  show "wp (ComposerRequest HDMI_LOS_OP_STATUS response False flags) (\<lambda>_. mild s) s"
  proof (cases "lease_ok s")
    case True
    then show ?thesis by (rule ComposerRequest_rule) (auto simp: asked_def mild_def calm_def)
  qed (simp add: mild_def wp_def case_prod_beta)
qed

lemma mild_close: "keeps mild (close_fd fd)"
  by (simp add: keeps_def close_fd_def log_effect_def mild_def lease_ok_def core_def)

lemmas mild_intros = gentle.keeps_intros mild_status_request mild_close mild_talk [OF talk_Status]
  mild_talk [OF talk_write_client]

text \<open>
  Probing and registering an agent are reserved to root: for any other client, the tile
  included, a request with one of these opcodes leaves the broker's state, Android's preference
  and the lease as they were.
\<close>

theorem only_root_probes_or_registers:
  assumes "lease_ok s" and "w_clients s = c # rest" and "cl_uid c = Some uid" and "uid \<noteq> 0"
    and "read_full HDMI_LOS_MESSAGE_SIZE (cl_in c) = (ok, bs, unread)"
    and "m_opcode (overlay bs zero_message) \<in> {HDMI_LOS_OP_PROBE, HDMI_LOS_OP_AGENT_REGISTER}"
    and "run_state AcceptClient s = ((), t)"
  shows "core t = core (s\<lparr>w_clients := rest\<rparr>) \<and> prefs (w_log t) = prefs (w_log s) \<and>
    (lease_open (w_log t) \<longrightarrow> lease_open (w_log s))"
proof -
  define s0 where "s0 = s\<lparr>w_clients := rest\<rparr>"
  define s1 where "s1 = s0\<lparr>w_log := w_log s0 @ [Opened (cl_fd c)]\<rparr>"
  define request where "request = overlay bs zero_message"
  have op: "m_opcode request = HDMI_LOS_OP_PROBE \<or> m_opcode request = HDMI_LOS_OP_AGENT_REGISTER"
    using assms(6) by (auto simp: request_def)
  have s1: "mild s0 s1" "mild s0 s0" by (simp_all add: s1_def mild_def lease_ok_def core_def)
  have "keeps mild (command False request response)" for response
    unfolding command_def by (cases "m_opcode request = HDMI_LOS_OP_PROBE") (use op in \<open>auto intro: mild_intros\<close>)
  then have "keeps mild (serve_command False c' request)" for c'
    unfolding serve_command_def by (intro mild_intros)
  moreover have "keeps mild (deny c' request)" for c'
    unfolding deny_def by (intro mild_intros)
  moreover have "keeps mild (modify (\<lambda>s. s\<lparr>w_packages := later (w_packages s)\<rparr>))"
    by (simp add: keeps_def mild_def lease_ok_def core_def)
  ultimately have "keeps mild (serve_client uid c' request)" for c'
    unfolding serve_client_def Let_def using assms(4) by (auto intro!: mild_intros)
  then have serve: "wp (serve_client uid c' request) (\<lambda>_. mild s0) s1" for c'
    by (rule keeps_rule) (rule gentle.step_trans [OF s1(1)])
  have shut: "wp (close_fd (cl_fd c)) (\<lambda>_. mild s0) s1"
    by (rule keeps_rule [OF mild_close]) (rule gentle.step_trans [OF s1(1)])
  have "wp AcceptClient (\<lambda>_. mild s0) s"
    unfolding AcceptClient_def log_effect_def using shut serve s1(2)
    by (simp add: wp_simps assms(2,3,5) Let_def flip: s0_def s1_def request_def)
  from wp_run [OF this assms(7)] show ?thesis using assms(1) by (simp add: mild_def s0_def lease_ok_def)
qed

theorem only_root_probes_or_registers_witness:
  "core (snd (run_state AcceptClient (new_broker (quiet_world\<lparr>w_clients := [stranger 10123 HDMI_LOS_OP_PROBE]\<rparr>)))) =
   core (new_broker quiet_world)"
proof -
  define s where "s = new_broker (quiet_world\<lparr>w_clients := [stranger 10123 HDMI_LOS_OP_PROBE]\<rparr>)"
  have s: "lease_ok s" "w_clients s = [stranger 10123 HDMI_LOS_OP_PROBE]"
    "core (s\<lparr>w_clients := []\<rparr>) = core (new_broker quiet_world)"
    by (simp_all add: s_def new_broker_def world.extend_def quiet_world_def lease_ok_def core_def)
  define r where "r = read_full HDMI_LOS_MESSAGE_SIZE (cl_in (stranger 10123 HDMI_LOS_OP_PROBE))"
  have op: "m_opcode (overlay (fst (snd r)) zero_message) \<in> {HDMI_LOS_OP_PROBE, HDMI_LOS_OP_AGENT_REGISTER}"
    unfolding r_def by code_simp
  have r: "read_full HDMI_LOS_MESSAGE_SIZE (cl_in (stranger 10123 HDMI_LOS_OP_PROBE)) = (fst r, fst (snd r), snd (snd r))"
    by (simp only: r_def prod.collapse)
  have uid: "cl_uid (stranger 10123 HDMI_LOS_OP_PROBE) = Some 10123" "(10123 :: u32) \<noteq> 0" by (simp_all add: stranger_def)
  have "run_state AcceptClient s = ((), snd (run_state AcceptClient s))" by (simp add: prod_eq_iff)
  from only_root_probes_or_registers [OF s(1,2) uid r op this] s(3) show ?thesis
    unfolding s_def by simp
qed

subsection \<open>The escape chord\<close>

text \<open>
  The specification: a history of samples, the latest first, each with its time and whether both
  keys were down. The keys are held since the oldest sample of the latest uninterrupted run.
\<close>

fun held_since :: "(int \<times> bool) list \<Rightarrow> int option" where
  "held_since [] = None"
| "held_since ((now, both) # history) =
     (if both then Some (case held_since history of None \<Rightarrow> now | Some t \<Rightarrow> t) else None)"

definition escapes :: "(int \<times> bool) list \<Rightarrow> bool" where
  "escapes history = (case (history, held_since history) of
     ((now, both) # _, Some t) \<Rightarrow> kChordHoldMs \<le> now - t | _ \<Rightarrow> False)"

text \<open>The member \<open>both_since\<close> holds that time, and zero for none.\<close>

definition tracks :: "(int \<times> bool) list \<Rightarrow> broker \<Rightarrow> bool" where
  "tracks history s \<longleftrightarrow> both_since s = (case held_since history of None \<Rightarrow> 0 | Some t \<Rightarrow> t) \<and>
     (\<forall>t. held_since history = Some t \<longrightarrow> 0 < t)"

lemma chord_refines:
  assumes "tracks history s" "0 < w_now s"
  shows "wp chord (\<lambda>r t. tracks ((w_now t, down_pressed s \<and> up_pressed s) # history) t \<and>
     r = escapes ((w_now t, down_pressed s \<and> up_pressed s) # history)) s"
  unfolding chord_def monotonic_ms_def
  using assms by (auto simp: wp_simps tracks_def escapes_def split: option.splits)

text \<open>What polling and reading one device gives: whether it failed, and whether its key is down.\<close>

definition device_fails :: "u16 \<Rightarrow> nat \<Rightarrow> input_event list call list \<Rightarrow> bool \<Rightarrow> bool" where
  "device_fails events key reads pressed \<longleftrightarrow>
     has_bits events POLLBAD \<or> (has_bits events POLLIN \<and> \<not> fst (ReadOne key reads pressed))"

definition key_down :: "u16 \<Rightarrow> nat \<Rightarrow> input_event list call list \<Rightarrow> bool \<Rightarrow> bool" where
  "key_down events key reads pressed =
     (if has_bits events POLLIN then fst (snd (ReadOne key reads pressed)) else pressed)"

text \<open>
  C35. The volume guard implements the specification of the escape. If either device fails, hangs
  up or cannot be read, a round of \<open>VolumeGuard::Update\<close> reports the escape at once. Otherwise it
  extends the history by one sample of both keys, keeps \<open>both_since\<close> the begin of the current
  hold, and reports an escape exactly if both keys have been down in every sample of the last
  three seconds or more.
\<close>

theorem volume_escape_refines:
  assumes "tracks history s" and "0 < w_now s" and "run_state (volumes_Update down_events up_events) s = (escaped, t)"
    and "sample = (w_now t, key_down down_events KEY_VOLUMEDOWN (w_down_reads s) (down_pressed s) \<and>
      key_down up_events KEY_VOLUMEUP (w_up_reads s) (up_pressed s))"
  shows "if device_fails down_events KEY_VOLUMEDOWN (w_down_reads s) (down_pressed s) \<or>
      device_fails up_events KEY_VOLUMEUP (w_up_reads s) (up_pressed s)
    then escaped else tracks (sample # history) t \<and> escaped = escapes (sample # history)"
proof -
  obtain ok1 p1 rest1 where d: "ReadOne KEY_VOLUMEDOWN (w_down_reads s) (down_pressed s) = (ok1, p1, rest1)" by (rule prod_cases3)
  obtain ok2 p2 rest2 where u: "ReadOne KEY_VOLUMEUP (w_up_reads s) (up_pressed s) = (ok2, p2, rest2)" by (rule prod_cases3)
  define t1 where "t1 = (if has_bits down_events POLLIN then s\<lparr>w_down_reads := rest1, down_pressed := p1\<rparr> else s)"
  define t2 where "t2 = (if has_bits up_events POLLIN then t1\<lparr>w_up_reads := rest2, up_pressed := p2\<rparr> else t1)"
  have t2: "tracks history t2" "0 < w_now t2"
    "down_pressed t2 = key_down down_events KEY_VOLUMEDOWN (w_down_reads s) (down_pressed s)"
    "up_pressed t2 = key_down up_events KEY_VOLUMEUP (w_up_reads s) (up_pressed s)"
    using assms(1,2) by (simp_all add: t2_def t1_def tracks_def key_down_def d u)
  let ?fails = "device_fails down_events KEY_VOLUMEDOWN (w_down_reads s) (down_pressed s) \<or>
      device_fails up_events KEY_VOLUMEUP (w_up_reads s) (up_pressed s)"
  have up: "w_up_reads t1 = w_up_reads s" "up_pressed t1 = up_pressed s" by (simp_all add: t1_def)
  have "if ?fails then fst (run_state (volumes_Update down_events up_events) s)
      else run_state (volumes_Update down_events up_events) s = run_state chord t2"
    unfolding volumes_Update_def read_down_def read_up_def device_fails_def t2_def t1_def by (simp add: d u)
  with assms(3) have run: "if ?fails then escaped else run_state chord t2 = (escaped, t)" by (auto split: if_splits)
  show ?thesis
    using run wp_run [OF chord_refines [OF t2(1,2)], of escaped t] t2(3,4) assms(4) by auto
qed

theorem volume_escape_refines_witness:
  "escapes [(5000, True), (3500, True), (2000, True), (1000, False)] \<and>
   tracks [(3500, True), (2000, True), (1000, False)] ((new_broker quiet_world)\<lparr>w_now := 4999, both_since := 2000, down_pressed := True, up_pressed := True\<rparr>) \<and>
   fst (run_state (volumes_Update 0 0) ((new_broker quiet_world)\<lparr>w_now := 4999, both_since := 2000, down_pressed := True, up_pressed := True\<rparr>))"
proof -
  define h :: "(int \<times> bool) list" where "h = [(3500, True), (2000, True), (1000, False)]"
  define s where "s = (new_broker quiet_world)\<lparr>w_now := 4999, both_since := 2000, down_pressed := True, up_pressed := True\<rparr>"
  define r where "r = run_state (volumes_Update 0 0) s"
  have h: "tracks h s" "0 < w_now s" by (simp_all add: tracks_def h_def s_def)
  have now: "w_now (snd r) = 5000"
    by (simp add: r_def s_def volumes_Update_def chord_def monotonic_ms_def has_bits_def new_broker_def world.extend_def quiet_world_def)
  have keys: "key_down 0 KEY_VOLUMEDOWN (w_down_reads s) (down_pressed s)" "key_down 0 KEY_VOLUMEUP (w_up_reads s) (up_pressed s)"
    "\<not> device_fails 0 KEY_VOLUMEDOWN (w_down_reads s) (down_pressed s)" "\<not> device_fails 0 KEY_VOLUMEUP (w_up_reads s) (up_pressed s)"
    by (simp_all add: key_down_def device_fails_def has_bits_def s_def)
  have "run_state (volumes_Update 0 0) s = (fst r, snd r)" by (simp add: r_def)
  from volume_escape_refines [OF h this refl] keys now have "fst r = escapes ((5000, True) # h)" by simp
  moreover have "escapes ((5000, True) # h)" by (simp add: escapes_def h_def)
  ultimately show ?thesis using h by (simp add: r_def s_def h_def)
qed

subsection \<open>Answers of the composer\<close>

definition answered :: "u32 \<Rightarrow> bool \<Rightarrow> bool \<times> hdmi_los_message \<times> int \<Rightarrow> broker \<Rightarrow> bool" where
  "answered request_id want_fd result t \<longleftrightarrow> (case result of (ok, m, fd) \<Rightarrow> ok \<longrightarrow>
     valid_composer_message m \<and> m_request_id m = request_id \<and>
     composer_flags t = m_flags m \<and> active_width t = m_active_width m \<and> active_height t = m_active_height m \<and>
     active_refresh_millihz t = m_active_refresh_millihz m \<and> \<not> composer_disconnect_pending t \<and> (\<not> want_fd \<longrightarrow> fd = - 1))"

lemma not_answered: "answered request_id want_fd (False, m, fd) t"
  by (simp add: answered_def)

lemma composer_answer_matches:
  "wp (composer_answer fuel request_id want_fd response) (answered request_id want_fd) s"
proof (induction fuel arbitrary: response s)
  case 0
  show ?case by (simp add: composer_answer.simps wp_return not_answered)
next
  case (Suc fuel)
  show ?case
    unfolding composer_answer.simps
    unfolding close_passed_def close_fd_def log_effect_def drop_composer_def CacheComposerStatus_def
  proof (subst wp_bind, rule keeps_rule [of "\<lambda>_ _. True"], simp add: keeps_def, unfold case_prod_beta, intro wp_ifI, goal_cases)
    case (4 r t)
    then show ?case by (auto simp: wp_simps wp_returns answered_def)
  qed (simp_all add: wp_simps wp_returns not_answered Suc.IH)
qed

text \<open>
  C36. The broker takes no message for the answer to a request but the one that carries the
  request's own identifier: when \<open>ComposerRequest\<close> succeeds, its response is well formed, answers
  this request, and is what the cached flags and active mode show afterwards; no disconnection is
  pending; and a descriptor is handed out only to a caller that wants one.
\<close>

theorem composer_request_matched:
  assumes "run_state (ComposerRequest opcode response want_fd flags) s = ((True, m, fd), t)"
  shows "valid_composer_message m \<and> m_request_id m = g_request_id s \<and>
    composer_flags t = m_flags m \<and> active_width t = m_active_width m \<and> active_height t = m_active_height m \<and>
    active_refresh_millihz t = m_active_refresh_millihz m \<and> \<not> composer_disconnect_pending t \<and> (\<not> want_fd \<longrightarrow> fd = - 1)"
proof -
  have id: "wp EnsureComposer (\<lambda>_ t. g_request_id t = g_request_id s) s"
    unfolding EnsureComposer_def connect_abstract_def open_socket_def log_effect_def
    by (simp add: wp_simps wp_returns Let_def split: prod.splits)
  have "wp (ComposerRequest opcode response want_fd flags) (answered (g_request_id s) want_fd) s"
    unfolding ComposerRequest_def
  proof (subst wp_bind, rule wp_mono [OF id], rule wp_ifI, goal_cases)
    case 1
    show ?case by (simp add: wp_return not_answered)
  next
    case (2 x u)
    then show ?case
      unfolding make_message_def log_effect_def drop_composer_def
      by (cases "send_with_fd (w_composer_send u)")
        (simp add: wp_simps wp_returns Let_def not_answered composer_answer_matches)
  qed
  from wp_run [OF this assms] show ?thesis by (simp add: answered_def)
qed

theorem composer_request_matched_witness:
  "\<exists>s m fd t. run_state (ComposerRequest HDMI_LOS_OP_STATUS zero_message False 0) s = ((True, m, fd), t) \<and>
     m_request_id m = g_request_id s \<and> fd = - 1"
proof -
  define s where "s = new_broker (quiet_world\<lparr>w_composer_in := [sample_reply 1 7]\<rparr>)"
  define r where "r = run_state (ComposerRequest HDMI_LOS_OP_STATUS zero_message False 0) s"
  have "fst (fst r)" unfolding r_def s_def by code_simp
  then have "r = ((True, fst (snd (fst r)), snd (snd (fst r))), snd r)" by (simp add: prod_eq_iff)
  from composer_request_matched [OF this [unfolded r_def]] this show ?thesis unfolding r_def by blast
qed

end
