(* ===== verification/Agent_Text.thy ===== *)
theory Agent_Text
  imports Drm_Records Broker_Text
begin

section \<open>The agent's options, messages and files\<close>

text \<open>
  The pure parts of \<open>src/native/agent/main.cpp\<close>: its command line, the messages and
  acknowledgements it builds, the Xorg configuration it writes, the commands and environments
  of the processes it starts, and the texts it reads.
\<close>

subsection \<open>Options\<close>

datatype ClientPresentMode = kBridge | kShadow | kDirect

record options =
  g_bundle :: string
  g_kgsl_glamor :: bool
  g_kgsl_kms_bridge :: bool
  g_client_present :: ClientPresentMode
  g_start_lxde :: bool
  g_no_timeout :: bool
  g_trace_startup_only :: bool

text \<open>The initial values of the globals.\<close>

definition default_options :: options where
  "default_options = \<lparr>g_bundle = [], g_kgsl_glamor = False, g_kgsl_kms_bridge = False,
     g_client_present = kBridge, g_start_lxde = True, g_no_timeout = False, g_trace_startup_only = True\<rparr>"

definition accel_option :: "string \<Rightarrow> options \<Rightarrow> options option" where
  "accel_option word opts =
     (if word = ''safe'' then Some (opts\<lparr>g_kgsl_glamor := False, g_kgsl_kms_bridge := False\<rparr>)
      else if word = ''kgsl-glamor'' then Some (opts\<lparr>g_kgsl_glamor := True, g_kgsl_kms_bridge := False\<rparr>)
      else if word = ''kgsl-kms-bridge'' then Some (opts\<lparr>g_kgsl_glamor := True, g_kgsl_kms_bridge := True\<rparr>)
      else None)"

definition session_option :: "string \<Rightarrow> options \<Rightarrow> options option" where
  "session_option word opts =
     (if word = ''lxde'' then Some (opts\<lparr>g_start_lxde := True\<rparr>)
      else if word = ''none'' then Some (opts\<lparr>g_start_lxde := False\<rparr>)
      else None)"

definition present_option :: "string \<Rightarrow> options \<Rightarrow> options option" where
  "present_option word opts =
     (if word = ''bridge'' then Some (opts\<lparr>g_client_present := kBridge\<rparr>)
      else if word = ''shadow'' then Some (opts\<lparr>g_client_present := kShadow\<rparr>)
      else if word = ''direct'' then Some (opts\<lparr>g_client_present := kDirect\<rparr>)
      else None)"

definition trace_option :: "string \<Rightarrow> options \<Rightarrow> options option" where
  "trace_option word opts =
     (if word = ''startup'' then Some (opts\<lparr>g_trace_startup_only := True\<rparr>)
      else if word = ''full'' then Some (opts\<lparr>g_trace_startup_only := False\<rparr>)
      else None)"

text \<open>One step of the argument loop: the options so far and how many arguments it used, or the
  exit with a usage error.\<close>

definition option_step :: "string \<Rightarrow> string list \<Rightarrow> options \<Rightarrow> (options \<times> string list) option" where
  "option_step flag rest opts =
     (if flag = ''--bundle'' \<and> rest \<noteq> [] then Some (opts\<lparr>g_bundle := hd rest\<rparr>, tl rest)
      else if flag = ''--xorg-accel'' \<and> rest \<noteq> [] then map_option (\<lambda>opts'. (opts', tl rest)) (accel_option (hd rest) opts)
      else if flag = ''--session'' \<and> rest \<noteq> [] then map_option (\<lambda>opts'. (opts', tl rest)) (session_option (hd rest) opts)
      else if flag = ''--client-present'' \<and> rest \<noteq> [] then map_option (\<lambda>opts'. (opts', tl rest)) (present_option (hd rest) opts)
      else if flag = ''--no-timeout'' then Some (opts\<lparr>g_no_timeout := True\<rparr>, rest)
      else if flag = ''--drm-trace'' \<and> rest \<noteq> [] then map_option (\<lambda>opts'. (opts', tl rest)) (trace_option (hd rest) opts)
      else None)"

lemma option_step_shorter: "option_step flag rest opts = Some (opts', rest') \<Longrightarrow> length rest' \<le> length rest"
  by (auto simp: option_step_def split: if_splits)

function parse_options :: "string list \<Rightarrow> options \<Rightarrow> int + options" where
  "parse_options [] opts = Inr opts"
| "parse_options (flag # rest) opts =
     (case option_step flag rest opts of
        None \<Rightarrow> Inl 2
      | Some (opts', rest') \<Rightarrow> parse_options rest' opts')"
  by pat_completeness auto
termination
  by (relation "measure (\<lambda>(args, opts). length args)") (auto dest: option_step_shorter)

text \<open>The checks after the loop; \<open>directory\<close> says which paths are directories.\<close>

definition agent_options :: "u32 \<Rightarrow> string \<Rightarrow> (string \<Rightarrow> bool) \<Rightarrow> string list \<Rightarrow> int + options" where
  "agent_options euid dir directory args =
     (if euid \<noteq> 0 then Inl 1
      else case parse_options args (default_options\<lparr>g_bundle := dir\<rparr>) of
        Inl code \<Rightarrow> Inl code
      | Inr opts \<Rightarrow>
          if \<not> g_kgsl_kms_bridge opts \<and> g_client_present opts \<noteq> kBridge then Inl 2
          else if g_kgsl_kms_bridge opts \<and> \<not> directory (g_bundle opts @ ''/lib/mesa'') then Inl 1
          else Inr opts)"

text \<open>\<open>strrchr\<close>: what precedes the last slash, if there is one.\<close>

definition before_slash :: "string \<Rightarrow> string option" where
  "before_slash s =
     (let t = dropWhile (\<lambda>c. c \<noteq> CHR ''/'') (rev s) in if t = [] then None else Some (rev (tl t)))"

definition executable_dir :: "string option \<Rightarrow> string" where
  "executable_dir link =
     (case link of
        None \<Rightarrow> ''.''
      | Some path \<Rightarrow>
          (case before_slash (c_str path) of
             None \<Rightarrow> ''.''
           | Some dir \<Rightarrow> (case before_slash dir of None \<Rightarrow> dir | Some up \<Rightarrow> up)))"

subsection \<open>Paths\<close>

definition kRuntime :: string where "kRuntime = ''/run/hdmi-los''"
definition kDisplay :: string where "kDisplay = '':1''"

definition xorg_binary :: "'a options_scheme \<Rightarrow> string" where
  "xorg_binary opts = (if g_kgsl_kms_bridge opts then g_bundle opts @ ''/libexec/Xorg'' else ''/usr/lib/Xorg'')"

subsection \<open>Messages\<close>

definition response_for :: "hdmi_los_message \<Rightarrow> u16 \<Rightarrow> u32 \<Rightarrow> string \<Rightarrow> hdmi_los_message" where
  "response_for request opcode status detail =
     zero_message\<lparr>m_magic := HDMI_LOS_MAGIC, m_version := HDMI_LOS_BROKER_VERSION,
       m_opcode := opcode, m_request_id := m_request_id request, m_status := status,
       m_state := (if status = HDMI_LOS_OK then HDMI_LOS_STATE_AGENT_READY else HDMI_LOS_STATE_ERROR),
       m_detail := c_snprintf (zero_buf DETAIL_SIZE) (c_str detail)\<rparr>"

definition valid_trace_record :: "hdmi_los_trace_record \<Rightarrow> bool" where
  "valid_trace_record r \<longleftrightarrow>
     t_magic r = HDMI_LOS_TRACE_MAGIC \<and> t_version r = HDMI_LOS_TRACE_VERSION \<and>
     HDMI_LOS_TRACE_LOADED \<le> t_phase r \<and> t_phase r \<le> HDMI_LOS_TRACE_AFTER"

definition progress_text :: "hdmi_los_trace_record \<Rightarrow> string" where
  "progress_text r =
     (let name = c_str (t_name r); detail = c_str (t_detail r) in
      if t_phase r = HDMI_LOS_TRACE_AFTER then
        ''drm A #'' @ show_u (t_sequence r) @ '' r='' @ show_d (t_result r) @
        '' e='' @ show_d (t_error r) @ '' '' @ take 44 detail
      else
        ''drm '' @ (if t_phase r = HDMI_LOS_TRACE_LOADED then ''L''
                  else if t_phase r = HDMI_LOS_TRACE_DETAIL then ''D'' else ''B'') @
        '' #'' @ show_u (t_sequence r) @ '' '' @ take 20 name @ '' '' @ take 48 detail)"

definition progress_for :: "hdmi_los_trace_record \<Rightarrow> hdmi_los_message" where
  "progress_for r =
     zero_message\<lparr>m_magic := HDMI_LOS_MAGIC, m_version := HDMI_LOS_BROKER_VERSION,
       m_opcode := HDMI_LOS_OP_AGENT_PROGRESS, m_request_id := t_sequence r,
       m_flags := t_sequence r, m_detail := c_snprintf (zero_buf DETAIL_SIZE) (progress_text r)\<rparr>"

definition accepts_progress :: "hdmi_los_message \<Rightarrow> hdmi_los_message \<Rightarrow> bool" where
  "accepts_progress progress acknowledgement \<longleftrightarrow>
     m_opcode acknowledgement = HDMI_LOS_OP_AGENT_PROGRESS_ACK \<and>
     m_request_id acknowledgement = m_request_id progress \<and>
     m_status acknowledgement = HDMI_LOS_OK"

definition acknowledgement_for :: "bool \<Rightarrow> u32 \<Rightarrow> hdmi_los_trace_record" where
  "acknowledgement_for steady sequence =
     zero_record\<lparr>t_magic := HDMI_LOS_TRACE_MAGIC, t_version := HDMI_LOS_TRACE_VERSION,
       t_phase := HDMI_LOS_TRACE_ACK, t_sequence := sequence,
       t_flags := (if steady then HDMI_LOS_TRACE_ACK_STEADY else 0)\<rparr>"

subsection \<open>Texts the agent reads\<close>

text \<open>One line of \<open>input.env\<close>, with a buffer of \<open>PATH_MAX + 64\<close> bytes.\<close>

definition path_line :: "string \<Rightarrow> string \<times> string \<Rightarrow> string \<times> string" where
  "path_line buffer paths =
     (let line = takeWhile (\<lambda>c. c \<noteq> CHR 0x0A) (c_str buffer);
          mouse = (if take 12 line = ''MOUSE_EVENT='' then drop 12 line else fst paths);
          keyboard = (if take 15 line = ''KEYBOARD_EVENT='' then drop 15 line else snd paths)
      in (mouse, keyboard))"

definition event_node :: "string \<Rightarrow> bool" where
  "event_node path \<longleftrightarrow> take 16 path = ''/dev/input/event''"

definition read_input_paths :: "string option \<Rightarrow> string \<times> string \<Rightarrow> bool \<times> string \<times> string" where
  "read_input_paths file paths =
     (case file of
        None \<Rightarrow> (False, paths)
      | Some content \<Rightarrow>
          let paths' = fold path_line (chunks 4159 content) paths
          in (event_node (fst paths') \<and> event_node (snd paths'), paths'))"

text \<open>The \<open>contains\<close> closure of \<open>verify_xorg\<close>.\<close>

definition contains :: "string option \<Rightarrow> string \<Rightarrow> string option \<Rightarrow> bool" where
  "contains file wanted forbidden =
     (case file of
        None \<Rightarrow> False
      | Some content \<Rightarrow>
          let lines = map c_str (chunks 1023 content)
          in (\<exists>line \<in> set lines. strstr line wanted) \<and>
             \<not> (case forbidden of None \<Rightarrow> False | Some word \<Rightarrow> \<exists>line \<in> set lines. strstr line word))"

text \<open>\<open>fscanf(lock, "%ld", &owner) == 1 && owner > 1\<close>.\<close>

definition lock_owner :: "string \<Rightarrow> bool" where
  "lock_owner content = (case scan_signed content of None \<Rightarrow> False | Some (neg, n, rest) \<Rightarrow> \<not> neg \<and> 1 < n)"

definition current_mode :: "drm_mode_modeinfo \<Rightarrow> string" where
  "current_mode mode = take 63 (''current '' @ show_u (mi_hdisplay mode) @ '' x '' @ show_u (mi_vdisplay mode))"

definition hex2 :: "u8 \<Rightarrow> string" where
  "hex2 b = (if b < 16 then ''0'' else []) @ show_x b"

definition random_cookie :: "bytes option \<Rightarrow> string" where
  "random_cookie random =
     (case random of
        None \<Rightarrow> []
      | Some bs \<Rightarrow> if length bs = 16 then concat (map hex2 bs) else [])"

subsection \<open>The Xorg configuration\<close>

abbreviation DRM_MODE_FLAG_PHSYNC :: u32 where "DRM_MODE_FLAG_PHSYNC \<equiv> 0x1"
abbreviation DRM_MODE_FLAG_NHSYNC :: u32 where "DRM_MODE_FLAG_NHSYNC \<equiv> 0x2"
abbreviation DRM_MODE_FLAG_PVSYNC :: u32 where "DRM_MODE_FLAG_PVSYNC \<equiv> 0x4"
abbreviation DRM_MODE_FLAG_NVSYNC :: u32 where "DRM_MODE_FLAG_NVSYNC \<equiv> 0x8"
abbreviation DRM_MODE_FLAG_INTERLACE :: u32 where "DRM_MODE_FLAG_INTERLACE \<equiv> 0x10"
abbreviation DRM_MODE_FLAG_DBLSCAN :: u32 where "DRM_MODE_FLAG_DBLSCAN \<equiv> 0x20"
abbreviation DRM_MODE_FLAG_CSYNC :: u32 where "DRM_MODE_FLAG_CSYNC \<equiv> 0x40"
abbreviation DRM_MODE_FLAG_PCSYNC :: u32 where "DRM_MODE_FLAG_PCSYNC \<equiv> 0x80"
abbreviation DRM_MODE_FLAG_NCSYNC :: u32 where "DRM_MODE_FLAG_NCSYNC \<equiv> 0x100"

definition xorg_mode_flags :: "u32 \<Rightarrow> string" where
  "xorg_mode_flags flags =
     (if has_bits flags DRM_MODE_FLAG_PHSYNC then '' +HSync''
      else if has_bits flags DRM_MODE_FLAG_NHSYNC then '' -HSync'' else []) @
     (if has_bits flags DRM_MODE_FLAG_PVSYNC then '' +VSync''
      else if has_bits flags DRM_MODE_FLAG_NVSYNC then '' -VSync'' else []) @
     (if has_bits flags DRM_MODE_FLAG_INTERLACE then '' Interlace'' else []) @
     (if has_bits flags DRM_MODE_FLAG_DBLSCAN then '' DoubleScan'' else []) @
     (if has_bits flags DRM_MODE_FLAG_CSYNC then '' Composite'' else []) @
     (if has_bits flags DRM_MODE_FLAG_PCSYNC then '' +CSync''
      else if has_bits flags DRM_MODE_FLAG_NCSYNC then '' -CSync'' else [])"

definition kModeName :: string where "kModeName = ''hdmi-los-android-current''"

definition quoted :: "string \<Rightarrow> string" where
  "quoted s = CHR 0x22 # s @ [CHR 0x22]"

definition option_line :: "string \<Rightarrow> string \<Rightarrow> string" where
  "option_line name word = ''  Option '' @ quoted name @ '' '' @ quoted word"

text \<open>The clock is divided by 1000 in double precision, which is exact to far more than the three
  decimals of \<open>%.3f\<close> for every 32-bit clock.\<close>

definition modeline :: "drm_mode_modeinfo \<Rightarrow> string" where
  "modeline mode =
     ''  Modeline '' @ quoted kModeName @ '' '' @ show_millis (unat (mi_clock mode)) @ '' '' @
     show_u (mi_hdisplay mode) @ '' '' @ show_u (mi_hsync_start mode) @ '' '' @
     show_u (mi_hsync_end mode) @ '' '' @ show_u (mi_htotal mode) @ '' '' @
     show_u (mi_vdisplay mode) @ '' '' @ show_u (mi_vsync_start mode) @ '' '' @
     show_u (mi_vsync_end mode) @ '' '' @ show_u (mi_vtotal mode) @ xorg_mode_flags (mi_flags mode)"

definition input_section :: "string \<Rightarrow> string \<Rightarrow> string list \<Rightarrow> string list" where
  "input_section name device options =
     [''Section '' @ quoted ''InputDevice'', ''  Identifier '' @ quoted name,
      ''  Driver '' @ quoted ''evdev'', option_line ''Device'' device,
      option_line ''GrabDevice'' ''true''] @ options @ [''EndSection'']"

definition xorg_config :: "'a options_scheme \<Rightarrow> string \<Rightarrow> string \<Rightarrow> u32 \<Rightarrow> drm_mode_modeinfo \<Rightarrow> string list" where
  "xorg_config opts mouse keyboard probe_mode mode =
     [''Section '' @ quoted ''ServerFlags'',
      option_line ''AutoAddDevices'' ''false'', option_line ''AutoEnableDevices'' ''false'',
      option_line ''DontVTSwitch'' ''true'', option_line ''DontZap'' ''true'', ''EndSection''] @
     input_section ''HDMI Mouse'' (c_str mouse) [option_line ''CorePointer'' ''true''] @
     input_section ''HDMI Keyboard'' (c_str keyboard)
       [option_line ''CoreKeyboard'' ''true'', option_line ''XkbRules'' ''evdev'',
        option_line ''XkbModel'' ''pc105'', option_line ''XkbLayout'' ''us''] @
     [''Section '' @ quoted ''Monitor'', ''  Identifier '' @ quoted ''HDMI Monitor'',
      option_line ''DPMS'' ''false'', modeline mode, option_line ''PreferredMode'' kModeName, ''EndSection'',
      ''Section '' @ quoted ''Device'', ''  Identifier '' @ quoted ''HDMI Modesetting'',
      ''  Driver '' @ quoted ''modesetting'', option_line ''kmsdev'' ''/dev/dri/card0'',
      option_line ''AccelMethod'' (if g_kgsl_glamor opts then ''glamor'' else ''none''),
      option_line ''PageFlip'' (if g_kgsl_glamor opts then ''true'' else ''false''),
      option_line ''ShadowFB'' (if g_kgsl_glamor opts then ''false'' else ''true''),
      option_line ''Atomic'' (if probe_mode = HDMI_LOS_PROBE_XORG_ATOMIC then ''true'' else ''false''),
      option_line ''SWcursor'' ''true'', option_line ''Monitor-DP-1'' ''HDMI Monitor'', ''EndSection'',
      ''Section '' @ quoted ''Screen'', ''  Identifier '' @ quoted ''HDMI Screen'',
      ''  Device '' @ quoted ''HDMI Modesetting'', ''  Monitor '' @ quoted ''HDMI Monitor'',
      ''  DefaultDepth 24'', ''  SubSection '' @ quoted ''Display'', ''    Depth 24'',
      ''    Modes '' @ quoted kModeName, ''  EndSubSection'', ''EndSection'',
      ''Section '' @ quoted ''ServerLayout'', ''  Identifier '' @ quoted ''HDMI Layout'',
      ''  Screen 0 '' @ quoted ''HDMI Screen'',
      ''  InputDevice '' @ quoted ''HDMI Mouse'' @ '' '' @ quoted ''CorePointer'',
      ''  InputDevice '' @ quoted ''HDMI Keyboard'' @ '' '' @ quoted ''CoreKeyboard'', ''EndSection'']"

subsection \<open>Environments and commands\<close>

datatype env_op = Setenv string string | Unsetenv string

text \<open>A child process that reaches its \<open>exec\<close>: its arguments, the changes of its environment in order,
  and the user it becomes.\<close>

record command =
  c_argv :: "string list"
  c_env :: "env_op list"
  c_uid :: u32

record passwd =
  pw_name :: string
  pw_uid :: u32
  pw_gid :: u32
  pw_dir :: string

definition configure_gpu_environment :: "'a options_scheme \<Rightarrow> bool \<Rightarrow> env_op list" where
  "configure_gpu_environment opts kms_scanout_server =
     (if \<not> g_kgsl_glamor opts then []
      else
        map Unsetenv [''GALLIUM_DRIVER'', ''VK_DRIVER_FILES'', ''FD_KGSL_USE_KMS_DUMB'', ''FD_KGSL_KMS_DEVICE'',
          ''FD_KGSL_RENDERONLY'', ''MESA_KGSL_X11_SHM_BRIDGE'', ''MESA_KGSL_X11_GPU_BRIDGE'',
          ''MESA_KGSL_X11_SHADOW'', ''FD_MESA_DEBUG''] @
        [Setenv ''MESA_LOADER_DRIVER_OVERRIDE'' ''kgsl'', Setenv ''FD_FORCE_KGSL'' ''1'',
         Setenv ''FD_KGSL_ENABLE_DMABUF'' ''1''] @
        (if g_kgsl_kms_bridge opts then
           (let mesa = g_bundle opts @ ''/lib/mesa'' in
            [Setenv ''LD_LIBRARY_PATH'' mesa, Setenv ''LIBGL_DRIVERS_PATH'' mesa,
             Setenv ''GBM_BACKENDS_PATH'' (mesa @ ''/gbm'')]) @
           (if kms_scanout_server then [Setenv ''FD_KGSL_RENDERONLY'' ''1'']
            else if g_client_present opts = kBridge then
              [Setenv ''MESA_KGSL_X11_SHM_BRIDGE'' ''1'', Setenv ''MESA_KGSL_X11_GPU_BRIDGE'' ''1'',
               Setenv ''FD_MESA_DEBUG'' ''noubwc'']
            else
              Setenv ''FD_KGSL_RENDERONLY'' ''1'' #
              (if g_client_present opts = kShadow then [Setenv ''MESA_KGSL_X11_SHADOW'' ''1''] else []))
         else []))"

definition preflight_command :: "'a options_scheme \<Rightarrow> int \<Rightarrow> command" where
  "preflight_command opts socket =
     \<lparr>c_argv = [xorg_binary opts, ''-version''],
      c_env = [Setenv ''HDMI_LOS_TRACE_FD'' (show_int socket),
               Setenv ''LD_PRELOAD'' (g_bundle opts @ ''/lib/libhdmi-los-drmtrace.so'')],
      c_uid = 0\<rparr>"

definition bridge_command :: "'a options_scheme \<Rightarrow> command" where
  "bridge_command opts =
     \<lparr>c_argv = [g_bundle opts @ ''/bin/hdmi-input-bridge'', ''--runtime'', kRuntime], c_env = [], c_uid = 0\<rparr>"

definition xorg_command :: "'a options_scheme \<Rightarrow> int \<Rightarrow> int \<Rightarrow> u32 \<Rightarrow> u32 \<Rightarrow> command" where
  "xorg_command opts lease_fd socket connector crtc =
     \<lparr>c_argv =
        [xorg_binary opts, kDisplay, ''-masterfd'', show_int lease_fd,
         ''-config'', kRuntime @ ''/xorg.conf'', ''-configdir'', kRuntime @ ''/xorg.conf.d'',
         ''-auth'', kRuntime @ ''/Xauthority'', ''-logfile'', kRuntime @ ''/Xorg.1.log'',
         ''-nolisten'', ''tcp'', ''-modulepath'', g_bundle opts @ ''/lib/xorg/modules,/usr/lib/xorg/modules'',
         ''-s'', ''0'', ''-novtswitch'', ''-noreset''],
      c_env =
        [Setenv ''HDMI_LOS_TRACE_FD'' (show_int socket),
         Setenv ''HDMI_LOS_SUPPRESS_CONNECTOR_PROPERTY_NOOPS'' ''1'',
         Setenv ''HDMI_LOS_IGNORE_XORG_BITMASK_PROPERTIES'' ''1'',
         Setenv ''HDMI_LOS_IGNORE_XORG_POINTER_PROPERTIES'' ''1'',
         Setenv ''HDMI_LOS_SAME_MODE_PAGEFLIP_FALLBACK'' ''1'',
         Setenv ''HDMI_LOS_EXPECTED_CONNECTOR'' (show_u connector),
         Setenv ''HDMI_LOS_EXPECTED_CRTC'' (show_u crtc),
         Setenv ''LD_PRELOAD'' (g_bundle opts @ ''/lib/libhdmi-los-drmtrace.so'')] @
        configure_gpu_environment opts True,
      c_uid = 0\<rparr>"

definition lxde_command :: "'a options_scheme \<Rightarrow> passwd \<Rightarrow> command" where
  "lxde_command opts user =
     \<lparr>c_argv = [''/usr/bin/dbus-run-session'', ''--'', ''/usr/bin/startlxde''],
      c_env =
        [Setenv ''HOME'' (pw_dir user), Setenv ''USER'' (pw_name user), Setenv ''LOGNAME'' (pw_name user),
         Setenv ''DISPLAY'' kDisplay, Setenv ''TMPDIR'' ''/tmp'',
         Setenv ''XAUTHORITY'' (kRuntime @ ''/Xauthority''),
         Setenv ''XDG_RUNTIME_DIR'' (kRuntime @ ''/user-runtime'')] @
        configure_gpu_environment opts False,
      c_uid = pw_uid user\<rparr>"


end
