(* ===== verification/Agent.thy ===== *)
theory Agent
  imports Agent_Text Channel State_Steps
begin

section \<open>The agent\<close>

text \<open>
  \<open>src/native/agent/main.cpp\<close>: the process inside the chroot that prepares and runs the Xorg
  session on the broker's behalf and relays every record of the DRM tracer to it. Its globals and
  its environment are one record and every function is a program of the state monad.

  The environment fields are scripts of what the kernel, the broker, the tracer and the child
  processes answer. A script that is a function gives the answers of successive calls. A list is
  consumed call by call; past its end a poll times out, a process is dead, a child is still
  running, a receive fails and a send succeeds. Every effect is logged in order.
\<close>

subsection \<open>Environment and state\<close>

abbreviation SIGKILL :: int where "SIGKILL \<equiv> 9"
abbreviation SIGTERM :: int where "SIGTERM \<equiv> 15"

text \<open>What \<open>waitpid\<close> with \<open>WNOHANG\<close> reports; an exit status is absent after a signal.\<close>

datatype wait_answer = Running | Finished "nat option" | Wait_failed int

datatype act =
    Spawned int command
  | Signalled int int
  | Reaped int
  | Got int
  | Dropped int
  | From_broker hdmi_los_message
  | Told_broker hdmi_los_message
  | From_tracer hdmi_los_trace_record
  | Told_tracer hdmi_los_trace_record
  | Removed string
  | Configured "string list"

text \<open>An answer of \<open>DRM_IOCTL_MODE_GETCONNECTOR\<close>: the counts it reports and the modes that it
  writes into the array it was given.\<close>

record connector_answer =
  cn_count_encoders :: u32
  cn_count_props :: u32
  cn_count_modes :: u32
  cn_connection :: u32
  cn_modes :: "drm_mode_modeinfo list"

record agent_world = options +
  a_now :: int
  a_ticks :: "nat \<Rightarrow> nat"
  a_setcrtc :: u64
  a_pid :: u32
  a_socket :: "nat \<Rightarrow> int \<times> bool"
  a_broker_send :: "nat call list"
  a_broker_in :: "packet call list"
  a_trace_polls :: "u16 option call list"
  a_trace_in :: "bytes call list"
  a_trace_send :: "nat call list"
  a_alive :: "bool list"
  a_group :: "nat \<Rightarrow> bool"
  a_waits :: "wait_answer list"
  a_fork :: "nat \<Rightarrow> int"
  a_pair :: "nat \<Rightarrow> (int \<times> int) option"
  a_dup :: "nat \<Rightarrow> int"
  a_step :: "nat \<Rightarrow> bool"
  a_xorg_stat :: "nat \<Rightarrow> u32 option"
  a_user :: "nat \<Rightarrow> passwd option"
  a_paths :: "nat \<Rightarrow> string option"
  a_lock :: "nat \<Rightarrow> string option"
  a_random :: "nat \<Rightarrow> bytes option"
  a_listing :: "nat \<Rightarrow> string option"
  a_connector :: "nat \<Rightarrow> connector_answer option"
  a_crtc :: "nat \<Rightarrow> drm_mode_crtc option"
  a_log :: "act list"

record agent = agent_world +
  g_bridge :: int
  g_xorg :: int
  g_session :: int
  g_broker :: int
  g_trace :: int
  g_verify_lease :: int
  g_probe_mode :: u32
  g_mouse :: string
  g_keyboard :: string
  g_android_mode :: drm_mode_modeinfo
  g_android_mode_valid :: bool
  g_expected_connector :: u32
  g_expected_crtc :: u32
  g_scanout_sequence :: u32
  g_scanout_fb :: u32
  g_scanout_connector_seen :: bool
  g_scanout_confirmed :: bool
  g_scanout_failed :: bool
  g_trace_steady :: bool
  g_scanout_failure :: string

definition zero_mode :: drm_mode_modeinfo where
  "zero_mode = \<lparr>mi_clock = 0, mi_hdisplay = 0, mi_hsync_start = 0, mi_hsync_end = 0, mi_htotal = 0,
     mi_hskew = 0, mi_vdisplay = 0, mi_vsync_start = 0, mi_vsync_end = 0, mi_vtotal = 0, mi_vscan = 0,
     mi_flags = 0\<rparr>"

definition new_agent :: "agent_world \<Rightarrow> agent" where
  "new_agent w = agent_world.extend w
     \<lparr>g_bridge = - 1, g_xorg = - 1, g_session = - 1, g_broker = - 1, g_trace = - 1, g_verify_lease = - 1,
      g_probe_mode = HDMI_LOS_PROBE_NONE, g_mouse = [], g_keyboard = [], g_android_mode = zero_mode,
      g_android_mode_valid = False, g_expected_connector = 0, g_expected_crtc = 0, g_scanout_sequence = 0,
      g_scanout_fb = 0, g_scanout_connector_seen = False, g_scanout_confirmed = False,
      g_scanout_failed = False, g_trace_steady = False, g_scanout_failure = []\<rparr>"

subsection \<open>Drawing from the environment\<close>

definition log_act :: "act \<Rightarrow> (agent, unit) state" where
  "log_act a = modify (\<lambda>s. s\<lparr>a_log := a_log s @ [a]\<rparr>)"

text \<open>The next answer of a script, given by its selector and its update.\<close>

definition draw :: "(agent \<Rightarrow> nat \<Rightarrow> 'a) \<Rightarrow> (((nat \<Rightarrow> 'a) \<Rightarrow> nat \<Rightarrow> 'a) \<Rightarrow> agent \<Rightarrow> agent) \<Rightarrow> (agent, 'a) state" where
  "draw script update = do {
     answer \<leftarrow> gets (\<lambda>s. script s 0);
     modify (update later);
     return answer
   }"

definition monotonic_ms :: "(agent, int) state" where
  "monotonic_ms = do {
     modify (\<lambda>s. s\<lparr>a_now := a_now s + int (a_ticks s 0), a_ticks := later (a_ticks s)\<rparr>);
     gets a_now
   }"

text \<open>One step that the code checks: a directory, an access right, an owner.\<close>

definition check_step :: "(agent, bool) state" where
  "check_step = draw a_step a_step_update"

text \<open>\<open>n\<close> steps in a row, up to the first that fails.\<close>

fun check_steps :: "nat \<Rightarrow> (agent, bool) state" where
  "check_steps 0 = return True"
| "check_steps (Suc n) = do {
     ok \<leftarrow> check_step;
     if ok then check_steps n else return False
   }"

text \<open>\<open>fork\<close> as its parent sees it: it fails, or gives a number above that of \<open>init\<close>.\<close>

definition fork :: "command \<Rightarrow> (agent, int) state" where
  "fork c = do {
     child \<leftarrow> draw a_fork a_fork_update;
     if child \<le> 1 then return (- 1)
     else do {
       log_act (Spawned child c);
       return child
     }
   }"

definition close_fd :: "int \<Rightarrow> (agent, unit) state" where
  "close_fd fd = log_act (Dropped fd)"

definition socketpair :: "(agent, (int \<times> int) option) state" where
  "socketpair = do {
     answer \<leftarrow> draw a_pair a_pair_update;
     case answer of
       None \<Rightarrow> return None
     | Some (a, b) \<Rightarrow>
         if a < 0 \<or> b < 0 then return None
         else do {
           log_act (Got a);
           log_act (Got b);
           return (Some (a, b))
         }
   }"

text \<open>\<open>waitpid(pid, &status, WNOHANG)\<close>.\<close>

definition wait_once :: "int \<Rightarrow> (agent, wait_answer) state" where
  "wait_once pid = do {
     waits \<leftarrow> gets a_waits;
     case waits of
       [] \<Rightarrow> return Running
     | answer # rest \<Rightarrow> do {
         modify (\<lambda>s. s\<lparr>a_waits := rest\<rparr>);
         whenever (case answer of Finished status \<Rightarrow> True | _ \<Rightarrow> False) (log_act (Reaped pid));
         return answer
       }
   }"

text \<open>The blocking \<open>waitpid\<close> that is repeated while it is interrupted.\<close>

definition wait_for :: "int \<Rightarrow> (agent, unit) state" where
  "wait_for pid = log_act (Reaped pid)"

definition signal_process :: "int \<Rightarrow> int \<Rightarrow> (agent, unit) state" where
  "signal_process pid sig = log_act (Signalled pid sig)"

subsection \<open>The broker's socket\<close>

definition connect_broker :: "(agent, int) state" where
  "connect_broker = do {
     answer \<leftarrow> draw a_socket a_socket_update;
     let (fd, ok) = answer in
     if fd < 0 then return (- 1)
     else do {
       log_act (Got fd);
       if ok then return fd
       else do {
         close_fd fd;
         return (- 1)
       }
     }
   }"

definition write_broker :: "hdmi_los_message \<Rightarrow> (agent, bool) state" where
  "write_broker m = do {
     answers \<leftarrow> gets a_broker_send;
     let (ok, sent, rest) = write_full (bytes_of_message m) answers in do {
       modify (\<lambda>s. s\<lparr>a_broker_send := rest\<rparr>);
       whenever ok (log_act (Told_broker m));
       return ok
     }
   }"

text \<open>The result, the message and the passed descriptor; a short packet leaves the descriptor variable at \<open>- 1\<close>.\<close>

definition recv_message :: "(agent, bool \<times> hdmi_los_message \<times> int) state" where
  "recv_message = do {
     answers \<leftarrow> gets a_broker_in;
     let (ok, m, fd, rest) = recv_with_fd zero_message answers in do {
       modify (\<lambda>s. s\<lparr>a_broker_in := rest\<rparr>);
       whenever (0 \<le> fd) (log_act (Got fd));
       whenever (ok \<and> valid_message m) (log_act (From_broker m));
       return (ok \<and> valid_message m, m, fd)
     }
   }"

subsection \<open>Relaying the tracer\<close>

text \<open>The detail of a commit that failed.\<close>

definition scanout_failure :: "hdmi_los_trace_record \<Rightarrow> string" where
  "scanout_failure r =
     (if t_result r = 0 then ''Xorg enabled the expected CRTC without the leased connector''
      else ''Xorg'' @ [CHR 0x27] @ ''s first external scanout commit failed errno='' @ show_d (t_error r))"

definition observe_scanout_record :: "hdmi_los_trace_record \<Rightarrow> agent \<Rightarrow> agent" where
  "observe_scanout_record r s =
     (if g_expected_crtc s = 0 \<or> t_request r \<noteq> a_setcrtc s then s
      else if t_phase r = HDMI_LOS_TRACE_BEFORE \<and> t_argument r ! 0 = ucast (g_expected_crtc s) \<and>
              t_argument r ! 1 \<noteq> 0 \<and> t_argument r ! 3 \<noteq> 0 \<and>
              (g_scanout_sequence s = 0 \<or> g_scanout_confirmed s) then
        s\<lparr>g_scanout_sequence := t_sequence r, g_scanout_fb := ucast (t_argument r ! 1),
          g_scanout_connector_seen := False\<rparr>
      else if t_sequence r \<noteq> g_scanout_sequence s then s
      else if t_phase r = HDMI_LOS_TRACE_DETAIL \<and> c_str (t_name r) = ''SETCRTC_CONNECTOR'' \<and>
              t_argument r ! 2 = ucast (g_expected_connector s) then
        s\<lparr>g_scanout_connector_seen := True\<rparr>
      else if t_phase r = HDMI_LOS_TRACE_AFTER then
        if t_result r = 0 \<and> g_scanout_connector_seen s then s\<lparr>g_scanout_confirmed := True\<rparr>
        else s\<lparr>g_scanout_failed := True, g_scanout_failure := scanout_failure r\<rparr>
      else s)"

definition report_progress :: "hdmi_los_message \<Rightarrow> (agent, bool) state" where
  "report_progress progress = do {
     written \<leftarrow> write_broker progress;
     if \<not> written then return False
     else do {
       (received, acknowledgement, passed_fd) \<leftarrow> recv_message;
       whenever (0 \<le> passed_fd) (close_fd passed_fd);
       return (received \<and> accepts_progress progress acknowledgement)
     }
   }"

definition forward_trace_record :: "hdmi_los_trace_record \<Rightarrow> (agent, bool) state" where
  "forward_trace_record r = do {
     modify (observe_scanout_record r);
     report_progress (progress_for r)
   }"

text \<open>Answers of the trace socket, past interruptions.\<close>

definition trace_poll :: "(agent, u16 option call) state" where
  "trace_poll = do {
     answers \<leftarrow> gets a_trace_polls;
     modify (\<lambda>s. s\<lparr>a_trace_polls := retry_rest answers\<rparr>);
     return (case retry_eintr answers of None \<Rightarrow> CallOk None | Some answer \<Rightarrow> answer)
   }"

definition trace_recv :: "(agent, bytes call) state" where
  "trace_recv = do {
     answers \<leftarrow> gets a_trace_in;
     modify (\<lambda>s. s\<lparr>a_trace_in := retry_rest answers\<rparr>);
     return (case retry_eintr answers of None \<Rightarrow> CallOk [] | Some answer \<Rightarrow> answer)
   }"

definition acknowledge_trace_record :: "u32 \<Rightarrow> (agent, bool) state" where
  "acknowledge_trace_record sequence = do {
     steady \<leftarrow> gets g_trace_steady;
     answers \<leftarrow> gets a_trace_send;
     modify (\<lambda>s. s\<lparr>a_trace_send := retry_rest answers\<rparr>);
     let ok = (case retry_eintr answers of
                 None \<Rightarrow> True
               | Some (CallOk n) \<Rightarrow> n = TRACE_RECORD_SIZE
               | Some (CallErr e) \<Rightarrow> False);
     whenever ok (log_act (Told_tracer (acknowledgement_for steady sequence)));
     return ok
   }"

definition relay_record :: "hdmi_los_trace_record \<Rightarrow> (agent, bool) state" where
  "relay_record r =
     (if \<not> valid_trace_record r then return False
      else do {
        log_act (From_tracer r);
        forwarded \<leftarrow> forward_trace_record r;
        if \<not> forwarded then return False
        else acknowledge_trace_record (t_sequence r)
      })"

definition relay_received :: "bytes call \<Rightarrow> (agent, bool) state" where
  "relay_received answer =
     (case answer of
        CallErr e \<Rightarrow> return False
      | CallOk bs \<Rightarrow>
          if length bs \<noteq> TRACE_RECORD_SIZE then return False
          else relay_record (record_of_bytes bs))"

definition relay_trace_record :: "(agent, bool) state" where
  "relay_trace_record = do {
     trace \<leftarrow> gets g_trace;
     if trace < 0 then return True
     else do {
       polled \<leftarrow> trace_poll;
       case polled of
         CallErr e \<Rightarrow> return False
       | CallOk events \<Rightarrow>
           (case events of
              None \<Rightarrow> return True
            | Some revents \<Rightarrow>
                if \<not> has_bits revents POLLIN then
                  return (\<not> has_bits revents (POLLERR OR POLLHUP OR POLLNVAL))
                else do {
                  answer \<leftarrow> trace_recv;
                  relay_received answer
                })
     }
   }"

subsection \<open>Child processes\<close>

definition process_alive :: "int \<Rightarrow> (agent, bool) state" where
  "process_alive pid =
     (if pid \<le> 1 then return False
      else do {
        answers \<leftarrow> gets a_alive;
        modify (\<lambda>s. s\<lparr>a_alive := tl answers\<rparr>);
        return (answers \<noteq> [] \<and> hd answers)
      })"

text \<open>The two seconds a process has to end after the signal.\<close>

fun term_loop :: "bool list \<Rightarrow> int \<Rightarrow> (agent, unit) state" where
  "term_loop [] end_ms = return ()"
| "term_loop (alive # rest) end_ms = do {
     modify (\<lambda>s. s\<lparr>a_alive := rest\<rparr>);
     if \<not> alive then return ()
     else do {
       now \<leftarrow> monotonic_ms;
       if end_ms \<le> now then return () else term_loop rest end_ms
     }
   }"

definition signal_target :: "bool \<Rightarrow> int \<Rightarrow> int" where
  "signal_target leader target = (if leader then - target else target)"

definition end_process :: "int \<Rightarrow> (agent, unit) state" where
  "end_process target = do {
     leader \<leftarrow> draw a_group a_group_update;
     signal_process (signal_target leader target) SIGTERM;
     now \<leftarrow> monotonic_ms;
     answers \<leftarrow> gets a_alive;
     term_loop answers (now + 2000);
     alive \<leftarrow> process_alive target;
     whenever alive (signal_process (signal_target leader target) SIGKILL)
   }"

text \<open>The variable that holds the process is given by its selector and its update.\<close>

definition terminate_group :: "(agent \<Rightarrow> int) \<Rightarrow> ((int \<Rightarrow> int) \<Rightarrow> agent \<Rightarrow> agent) \<Rightarrow> (agent, unit) state" where
  "terminate_group pid update = do {
     target \<leftarrow> gets pid;
     if target \<le> 1 then return ()
     else do {
       alive \<leftarrow> process_alive target;
       whenever alive (end_process target);
       wait_for target;
       modify (update (\<lambda>p. - 1))
     }
   }"

definition kill_child :: "int \<Rightarrow> (agent, unit) state" where
  "kill_child child = do {
     signal_process child SIGKILL;
     wait_for child
   }"

text \<open>
  The wait for a child of \<open>run_wait\<close>: its exit status, or \<open>- 1\<close>. Past the script the child never
  ends and the loop runs into its deadline. An error other than an interruption says that the
  process is no child any more.
\<close>

fun run_wait_loop :: "wait_answer list \<Rightarrow> int \<Rightarrow> int \<Rightarrow> (agent, int) state" where
  "run_wait_loop [] child end_ms = do {
     modify (\<lambda>s. s\<lparr>a_now := max (a_now s) end_ms\<rparr>);
     kill_child child;
     return (- 1)
   }"
| "run_wait_loop (answer # rest) child end_ms = do {
     modify (\<lambda>s. s\<lparr>a_waits := rest\<rparr>);
     case answer of
       Finished status \<Rightarrow> do {
         log_act (Reaped child);
         return (case status of Some code \<Rightarrow> int code | None \<Rightarrow> - 1)
       }
     | Wait_failed e \<Rightarrow> if e = EINTR then run_wait_loop rest child end_ms
         else do {
           log_act (Reaped child);
           return (- 1)
         }
     | Running \<Rightarrow> do {
         now \<leftarrow> monotonic_ms;
         if end_ms \<le> now then do {
           kill_child child;
           return (- 1)
         } else do {
           relayed \<leftarrow> relay_trace_record;
           if relayed then run_wait_loop rest child end_ms
           else do {
             kill_child child;
             return (- 1)
           }
         }
       }
   }"

definition run_wait :: "command \<Rightarrow> (agent, int) state" where
  "run_wait c = do {
     child \<leftarrow> fork c;
     if child < 0 then return (- 1)
     else do {
       now \<leftarrow> monotonic_ms;
       waits \<leftarrow> gets a_waits;
       run_wait_loop waits child (now + 5000)
     }
   }"

subsection \<open>The preload handshake\<close>

abbreviation S_IFMT :: u32 where "S_IFMT \<equiv> 0xF000"
abbreviation S_IFREG :: u32 where "S_IFREG \<equiv> 0x8000"
abbreviation S_ISUID :: u32 where "S_ISUID \<equiv> 0x800"
abbreviation S_ISGID :: u32 where "S_ISGID \<equiv> 0x400"

definition secure_gate :: "(agent, bool) state" where
  "secure_gate = do {
     mode \<leftarrow> draw a_xorg_stat a_xorg_stat_update;
     case mode of
       None \<Rightarrow> return False
     | Some st_mode \<Rightarrow>
         if st_mode AND S_IFMT \<noteq> S_IFREG then return False
         else do {
           executable \<leftarrow> check_step;
           if \<not> executable \<or> has_bits st_mode (S_ISUID OR S_ISGID) then return False
           else check_step
         }
   }"

definition modules_gate :: "(agent, bool) state" where
  "modules_gate = do {
     bridge \<leftarrow> gets g_kgsl_kms_bridge;
     if bridge then check_steps 5 else return True
   }"

text \<open>
  The loop that waits for the child while it relays: the child's status if it was reaped. Past
  the script the loop runs into its deadline.
\<close>

fun preflight_loop :: "wait_answer list \<Rightarrow> int \<Rightarrow> int \<Rightarrow> bool \<Rightarrow> (agent, nat option option) state" where
  "preflight_loop [] child end_ms trace_open = do {
     modify (\<lambda>s. s\<lparr>a_now := max (a_now s) end_ms\<rparr>);
     return None
   }"
| "preflight_loop (answer # rest) child end_ms trace_open = do {
     now \<leftarrow> monotonic_ms;
     if end_ms \<le> now then return None
     else do {
       modify (\<lambda>s. s\<lparr>a_waits := rest\<rparr>);
       case answer of
         Finished status \<Rightarrow> do {
           log_act (Reaped child);
           return (Some status)
         }
       | Wait_failed e \<Rightarrow>
           if e \<noteq> EINTR then return None
           else if trace_open then do {
             still_open \<leftarrow> relay_trace_record;
             preflight_loop rest child end_ms still_open
           } else preflight_loop rest child end_ms False
       | Running \<Rightarrow>
           if trace_open then do {
             still_open \<leftarrow> relay_trace_record;
             preflight_loop rest child end_ms still_open
           } else preflight_loop rest child end_ms False
     }
   }"

text \<open>The last look at the child, repeated while it is interrupted.\<close>

fun reap_again :: "wait_answer list \<Rightarrow> int \<Rightarrow> (agent, nat option option) state" where
  "reap_again [] child = return None"
| "reap_again (answer # rest) child = do {
     modify (\<lambda>s. s\<lparr>a_waits := rest\<rparr>);
     case answer of
       Finished status \<Rightarrow> do {
         log_act (Reaped child);
         return (Some status)
       }
     | Wait_failed e \<Rightarrow> if e = EINTR then reap_again rest child else return None
     | Running \<Rightarrow> return None
   }"

definition preflight_loaded :: "(agent, bool) state" where
  "preflight_loaded = do {
     polled \<leftarrow> trace_poll;
     if (case polled of CallOk (Some revents) \<Rightarrow> has_bits revents POLLIN | _ \<Rightarrow> False)
     then relay_trace_record else return False
   }"

definition preflight_child :: "int \<Rightarrow> int \<Rightarrow> (agent, bool) state" where
  "preflight_child child socket = do {
     modify (\<lambda>s. s\<lparr>g_trace := socket\<rparr>);
     loaded \<leftarrow> preflight_loaded;
     now \<leftarrow> monotonic_ms;
     waits \<leftarrow> gets a_waits;
     first \<leftarrow> preflight_loop waits child (now + 3000) True;
     waits' \<leftarrow> gets a_waits;
     exited \<leftarrow> (case first of None \<Rightarrow> reap_again waits' child | Some status \<Rightarrow> return (Some status));
     whenever (exited = None) (kill_child child);
     close_fd socket;
     modify (\<lambda>s. s\<lparr>g_trace := - 1\<rparr>);
     return (loaded \<and> (case exited of Some (Some code) \<Rightarrow> code \<noteq> 125 | _ \<Rightarrow> False))
   }"

definition trace_preflight :: "(agent, bool) state" where
  "trace_preflight = do {
     secure \<leftarrow> secure_gate;
     if \<not> secure then return False
     else do {
       modules \<leftarrow> modules_gate;
       if \<not> modules then return False
       else do {
         pair \<leftarrow> socketpair;
         case pair of
           None \<Rightarrow> return False
         | Some (mine, theirs) \<Rightarrow> do {
             c \<leftarrow> gets (\<lambda>s. preflight_command s theirs);
             child \<leftarrow> fork c;
             close_fd theirs;
             if child < 0 then do {
               close_fd mine;
               return False
             } else preflight_child child mine
           }
       }
     }
   }"


subsection \<open>The display mode of Android\<close>

abbreviation kDrmModeConnected :: u32 where "kDrmModeConnected \<equiv> 1"

definition resize :: "nat \<Rightarrow> drm_mode_modeinfo list \<Rightarrow> drm_mode_modeinfo list" where
  "resize n modes = take n modes @ replicate (n - length modes) zero_mode"

text \<open>The kernel writes into the array it was given and never past its end.\<close>

definition fill_modes :: "drm_mode_modeinfo list \<Rightarrow> drm_mode_modeinfo list \<Rightarrow> drm_mode_modeinfo list" where
  "fill_modes array written = take (length array) written @ drop (length written) array"

definition fits :: "connector_answer \<Rightarrow> connector_answer \<Rightarrow> bool" where
  "fits filled query \<longleftrightarrow>
     cn_count_encoders filled \<le> cn_count_encoders query \<and>
     cn_count_props filled \<le> cn_count_props query \<and>
     cn_count_modes filled \<le> cn_count_modes query"

fun connector_attempts :: "nat \<Rightarrow> connector_answer \<Rightarrow> drm_mode_modeinfo list \<Rightarrow>
    (agent, (connector_answer \<times> drm_mode_modeinfo list) option) state" where
  "connector_attempts 0 query modes = return None"
| "connector_attempts (Suc n) query modes = do {
     let array = resize (unat (cn_count_modes query)) modes;
     answer \<leftarrow> draw a_connector a_connector_update;
     case answer of
       None \<Rightarrow> return None
     | Some filled \<Rightarrow>
         let array' = fill_modes array (cn_modes filled) in
         if fits filled query
         then return (Some (filled, resize (unat (cn_count_modes filled)) array'))
         else connector_attempts n filled array'
   }"

definition read_connector_modes :: "(agent, (connector_answer \<times> drm_mode_modeinfo list) option) state" where
  "read_connector_modes = do {
     query \<leftarrow> draw a_connector a_connector_update;
     case query of
       None \<Rightarrow> return None
     | Some counts \<Rightarrow> connector_attempts 3 counts []
   }"

definition usable_mode :: "connector_answer \<Rightarrow> drm_mode_modeinfo list \<Rightarrow> drm_mode_crtc \<Rightarrow> bool" where
  "usable_mode connector modes crtc \<longleftrightarrow>
     cn_connection connector = kDrmModeConnected \<and> cr_mode_valid crtc \<noteq> 0 \<and>
     0 < mi_hdisplay (cr_mode crtc) \<and> 0 < mi_vdisplay (cr_mode crtc) \<and>
     (\<exists>advertised \<in> set modes. same_mode_timing (cr_mode crtc) advertised)"

text \<open>The result and the value of the mode variable, which had the value \<open>mode\<close> before.\<close>

definition read_android_mode :: "int \<Rightarrow> u32 \<Rightarrow> u32 \<Rightarrow> drm_mode_modeinfo \<Rightarrow> (agent, bool \<times> drm_mode_modeinfo) state" where
  "read_android_mode lease_fd connector_id crtc_id mode =
     (if lease_fd < 0 \<or> connector_id = 0 \<or> crtc_id = 0 then return (False, mode)
      else do {
        answer \<leftarrow> read_connector_modes;
        case answer of
          None \<Rightarrow> return (False, mode)
        | Some (connector, modes) \<Rightarrow> do {
            current \<leftarrow> draw a_crtc a_crtc_update;
            case current of
              None \<Rightarrow> return (False, mode)
            | Some crtc \<Rightarrow>
                let mode' = (if usable_mode connector modes crtc then cr_mode crtc else mode) in
                return (cn_connection connector = kDrmModeConnected \<and>
                        0 < mi_hdisplay mode' \<and> 0 < mi_vdisplay mode', mode')
          }
      })"

text \<open>Opening, writing, flushing, synchronising, closing and the mode of the file are steps; a later
  step is taken even if an earlier one after the opening failed.\<close>

definition write_xorg_config :: "(agent, bool) state" where
  "write_xorg_config = do {
     opened \<leftarrow> check_step;
     if \<not> opened then return False
     else do {
       content \<leftarrow> gets (\<lambda>s. xorg_config s (g_mouse s) (g_keyboard s) (g_probe_mode s) (g_android_mode s));
       written \<leftarrow> check_step;
       whenever written (log_act (Configured content));
       synced \<leftarrow> check_steps 2;
       closed \<leftarrow> check_step;
       restricted \<leftarrow> check_step;
       return (written \<and> synced \<and> closed \<and> restricted)
     }
   }"

subsection \<open>Preparing a session\<close>

definition reset_session :: "agent \<Rightarrow> agent" where
  "reset_session s = s\<lparr>g_mouse := [], g_keyboard := [], g_android_mode := zero_mode,
     g_android_mode_valid := False, g_expected_connector := 0, g_expected_crtc := 0,
     g_scanout_sequence := 0, g_scanout_fb := 0, g_scanout_connector_seen := False,
     g_scanout_confirmed := False, g_scanout_failed := False, g_trace_steady := False,
     g_scanout_failure := []\<rparr>"

definition supported_mode :: "u32 \<Rightarrow> bool" where
  "supported_mode probe_mode \<longleftrightarrow>
     probe_mode = HDMI_LOS_PROBE_XORG_LEGACY \<or> probe_mode = HDMI_LOS_PROBE_XORG_ATOMIC"

definition remove_path :: "string \<Rightarrow> (agent, unit) state" where
  "remove_path path = log_act (Removed path)"

definition read_paths :: "(agent, bool) state" where
  "read_paths = do {
     file \<leftarrow> draw a_paths a_paths_update;
     mouse \<leftarrow> gets g_mouse;
     keyboard \<leftarrow> gets g_keyboard;
     let (ok, mouse', keyboard') = read_input_paths file (mouse, keyboard) in do {
       modify (\<lambda>s. s\<lparr>g_mouse := mouse', g_keyboard := keyboard'\<rparr>);
       return ok
     }
   }"

fun paths_loop :: "bool list \<Rightarrow> int \<Rightarrow> (agent, unit) state" where
  "paths_loop [] end_ms = do {
     now \<leftarrow> monotonic_ms;
     return ()
   }"
| "paths_loop (alive # rest) end_ms = do {
     now \<leftarrow> monotonic_ms;
     if end_ms \<le> now then return ()
     else do {
       modify (\<lambda>s. s\<lparr>a_alive := rest\<rparr>);
       if \<not> alive then return ()
       else do {
         found \<leftarrow> read_paths;
         if found then return () else paths_loop rest end_ms
       }
     }
   }"

definition start_bridge :: "(agent, bool) state" where
  "start_bridge = do {
     c \<leftarrow> gets bridge_command;
     child \<leftarrow> fork c;
     modify (\<lambda>s. s\<lparr>g_bridge := child\<rparr>);
     if child < 0 then return False
     else do {
       now \<leftarrow> monotonic_ms;
       answers \<leftarrow> gets a_alive;
       paths_loop answers (now + 4500);
       gets (\<lambda>s. g_mouse s \<noteq> [] \<and> g_keyboard s \<noteq> [])
     }
   }"

text \<open>Whether the display \<open>:1\<close> is free; a stale lock is removed.\<close>

definition claim_display :: "(agent, bool) state" where
  "claim_display = do {
     lock \<leftarrow> draw a_lock a_lock_update;
     case lock of
       None \<Rightarrow> do {
         socket_exists \<leftarrow> check_step;
         return (\<not> socket_exists)
       }
     | Some content \<Rightarrow> do {
         owned \<leftarrow> (if lock_owner content then check_step else return False);
         if owned then return False
         else do {
           remove_path ''/tmp/.X1-lock'';
           remove_path ''/tmp/.X11-unix/X1'';
           return True
         }
       }
   }"

definition xauth_command :: "string \<Rightarrow> command" where
  "xauth_command cookie =
     \<lparr>c_argv = [''/usr/bin/xauth'', ''-f'', kRuntime @ ''/Xauthority'', ''add'', kDisplay,
        ''MIT-MAGIC-COOKIE-1'', cookie], c_env = [], c_uid = 0\<rparr>"

definition write_authority :: "(agent, bool) state" where
  "write_authority = do {
     opened \<leftarrow> check_step;
     if \<not> opened then return False
     else do {
       random \<leftarrow> draw a_random a_random_update;
       let cookie = random_cookie random;
       if cookie = [] then return False
       else do {
         code \<leftarrow> run_wait (xauth_command cookie);
         if code \<noteq> 0 then return False else check_steps 4
       }
     }
   }"

definition prepare_session :: "u32 \<Rightarrow> (agent, bool) state" where
  "prepare_session probe_mode =
     (if \<not> supported_mode probe_mode then return False
      else do {
        terminate_group g_session g_session_update;
        terminate_group g_xorg g_xorg_update;
        terminate_group g_bridge g_bridge_update;
        modify reset_session;
        user \<leftarrow> draw a_user a_user_update;
        case user of
          None \<Rightarrow> return False
        | Some account \<Rightarrow> do {
            runtime \<leftarrow> check_steps 3;
            if \<not> runtime then return False
            else do {
              remove_path (kRuntime @ ''/input.env'');
              traced \<leftarrow> trace_preflight;
              if \<not> traced then return False
              else do {
                bridged \<leftarrow> start_bridge;
                if \<not> bridged then return False
                else do {
                  free \<leftarrow> claim_display;
                  if \<not> free then return False else write_authority
                }
              }
            }
          }
      })"


subsection \<open>Starting Xorg\<close>

definition spawn_xorg :: "int \<Rightarrow> (agent, int) state" where
  "spawn_xorg lease_fd = do {
     pair \<leftarrow> socketpair;
     case pair of
       None \<Rightarrow> return (- 1)
     | Some (mine, theirs) \<Rightarrow> do {
         c \<leftarrow> gets (\<lambda>s. xorg_command s lease_fd theirs (g_expected_connector s) (g_expected_crtc s));
         child \<leftarrow> fork c;
         close_fd theirs;
         (if 0 < child then modify (\<lambda>s. s\<lparr>g_trace := mine\<rparr>) else close_fd mine);
         return child
       }
   }"

definition spawn_lxde :: "(agent, int) state" where
  "spawn_lxde = do {
     user \<leftarrow> draw a_user a_user_update;
     case user of
       None \<Rightarrow> return (- 1)
     | Some account \<Rightarrow> do {
         c \<leftarrow> gets (\<lambda>s. lxde_command s account);
         fork c
       }
   }"

text \<open>The commands that look at the display, with the environment the agent sets for them.\<close>

definition display_query :: "string list \<Rightarrow> passwd \<Rightarrow> command" where
  "display_query argv user =
     \<lparr>c_argv = argv, c_env = [Setenv ''DISPLAY'' kDisplay, Setenv ''XAUTHORITY'' (kRuntime @ ''/Xauthority'')],
      c_uid = pw_uid user\<rparr>"

definition xorg_ready :: "(agent, bool) state" where
  "xorg_ready = do {
     user \<leftarrow> draw a_user a_user_update;
     case user of
       None \<Rightarrow> return False
     | Some account \<Rightarrow> do {
         code \<leftarrow> run_wait (display_query [''/usr/bin/xdpyinfo'', ''-display'', kDisplay] account);
         return (code = 0)
       }
   }"

definition listing_contains :: "string \<Rightarrow> string option \<Rightarrow> (agent, bool) state" where
  "listing_contains wanted forbidden = do {
     file \<leftarrow> draw a_listing a_listing_update;
     return (contains file wanted forbidden)
   }"

text \<open>The files that are searched, up to the first search that fails.\<close>

fun all_listed :: "(string \<times> string option) list \<Rightarrow> (agent, bool) state" where
  "all_listed [] = return True"
| "all_listed ((wanted, forbidden) # rest) = do {
     ok \<leftarrow> listing_contains wanted forbidden;
     if ok then all_listed rest else return False
   }"

definition verify_xorg :: "(agent, bool) state" where
  "verify_xorg = do {
     user \<leftarrow> draw a_user a_user_update;
     case user of
       None \<Rightarrow> return False
     | Some account \<Rightarrow> do {
         xrandr \<leftarrow> run_wait (display_query [''/usr/bin/xrandr'', ''--display'', kDisplay, ''--query''] account);
         if xrandr \<noteq> 0 then return False
         else do {
           xinput \<leftarrow> run_wait (display_query [''/usr/bin/xinput'', ''list''] account);
           if xinput \<noteq> 0 then return False
           else do {
             mode \<leftarrow> gets g_android_mode;
             valid \<leftarrow> gets g_android_mode_valid;
             if \<not> valid then return False
             else all_listed [(''DP-1 connected'', Some ''DSI-''), (current_mode mode, None),
                    (''HDMI Mouse'', None), (''HDMI Keyboard'', None)]
           }
         }
       }
   }"

definition scans_out :: "drm_mode_crtc \<Rightarrow> u32 \<Rightarrow> drm_mode_modeinfo \<Rightarrow> bool" where
  "scans_out crtc fb mode \<longleftrightarrow>
     cr_mode_valid crtc \<noteq> 0 \<and> cr_fb_id crtc = fb \<and> same_mode_timing (cr_mode crtc) mode"

definition verify_scanout :: "(agent, bool) state" where
  "verify_scanout = do {
     observed \<leftarrow> gets (\<lambda>s. g_scanout_confirmed s \<and> \<not> g_scanout_failed s \<and> 0 \<le> g_verify_lease s \<and>
       g_scanout_fb s \<noteq> 0 \<and> g_android_mode_valid s);
     if \<not> observed then return False
     else do {
       answer \<leftarrow> draw a_crtc a_crtc_update;
       case answer of
         None \<Rightarrow> return False
       | Some crtc \<Rightarrow> gets (\<lambda>s. scans_out crtc (g_scanout_fb s) (g_android_mode s))
     }
   }"

text \<open>What follows once Xorg answers and the commit is confirmed.\<close>

definition finish_start :: "(agent, bool) state" where
  "finish_start = do {
     scanout \<leftarrow> verify_scanout;
     if \<not> scanout then return False
     else do {
       shown \<leftarrow> verify_xorg;
       if \<not> shown then return False
       else do {
         startup_only \<leftarrow> gets g_trace_startup_only;
         whenever startup_only (modify (\<lambda>s. s\<lparr>g_trace_steady := True\<rparr>));
         lxde \<leftarrow> gets g_start_lxde;
         if \<not> lxde then return True
         else do {
           child \<leftarrow> spawn_lxde;
           modify (\<lambda>s. s\<lparr>g_session := child\<rparr>);
           return (0 < child)
         }
       }
     }
   }"

fun start_loop :: "bool list \<Rightarrow> int \<Rightarrow> (agent, bool) state" where
  "start_loop [] end_ms = do {
     now \<leftarrow> monotonic_ms;
     return False
   }"
| "start_loop (alive # rest) end_ms = do {
     now \<leftarrow> monotonic_ms;
     if end_ms \<le> now then return False
     else do {
       modify (\<lambda>s. s\<lparr>a_alive := rest\<rparr>);
       if \<not> alive then return False
       else do {
         relayed \<leftarrow> relay_trace_record;
         if \<not> relayed then return False
         else do {
           ready \<leftarrow> xorg_ready;
           if \<not> ready then start_loop rest end_ms
           else do {
             failed \<leftarrow> gets g_scanout_failed;
             confirmed \<leftarrow> gets g_scanout_confirmed;
             if failed then return False
             else if \<not> confirmed then start_loop rest end_ms
             else finish_start
           }
         }
       }
     }
   }"

definition expect_scanout :: "u32 \<Rightarrow> u32 \<Rightarrow> agent \<Rightarrow> agent" where
  "expect_scanout connector_id crtc_id s = s\<lparr>g_android_mode_valid := True,
     g_expected_connector := connector_id, g_expected_crtc := crtc_id, g_scanout_sequence := 0,
     g_scanout_fb := 0, g_scanout_connector_seen := False, g_scanout_confirmed := False,
     g_scanout_failed := False, g_scanout_failure := []\<rparr>"

text \<open>The part of \<open>start_xorg\<close> that owns the lease descriptor, which it closes on every path.\<close>

definition launch_xorg :: "int \<Rightarrow> u32 \<Rightarrow> u32 \<Rightarrow> (agent, bool) state" where
  "launch_xorg lease_fd connector_id crtc_id = do {
     previous \<leftarrow> gets g_android_mode;
     (readable, mode) \<leftarrow> read_android_mode lease_fd connector_id crtc_id previous;
     modify (\<lambda>s. s\<lparr>g_android_mode := mode\<rparr>);
     configured \<leftarrow> (if readable then write_xorg_config else return False);
     if \<not> configured then do {
       close_fd lease_fd;
       return False
     } else do {
       modify (expect_scanout connector_id crtc_id);
       copy \<leftarrow> draw a_dup a_dup_update;
       whenever (0 \<le> copy) (log_act (Got copy));
       modify (\<lambda>s. s\<lparr>g_verify_lease := copy\<rparr>);
       if copy < 0 then do {
         close_fd lease_fd;
         return False
       } else do {
         child \<leftarrow> spawn_xorg lease_fd;
         modify (\<lambda>s. s\<lparr>g_xorg := child\<rparr>);
         close_fd lease_fd;
         return (0 \<le> child)
       }
     }
   }"

definition start_xorg :: "int \<Rightarrow> u32 \<Rightarrow> u32 \<Rightarrow> (agent, bool) state" where
  "start_xorg lease_fd connector_id crtc_id = do {
     launched \<leftarrow> launch_xorg lease_fd connector_id crtc_id;
     if \<not> launched then return False
     else do {
       now \<leftarrow> monotonic_ms;
       answers \<leftarrow> gets a_alive;
       start_loop answers (now + 14000)
     }
   }"

subsection \<open>Ending a session\<close>

definition drop_fds :: "(agent, unit) state" where
  "drop_fds = do {
     trace \<leftarrow> gets g_trace;
     whenever (0 \<le> trace) (close_fd trace);
     modify (\<lambda>s. s\<lparr>g_trace := - 1\<rparr>);
     lease \<leftarrow> gets g_verify_lease;
     whenever (0 \<le> lease) (close_fd lease);
     modify (\<lambda>s. s\<lparr>g_verify_lease := - 1\<rparr>)
   }"

definition cleanup_session :: "(agent, unit) state" where
  "cleanup_session = do {
     terminate_group g_session g_session_update;
     terminate_group g_xorg g_xorg_update;
     drop_fds;
     modify (\<lambda>s. s\<lparr>g_trace_steady := False\<rparr>);
     terminate_group g_bridge g_bridge_update;
     remove_path (kRuntime @ ''/input.env'')
   }"

subsection \<open>Serving the broker\<close>

definition registration_for :: "agent \<Rightarrow> hdmi_los_message" where
  "registration_for s =
     zero_message\<lparr>m_magic := HDMI_LOS_MAGIC, m_version := HDMI_LOS_BROKER_VERSION,
       m_opcode := HDMI_LOS_OP_AGENT_REGISTER, m_request_id := a_pid s,
       m_flags := (if g_no_timeout s then HDMI_LOS_FLAG_CONTINUOUS else 0)\<rparr>"

definition report_failure :: "hdmi_los_message \<Rightarrow> string \<Rightarrow> (agent, unit) state" where
  "report_failure registration reason = do {
     cleanup_session;
     written \<leftarrow> write_broker (response_for registration HDMI_LOS_OP_AGENT_FAILED HDMI_LOS_ERR_AGENT reason);
     return ()
   }"

definition watch_xorg :: "hdmi_los_message \<Rightarrow> (agent, unit) state" where
  "watch_xorg registration = do {
     xorg \<leftarrow> gets g_xorg;
     whenever (0 < xorg) (do {
       waited \<leftarrow> wait_once xorg;
       whenever (case waited of Finished status \<Rightarrow> True | _ \<Rightarrow> False) (do {
         modify (\<lambda>s. s\<lparr>g_xorg := - 1\<rparr>);
         report_failure registration ''Xorg exited unexpectedly''
       })
     })
   }"

definition watch_trace :: "hdmi_los_message \<Rightarrow> u16 \<Rightarrow> (agent, unit) state" where
  "watch_trace registration revents = do {
     trace \<leftarrow> gets g_trace;
     whenever (0 \<le> trace \<and> has_bits revents (POLLIN OR POLLERR OR POLLHUP OR POLLNVAL)) (do {
       relayed \<leftarrow> relay_trace_record;
       whenever (\<not> relayed) (report_failure registration ''DRM tracer relay failed closed'')
     })
   }"

definition watch_scanout :: "hdmi_los_message \<Rightarrow> (agent, unit) state" where
  "watch_scanout registration = do {
     xorg \<leftarrow> gets g_xorg;
     failed \<leftarrow> gets g_scanout_failed;
     failure \<leftarrow> gets g_scanout_failure;
     whenever (0 < xorg \<and> failed)
       (report_failure registration
         (if failure = [] then ''a later external scanout commit failed'' else failure))
   }"

definition on_prepare :: "hdmi_los_message \<Rightarrow> (agent, unit) state" where
  "on_prepare request = do {
     ok \<leftarrow> prepare_session (m_flags request);
     whenever (\<not> ok) cleanup_session;
     modify (\<lambda>s. s\<lparr>g_probe_mode := (if ok then m_flags request else HDMI_LOS_PROBE_NONE)\<rparr>);
     written \<leftarrow> write_broker (response_for request HDMI_LOS_OP_AGENT_READY
       (if ok then HDMI_LOS_OK else HDMI_LOS_ERR_AGENT)
       (if ok then ''input bridge and Xorg runtime prepared'' else ''input bridge preparation failed''));
     return ()
   }"

definition on_start :: "hdmi_los_message \<Rightarrow> int \<Rightarrow> (agent, unit) state" where
  "on_start request lease_fd = do {
     probe_mode \<leftarrow> gets g_probe_mode;
     ok \<leftarrow> (if 0 \<le> lease_fd \<and> m_flags request = probe_mode \<and> supported_mode (m_flags request)
           then start_xorg lease_fd (m_connector_id request) (m_crtc_id request)
           else return False);
     whenever (\<not> ok) cleanup_session;
     failure \<leftarrow> gets g_scanout_failure;
     lxde \<leftarrow> gets g_start_lxde;
     written \<leftarrow> write_broker (response_for request
       (if ok then HDMI_LOS_OP_AGENT_READY else HDMI_LOS_OP_AGENT_FAILED)
       (if ok then HDMI_LOS_OK else HDMI_LOS_ERR_AGENT)
       (if ok then if lxde then ''Xorg and LXDE ready on DP-1'' else ''Xorg ready on DP-1; session disabled''
        else if failure = [] then ''Xorg startup verification failed'' else failure));
     return ()
   }"

definition on_stop :: "hdmi_los_message \<Rightarrow> int \<Rightarrow> (agent, unit) state" where
  "on_stop request lease_fd = do {
     whenever (0 \<le> lease_fd) (close_fd lease_fd);
     cleanup_session;
     modify (\<lambda>s. s\<lparr>g_probe_mode := HDMI_LOS_PROBE_NONE\<rparr>);
     written \<leftarrow> write_broker (response_for request HDMI_LOS_OP_AGENT_READY HDMI_LOS_OK
       ''Xorg stopped and input returned to Android'');
     return ()
   }"

definition on_unknown :: "hdmi_los_message \<Rightarrow> int \<Rightarrow> (agent, unit) state" where
  "on_unknown request lease_fd = do {
     whenever (0 \<le> lease_fd) (close_fd lease_fd);
     written \<leftarrow> write_broker (response_for request HDMI_LOS_OP_AGENT_FAILED HDMI_LOS_ERR_PROTOCOL
       ''unknown broker request'');
     return ()
   }"

definition on_request :: "hdmi_los_message \<Rightarrow> int \<Rightarrow> (agent, unit) state" where
  "on_request request lease_fd =
     (if m_opcode request = HDMI_LOS_OP_AGENT_PREPARE then on_prepare request
      else if m_opcode request = HDMI_LOS_OP_AGENT_START then on_start request lease_fd
      else if m_opcode request = HDMI_LOS_OP_AGENT_STOP then on_stop request lease_fd
      else on_unknown request lease_fd)"

text \<open>One round of the loop: the answer of the poll, for the broker and for the tracer. The result
  says whether the loop goes on.\<close>

definition watch :: "hdmi_los_message \<Rightarrow> u16 \<Rightarrow> (agent, unit) state" where
  "watch registration trace_events = do {
     watch_xorg registration;
     watch_trace registration trace_events;
     watch_scanout registration
   }"

definition agent_step :: "hdmi_los_message \<Rightarrow> (u16 \<times> u16) call \<Rightarrow> (agent, bool) state" where
  "agent_step registration answer =
     (case answer of
        CallErr e \<Rightarrow> return (e = EINTR)
      | CallOk events \<Rightarrow>
          (case events of (broker_events, trace_events) \<Rightarrow>
             if has_bits broker_events (POLLERR OR POLLHUP OR POLLNVAL) then return False
             else do {
               watch registration trace_events;
               if \<not> has_bits broker_events POLLIN then return True
               else do {
                 (ok, request, lease_fd) \<leftarrow> recv_message;
                 if \<not> ok then return False
                 else do {
                   on_request request lease_fd;
                   return True
                 }
               }
             }))"

text \<open>The loop ends with its script: a stop was requested.\<close>

fun agent_loop :: "hdmi_los_message \<Rightarrow> (u16 \<times> u16) call list \<Rightarrow> (agent, unit) state" where
  "agent_loop registration [] = return ()"
| "agent_loop registration (answer # answers) = do {
     continue \<leftarrow> agent_step registration answer;
     if continue then agent_loop registration answers else return ()
   }"

definition register :: "(agent, bool) state" where
  "register = do {
     fd \<leftarrow> connect_broker;
     modify (\<lambda>s. s\<lparr>g_broker := fd\<rparr>);
     if fd < 0 then return False
     else do {
       registration \<leftarrow> gets registration_for;
       continuous \<leftarrow> gets g_no_timeout;
       written \<leftarrow> write_broker registration;
       if \<not> written then return False
       else do {
         (ok, reply, ignored_fd) \<leftarrow> recv_message;
         return (ok \<and> m_status reply = HDMI_LOS_OK \<and>
           (continuous \<longrightarrow> has_bits (m_flags reply) HDMI_LOS_FLAG_CONTINUOUS))
       }
     }
   }"

definition finish_agent :: "(agent, unit) state" where
  "finish_agent = do {
     cleanup_session;
     broker \<leftarrow> gets g_broker;
     close_fd broker;
     modify (\<lambda>s. s\<lparr>g_broker := - 1\<rparr>)
   }"

definition run_agent :: "(u16 \<times> u16) call list \<Rightarrow> (agent, int) state" where
  "run_agent polls = do {
     registered \<leftarrow> register;
     if \<not> registered then return 1
     else do {
       registration \<leftarrow> gets registration_for;
       agent_loop registration polls;
       finish_agent;
       return 0
     }
   }"

definition agent_main :: "u32 \<Rightarrow> string option \<Rightarrow> (string \<Rightarrow> bool) \<Rightarrow> string list \<Rightarrow> (u16 \<times> u16) call list \<Rightarrow>
    agent_world \<Rightarrow> int \<times> agent" where
  "agent_main euid link directory args polls w =
     (case agent_options euid (executable_dir link) directory args of
        Inl code \<Rightarrow> (code, new_agent w)
      | Inr opts \<Rightarrow>
          run_state (run_agent polls)
            (new_agent w\<lparr>g_bundle := g_bundle opts, g_kgsl_glamor := g_kgsl_glamor opts,
               g_kgsl_kms_bridge := g_kgsl_kms_bridge opts, g_client_present := g_client_present opts,
               g_start_lxde := g_start_lxde opts, g_no_timeout := g_no_timeout opts,
               g_trace_startup_only := g_trace_startup_only opts\<rparr>))"


end
