(* ===== verification/Agent_Correct.thy ===== *)
theory Agent_Correct
  imports Agent "HOL-Library.Sublist"
begin

section \<open>What the agent's steps keep\<close>

text \<open>
  The relations between the state before and after a step that the proofs about the agent rest
  on: the records that were relayed and what they changed, the balance of child processes and
  descriptors, and the order of messages in the log.
\<close>

subsection \<open>Relaying\<close>

definition records :: "act list \<Rightarrow> hdmi_los_trace_record list" where
  "records acts = concat (map (\<lambda>a. case a of From_tracer r \<Rightarrow> [r] | _ \<Rightarrow> []) acts)"

lemma records_append [simp]: "records (xs @ ys) = records xs @ records ys"
  by (simp add: records_def)

lemma records_simps [simp]:
  "records [] = []"
  "records (From_tracer r # acts) = r # records acts"
  "records (Spawned p c # acts) = records acts"
  "records (Signalled p n # acts) = records acts"
  "records (Reaped p # acts) = records acts"
  "records (Got fd # acts) = records acts"
  "records (Dropped fd # acts) = records acts"
  "records (From_broker m # acts) = records acts"
  "records (Told_broker m # acts) = records acts"
  "records (Told_tracer t # acts) = records acts"
  "records (Removed q # acts) = records acts"
  "records (Configured f # acts) = records acts"
  by (simp_all add: records_def)

text \<open>The part of the state that the observer of the commits works on.\<close>

record scanout =
  sc_setcrtc :: u64
  sc_connector :: u32
  sc_crtc :: u32
  sc_sequence :: u32
  sc_fb :: u32
  sc_seen :: bool
  sc_confirmed :: bool
  sc_failed :: bool
  sc_failure :: string

definition scanout_of :: "agent \<Rightarrow> scanout" where
  "scanout_of s = \<lparr>sc_setcrtc = a_setcrtc s, sc_connector = g_expected_connector s,
     sc_crtc = g_expected_crtc s, sc_sequence = g_scanout_sequence s, sc_fb = g_scanout_fb s,
     sc_seen = g_scanout_connector_seen s, sc_confirmed = g_scanout_confirmed s,
     sc_failed = g_scanout_failed s, sc_failure = g_scanout_failure s\<rparr>"

definition observe :: "hdmi_los_trace_record \<Rightarrow> scanout \<Rightarrow> scanout" where
  "observe r v =
     (if sc_crtc v = 0 \<or> t_request r \<noteq> sc_setcrtc v then v
      else if t_phase r = HDMI_LOS_TRACE_BEFORE \<and> t_argument r ! 0 = ucast (sc_crtc v) \<and>
              t_argument r ! 1 \<noteq> 0 \<and> t_argument r ! 3 \<noteq> 0 \<and>
              (sc_sequence v = 0 \<or> sc_confirmed v) then
        v\<lparr>sc_sequence := t_sequence r, sc_fb := ucast (t_argument r ! 1), sc_seen := False\<rparr>
      else if t_sequence r \<noteq> sc_sequence v then v
      else if t_phase r = HDMI_LOS_TRACE_DETAIL \<and> c_str (t_name r) = ''SETCRTC_CONNECTOR'' \<and>
              t_argument r ! 2 = ucast (sc_connector v) then v\<lparr>sc_seen := True\<rparr>
      else if t_phase r = HDMI_LOS_TRACE_AFTER then
        if t_result r = 0 \<and> sc_seen v then v\<lparr>sc_confirmed := True\<rparr>
        else v\<lparr>sc_failed := True, sc_failure := scanout_failure r\<rparr>
      else v)"

lemma scanout_of_observe: "scanout_of (observe_scanout_record r s) = observe r (scanout_of s)"
  unfolding observe_scanout_record_def observe_def scanout_of_def by auto

text \<open>What relaying leaves alone: the processes, the descriptors, the mode and the options.\<close>

definition session_of :: "agent \<Rightarrow> (int \<times> int \<times> int) \<times> (int \<times> int \<times> int) \<times> drm_mode_modeinfo \<times> bool \<times> bool \<times> u32" where
  "session_of s = ((g_bridge s, g_xorg s, g_session s), (g_broker s, g_trace s, g_verify_lease s),
     g_android_mode s, g_android_mode_valid s, g_trace_steady s, g_probe_mode s)"

definition relays :: "agent \<Rightarrow> agent \<Rightarrow> bool" where
  "relays s t \<longleftrightarrow>
     (\<exists>new. a_log t = a_log s @ new \<and> scanout_of t = fold observe (records new) (scanout_of s)) \<and>
     session_of t = session_of s \<and> a_crtc t = a_crtc s \<and> options.truncate t = options.truncate s"

interpretation relaying: step_preorder relays
proof
  show "relays s s" for s by (auto simp: relays_def)
  show "relays s u" if "relays s t" "relays t u" for s t u
    using that by (auto simp: relays_def)
qed

lemma relays_I:
  assumes "a_log t = a_log s @ new" "scanout_of t = fold observe (records new) (scanout_of s)"
    "session_of t = session_of s" "a_crtc t = a_crtc s" "options.truncate t = options.truncate s"
  shows "relays s t"
  using assms by (auto simp: relays_def)

lemmas relays_unfold = relays_def scanout_of_def session_of_def options.truncate_def
lemmas relay_intros = relaying.keeps_intros

lemma relays_monotonic_ms: "keeps relays monotonic_ms"
  unfolding monotonic_ms_def
  by (intro relay_intros; rule keeps_I) (simp_all add: wp_simps relays_unfold)

lemma relays_observe: "keeps relays (do { log_act (From_tracer r); modify (observe_scanout_record r) })"
  apply (rule keeps_I)
  apply (simp add: wp_simps log_act_def)
  apply (rule relays_I [where new = "[From_tracer r]"])
      apply (simp_all add: scanout_of_observe)
     apply (simp_all add: observe_scanout_record_def scanout_of_def session_of_def options.truncate_def)
  done

lemma observe_first:
  assumes "keeps relays m"
  shows "keeps relays (do { log_act (From_tracer r); modify (observe_scanout_record r); m })"
  using relaying.keeps_bind [OF relays_observe [of r], of "\<lambda>x. m"] assms by simp

lemma relays_log_act: "records [a] = [] \<Longrightarrow> keeps relays (log_act a)"
  unfolding log_act_def
  by (rule keeps_I) (auto simp: wp_simps relays_unfold)

lemma relays_draw:
  assumes "\<And>s f. a_log (update f s) = a_log s" "\<And>s f. scanout_of (update f s) = scanout_of s"
    "\<And>s f. session_of (update f s) = session_of s" "\<And>s f. a_crtc (update f s) = a_crtc s"
    "\<And>s f. options.truncate (update f s) = options.truncate s"
  shows "keeps relays (draw script update)"
  unfolding draw_def by (intro relay_intros; rule keeps_I) (simp_all add: wp_simps relays_def assms)

lemma relays_check_step: "keeps relays check_step"
  unfolding check_step_def by (rule relays_draw) (simp_all add: relays_unfold)

lemma relays_check_steps: "keeps relays (check_steps n)"
  by (induction n) (auto intro!: relay_intros relays_check_step)

lemma relays_fork: "keeps relays (fork c)"
  unfolding fork_def
  by (intro relay_intros relays_draw relays_log_act) (simp_all add: relays_unfold)

lemma relays_close_fd: "keeps relays (close_fd fd)"
  unfolding close_fd_def by (rule relays_log_act) simp

lemma relays_write_broker: "keeps relays (write_broker m)"
  unfolding write_broker_def
  by (intro relay_intros relays_log_act; (rule keeps_I)?) (simp_all add: wp_simps relays_unfold)

lemma relays_recv_message: "keeps relays recv_message"
  unfolding recv_message_def
  by (intro relay_intros relays_log_act; (rule keeps_I)?) (simp_all add: wp_simps relays_unfold)

lemma relays_trace_poll: "keeps relays trace_poll"
  unfolding trace_poll_def
  by (intro relay_intros; rule keeps_I) (simp_all add: wp_simps relays_unfold)

lemma relays_trace_recv: "keeps relays trace_recv"
  unfolding trace_recv_def
  by (intro relay_intros; rule keeps_I) (simp_all add: wp_simps relays_unfold)

lemma relays_acknowledge: "keeps relays (acknowledge_trace_record n)"
  unfolding acknowledge_trace_record_def
  by (intro relay_intros relays_log_act; (rule keeps_I)?) (simp_all add: wp_simps relays_unfold)

lemma relays_relay_received: "keeps relays (relay_received answer)"
  unfolding relay_received_def relay_record_def forward_trace_record_def report_progress_def
  by (auto split: call.splits intro!: relay_intros observe_first relays_write_broker relays_recv_message
    relays_close_fd relays_acknowledge)

lemma relays_relay_trace_record: "keeps relays relay_trace_record"
  unfolding relay_trace_record_def
  by (intro relay_intros relays_trace_poll relays_trace_recv relays_relay_received)


lemma relays_signal_process: "keeps relays (signal_process pid n)"
  unfolding signal_process_def by (rule relays_log_act) simp

lemma relays_wait_for: "keeps relays (wait_for pid)"
  unfolding wait_for_def by (rule relays_log_act) simp

lemma relays_kill_child: "keeps relays (kill_child child)"
  unfolding kill_child_def by (intro relay_intros relays_signal_process relays_wait_for)

lemma relays_set_waits: "keeps relays (modify (\<lambda>s. s\<lparr>a_waits := ws\<rparr>))"
  by (rule keeps_I) (simp add: wp_simps relays_unfold)

lemma relays_set_alive: "keeps relays (modify (\<lambda>s. s\<lparr>a_alive := f s\<rparr>))"
  by (rule keeps_I) (simp add: wp_simps relays_unfold)

lemma relays_pass_time: "keeps relays (modify (\<lambda>s. s\<lparr>a_now := f s\<rparr>))"
  by (rule keeps_I) (simp add: wp_simps relays_unfold)

lemma relays_process_alive: "keeps relays (process_alive pid)"
  unfolding process_alive_def by (intro relay_intros relays_set_alive)

lemma relays_term_loop: "keeps relays (term_loop answers end_ms)"
  by (induction answers) (auto intro!: relay_intros relays_set_alive relays_monotonic_ms)

lemma relays_end_process: "keeps relays (end_process target)"
  unfolding end_process_def
  by (intro relay_intros relays_draw relays_signal_process relays_monotonic_ms relays_term_loop relays_process_alive)
    (simp_all add: relays_unfold)

lemma keeps_wait:
  "(\<And>st. answer = Finished st \<Longrightarrow> keeps R (f st)) \<Longrightarrow> (\<And>e. answer = Wait_failed e \<Longrightarrow> keeps R (g e)) \<Longrightarrow>
   (answer = Running \<Longrightarrow> keeps R h) \<Longrightarrow>
   keeps R (case answer of Finished st \<Rightarrow> f st | Wait_failed e \<Rightarrow> g e | Running \<Rightarrow> h)"
  by (cases answer) auto

lemma relays_run_wait_loop: "keeps relays (run_wait_loop answers child end_ms)"
proof (induction answers)
  case Nil
  show ?case
    by (auto intro!: relay_intros relays_pass_time relays_kill_child)
next
  case (Cons answer rest)
  show ?case
    by (auto intro!: relay_intros keeps_wait relays_set_waits relays_log_act relays_monotonic_ms
      relays_relay_trace_record relays_kill_child Cons.IH)
qed

lemma relays_run_wait: "keeps relays (run_wait c)"
  unfolding run_wait_def by (intro relay_intros relays_fork relays_monotonic_ms relays_run_wait_loop)

lemma relays_user: "keeps relays (draw a_user a_user_update)"
  by (rule relays_draw) (simp_all add: relays_unfold)

lemma relays_xorg_ready: "keeps relays xorg_ready"
  unfolding xorg_ready_def by (intro relay_intros relays_user relays_run_wait)

lemma relays_listing_contains: "keeps relays (listing_contains wanted forbidden)"
  unfolding listing_contains_def by (intro relay_intros relays_draw) (simp_all add: relays_unfold)

lemma relays_all_listed: "keeps relays (all_listed wanted)"
  by (induction wanted rule: all_listed.induct) (auto intro!: relay_intros relays_listing_contains)

lemma relays_verify_xorg: "keeps relays verify_xorg"
  unfolding verify_xorg_def by (intro relay_intros relays_user relays_run_wait relays_all_listed)


subsection \<open>The balance of processes and descriptors\<close>

text \<open>How often a process was started and not yet reaped; how often a descriptor was obtained and
  not yet closed.\<close>

definition children :: "act list \<Rightarrow> int \<Rightarrow> int" where
  "children acts p = sum_list (map (\<lambda>a. case a of
     Spawned q c \<Rightarrow> if q = p then 1 else 0 | Reaped q \<Rightarrow> if q = p then - 1 else 0 | _ \<Rightarrow> 0) acts)"

definition descriptors :: "act list \<Rightarrow> int \<Rightarrow> int" where
  "descriptors acts x = sum_list (map (\<lambda>a. case a of
     Got y \<Rightarrow> if y = x then 1 else 0 | Dropped y \<Rightarrow> if y = x then - 1 else 0 | _ \<Rightarrow> 0) acts)"

text \<open>How many of the agent's variables hold them.\<close>

definition holds_process :: "agent \<Rightarrow> int \<Rightarrow> int" where
  "holds_process s p = of_bool (g_bridge s = p) + of_bool (g_xorg s = p) + of_bool (g_session s = p)"

definition holds_descriptor :: "agent \<Rightarrow> int \<Rightarrow> int" where
  "holds_descriptor s x = of_bool (g_broker s = x) + of_bool (g_trace s = x) + of_bool (g_verify_lease s = x)"

definition stray_process :: "agent \<Rightarrow> int \<Rightarrow> int" where
  "stray_process s p = children (a_log s) p - holds_process s p"

definition stray_descriptor :: "agent \<Rightarrow> int \<Rightarrow> int" where
  "stray_descriptor s x = descriptors (a_log s) x - holds_descriptor s x"

definition balanced :: "agent \<Rightarrow> agent \<Rightarrow> bool" where
  "balanced s t \<longleftrightarrow>
     (\<forall>p > 1. stray_process t p = stray_process s p) \<and> (\<forall>x \<ge> 0. stray_descriptor t x = stray_descriptor s x)"

interpretation balance: step_preorder balanced
  by unfold_locales (auto simp: balanced_def)

lemma children_append [simp]: "children (as @ bs) p = children as p + children bs p"
  by (simp add: children_def)

lemma descriptors_append [simp]: "descriptors (as @ bs) x = descriptors as x + descriptors bs x"
  by (simp add: descriptors_def)

lemmas balance_unfold = balanced_def stray_process_def stray_descriptor_def holds_process_def
  holds_descriptor_def children_def descriptors_def
lemmas balance_intros = balance.keeps_intros

text \<open>Acts that concern neither.\<close>

definition neutral :: "act \<Rightarrow> bool" where
  "neutral a = (case a of Spawned q c \<Rightarrow> False | Reaped q \<Rightarrow> False | Got y \<Rightarrow> False | Dropped y \<Rightarrow> False | _ \<Rightarrow> True)"

lemma balanced_log_act: "neutral a \<Longrightarrow> keeps balanced (log_act a)"
  unfolding log_act_def
  by (rule keeps_I) (auto simp: wp_simps balance_unfold neutral_def split: act.splits)

lemma neutral_simps [simp]:
  "neutral (Signalled p n)" "neutral (From_broker m)" "neutral (Told_broker m)" "neutral (From_tracer r)"
  "neutral (Told_tracer r)" "neutral (Removed q)" "neutral (Configured c)"
  by (simp_all add: neutral_def)

text \<open>A step that touches neither the log nor these variables.\<close>

definition outside :: "agent \<Rightarrow> agent \<Rightarrow> bool" where
  "outside s t \<longleftrightarrow> a_log t = a_log s \<and> g_bridge t = g_bridge s \<and> g_xorg t = g_xorg s \<and>
     g_session t = g_session s \<and> g_broker t = g_broker s \<and> g_trace t = g_trace s \<and>
     g_verify_lease t = g_verify_lease s"

lemma outside_balanced: "outside s t \<Longrightarrow> balanced s t"
  by (simp add: outside_def balance_unfold)

lemma balanced_modify: "(\<And>s. outside s (f s)) \<Longrightarrow> keeps balanced (modify f)"
  by (rule keeps_I) (simp add: wp_simps outside_balanced)

lemma balanced_draw: "(\<And>s f. outside s (update f s)) \<Longrightarrow> keeps balanced (draw script update)"
  unfolding draw_def by (intro balance_intros balanced_modify)

lemma balanced_monotonic_ms: "keeps balanced monotonic_ms"
  unfolding monotonic_ms_def by (intro balance_intros balanced_modify) (simp add: outside_def)

lemma balanced_check_step: "keeps balanced check_step"
  unfolding check_step_def by (rule balanced_draw) (simp add: outside_def)

lemma balanced_check_steps: "keeps balanced (check_steps n)"
  by (induction n) (auto intro!: balance_intros balanced_check_step)

lemma balanced_signal_process: "keeps balanced (signal_process pid n)"
  unfolding signal_process_def by (rule balanced_log_act) simp

lemma balanced_write_broker: "keeps balanced (write_broker m)"
  unfolding write_broker_def
  by (intro balance_intros balanced_modify balanced_log_act) (simp_all add: outside_def)


text \<open>A step that leaves \<open>d p\<close> more processes \<open>p\<close> and \<open>e x\<close> more descriptors \<open>x\<close> that no variable holds.\<close>

definition gains :: "(int \<Rightarrow> int) \<Rightarrow> (int \<Rightarrow> int) \<Rightarrow> agent \<Rightarrow> agent \<Rightarrow> bool" where
  "gains d e s t \<longleftrightarrow>
     (\<forall>p > 1. stray_process t p = stray_process s p + d p) \<and>
     (\<forall>x \<ge> 0. stray_descriptor t x = stray_descriptor s x + e x)"

definition one :: "int \<Rightarrow> int \<Rightarrow> int" where
  "one q p = of_bool (q = p)"

abbreviation none :: "int \<Rightarrow> int" where
  "none \<equiv> \<lambda>p. 0"

abbreviation minus_one :: "int \<Rightarrow> int \<Rightarrow> int" where
  "minus_one q \<equiv> \<lambda>p. - one q p"

lemma balanced_gains: "balanced = gains none none"
  by (simp add: balanced_def gains_def fun_eq_iff)

lemma gains_trans: "gains d e s t \<Longrightarrow> gains d' e' t u \<Longrightarrow> gains (\<lambda>p. d p + d' p) (\<lambda>x. e x + e' x) s u"
  by (simp add: gains_def)

lemma gains_before:
  "keeps balanced m \<Longrightarrow> (\<And>x. keeps (gains d e) (f x)) \<Longrightarrow> keeps (gains d e) (State_Monad.bind m f)"
  unfolding keeps_def by (simp add: balanced_def gains_def split: prod.splits) (metis snd_conv)

lemma gains_after:
  "keeps (gains d e) m \<Longrightarrow> (\<And>x. keeps balanced (f x)) \<Longrightarrow> keeps (gains d e) (State_Monad.bind m f)"
  unfolding keeps_def by (simp add: balanced_def gains_def split: prod.splits) (metis snd_conv)

lemma gains_both:
  assumes "keeps (gains d e) m" "\<And>x. keeps (gains d' e') (f x)"
  shows "keeps (gains (\<lambda>p. d p + d' p) (\<lambda>x. e x + e' x)) (State_Monad.bind m f)"
  using assms unfolding keeps_def by (simp add: gains_def split: prod.splits) (metis snd_conv)

lemma gains_log_spawned: "keeps (gains (one p) none) (log_act (Spawned p c))"
  unfolding log_act_def
  by (rule keeps_I) (auto simp: wp_simps gains_def balance_unfold one_def)

lemma gains_log_reaped: "keeps (gains (minus_one p) none) (log_act (Reaped p))"
  unfolding log_act_def
  by (rule keeps_I) (auto simp: wp_simps gains_def balance_unfold one_def)

lemma gains_log_got: "keeps (gains none (one x)) (log_act (Got x))"
  unfolding log_act_def
  by (rule keeps_I) (auto simp: wp_simps gains_def balance_unfold one_def)

lemma gains_close_fd: "keeps (gains none (minus_one x)) (close_fd x)"
  unfolding close_fd_def log_act_def
  by (rule keeps_I) (auto simp: wp_simps gains_def balance_unfold one_def)

lemma gains_wait_for: "keeps (gains (minus_one p) none) (wait_for p)"
  unfolding wait_for_def by (rule gains_log_reaped)

lemma gains_kill_child: "keeps (gains (minus_one p) none) (kill_child p)"
  unfolding kill_child_def by (intro gains_before balanced_signal_process gains_wait_for)

text \<open>A received descriptor is a stray one until it is closed or stored.\<close>

lemma recv_message_rule:
  assumes "\<And>ok m fd t. relays s t \<Longrightarrow> gains none (one fd) s t \<Longrightarrow> Q (ok, m, fd) t"
  shows "wp recv_message Q s"
proof -
  have "wp recv_message (\<lambda>(ok, m, fd) t. gains none (one fd) s t) s"
    unfolding recv_message_def log_act_def
    by (auto simp: wp_simps gains_def balance_unfold one_def split: prod.splits)
  from wp_conj [OF keeps_rule [OF relays_recv_message, where Q = "\<lambda>x. relays s"] this]
  show ?thesis by (rule wp_mono) (auto intro: assms)
qed

lemma balanced_forward_trace_record: "keeps balanced (forward_trace_record r)"
proof -
  have obs: "keeps balanced (modify (observe_scanout_record r))"
    by (rule balanced_modify) (simp add: outside_def observe_scanout_record_def)
  have reply: "keeps balanced (do {
       (received, acknowledgement, passed_fd) \<leftarrow> recv_message;
       whenever (0 \<le> passed_fd) (close_fd passed_fd);
       return (received \<and> accepts_progress progress acknowledgement)
     })" for progress
    apply (rule keeps_I, subst wp_bind, rule recv_message_rule)
    apply (auto simp: wp_simps close_fd_def log_act_def gains_def balance_unfold one_def)
    done
  show ?thesis
    unfolding forward_trace_record_def report_progress_def
    by (rule balance.keeps_bind [OF obs] balance.keeps_bind [OF balanced_write_broker]
      keeps_if balance.keeps_return reply)+
qed

lemma balanced_trace_poll: "keeps balanced trace_poll"
  unfolding trace_poll_def by (intro balance_intros balanced_modify) (simp add: outside_def)

lemma balanced_trace_recv: "keeps balanced trace_recv"
  unfolding trace_recv_def by (intro balance_intros balanced_modify) (simp add: outside_def)

lemma balanced_acknowledge: "keeps balanced (acknowledge_trace_record n)"
  unfolding acknowledge_trace_record_def
  by (intro balance_intros balanced_modify balanced_log_act) (simp_all add: outside_def)

lemma balanced_relay_trace_record: "keeps balanced relay_trace_record"
  unfolding relay_trace_record_def relay_received_def relay_record_def
  by (intro balance_intros balanced_trace_poll balanced_trace_recv balanced_forward_trace_record
    balanced_acknowledge balanced_log_act) simp


subsection \<open>Children that are waited for\<close>

text \<open>A child that was just started is a stray one until it is reaped or stored.\<close>

lemma fork_rule:
  assumes "\<And>t. relays s t \<Longrightarrow> balanced s t \<Longrightarrow> Q (- 1) t"
    and "\<And>child t. relays s t \<Longrightarrow> 1 < child \<Longrightarrow> gains (one child) none s t \<Longrightarrow> Q child t"
  shows "wp (fork c) Q s"
proof -
  have "wp (fork c) (\<lambda>child t. (child = - 1 \<and> balanced s t) \<or> (1 < child \<and> gains (one child) none s t)) s"
    unfolding fork_def draw_def log_act_def
    by (auto simp: wp_simps gains_def balance_unfold one_def)
  from wp_conj [OF keeps_rule [OF relays_fork, where Q = "\<lambda>x. relays s"] this]
  show ?thesis by (rule wp_mono) (auto intro: assms)
qed

lemma keeps_gains_if:
  "(c \<Longrightarrow> keeps (gains d e) a) \<Longrightarrow> (\<not> c \<Longrightarrow> keeps (gains d e) b) \<Longrightarrow> keeps (gains d e) (if c then a else b)"
  by simp

lemma gains_run_wait_loop: "keeps (gains (minus_one child) none) (run_wait_loop answers child end_ms)"
proof (induction answers)
  case Nil
  have "keeps balanced (modify (\<lambda>s. s\<lparr>a_now := max (a_now s) end_ms\<rparr>))"
    by (rule balanced_modify) (simp add: outside_def)
  then show ?case
    unfolding run_wait_loop.simps
    by (rule gains_before) (intro gains_after [OF gains_kill_child] balance.keeps_return)
next
  case (Cons answer rest)
  have "keeps balanced (modify (\<lambda>s. s\<lparr>a_waits := rest\<rparr>))"
    by (rule balanced_modify) (simp add: outside_def)
  note set_waits = gains_before [OF this]
  show ?case
    unfolding run_wait_loop.simps
    by (intro set_waits gains_before [OF balanced_monotonic_ms] gains_before [OF balanced_relay_trace_record]
        keeps_wait keeps_gains_if gains_after [OF gains_kill_child] gains_after [OF gains_log_reaped]
        balance.keeps_return Cons.IH)
qed

lemma balanced_run_wait: "keeps balanced (run_wait c)"
proof (rule keeps_I)
  fix s
  show "wp (run_wait c) (\<lambda>x. balanced s) s"
    unfolding run_wait_def
  proof (subst wp_bind, rule fork_rule)
    show "wp (if - 1 < (0::int) then return (- 1) else f) (\<lambda>x. balanced s) t"
      if "balanced s t" for t :: agent and f
      using that by (simp add: wp_simps)
  next
    fix child :: int and t
    assume t: "1 < child" "gains (one child) none s t"
    have "keeps (gains (minus_one child) none) (do {
        now \<leftarrow> monotonic_ms; waits \<leftarrow> gets a_waits; run_wait_loop waits child (now + 5000) })"
      by (intro gains_before [OF balanced_monotonic_ms] gains_before [OF balance.keeps_gets] gains_run_wait_loop)
    then show "wp (if child < 0 then return (- 1) else do {
        now \<leftarrow> monotonic_ms; waits \<leftarrow> gets a_waits; run_wait_loop waits child (now + 5000) })
        (\<lambda>x. balanced s) t"
      using t by (auto intro!: keeps_rule simp: gains_def balanced_def)
  qed
qed

lemma balanced_term_loop: "keeps balanced (term_loop answers end_ms)"
  by (induction answers) (auto intro!: balance_intros balanced_monotonic_ms balanced_modify simp: outside_def)

lemma balanced_process_alive: "keeps balanced (process_alive pid)"
  unfolding process_alive_def by (intro balance_intros balanced_modify) (simp add: outside_def)

lemma balanced_end_process: "keeps balanced (end_process target)"
  unfolding end_process_def
  by (intro balance_intros balanced_draw balanced_signal_process balanced_monotonic_ms balanced_term_loop
    balanced_process_alive) (simp add: outside_def)

lemma gains_end: "keeps (gains (minus_one target) none) (do {
     alive \<leftarrow> process_alive target; whenever alive (end_process target); wait_for target })"
  by (intro gains_before [OF balanced_process_alive] gains_before gains_wait_for balance.keeps_whenever
    balanced_end_process)

lemma relays_end: "keeps relays (do {
     alive \<leftarrow> process_alive target; whenever alive (end_process target); wait_for target })"
  by (intro relay_intros relays_process_alive relays_end_process relays_wait_for)

lemma balanced_pair: "keeps relays m \<Longrightarrow> keeps (gains d e) m \<Longrightarrow> keeps (\<lambda>s t. relays s t \<and> gains d e s t) m"
  by (simp add: keeps_def)


lemma terminate_rule:
  assumes "\<And>t. relays s t \<Longrightarrow> pid t = pid s"
    and "\<And>t. 1 < pid t \<Longrightarrow> gains (one (pid t)) none t (update (\<lambda>p. - 1) t)"
    and "\<And>t. relays s t \<Longrightarrow> pid t \<le> 1 \<Longrightarrow> balanced s t \<Longrightarrow> Q () t"
    and "\<And>t. relays s t \<Longrightarrow> balanced s (update (\<lambda>p. - 1) t) \<Longrightarrow> Q () (update (\<lambda>p. - 1) t)"
  shows "wp (terminate_group pid update) Q s"
proof (cases "pid s \<le> 1")
  case True
  with assms(3) [of s] show ?thesis
    by (simp add: terminate_group_def wp_simps relaying.step_refl balance.step_refl)
next
  case False
  let ?m = "do { alive \<leftarrow> process_alive (pid s); whenever alive (end_process (pid s)); wait_for (pid s) }"
  have m: "wp ?m (\<lambda>x. wp (modify (update (\<lambda>p. - 1))) Q) s"
  proof (rule keeps_rule [OF balanced_pair [OF relays_end gains_end]])
    fix t :: agent and x :: unit
    assume t: "relays s t \<and> gains (minus_one (pid s)) none s t"
    have "gains (one (pid s)) none t (update (\<lambda>p. - 1) t)"
      using assms(2) [of t] assms(1) [of t] t False by simp
    then have "balanced s (update (\<lambda>p. - 1) t)"
      using t by (simp add: gains_def balanced_def)
    with assms(4) t show "wp (modify (update (\<lambda>p. - 1))) Q t" by (simp add: wp_simps)
  qed
  then show ?thesis using False by (simp only: terminate_group_def wp_bind wp_gets wp_if if_False)
qed

lemma relays_session: "relays s t \<Longrightarrow> g_bridge t = g_bridge s \<and> g_xorg t = g_xorg s \<and> g_session t = g_session s \<and>
    g_broker t = g_broker s \<and> g_trace t = g_trace s \<and> g_verify_lease t = g_verify_lease s \<and>
    g_probe_mode t = g_probe_mode s \<and> g_trace_steady t = g_trace_steady s \<and> g_android_mode t = g_android_mode s \<and>
    g_android_mode_valid t = g_android_mode_valid s \<and> a_crtc t = a_crtc s"
  by (simp add: relays_def session_of_def)

text \<open>The variables after a process was ended.\<close>

definition fds_of :: "agent \<Rightarrow> int \<times> int \<times> int \<times> u32" where
  "fds_of s = (g_broker s, g_trace s, g_verify_lease s, g_probe_mode s)"

definition pids_of :: "agent \<Rightarrow> int \<times> int \<times> int" where
  "pids_of s = (g_bridge s, g_xorg s, g_session s)"

lemma relays_frames: "relays s t \<Longrightarrow> fds_of t = fds_of s \<and> pids_of t = pids_of s"
  by (simp add: relays_session fds_of_def pids_of_def)

lemma end_session_rule:
  assumes "\<And>t. balanced s t \<Longrightarrow> fds_of t = fds_of s \<Longrightarrow> g_bridge t = g_bridge s \<Longrightarrow> g_xorg t = g_xorg s \<Longrightarrow>
    g_session t \<le> 1 \<Longrightarrow> Q () t"
  shows "wp (terminate_group g_session g_session_update) Q s"
proof (rule terminate_rule)
  show "gains (one (g_session t)) none t (g_session_update (\<lambda>p. - 1) t)" if "1 < g_session t" for t :: agent
    using that by (auto simp: gains_def balance_unfold one_def)
qed (auto intro!: assms simp: relays_session fds_of_def)

lemma end_xorg_rule:
  assumes "\<And>t. balanced s t \<Longrightarrow> fds_of t = fds_of s \<Longrightarrow> g_bridge t = g_bridge s \<Longrightarrow> g_session t = g_session s \<Longrightarrow>
    g_xorg t \<le> 1 \<Longrightarrow> Q () t"
  shows "wp (terminate_group g_xorg g_xorg_update) Q s"
proof (rule terminate_rule)
  show "gains (one (g_xorg t)) none t (g_xorg_update (\<lambda>p. - 1) t)" if "1 < g_xorg t" for t :: agent
    using that by (auto simp: gains_def balance_unfold one_def)
qed (auto intro!: assms simp: relays_session fds_of_def)

lemma end_bridge_rule:
  assumes "\<And>t. balanced s t \<Longrightarrow> fds_of t = fds_of s \<Longrightarrow> g_xorg t = g_xorg s \<Longrightarrow> g_session t = g_session s \<Longrightarrow>
    g_bridge t \<le> 1 \<Longrightarrow> Q () t"
  shows "wp (terminate_group g_bridge g_bridge_update) Q s"
proof (rule terminate_rule)
  show "gains (one (g_bridge t)) none t (g_bridge_update (\<lambda>p. - 1) t)" if "1 < g_bridge t" for t :: agent
    using that by (auto simp: gains_def balance_unfold one_def)
qed (auto intro!: assms simp: relays_session fds_of_def)

lemma drop_fds_rule:
  assumes "\<And>t. balanced s t \<Longrightarrow> pids_of t = pids_of s \<Longrightarrow> g_broker t = g_broker s \<Longrightarrow> g_probe_mode t = g_probe_mode s \<Longrightarrow>
    g_trace t = - 1 \<Longrightarrow> g_verify_lease t = - 1 \<Longrightarrow> Q () t"
  shows "wp drop_fds Q s"
  unfolding drop_fds_def close_fd_def log_act_def
  by (auto simp: wp_simps intro!: assms simp: balance_unfold pids_of_def)

text \<open>No session: neither Xorg nor a desktop, no trace socket, no copy of the lease.\<close>

definition quiet :: "agent \<Rightarrow> bool" where
  "quiet s \<longleftrightarrow> g_xorg s \<le> 1 \<and> g_session s \<le> 1 \<and> g_trace s < 0 \<and> g_verify_lease s < 0"

lemma cleanup_session_rule:
  assumes "\<And>t. balanced s t \<Longrightarrow> quiet t \<Longrightarrow> g_bridge t \<le> 1 \<Longrightarrow> g_broker t = g_broker s \<Longrightarrow> g_probe_mode t = g_probe_mode s \<Longrightarrow> Q () t"
  shows "wp cleanup_session Q s"
  unfolding cleanup_session_def remove_path_def log_act_def
  apply (subst wp_bind, rule end_session_rule)
  apply (subst wp_bind, rule end_xorg_rule)
  apply (subst wp_bind, rule drop_fds_rule)
  apply (simp add: wp_simps)
  apply (rule end_bridge_rule)
  apply (simp add: wp_simps)
  apply (rule assms)
  apply (auto simp: balance_unfold quiet_def fds_of_def pids_of_def)
  done


subsection \<open>The preload handshake\<close>

lemma relays_reap_again: "keeps relays (reap_again answers child)"
  by (induction answers) (auto intro!: relay_intros keeps_wait relays_set_waits relays_log_act)

lemma relays_preflight_loop: "keeps relays (preflight_loop answers child end_ms trace_open)"
  by (induction answers arbitrary: trace_open)
    (auto intro!: relay_intros keeps_wait relays_set_waits relays_log_act relays_pass_time relays_monotonic_ms
      relays_relay_trace_record)

text \<open>The two loops reap the child exactly if they report its status.\<close>

definition reaped_if :: "int \<Rightarrow> 'a option \<Rightarrow> agent \<Rightarrow> agent \<Rightarrow> bool" where
  "reaped_if child x = gains (case x of None \<Rightarrow> none | Some status \<Rightarrow> minus_one child) none"

lemma reaped_if_simps [simp]:
  "reaped_if child None = balanced" "reaped_if child (Some status) = gains (minus_one child) none"
  by (simp_all add: reaped_if_def balanced_gains)

lemma reaped_if_trans: "balanced s t \<Longrightarrow> reaped_if child x t u \<Longrightarrow> reaped_if child x s u"
  by (simp add: reaped_if_def balanced_def gains_def)

lemma balanced_set_waits: "balanced s (s\<lparr>a_waits := ws\<rparr>)"
  by (simp add: balance_unfold)

lemma reap_again_reaps: "wp (reap_again answers child) (\<lambda>x. reaped_if child x s) s"
proof (induction answers arbitrary: s)
  case Nil
  then show ?case by (simp add: wp_simps balance.step_refl)
next
  case (Cons answer rest)
  have again: "wp (reap_again rest child) (\<lambda>x. reaped_if child x s) (s\<lparr>a_waits := rest\<rparr>)"
    by (rule wp_mono [OF Cons.IH]) (blast intro: reaped_if_trans balanced_set_waits)
  show ?case
    by (cases answer)
      (auto simp: wp_simps log_act_def balanced_set_waits again gains_def balance_unfold one_def)
qed

lemma preflight_loop_reaps: "wp (preflight_loop answers child end_ms trace_open) (\<lambda>x. reaped_if child x s) s"
proof (induction answers arbitrary: s trace_open)
  case Nil
  then show ?case by (simp add: wp_simps balance_unfold)
next
  case (Cons answer rest)
  have again: "wp (preflight_loop rest child end_ms trace_open) (\<lambda>x. reaped_if child x s) t"
    if "balanced s t" for t trace_open
    by (rule wp_mono [OF Cons.IH]) (blast intro: reaped_if_trans that)
  have relay: "wp relay_trace_record (\<lambda>still_open. wp (preflight_loop rest child end_ms still_open)
      (\<lambda>x. reaped_if child x s)) t" if "balanced s t" for t
    by (rule keeps_rule [OF balanced_relay_trace_record]) (rule again, rule balance.step_trans [OF that])
  have reap: "gains (minus_one child) none s (u\<lparr>a_log := a_log u @ [Reaped child]\<rparr>)" if "balanced s u" for u
    using that by (auto simp: gains_def balance_unfold one_def)
  show ?case
    unfolding preflight_loop.simps
  proof (subst wp_bind, rule keeps_rule [OF balanced_monotonic_ms])
    fix t now assume "balanced s t"
    then have t: "balanced s (t\<lparr>a_waits := rest\<rparr>)"
      by (blast intro: balance.step_trans balanced_set_waits)
    show "wp (if end_ms \<le> now then return None else do {
        modify (\<lambda>s. s\<lparr>a_waits := rest\<rparr>);
        case answer of
          Finished status \<Rightarrow> do { log_act (Reaped child); return (Some status) }
        | Wait_failed e \<Rightarrow> if e \<noteq> EINTR then return None
            else if trace_open then do { still_open \<leftarrow> relay_trace_record; preflight_loop rest child end_ms still_open }
            else preflight_loop rest child end_ms False
        | Running \<Rightarrow> if trace_open then do { still_open \<leftarrow> relay_trace_record; preflight_loop rest child end_ms still_open }
            else preflight_loop rest child end_ms False }) (\<lambda>x. reaped_if child x s) t"
      using \<open>balanced s t\<close> relay [OF t] again [OF t] reap [OF t] t
      by (cases answer) (auto simp: wp_simps log_act_def)
  qed
qed

lemma preflight_loop_both:
  "wp (preflight_loop answers child end_ms trace_open) (\<lambda>x t. relays s t \<and> reaped_if child x s t) s"
  by (rule wp_conj [OF keeps_rule [OF relays_preflight_loop] preflight_loop_reaps])

lemma balanced_preflight_loaded: "keeps balanced preflight_loaded"
  unfolding preflight_loaded_def by (intro balance_intros balanced_trace_poll balanced_relay_trace_record)

lemma relays_preflight_loaded: "keeps relays preflight_loaded"
  unfolding preflight_loaded_def by (intro relay_intros relays_trace_poll relays_relay_trace_record)


lemma close_trace_rule:
  assumes "gains (minus_one child) none r s" "relays r s" "g_trace r = socket" "0 \<le> socket"
    and "\<And>t. gains (minus_one child) none r t \<Longrightarrow> pids_of t = pids_of r \<Longrightarrow> g_trace t = - 1 \<Longrightarrow>
      g_broker t = g_broker r \<Longrightarrow> g_verify_lease t = g_verify_lease r \<Longrightarrow> g_probe_mode t = g_probe_mode r \<Longrightarrow> Q ok t"
  shows "wp (do { close_fd socket; modify (\<lambda>s. s\<lparr>g_trace := - 1\<rparr>); return ok }) Q s"
  unfolding close_fd_def log_act_def
  using assms(1-4)
  by (auto simp: wp_simps relays_session intro!: assms(5) simp: gains_def balance_unfold pids_of_def)

lemma end_preflight_rule:
  assumes "reaped_if child first r s" "relays r s" "g_trace r = socket" "0 \<le> socket"
    and "\<And>ok t. gains (minus_one child) none r t \<Longrightarrow> pids_of t = pids_of r \<Longrightarrow> g_trace t = - 1 \<Longrightarrow>
      g_broker t = g_broker r \<Longrightarrow> g_verify_lease t = g_verify_lease r \<Longrightarrow> g_probe_mode t = g_probe_mode r \<Longrightarrow> Q ok t"
  shows "wp (do {
     waits' \<leftarrow> gets a_waits;
     exited \<leftarrow> (case first of None \<Rightarrow> reap_again waits' child | Some status \<Rightarrow> return (Some status));
     whenever (exited = None) (kill_child child);
     close_fd socket;
     modify (\<lambda>s. s\<lparr>g_trace := - 1\<rparr>);
     return (ok \<and> (case exited of Some (Some code) \<Rightarrow> code \<noteq> 125 | _ \<Rightarrow> False))
   }) Q s"
proof -
  have last: "wp (case first of None \<Rightarrow> reap_again waits child | Some status \<Rightarrow> return (Some status))
      (\<lambda>x t. relays r t \<and> reaped_if child x r t) s" for waits
  proof (cases first)
    case None
    have "wp (reap_again waits child) (\<lambda>x t. relays s t \<and> reaped_if child x s t) s"
      by (rule wp_conj [OF keeps_rule [OF relays_reap_again] reap_again_reaps])
    then have "wp (reap_again waits child) (\<lambda>x t. relays r t \<and> reaped_if child x r t) s"
      by (rule wp_mono) (use assms(1,2) None in \<open>auto intro: relaying.step_trans reaped_if_trans\<close>)
    with None show ?thesis by simp
  qed (use assms in \<open>simp add: wp_simps\<close>)
  show ?thesis
    apply (subst wp_bind, simp only: wp_gets)
    apply (subst wp_bind, rule wp_mono [OF last])
    apply (subst wp_bind)
    subgoal for exited t
    proof (cases exited)
      case None
      assume t: "relays r t \<and> reaped_if child exited r t"
      show ?thesis
        using None apply (simp only: wp_whenever simp_thms if_True)
        apply (rule keeps_rule [OF balanced_pair [OF relays_kill_child gains_kill_child]])
        apply (rule close_trace_rule [OF _ _ assms(3,4)])
        using t None by (auto simp: gains_def balanced_def intro: relaying.step_trans assms(5))
    next
      case (Some status)
      assume t: "relays r t \<and> reaped_if child exited r t"
      show ?thesis
        using Some apply (simp only: wp_whenever option.distinct simp_thms if_False)
        apply (rule close_trace_rule [OF _ _ assms(3,4)])
        using t Some by (auto intro: assms(5))
    qed
    done
qed

lemma preflight_child_rule:
  assumes "g_trace s < 0" "0 \<le> socket"
    and "\<And>ok t. gains (minus_one child) (minus_one socket) s t \<Longrightarrow> pids_of t = pids_of s \<Longrightarrow> g_trace t = - 1 \<Longrightarrow>
      g_broker t = g_broker s \<Longrightarrow> g_verify_lease t = g_verify_lease s \<Longrightarrow> g_probe_mode t = g_probe_mode s \<Longrightarrow> Q ok t"
  shows "wp (preflight_child child socket) Q s"
proof -
  define r where "r = s\<lparr>g_trace := socket\<rparr>"
  have trace: "g_trace r = socket" by (simp add: r_def)
  have r: "gains none (minus_one socket) s r"
    using assms(1,2) by (auto simp: r_def gains_def balance_unfold one_def)
  have done_rule: "Q ok t"
    if "gains (minus_one child) none r t" "pids_of t = pids_of r" "g_trace t = - 1" "g_broker t = g_broker r"
      "g_verify_lease t = g_verify_lease r" "g_probe_mode t = g_probe_mode r" for ok t
    by (rule assms(3)) (use gains_trans [OF r that(1)] that in \<open>simp_all add: r_def pids_of_def\<close>)
  show ?thesis
    unfolding preflight_child_def
    apply (subst wp_bind, simp only: wp_modify, fold r_def)
    apply (subst wp_bind, rule keeps_rule [OF balanced_pair [OF relays_preflight_loaded balanced_preflight_loaded [unfolded balanced_gains]]])
    apply (subst wp_bind, rule keeps_rule [OF balanced_pair [OF relays_monotonic_ms balanced_monotonic_ms [unfolded balanced_gains]]])
    apply (subst wp_bind, simp only: wp_gets)
    apply (subst wp_bind)
    apply (rule wp_mono [OF preflight_loop_both])
    apply (rule end_preflight_rule [OF _ _ trace assms(2) done_rule])
    apply (auto intro: relaying.step_trans reaped_if_trans balance.step_trans simp flip: balanced_gains)
    done
qed


subsection \<open>Preparing a session\<close>

text \<open>Steps that are balanced and leave it quiet, as long as there is no session.\<close>

definition calm :: "agent \<Rightarrow> agent \<Rightarrow> bool" where
  "calm s t \<longleftrightarrow> (quiet s \<longrightarrow> balanced s t \<and> quiet t \<and> g_broker t = g_broker s \<and> g_probe_mode t = g_probe_mode s)"

interpretation calmness: step_preorder calm
proof
  show "calm s s" for s by (simp add: calm_def balance.step_refl)
  show "calm s u" if "calm s t" "calm t u" for s t u
    using that unfolding calm_def by (auto intro: balance.step_trans)
qed

lemma relays_quiet: "relays s t \<Longrightarrow> quiet t = quiet s"
  by (simp add: relays_session quiet_def)

lemma calm_I: "keeps relays m \<Longrightarrow> keeps balanced m \<Longrightarrow> keeps calm m"
  unfolding keeps_def calm_def by (blast dest: relays_quiet relays_session)

lemmas calm_intros = calmness.keeps_intros

lemma socketpair_rule:
  assumes "\<And>t. relays s t \<Longrightarrow> balanced s t \<Longrightarrow> Q None t"
    and "\<And>a b t. relays s t \<Longrightarrow> gains none (\<lambda>x. one a x + one b x) s t \<Longrightarrow> 0 \<le> a \<Longrightarrow> 0 \<le> b \<Longrightarrow> Q (Some (a, b)) t"
  shows "wp socketpair Q s"
proof -
  have relay: "keeps relays socketpair"
    unfolding socketpair_def
    by (intro relay_intros relays_draw relays_log_act) (simp_all add: relays_unfold)
  have "wp socketpair (\<lambda>pair t. case pair of None \<Rightarrow> balanced s t
      | Some (a, b) \<Rightarrow> gains none (\<lambda>x. one a x + one b x) s t \<and> 0 \<le> a \<and> 0 \<le> b) s"
    unfolding socketpair_def draw_def log_act_def
    by (auto simp: wp_simps gains_def balance_unfold one_def split: option.splits)
  from wp_conj [OF keeps_rule [OF relay, where Q = "\<lambda>x. relays s"] this]
  show ?thesis by (rule wp_mono) (auto intro: assms split: option.splits)
qed

lemma calm_secure_gate: "keeps calm secure_gate"
  unfolding secure_gate_def
  by (intro calm_intros calm_I relays_draw balanced_draw relays_check_step balanced_check_step)
    (simp_all add: relays_unfold outside_def)

lemma calm_modules_gate: "keeps calm modules_gate"
  unfolding modules_gate_def
  by (intro calm_intros calm_I relays_check_steps balanced_check_steps)

lemma dropped_once: "gains none (minus_one x) t (t\<lparr>a_log := a_log t @ [Dropped x]\<rparr>)"
  by (auto simp: gains_def balance_unfold one_def)

lemma dropped_twice:
  "gains none (\<lambda>z. minus_one x z + minus_one y z) t (t\<lparr>a_log := (a_log t @ [Dropped x]) @ [Dropped y]\<rparr>)"
  by (auto simp: gains_def balance_unfold one_def)

lemma preflight_pair_rule:
  assumes s: "relays r s" "gains none (\<lambda>x. one mine x + one theirs x) r s" "0 \<le> mine" "0 \<le> theirs" "quiet r"
    and Q: "\<And>ok t. calm r t \<Longrightarrow> Q ok t"
  shows "wp (do {
       c \<leftarrow> gets (\<lambda>s. preflight_command s theirs);
       child \<leftarrow> fork c;
       close_fd theirs;
       if child < 0 then do { close_fd mine; return False } else preflight_child child mine
     }) Q s"
proof -
  let ?close = "\<lambda>child. do {
       close_fd theirs;
       if child < 0 then do { close_fd mine; return False } else preflight_child child mine }"
  have quiet: "quiet s" using s(1,5) by (simp add: relays_quiet)
  show ?thesis
    apply (subst wp_bind, simp only: wp_gets)
    apply (subst wp_bind)
  proof (rule fork_rule)
    fix t assume t: "relays s t" "balanced s t"
    define u where "u = t\<lparr>a_log := (a_log t @ [Dropped theirs]) @ [Dropped mine]\<rparr>"
    have "gains none (\<lambda>x. minus_one theirs x + minus_one mine x) t u"
      unfolding u_def by (rule dropped_twice)
    then have "balanced r u"
      using s(2) t(2) by (simp add: gains_def balanced_def)
    moreover have "quiet u" "g_broker u = g_broker r" "g_probe_mode u = g_probe_mode r"
      using quiet relays_session [OF s(1)] relays_session [OF t(1)] by (simp_all add: u_def quiet_def)
    ultimately have "calm r (t\<lparr>a_log := (a_log t @ [Dropped theirs]) @ [Dropped mine]\<rparr>)"
      by (simp add: calm_def u_def)
    then show "wp (?close (- 1)) Q t"
      by (simp add: wp_simps close_fd_def log_act_def Q)
  next
    fix child t assume t: "relays s t" "1 < child" "gains (one child) none s t"
    define u where "u = t\<lparr>a_log := a_log t @ [Dropped theirs]\<rparr>"
    have "gains none (minus_one theirs) t u" unfolding u_def by (rule dropped_once)
    then have u: "gains (one child) (one mine) r u"
      using s(2) t(3) by (simp add: gains_def)
    have frames: "pids_of u = pids_of r" "g_broker u = g_broker r" "g_verify_lease u = g_verify_lease r"
        "g_probe_mode u = g_probe_mode r" "g_trace u = g_trace r"
      using relays_session [OF s(1)] relays_session [OF t(1)] by (simp_all add: u_def pids_of_def)
    have "wp (preflight_child child mine) Q u"
    proof (rule preflight_child_rule)
      show "g_trace u < 0" using frames s(5) by (simp add: quiet_def)
      show "0 \<le> mine" by (fact s(3))
      fix ok v
      assume v: "gains (minus_one child) (minus_one mine) u v" "pids_of v = pids_of u" "g_trace v = - 1"
        "g_broker v = g_broker u" "g_verify_lease v = g_verify_lease u" "g_probe_mode v = g_probe_mode u"
      have "balanced r v" using gains_trans [OF u v(1)] by (simp add: balanced_gains)
      then have "calm r v" using v frames s(5) by (auto simp: calm_def quiet_def pids_of_def)
      then show "Q ok v" by (rule Q)
    qed
    then show "wp (?close child) Q t"
      using t(2) by (simp add: wp_simps close_fd_def log_act_def u_def)
  qed
qed

lemma calm_trace_preflight: "keeps calm trace_preflight"
proof -
  have pair: "keeps calm (do {
      pair \<leftarrow> socketpair;
      case pair of
        None \<Rightarrow> return False
      | Some (mine, theirs) \<Rightarrow> do {
          c \<leftarrow> gets (\<lambda>s. preflight_command s theirs);
          child \<leftarrow> fork c;
          close_fd theirs;
          if child < 0 then do { close_fd mine; return False } else preflight_child child mine
        } })"
    apply (rule keeps_I)
    subgoal for s
      apply (cases "quiet s")
       apply (subst wp_bind, rule socketpair_rule)
        apply (simp add: wp_simps calm_def relays_quiet relays_session)
       apply (simp only: option.case prod.case)
       apply (rule preflight_pair_rule, assumption+)
      apply (simp add: calm_def wp_def split: prod.splits)
      done
    done
  show ?thesis
    unfolding trace_preflight_def
    by (rule calmness.keeps_bind [OF calm_secure_gate] keeps_if calmness.keeps_return
      calmness.keeps_bind [OF calm_modules_gate] pair)+
qed


lemma calm_outside: "(\<And>s. outside s (f s) \<and> g_probe_mode (f s) = g_probe_mode s) \<Longrightarrow> keeps calm (modify f)"
  by (rule keeps_I) (simp add: wp_simps calm_def outside_balanced outside_def quiet_def)

lemma calm_draw: "(\<And>s f. outside s (update f s) \<and> g_probe_mode (update f s) = g_probe_mode s) \<Longrightarrow> keeps calm (draw script update)"
  unfolding draw_def by (intro calm_intros calm_outside)

lemma calm_check_step: "keeps calm check_step"
  by (rule calm_I [OF relays_check_step balanced_check_step])

lemma calm_check_steps: "keeps calm (check_steps n)"
  by (rule calm_I [OF relays_check_steps balanced_check_steps])

lemma calm_monotonic_ms: "keeps calm monotonic_ms"
  by (rule calm_I [OF relays_monotonic_ms balanced_monotonic_ms])

lemma calm_remove_path: "keeps calm (remove_path path)"
  unfolding remove_path_def by (rule calm_I [OF relays_log_act balanced_log_act]) simp_all

lemma calm_run_wait: "keeps calm (run_wait c)"
  by (rule calm_I [OF relays_run_wait balanced_run_wait])

lemma calm_read_paths: "keeps calm read_paths"
  unfolding read_paths_def by (intro calm_intros calm_draw calm_outside) (simp_all add: outside_def)

lemma calm_paths_loop: "keeps calm (paths_loop answers end_ms)"
  by (induction answers)
    (auto intro!: calm_intros calm_monotonic_ms calm_read_paths calm_outside simp: outside_def)

lemma calm_claim_display: "keeps calm claim_display"
  unfolding claim_display_def
  by (intro calm_intros calm_draw calm_check_step calm_remove_path) (simp add: outside_def)

lemma calm_write_authority: "keeps calm write_authority"
  unfolding write_authority_def
  by (intro calm_intros calm_draw calm_check_step calm_check_steps calm_run_wait) (simp add: outside_def)

lemma calm_start_bridge: "g_bridge s \<le> 1 \<Longrightarrow> wp start_bridge (\<lambda>x. calm s) s"
  unfolding start_bridge_def
proof (subst wp_bind, simp only: wp_gets, subst wp_bind, rule fork_rule)
  let ?wait = "\<lambda>child. do {
       modify (\<lambda>s. s\<lparr>g_bridge := child\<rparr>);
       if child < 0 then return False
       else do {
         now \<leftarrow> monotonic_ms;
         answers \<leftarrow> gets a_alive;
         paths_loop answers (now + 4500);
         gets (\<lambda>s. g_mouse s \<noteq> [] \<and> g_keyboard s \<noteq> [])
       } }"
  assume s: "g_bridge s \<le> 1"
  show "wp (?wait (- 1)) (\<lambda>x. calm s) t" if "relays s t" "balanced s t" for t
  proof -
    have "balanced t (t\<lparr>g_bridge := - 1\<rparr>)"
      using s relays_session [OF that(1)] by (simp add: balance_unfold)
    with that have "calm s (t\<lparr>g_bridge := - 1\<rparr>)"
      using relays_session [OF that(1)] by (auto simp: calm_def quiet_def intro: balance.step_trans)
    then show ?thesis by (simp add: wp_simps)
  qed
  show "wp (?wait child) (\<lambda>x. calm s) t" if "relays s t" "1 < child" "gains (one child) none s t" for child t
  proof -
    have "balanced s (t\<lparr>g_bridge := child\<rparr>)"
      using s relays_session [OF that(1)] that(2,3) by (auto simp: gains_def balance_unfold one_def)
    then have t: "calm s (t\<lparr>g_bridge := child\<rparr>)"
      using relays_session [OF that(1)] by (simp add: calm_def quiet_def)
    have "keeps calm (do {
         now \<leftarrow> monotonic_ms;
         answers \<leftarrow> gets a_alive;
         paths_loop answers (now + 4500);
         gets (\<lambda>s. g_mouse s \<noteq> [] \<and> g_keyboard s \<noteq> []) })"
      by (intro calm_intros calm_monotonic_ms calm_paths_loop)
    from keeps_rule [OF this, of "t\<lparr>g_bridge := child\<rparr>" "\<lambda>x. calm s"] t that(2) show ?thesis
      by (auto simp: wp_simps intro: calmness.step_trans)
  qed
qed


text \<open>The handshake does not touch the bridge.\<close>

definition same_bridge :: "agent \<Rightarrow> agent \<Rightarrow> bool" where
  "same_bridge s t \<longleftrightarrow> g_bridge t = g_bridge s"

interpretation bridging: step_preorder same_bridge
  by unfold_locales (auto simp: same_bridge_def)

lemma relays_same_bridge: "keeps relays m \<Longrightarrow> keeps same_bridge m"
  by (erule keeps_weaken) (simp add: same_bridge_def relays_session)

lemma relays_socketpair: "keeps relays socketpair"
  unfolding socketpair_def
  by (intro relay_intros relays_draw relays_log_act) (simp_all add: relays_unfold)

lemma same_bridge_trace_preflight: "keeps same_bridge trace_preflight"
proof -
  have set_trace: "keeps same_bridge (modify (\<lambda>s. s\<lparr>g_trace := fd\<rparr>))" for fd
    by (rule keeps_I) (simp add: wp_simps same_bridge_def)
  have stat: "keeps same_bridge (draw a_xorg_stat a_xorg_stat_update)"
    by (intro relays_same_bridge relays_draw) (simp_all add: relays_unfold)
  show ?thesis
    unfolding trace_preflight_def preflight_child_def secure_gate_def modules_gate_def
    by (intro bridging.keeps_intros set_trace stat relays_same_bridge [OF relays_check_step]
      relays_same_bridge [OF relays_check_steps] relays_same_bridge [OF relays_socketpair]
      relays_same_bridge [OF relays_fork] relays_same_bridge [OF relays_close_fd]
      relays_same_bridge [OF relays_preflight_loaded] relays_same_bridge [OF relays_monotonic_ms]
      relays_same_bridge [OF relays_preflight_loop] relays_same_bridge [OF relays_reap_again]
      relays_same_bridge [OF relays_kill_child])
qed

lemma keeps_both: "keeps R m \<Longrightarrow> keeps R' m \<Longrightarrow> keeps (\<lambda>s t. R s t \<and> R' s t) m"
  by (simp add: keeps_def)

lemma calm_session_part:
  assumes "g_bridge s \<le> 1"
  shows "wp (do {
      user \<leftarrow> draw a_user a_user_update;
      case user of
        None \<Rightarrow> return False
      | Some account \<Rightarrow> do {
          runtime \<leftarrow> check_steps 3;
          if \<not> runtime then return False
          else do {
            remove_path (kRuntime @ ''/input.env'');
            traced \<leftarrow> trace_preflight;
            if \<not> traced then return False
            else do {
              bridged \<leftarrow> start_bridge;
              if \<not> bridged then return False
              else do {
                free \<leftarrow> claim_display;
                if \<not> free then return False else write_authority
              }
            }
          }
        } }) (\<lambda>x. calm s) s"
proof -
  let ?before = "\<lambda>s t. calm s t \<and> same_bridge s t"
  have user: "keeps ?before (draw a_user a_user_update)"
    by (intro keeps_both calm_draw relays_same_bridge relays_user) (simp add: outside_def)
  have steps: "keeps ?before (check_steps 3)"
    by (intro keeps_both calm_check_steps relays_same_bridge relays_check_steps)
  have remove: "keeps ?before (remove_path path)" for path
    by (intro keeps_both calm_remove_path relays_same_bridge) (simp add: remove_path_def relays_log_act)
  have preflight: "keeps ?before trace_preflight"
    by (intro keeps_both calm_trace_preflight same_bridge_trace_preflight)
  have after: "wp (do {
      bridged \<leftarrow> start_bridge;
      if \<not> bridged then return False
      else do { free \<leftarrow> claim_display; if \<not> free then return False else write_authority } }) (\<lambda>x. calm s) t"
    if "calm s t" "g_bridge t \<le> 1" for t
  proof (subst wp_bind, rule wp_mono [OF calm_start_bridge [OF that(2)]])
    fix bridged u assume "calm t u"
    have "keeps calm (if \<not> bridged then return False
        else do { free \<leftarrow> claim_display; if \<not> free then return False else write_authority })"
      by (intro calm_intros calm_claim_display calm_write_authority)
    then show "wp (if \<not> bridged then return False
        else do { free \<leftarrow> claim_display; if \<not> free then return False else write_authority }) (\<lambda>x. calm s) u"
      by (rule keeps_rule) (blast intro: calmness.step_trans that(1) \<open>calm t u\<close>)
  qed
  show ?thesis
    apply (subst wp_bind, rule keeps_rule [OF user])
    subgoal for answer s1
      apply (cases answer)
       apply (simp add: wp_simps)
      apply (simp only: option.case)
      apply (subst wp_bind, rule keeps_rule [OF steps])
      subgoal for account runtime s2
        apply (cases runtime)
         apply (simp only: simp_thms if_False)
         apply (subst wp_bind, rule keeps_rule [OF remove])
         apply (subst wp_bind, rule keeps_rule [OF preflight])
        subgoal for x s3 traced s4
          apply (cases traced)
           apply (simp only: simp_thms if_False)
           apply (rule after)
            apply (blast intro: calmness.step_trans)
          using assms apply (simp add: same_bridge_def)
          apply (simp add: wp_simps)
          apply (blast intro: calmness.step_trans)
          done
        apply (simp add: wp_simps)
        apply (blast intro: calmness.step_trans)
        done
      done
    done
qed

lemma prepare_session_rule:
  assumes "quiet s" and "\<And>ok t. balanced s t \<Longrightarrow> quiet t \<Longrightarrow> g_broker t = g_broker s \<Longrightarrow> Q ok t"
  shows "wp (prepare_session probe_mode) Q s"
proof (cases "supported_mode probe_mode")
  case False
  then show ?thesis
    by (simp add: prepare_session_def wp_simps assms balance.step_refl)
next
  case True
  have reset: "balanced t (reset_session t)" "quiet (reset_session t) = quiet t"
      "g_bridge (reset_session t) = g_bridge t" "g_broker (reset_session t) = g_broker t" for t
    by (simp_all add: reset_session_def balance_unfold quiet_def)
  have finish: "Q ok u"
    if t: "balanced s t1" "balanced t1 t2" "balanced t2 t3" "fds_of t1 = fds_of s" "fds_of t2 = fds_of s"
      "fds_of t3 = fds_of s" "g_session t1 \<le> 1" "g_session t2 = g_session t1" "g_session t3 = g_session t1"
      "g_xorg t2 \<le> 1" "g_xorg t3 = g_xorg t2" "calm (reset_session t3) u" for ok t1 t2 t3 u
  proof -
    have "quiet t3" using t assms(1) by (simp add: quiet_def fds_of_def)
    then have u: "balanced (reset_session t3) u" "quiet u" "g_broker u = g_broker t3"
      using t(12) by (simp_all add: calm_def reset)
    show ?thesis
    proof (rule assms(2))
      show "balanced s u"
        by (rule balance.step_trans [OF t(1) balance.step_trans [OF t(2) balance.step_trans [OF t(3)
          balance.step_trans [OF reset(1) u(1)]]]])
    qed (use u t in \<open>simp_all add: fds_of_def\<close>)
  qed
  show ?thesis
    unfolding prepare_session_def
    apply (simp only: True simp_thms if_False)
    apply (subst wp_bind, rule end_session_rule)
    apply (subst wp_bind, rule end_xorg_rule)
    apply (subst wp_bind, rule end_bridge_rule)
    apply (subst wp_bind, simp only: wp_modify)
    apply (rule wp_mono [OF calm_session_part])
     apply (simp add: reset)
    apply (rule finish; assumption)
    done
qed


end
