(* ===== verification/Agent_Session.thy ===== *)
theory Agent_Session
  imports Agent_Correct
begin

section \<open>Sessions of the agent\<close>

text \<open>
  The balance of processes and descriptors over the start of Xorg, over the requests of the
  broker and over the rounds of the agent's loop.
\<close>

subsection \<open>Starting Xorg\<close>

text \<open>Steps that are balanced and leave the processes and the descriptors in their variables.\<close>

definition inert :: "agent \<Rightarrow> agent \<Rightarrow> bool" where
  "inert s t \<longleftrightarrow> balanced s t \<and> pids_of t = pids_of s \<and> fds_of t = fds_of s"

interpretation inertness: step_preorder inert
proof
  show "inert s s" for s by (simp add: inert_def balance.step_refl)
  show "inert s u" if "inert s t" "inert t u" for s t u
    using that unfolding inert_def by (auto intro: balance.step_trans)
qed

lemmas inert_intros = inertness.keeps_intros

lemma inert_I: "keeps relays m \<Longrightarrow> keeps balanced m \<Longrightarrow> keeps inert m"
  unfolding keeps_def inert_def by (blast dest: relays_frames)

lemma inert_modify: "(\<And>s. outside s (f s) \<and> g_probe_mode (f s) = g_probe_mode s) \<Longrightarrow> keeps inert (modify f)"
  by (rule keeps_I) (simp add: wp_simps inert_def outside_balanced outside_def pids_of_def fds_of_def)

lemma inert_draw: "(\<And>s f. outside s (update f s) \<and> g_probe_mode (update f s) = g_probe_mode s) \<Longrightarrow> keeps inert (draw script update)"
  unfolding draw_def by (intro inert_intros inert_modify)

lemma inert_monotonic_ms: "keeps inert monotonic_ms"
  by (rule inert_I [OF relays_monotonic_ms balanced_monotonic_ms])

lemma inert_check_step: "keeps inert check_step"
  by (rule inert_I [OF relays_check_step balanced_check_step])

lemma inert_check_steps: "keeps inert (check_steps n)"
  by (rule inert_I [OF relays_check_steps balanced_check_steps])

lemma inert_relay_trace_record: "keeps inert relay_trace_record"
  by (rule inert_I [OF relays_relay_trace_record balanced_relay_trace_record])

lemma inert_run_wait: "keeps inert (run_wait c)"
  by (rule inert_I [OF relays_run_wait balanced_run_wait])

lemma inert_write_broker: "keeps inert (write_broker m)"
  by (rule inert_I [OF relays_write_broker balanced_write_broker])

lemma inert_connector_attempts: "keeps inert (connector_attempts n query modes)"
  by (induction n arbitrary: query modes) (auto intro!: inert_intros inert_draw simp: outside_def)

lemma inert_read_android_mode: "keeps inert (read_android_mode lease_fd connector_id crtc_id mode)"
  unfolding read_android_mode_def read_connector_modes_def
  by (intro inert_intros inert_draw inert_connector_attempts) (simp_all add: outside_def)

lemma inert_write_xorg_config: "keeps inert write_xorg_config"
  unfolding write_xorg_config_def
  by (intro inert_intros inert_check_step inert_check_steps inert_I relays_log_act balanced_log_act) simp_all

lemma inert_xorg_ready: "keeps inert xorg_ready"
  unfolding xorg_ready_def by (intro inert_intros inert_draw inert_run_wait) (simp add: outside_def)

lemma inert_listing_contains: "keeps inert (listing_contains wanted forbidden)"
  unfolding listing_contains_def by (intro inert_intros inert_draw) (simp add: outside_def)

lemma inert_all_listed: "keeps inert (all_listed wanted)"
  by (induction wanted rule: all_listed.induct) (simp_all add: inert_intros inert_listing_contains)

lemma inert_verify_xorg: "keeps inert verify_xorg"
  unfolding verify_xorg_def
  by (intro inert_intros inert_draw inert_run_wait inert_all_listed) (simp add: outside_def)

lemma inert_verify_scanout: "keeps inert verify_scanout"
  unfolding verify_scanout_def by (intro inert_intros inert_draw) (simp add: outside_def)

lemma spawn_pair_rule:
  assumes "g_trace s < 0"
    and "\<And>t. balanced s t \<Longrightarrow> pids_of t = pids_of s \<Longrightarrow> fds_of t = fds_of s \<Longrightarrow> Q (- 1) t"
    and "\<And>child t. 1 < child \<Longrightarrow> gains (one child) none s t \<Longrightarrow> pids_of t = pids_of s \<Longrightarrow>
      g_broker t = g_broker s \<Longrightarrow> g_probe_mode t = g_probe_mode s \<Longrightarrow> Q child t"
    and t: "relays s t" "gains none (\<lambda>x. one mine x + one theirs x) s t" "0 \<le> mine" "0 \<le> theirs"
  shows "wp (do {
      c \<leftarrow> gets (\<lambda>s. xorg_command s lease_fd theirs (g_expected_connector s) (g_expected_crtc s));
      child \<leftarrow> fork c;
      close_fd theirs;
      (if 0 < child then modify (\<lambda>s. s\<lparr>g_trace := mine\<rparr>) else close_fd mine);
      return child }) Q t"
proof -
  let ?rest = "\<lambda>child. do {
      close_fd theirs;
      (if 0 < child then modify (\<lambda>s. s\<lparr>g_trace := mine\<rparr>) else close_fd mine);
      return child }"
  show ?thesis
    apply (subst wp_bind, simp only: wp_gets)
    apply (subst wp_bind)
  proof (rule fork_rule)
    fix u assume u: "relays t u" "balanced t u"
    have "gains none (\<lambda>x. minus_one theirs x + minus_one mine x) u (u\<lparr>a_log := (a_log u @ [Dropped theirs]) @ [Dropped mine]\<rparr>)"
      by (rule dropped_twice)
    then have "balanced s (u\<lparr>a_log := (a_log u @ [Dropped theirs]) @ [Dropped mine]\<rparr>)"
      using t(2) u(2) by (simp add: gains_def balanced_def)
    then show "wp (?rest (- 1)) Q u"
      using relays_frames [OF t(1)] relays_frames [OF u(1)]
      by (auto simp: wp_simps close_fd_def log_act_def pids_of_def fds_of_def intro!: assms(2))
  next
    fix child u assume u: "relays t u" "1 < child" "gains (one child) none t u"
    define v where "v = u\<lparr>a_log := a_log u @ [Dropped theirs]\<rparr>"
    have "gains none (minus_one theirs) u v" unfolding v_def by (rule dropped_once)
    then have v: "gains (one child) (one mine) s v"
      using t(2) u(3) by (simp add: gains_def)
    have "g_trace v < 0"
      using assms(1) relays_session [OF t(1)] relays_session [OF u(1)] by (simp add: v_def)
    then have "gains none (minus_one mine) v (v\<lparr>g_trace := mine\<rparr>)"
      using t(3) by (auto simp: gains_def balance_unfold one_def)
    with v have "gains (one child) none s (v\<lparr>g_trace := mine\<rparr>)"
      by (simp add: gains_def)
    then show "wp (?rest child) Q u"
      using u(2) relays_frames [OF t(1)] relays_frames [OF u(1)]
      by (auto simp: wp_simps close_fd_def log_act_def v_def pids_of_def fds_of_def intro!: assms(3))
  qed
qed

lemma spawn_xorg_rule:
  assumes "g_trace s < 0"
    and "\<And>t. balanced s t \<Longrightarrow> pids_of t = pids_of s \<Longrightarrow> fds_of t = fds_of s \<Longrightarrow> Q (- 1) t"
    and "\<And>child t. 1 < child \<Longrightarrow> gains (one child) none s t \<Longrightarrow> pids_of t = pids_of s \<Longrightarrow>
      g_broker t = g_broker s \<Longrightarrow> g_probe_mode t = g_probe_mode s \<Longrightarrow> Q child t"
  shows "wp (spawn_xorg lease_fd) Q s"
  unfolding spawn_xorg_def
  apply (subst wp_bind, rule socketpair_rule)
   apply (use assms(2) relays_frames in \<open>simp add: wp_simps\<close>)
  apply (simp only: option.case prod.case)
  apply (rule spawn_pair_rule [where Q = Q, OF assms]; assumption)
  done

text \<open>The lease descriptor that \<open>start_xorg\<close> was given is closed on every path.\<close>

definition session_opened :: "int \<Rightarrow> agent \<Rightarrow> agent \<Rightarrow> bool" where
  "session_opened lease_fd s t \<longleftrightarrow> gains none (minus_one lease_fd) s t \<and> g_session t = g_session s \<and>
     g_bridge t = g_bridge s \<and> g_broker t = g_broker s \<and> g_probe_mode t = g_probe_mode s"

lemma closes_lease:
  "inert s t \<Longrightarrow> session_opened lease_fd s (t\<lparr>a_log := a_log t @ [Dropped lease_fd]\<rparr>)"
  using dropped_once [of lease_fd t]
  by (auto simp: session_opened_def inert_def gains_def balanced_def pids_of_def fds_of_def)

lemma launch_rest_rule:
  assumes s: "inert r s" "quiet r" and Q: "\<And>ok t. session_opened lease_fd r t \<Longrightarrow> Q ok t"
  shows "wp (do {
       modify (expect_scanout connector_id crtc_id);
       copy \<leftarrow> draw a_dup a_dup_update;
       whenever (0 \<le> copy) (log_act (Got copy));
       modify (\<lambda>s. s\<lparr>g_verify_lease := copy\<rparr>);
       if copy < 0 then do { close_fd lease_fd; return False }
       else do {
         child \<leftarrow> spawn_xorg lease_fd;
         modify (\<lambda>s. s\<lparr>g_xorg := child\<rparr>);
         close_fd lease_fd;
         return (0 \<le> child)
       } }) Q s"
proof -
  have quiet: "quiet s" using s by (auto simp: inert_def quiet_def pids_of_def fds_of_def)
  have "keeps inert (modify (expect_scanout connector_id crtc_id))"
    by (rule inert_modify) (simp add: expect_scanout_def outside_def)
  then have expect: "inert s (expect_scanout connector_id crtc_id s)"
    using keeps_run by fastforce
  let ?e = "expect_scanout connector_id crtc_id s"
  define copy where "copy = a_dup ?e 0"
  define u where "u = (let d = a_dup_update later ?e in
    (if 0 \<le> copy then d\<lparr>a_log := a_log d @ [Got copy]\<rparr> else d)\<lparr>g_verify_lease := copy\<rparr>)"
  have frames: "pids_of u = pids_of s" "g_trace u < 0" "g_broker u = g_broker s" "g_probe_mode u = g_probe_mode s"
    using quiet by (auto simp: u_def Let_def expect_scanout_def pids_of_def quiet_def)
  have "balanced s u"
    using quiet by (auto simp: u_def Let_def expect_scanout_def quiet_def balance_unfold)
  then have bal: "balanced r u" using s(1) by (auto simp: inert_def intro: balance.step_trans)
  have eq: "g_session u = g_session r" "g_bridge u = g_bridge r" "g_xorg u = g_xorg r" "g_broker u = g_broker r"
      "g_probe_mode u = g_probe_mode r"
    using s(1) frames by (auto simp: inert_def pids_of_def fds_of_def)
  have spawned: "wp (do {
         child \<leftarrow> spawn_xorg lease_fd;
         modify (\<lambda>s. s\<lparr>g_xorg := child\<rparr>);
         close_fd lease_fd;
         return (0 \<le> child) }) Q u"
  proof (subst wp_bind, rule spawn_xorg_rule [OF frames(2)])
    let ?last = "\<lambda>child. do { modify (\<lambda>s. s\<lparr>g_xorg := child\<rparr>); close_fd lease_fd; return (0 \<le> child) }"
    have ends: "wp (?last child) Q v"
      if "balanced r (v\<lparr>g_xorg := child\<rparr>)" "g_session v = g_session r" "g_bridge v = g_bridge r"
        "g_broker v = g_broker r" "g_probe_mode v = g_probe_mode r" for child v
      using that dropped_once [of lease_fd "v\<lparr>g_xorg := child\<rparr>"]
      by (auto simp: wp_simps close_fd_def log_act_def session_opened_def gains_def balanced_def intro!: Q)
    have swap: "balanced r (v\<lparr>g_xorg := - 1\<rparr>)" if "balanced r v" "g_xorg v \<le> 1" for v
      using that by (auto simp: balance_unfold)
    fix v assume v: "balanced u v" "pids_of v = pids_of u" "fds_of v = fds_of u"
    have "balanced r (v\<lparr>g_xorg := - 1\<rparr>)"
      by (rule swap [OF balance.step_trans [OF bal v(1)]]) (use v(2) eq s(2) in \<open>simp add: pids_of_def quiet_def\<close>)
    then show "wp (?last (- 1)) Q v"
      by (rule ends) (use v eq in \<open>simp_all add: pids_of_def fds_of_def\<close>)
  next
    let ?last = "\<lambda>child. do { modify (\<lambda>s. s\<lparr>g_xorg := child\<rparr>); close_fd lease_fd; return (0 \<le> child) }"
    fix child v
    assume v: "1 < child" "gains (one child) none u v" "pids_of v = pids_of u" "g_broker v = g_broker u"
      "g_probe_mode v = g_probe_mode u"
    have "g_xorg v \<le> 1" using v(3) eq s(2) by (simp add: pids_of_def quiet_def)
    then have "gains (minus_one child) none v (v\<lparr>g_xorg := child\<rparr>)"
      using v(1) by (auto simp: gains_def balance_unfold one_def)
    with v(2) bal have "balanced r (v\<lparr>g_xorg := child\<rparr>)" by (simp add: gains_def balanced_def)
    then show "wp (?last child) Q v"
      using v eq dropped_once [of lease_fd "v\<lparr>g_xorg := child\<rparr>"]
      by (auto simp: wp_simps close_fd_def log_act_def session_opened_def gains_def balanced_def pids_of_def intro!: Q)
  qed
  have failed: "wp (do { close_fd lease_fd; return False }) Q u"
    using bal eq dropped_once [of lease_fd u]
    by (auto simp: wp_simps close_fd_def log_act_def session_opened_def gains_def balanced_def intro!: Q)
  show ?thesis
    using spawned failed
    by (cases "0 \<le> copy") (simp_all add: wp_simps draw_def log_act_def copy_def u_def Let_def)
qed


lemma launch_xorg_rule:
  assumes "quiet s" and Q: "\<And>ok t. session_opened lease_fd s t \<Longrightarrow> Q ok t"
  shows "wp (launch_xorg lease_fd connector_id crtc_id) Q s"
proof -
  have store: "keeps inert (modify (\<lambda>s. s\<lparr>g_android_mode := mode\<rparr>))" for mode
    by (rule inert_modify) (simp add: outside_def)
  have config: "keeps inert (if readable then write_xorg_config else return False)" for readable
    by (intro inert_intros inert_write_xorg_config)
  show ?thesis
    unfolding launch_xorg_def
    apply (subst wp_bind, simp only: wp_gets)
    apply (subst wp_bind, rule keeps_rule [OF inert_read_android_mode])
    subgoal for answer s1
      apply (cases answer)
      apply (simp only: prod.case)
      apply (subst wp_bind, rule keeps_rule [OF store])
      apply (subst wp_bind, rule keeps_rule [OF config])
      subgoal for readable mode x s2 configured s3
        apply (cases configured)
         apply (simp only: simp_thms if_False)
         apply (rule launch_rest_rule [OF _ assms(1) Q])
          apply (blast intro: inertness.step_trans)
         apply assumption
        apply (simp add: wp_simps close_fd_def log_act_def)
        apply (rule Q, rule closes_lease)
        apply (blast intro: inertness.step_trans)
        done
      done
    done
qed

text \<open>What the loop that waits for Xorg keeps: the desktop is stored where none was before.\<close>

definition desktop_added :: "agent \<Rightarrow> agent \<Rightarrow> bool" where
  "desktop_added s t \<longleftrightarrow> balanced s t \<and> g_bridge t = g_bridge s \<and> g_broker t = g_broker s \<and> g_probe_mode t = g_probe_mode s"

lemma desktop_added_trans: "inert s t \<Longrightarrow> desktop_added t u \<Longrightarrow> desktop_added s u"
  by (auto simp: desktop_added_def inert_def pids_of_def fds_of_def intro: balance.step_trans)

lemma inert_desktop_added: "inert s t \<Longrightarrow> desktop_added s t"
  by (auto simp: desktop_added_def inert_def pids_of_def fds_of_def)

lemma spawn_lxde_rule:
  assumes "\<And>t. inert s t \<Longrightarrow> Q (- 1) t"
    and "\<And>child t. 1 < child \<Longrightarrow> gains (one child) none s t \<Longrightarrow> pids_of t = pids_of s \<Longrightarrow> fds_of t = fds_of s \<Longrightarrow> Q child t"
  shows "wp spawn_lxde Q s"
proof -
  have user: "keeps inert (draw a_user a_user_update)" by (rule inert_draw) (simp add: outside_def)
  show ?thesis
    unfolding spawn_lxde_def
    apply (subst wp_bind, rule keeps_rule [OF user])
    subgoal for answer t
      apply (cases answer)
       apply (simp add: wp_simps assms(1))
      apply (simp only: option.case)
      apply (subst wp_bind, simp only: wp_gets)
      apply (rule fork_rule)
       apply (rule assms(1))
       apply (auto simp: inert_def dest: relays_frames intro: balance.step_trans)[1]
      apply (rule assms(2))
         apply (auto simp: inert_def gains_def balanced_def dest: relays_frames)
      done
    done
qed

lemma finish_start_rule:
  assumes "g_session s \<le> 1"
  shows "wp finish_start (\<lambda>x. desktop_added s) s"
proof -
  have steady: "keeps inert (whenever c (modify (\<lambda>s. s\<lparr>g_trace_steady := True\<rparr>)))" for c
    by (intro inert_intros inert_modify) (simp add: outside_def)
  have desktop: "wp (do { child \<leftarrow> spawn_lxde; modify (\<lambda>s. s\<lparr>g_session := child\<rparr>); return (0 < child) })
      (\<lambda>x. desktop_added s) t" if "inert s t" for t
  proof (subst wp_bind, rule spawn_lxde_rule)
    fix u assume "inert t u"
    with that have u: "inert s u" by (rule inertness.step_trans)
    then have "balanced s (u\<lparr>g_session := - 1\<rparr>)"
      using assms by (auto simp: inert_def pids_of_def balance_unfold)
    with u show "wp (do { modify (\<lambda>s. s\<lparr>g_session := - 1\<rparr>); return (0 < (- 1 :: int)) }) (\<lambda>x. desktop_added s) u"
      by (simp add: wp_simps desktop_added_def inert_def pids_of_def fds_of_def)
  next
    fix child u
    assume u: "1 < child" "gains (one child) none t u" "pids_of u = pids_of t" "fds_of u = fds_of t"
    have "g_session u \<le> 1" using u(3) that assms by (simp add: inert_def pids_of_def)
    then have "gains (minus_one child) none u (u\<lparr>g_session := child\<rparr>)"
      using u(1) by (auto simp: gains_def balance_unfold one_def)
    with u(2) that have "balanced s (u\<lparr>g_session := child\<rparr>)"
      by (simp add: gains_def balanced_def inert_def)
    then show "wp (do { modify (\<lambda>s. s\<lparr>g_session := child\<rparr>); return (0 < child) }) (\<lambda>x. desktop_added s) u"
      using u that by (simp add: wp_simps desktop_added_def inert_def pids_of_def fds_of_def)
  qed
  show ?thesis
    unfolding finish_start_def
    apply (subst wp_bind, rule keeps_rule [OF inert_verify_scanout])
    subgoal for scanout s1
      apply (cases scanout)
       apply (simp only: simp_thms if_False)
       apply (subst wp_bind, rule keeps_rule [OF inert_verify_xorg])
      subgoal for shown s2
        apply (cases shown)
         apply (simp only: simp_thms if_False)
         apply (subst wp_bind, simp only: wp_gets)
         apply (subst wp_bind, rule keeps_rule [OF steady])
         apply (subst wp_bind, simp only: wp_gets)
        subgoal for x s3
          apply (cases "g_start_lxde s3")
           apply (simp only: simp_thms if_False)
           apply (rule desktop)
           apply (blast intro: inertness.step_trans)
          apply (simp add: wp_simps)
          apply (blast intro: inertness.step_trans inert_desktop_added)
          done
        apply (simp add: wp_simps)
        apply (blast intro: inertness.step_trans inert_desktop_added)
        done
      apply (simp add: wp_simps inert_desktop_added)
      done
    done
qed


lemma start_loop_rule: "g_session s \<le> 1 \<Longrightarrow> wp (start_loop answers end_ms) (\<lambda>x. desktop_added s) s"
proof (induction answers arbitrary: s)
  case Nil
  have "keeps inert (do { now \<leftarrow> monotonic_ms; return False })"
    by (intro inert_intros inert_monotonic_ms)
  then show ?case
    unfolding start_loop.simps by (rule keeps_rule) (rule inert_desktop_added)
next
  case (Cons alive rest)
  have again: "wp (start_loop rest end_ms) (\<lambda>x. desktop_added s) t" if "inert s t" for t
  proof (rule wp_mono [OF Cons.IH])
    show "g_session t \<le> 1" using that Cons.prems by (simp add: inert_def pids_of_def)
  qed (rule desktop_added_trans [OF that])
  have finish: "wp finish_start (\<lambda>x. desktop_added s) t" if "inert s t" for t
  proof (rule wp_mono [OF finish_start_rule])
    show "g_session t \<le> 1" using that Cons.prems by (simp add: inert_def pids_of_def)
  qed (rule desktop_added_trans [OF that])
  have set: "keeps inert (modify (\<lambda>s. s\<lparr>a_alive := rest\<rparr>))"
    by (rule inert_modify) (simp add: outside_def)
  show ?case
    unfolding start_loop.simps
    apply (subst wp_bind, rule keeps_rule [OF inert_monotonic_ms])
    subgoal for now s1
      apply (cases "end_ms \<le> now")
       apply (simp add: wp_simps inert_desktop_added)
      apply (simp only: if_False)
      apply (subst wp_bind, rule keeps_rule [OF set])
      subgoal for x s2
        apply (cases alive)
         apply (simp only: simp_thms if_False)
         apply (subst wp_bind, rule keeps_rule [OF inert_relay_trace_record])
        subgoal for relayed s3
          apply (cases relayed)
           apply (simp only: simp_thms if_False)
           apply (subst wp_bind, rule keeps_rule [OF inert_xorg_ready])
          subgoal for ready s4
            apply (subgoal_tac "inert s s4")
             apply (simp add: wp_simps again finish inert_desktop_added)
            apply (blast intro: inertness.step_trans)
            done
          apply (simp add: wp_simps)
          apply (blast intro: inertness.step_trans inert_desktop_added)
          done
        apply (simp add: wp_simps)
        apply (blast intro: inertness.step_trans inert_desktop_added)
        done
      done
    done
qed

lemma start_xorg_rule:
  assumes "quiet s"
    and Q: "\<And>ok t. gains none (minus_one lease_fd) s t \<Longrightarrow> g_broker t = g_broker s \<Longrightarrow> g_probe_mode t = g_probe_mode s \<Longrightarrow> Q ok t"
  shows "wp (start_xorg lease_fd connector_id crtc_id) Q s"
  unfolding start_xorg_def
proof (subst wp_bind, rule launch_xorg_rule [OF assms(1)])
  fix launched t assume t: "session_opened lease_fd s t"
  have loop: "wp (do { now \<leftarrow> monotonic_ms; answers \<leftarrow> gets a_alive; start_loop answers (now + 14000) })
      (\<lambda>x. desktop_added t) t"
    apply (subst wp_bind, rule keeps_rule [OF inert_monotonic_ms])
    apply (subst wp_bind, simp only: wp_gets)
    subgoal for now u
      apply (rule wp_mono [OF start_loop_rule])
      using t assms(1) apply (simp add: session_opened_def quiet_def inert_def pids_of_def)
      apply (erule (1) desktop_added_trans)
      done
    done
  then have "wp (do { now \<leftarrow> monotonic_ms; answers \<leftarrow> gets a_alive; start_loop answers (now + 14000) }) Q t"
    by (rule wp_mono) (use t in \<open>auto simp: session_opened_def desktop_added_def gains_def balanced_def intro!: Q\<close>)
  moreover have "Q False t" using t by (intro Q) (simp_all add: session_opened_def)
  ultimately show "wp (if \<not> launched then return False
      else do { now \<leftarrow> monotonic_ms; answers \<leftarrow> gets a_alive; start_loop answers (now + 14000) }) Q t"
    by (simp add: wp_simps)
qed

subsection \<open>Serving\<close>

text \<open>
  What the broker keeps to when it sends a request with a descriptor \<open>fd\<close>, or \<open>- 1\<close>: a session is
  prepared and started only while there is none, only a start carries a descriptor, and its flags
  are those that were prepared.
\<close>

definition proper :: "agent \<Rightarrow> hdmi_los_message \<Rightarrow> int \<Rightarrow> bool" where
  "proper s request fd \<longleftrightarrow>
     (m_opcode request = HDMI_LOS_OP_AGENT_PREPARE \<longrightarrow> quiet s \<and> fd < 0) \<and>
     (m_opcode request = HDMI_LOS_OP_AGENT_START \<longrightarrow>
        quiet s \<and> (0 \<le> fd \<longrightarrow> m_flags request = g_probe_mode s \<and> supported_mode (m_flags request)))"

lemma balanced_cleanup_session: "keeps balanced cleanup_session"
  by (rule keeps_I, rule cleanup_session_rule)

lemma write_after:
  assumes "gains d e s t" "g_broker t = g_broker s"
    and "\<And>u. gains d e s u \<Longrightarrow> g_broker u = g_broker s \<Longrightarrow> Q () u"
  shows "wp (do { written \<leftarrow> write_broker m; return () }) Q t"
  apply (subst wp_bind, rule keeps_rule [OF inert_write_broker])
  apply (simp add: wp_simps)
  apply (rule assms(3))
  using assms(1,2) by (auto simp: inert_def fds_of_def gains_def balanced_def)

lemma no_lease: "fd < 0 \<Longrightarrow> gains none (minus_one fd) = balanced"
  by (auto simp: gains_def balanced_def one_def fun_eq_iff)

lemma on_prepare_rule:
  assumes "quiet s" and Q: "\<And>t. balanced s t \<Longrightarrow> g_broker t = g_broker s \<Longrightarrow> Q () t"
  shows "wp (on_prepare request) Q s"
  unfolding on_prepare_def
proof (subst wp_bind, rule prepare_session_rule [OF assms(1)])
  fix ok t assume t: "balanced s t" "g_broker t = g_broker s"
  have clean: "wp (whenever (\<not> ok) cleanup_session) (\<lambda>x u. balanced s u \<and> g_broker u = g_broker s) t"
    using t by (auto simp: wp_simps intro!: cleanup_session_rule intro: balance.step_trans)
  show "wp (do {
      whenever (\<not> ok) cleanup_session;
      modify (\<lambda>s. s\<lparr>g_probe_mode := (if ok then m_flags request else HDMI_LOS_PROBE_NONE)\<rparr>);
      written \<leftarrow> write_broker (response_for request HDMI_LOS_OP_AGENT_READY
        (if ok then HDMI_LOS_OK else HDMI_LOS_ERR_AGENT)
        (if ok then ''input bridge and Xorg runtime prepared'' else ''input bridge preparation failed''));
      return () }) Q t"
    apply (subst wp_bind, rule wp_mono [OF clean])
    apply (subst wp_bind, simp only: wp_modify)
    apply (rule write_after [where s = s and d = none and e = none])
      apply (auto simp: balance_unfold gains_def intro!: Q)
    done
qed


text \<open>Every request consumes the descriptor that came with it.\<close>

definition consumed :: "int \<Rightarrow> agent \<Rightarrow> agent \<Rightarrow> bool" where
  "consumed fd s t \<longleftrightarrow> gains none (minus_one fd) s t \<and> g_broker t = g_broker s"

lemma consumed_trans: "consumed fd s t \<Longrightarrow> balanced t u \<Longrightarrow> g_broker u = g_broker t \<Longrightarrow> consumed fd s u"
  by (simp add: consumed_def gains_def balanced_def)

lemma consumed_none: "fd < 0 \<Longrightarrow> balanced s t \<Longrightarrow> g_broker t = g_broker s \<Longrightarrow> consumed fd s t"
  by (simp add: consumed_def no_lease)

lemma cleanup_consumed: "consumed fd s t \<Longrightarrow> wp cleanup_session (\<lambda>x. consumed fd s) t"
  by (rule cleanup_session_rule) (blast intro: consumed_trans)

lemma write_consumed: "consumed fd s t \<Longrightarrow> wp (do { written \<leftarrow> write_broker m; return () }) (\<lambda>x. consumed fd s) t"
  by (rule write_after [where s = s and d = none and e = "minus_one fd"]) (simp_all add: consumed_def)

lemma on_start_rule:
  assumes "quiet s" "0 \<le> fd \<longrightarrow> m_flags request = g_probe_mode s \<and> supported_mode (m_flags request)"
  shows "wp (on_start request fd) (\<lambda>x. consumed fd s) s"
proof -
  have start: "wp (if 0 \<le> fd \<and> m_flags request = g_probe_mode s \<and> supported_mode (m_flags request)
      then start_xorg fd (m_connector_id request) (m_crtc_id request) else return False) (\<lambda>x. consumed fd s) s"
    using assms(2) consumed_none [of fd s s]
    by (auto simp: wp_simps balance.step_refl consumed_def intro!: start_xorg_rule [OF assms(1)])
  have clean: "wp (whenever c cleanup_session) (\<lambda>x. consumed fd s) t" if "consumed fd s t" for c t
    using that by (simp add: wp_simps cleanup_consumed)
  show ?thesis
    unfolding on_start_def
    apply (subst wp_bind, simp only: wp_gets)
    apply (subst wp_bind, rule wp_mono [OF start])
    apply (subst wp_bind, rule wp_mono [OF clean], assumption)
    apply (subst wp_bind, simp only: wp_gets)
    apply (subst wp_bind, simp only: wp_gets)
    apply (rule write_consumed, assumption)
    done
qed

lemma drop_lease_consumed: "wp (whenever (0 \<le> fd) (close_fd fd)) (\<lambda>x. consumed fd s) s"
  using dropped_once [of fd s] consumed_none [of fd s s]
  by (auto simp: wp_simps close_fd_def log_act_def consumed_def balance.step_refl)

lemma on_stop_rule: "wp (on_stop request fd) (\<lambda>x. consumed fd s) s"
proof -
  have probe: "consumed fd s (t\<lparr>g_probe_mode := m\<rparr>)" if "consumed fd s t" for t m
    by (rule consumed_trans [OF that]) (simp_all add: balance_unfold)
  show ?thesis
    unfolding on_stop_def
    apply (subst wp_bind, rule wp_mono [OF drop_lease_consumed])
    apply (subst wp_bind, rule wp_mono [OF cleanup_consumed], assumption)
    apply (subst wp_bind, simp only: wp_modify)
    apply (rule write_consumed, erule probe)
    done
qed

lemma on_unknown_rule: "wp (on_unknown request fd) (\<lambda>x. consumed fd s) s"
  unfolding on_unknown_def
  by (subst wp_bind, rule wp_mono [OF drop_lease_consumed]) (erule write_consumed)

lemma on_request_rule: "proper s request fd \<Longrightarrow> wp (on_request request fd) (\<lambda>x. consumed fd s) s"
  unfolding on_request_def wp_if
  by (auto simp: proper_def intro!: on_prepare_rule consumed_none on_start_rule on_stop_rule on_unknown_rule)

text \<open>The checks of a round are balanced and keep the connection.\<close>

definition steady :: "agent \<Rightarrow> agent \<Rightarrow> bool" where
  "steady s t \<longleftrightarrow> balanced s t \<and> g_broker t = g_broker s"

interpretation steadiness: step_preorder steady
proof
  show "steady s s" for s by (simp add: steady_def balance.step_refl)
  show "steady s u" if "steady s t" "steady t u" for s t u
    using that unfolding steady_def by (auto intro: balance.step_trans)
qed

lemma inert_steady: "keeps inert m \<Longrightarrow> keeps steady m"
  by (erule keeps_weaken) (simp add: inert_def steady_def fds_of_def)

lemma steady_cleanup_session: "keeps steady cleanup_session"
  by (rule keeps_I, rule cleanup_session_rule) (simp add: steady_def)

lemma steady_report_failure: "keeps steady (report_failure registration reason)"
  unfolding report_failure_def
  by (intro steadiness.keeps_intros steady_cleanup_session inert_steady inert_write_broker)

lemma steady_watch_xorg: "keeps steady (watch_xorg registration)"
proof (rule keeps_I)
  fix s
  have "steady s (t\<lparr>a_log := a_log t @ [Reaped (g_xorg s)], g_xorg := - 1\<rparr>)"
    if "t = s\<lparr>a_waits := ws\<rparr>" for t ws
    using that by (auto simp: steady_def balance_unfold)
  then have failed: "wp (report_failure registration reason) (\<lambda>x. steady s)
      (s\<lparr>a_waits := ws, a_log := a_log s @ [Reaped (g_xorg s)], g_xorg := - 1\<rparr>)" for ws reason
    by (intro keeps_rule [OF steady_report_failure]) (auto intro: steadiness.step_trans)
  have waits: "steady s (s\<lparr>a_waits := ws\<rparr>)" for ws
    by (simp add: steady_def balance_unfold)
  show "wp (watch_xorg registration) (\<lambda>x. steady s) s"
    unfolding watch_xorg_def wait_once_def log_act_def
    by (auto simp: wp_simps failed waits steadiness.step_refl split: list.splits wait_answer.splits)
qed

lemma steady_watch_trace: "keeps steady (watch_trace registration events)"
  unfolding watch_trace_def
  by (intro steadiness.keeps_intros steady_report_failure inert_steady inert_relay_trace_record)

lemma steady_watch_scanout: "keeps steady (watch_scanout registration)"
  unfolding watch_scanout_def by (intro steadiness.keeps_intros steady_report_failure)

lemma steady_watch: "keeps steady (watch registration events)"
  unfolding watch_def
  by (intro steadiness.keeps_intros steady_watch_xorg steady_watch_trace steady_watch_scanout)


subsection \<open>A run under a well-behaved broker\<close>

text \<open>What the next packet of the broker is, and that it is proper.\<close>

definition proper_packet :: "agent \<Rightarrow> bool" where
  "proper_packet s =
     (let (ok, request, fd) = fst (run_state recv_message s) in
      if ok then proper s request fd else fd < 0)"

definition proper_round :: "hdmi_los_message \<Rightarrow> (u16 \<times> u16) call \<Rightarrow> agent \<Rightarrow> bool" where
  "proper_round registration answer s =
     (case answer of
        CallErr e \<Rightarrow> True
      | CallOk (broker_events, trace_events) \<Rightarrow>
          has_bits broker_events (POLLERR OR POLLHUP OR POLLNVAL) \<or> \<not> has_bits broker_events POLLIN \<or>
          proper_packet (snd (run_state (watch registration trace_events) s)))"

text \<open>The agent after its registration and after rounds of its loop.\<close>

inductive serving :: "hdmi_los_message \<Rightarrow> agent \<Rightarrow> bool" for registration where
  registered: "a_log w = [] \<Longrightarrow> recv_with_fd zero_message (a_broker_in w) = (ok, reply, fd, rest) \<Longrightarrow> fd < 0 \<Longrightarrow>
    run_state register (new_agent w) = (True, s) \<Longrightarrow> registration = registration_for s \<Longrightarrow> serving registration s"
| round: "serving registration s \<Longrightarrow> proper_round registration answer s \<Longrightarrow>
    run_state (agent_step registration answer) s = (True, t) \<Longrightarrow> serving registration t"

lemma proper_quiet: "relays s t \<Longrightarrow> proper t request fd = proper s request fd"
  by (auto simp: proper_def relays_quiet dest: relays_session)

lemma packet_rule:
  assumes "proper_packet s"
  shows "wp (do {
      (ok, request, lease_fd) \<leftarrow> recv_message;
      if \<not> ok then return False else do { on_request request lease_fd; return True } }) (\<lambda>x. steady s) s"
proof -
  obtain ok request fd t where r: "run_state recv_message s = ((ok, request, fd), t)"
    by (metis prod.exhaust)
  have t: "relays s t \<and> gains none (one fd) s t"
  proof -
    have "wp recv_message (\<lambda>x u. case x of (ok, m, fd) \<Rightarrow> relays s u \<and> gains none (one fd) s u) s"
      by (rule recv_message_rule) simp
    from wp_run [OF this r] show ?thesis by simp
  qed
  have good: "if ok then proper s request fd else fd < 0"
    using assms r by (simp add: proper_packet_def)
  have "wp (on_request request fd) (\<lambda>x. steady s) t" if ok
  proof (rule wp_mono [OF on_request_rule])
    show "proper t request fd" using good that t proper_quiet [of s t] by simp
    show "steady s u" if "consumed fd t u" for u
      using that t relays_session [of s t] by (auto simp: consumed_def steady_def gains_def balanced_def)
  qed
  moreover have "steady s t" if "\<not> ok"
    using good that t relays_session [of s t]
    by (auto simp: steady_def gains_def balanced_def one_def)
  ultimately show ?thesis
    using r by (cases ok) (simp_all add: wp_def split: prod.splits)
qed

lemma agent_step_rule:
  assumes "proper_round registration answer s"
  shows "wp (agent_step registration answer) (\<lambda>x. steady s) s"
proof (cases answer)
  case (CallErr e)
  then show ?thesis by (simp add: agent_step_def wp_simps steadiness.step_refl)
next
  case (CallOk events)
  obtain broker_events trace_events where e: "events = (broker_events, trace_events)" by fastforce
  define t where "t = snd (run_state (watch registration trace_events) s)"
  have st: "steady s t" using steady_watch unfolding t_def by (rule keeps_run)
  have watched: "wp (watch registration trace_events) (\<lambda>x u. u = t) s"
    by (simp add: wp_def t_def split: prod.splits)
  show ?thesis
  proof (cases "has_bits broker_events (POLLERR OR POLLHUP OR POLLNVAL) \<or> \<not> has_bits broker_events POLLIN")
    case True
    with CallOk e st show ?thesis
      by (auto simp: agent_step_def wp_simps steadiness.step_refl intro: wp_mono [OF watched])
  next
    case False
    then have "proper_packet t" using assms CallOk e by (simp add: proper_round_def t_def)
    from packet_rule [OF this] have "wp (do {
      (ok, request, lease_fd) \<leftarrow> recv_message;
      if \<not> ok then return False else do { on_request request lease_fd; return True } }) (\<lambda>x. steady s) t"
      by (rule wp_mono) (rule steadiness.step_trans [OF st])
    with False have "wp (watch registration trace_events) (\<lambda>x. wp (
        if \<not> has_bits broker_events POLLIN then return True else do {
          (ok, request, lease_fd) \<leftarrow> recv_message;
          if \<not> ok then return False else do { on_request request lease_fd; return True } }) (\<lambda>x. steady s)) s"
      by (intro wp_mono [OF watched]) simp
    with False CallOk e show ?thesis
      by (simp add: agent_step_def wp_if wp_bind)
  qed
qed

text \<open>Every process and descriptor is in a variable.\<close>

definition tidy :: "agent \<Rightarrow> bool" where
  "tidy s \<longleftrightarrow> (\<forall>p > 1. stray_process s p = 0) \<and> (\<forall>x \<ge> 0. stray_descriptor s x = 0)"

lemma tidy_steady: "tidy s \<Longrightarrow> steady s t \<Longrightarrow> tidy t"
  by (simp add: tidy_def steady_def balanced_def)

lemma register_rule:
  assumes "tidy s" "g_broker s < 0" "recv_with_fd zero_message (a_broker_in s) = (ok, reply, fd, rest)" "fd < 0"
  shows "wp register (\<lambda>x. tidy) s"
  using assms
  unfolding register_def connect_broker_def draw_def close_fd_def write_broker_def recv_message_def log_act_def
  by (auto simp: wp_simps tidy_def balance_unfold split: prod.splits)

lemma serving_tidy: "serving registration s \<Longrightarrow> tidy s"
proof (induction rule: serving.induct)
  case (registered w ok reply fd rest s)
  have "wp register (\<lambda>x. tidy) (new_agent w)"
  proof (rule register_rule)
    show "tidy (new_agent w)"
      using registered(1) by (simp add: tidy_def balance_unfold new_agent_def agent_world.defs)
  qed (use registered in \<open>simp_all add: new_agent_def agent_world.defs\<close>)
  from wp_run [OF this registered(4)] show ?case .
next
  case (round s answer t)
  from wp_run [OF agent_step_rule [OF round(2)] round(3)] round(4) show ?case by (rule tidy_steady [rotated])
qed

lemma finish_agent_rule:
  assumes "tidy s"
    and "\<And>t. \<forall>p > 1. children (a_log t) p = 0 \<Longrightarrow> \<forall>x \<ge> 0. descriptors (a_log t) x = 0 \<Longrightarrow> Q () t"
  shows "wp finish_agent Q s"
  unfolding finish_agent_def
proof (subst wp_bind, rule cleanup_session_rule)
  fix t assume t: "balanced s t" "quiet t" "g_bridge t \<le> 1" "g_broker t = g_broker s"
  have "children (a_log t) p = 0" if "1 < p" for p
    using that t assms(1) by (auto simp: tidy_def balanced_def stray_process_def holds_process_def quiet_def)
  moreover have "descriptors (a_log t) x = of_bool (g_broker t = x)" if "0 \<le> x" for x
    using that t assms(1) by (auto simp: tidy_def balanced_def stray_descriptor_def holds_descriptor_def quiet_def)
  ultimately show "wp (do { broker \<leftarrow> gets g_broker; close_fd broker; modify (\<lambda>s. s\<lparr>g_broker := - 1\<rparr>) }) Q t"
    by (auto simp: wp_simps close_fd_def log_act_def children_def descriptors_def intro!: assms(2))
qed


end
