(* ===== verification/Agent_Scanout.thy ===== *)
theory Agent_Scanout
  imports Agent_Correct
begin

section \<open>The observer of the scanout commits\<close>

text \<open>
  A reference definition of what the agent looks for in the tracer's records, the equivalence of
  the incremental observer with it, and what a successful start of Xorg has established.
\<close>

subsection \<open>Reference\<close>

text \<open>Records of a commit: its begin on the leased CRTC with a framebuffer and a mode, the leased
  connector in it, and its success.\<close>

definition begins :: "u64 \<Rightarrow> u32 \<Rightarrow> hdmi_los_trace_record \<Rightarrow> bool" where
  "begins setcrtc crtc r \<longleftrightarrow> t_request r = setcrtc \<and> t_phase r = HDMI_LOS_TRACE_BEFORE \<and>
     t_argument r ! 0 = ucast crtc \<and> t_argument r ! 1 \<noteq> 0 \<and> t_argument r ! 3 \<noteq> 0"

definition names_connector :: "u64 \<Rightarrow> u32 \<Rightarrow> u32 \<Rightarrow> hdmi_los_trace_record \<Rightarrow> bool" where
  "names_connector setcrtc connector n r \<longleftrightarrow> t_request r = setcrtc \<and> t_sequence r = n \<and>
     t_phase r = HDMI_LOS_TRACE_DETAIL \<and> c_str (t_name r) = ''SETCRTC_CONNECTOR'' \<and>
     t_argument r ! 2 = ucast connector"

definition completes :: "u64 \<Rightarrow> u32 \<Rightarrow> hdmi_los_trace_record \<Rightarrow> bool" where
  "completes setcrtc n r \<longleftrightarrow> t_request r = setcrtc \<and> t_sequence r = n \<and>
     t_phase r = HDMI_LOS_TRACE_AFTER \<and> t_result r = 0"

text \<open>After the first begin of a commit, its connector is named and then it succeeds.\<close>

definition completed :: "u64 \<Rightarrow> u32 \<Rightarrow> u32 \<Rightarrow> hdmi_los_trace_record list \<Rightarrow> bool" where
  "completed setcrtc connector n rs \<longleftrightarrow>
     (case dropWhile (\<lambda>r. \<not> names_connector setcrtc connector n r) rs of
        [] \<Rightarrow> False | d # later_records \<Rightarrow> \<exists>r \<in> set later_records. completes setcrtc n r)"

definition committed :: "u64 \<Rightarrow> u32 \<Rightarrow> u32 \<Rightarrow> hdmi_los_trace_record list \<Rightarrow> bool" where
  "committed setcrtc connector crtc rs \<longleftrightarrow>
     (case dropWhile (\<lambda>r. \<not> begins setcrtc crtc r) rs of
        [] \<Rightarrow> False | b # later_records \<Rightarrow> completed setcrtc connector (t_sequence b) later_records)"

subsection \<open>Equivalence\<close>

lemma observe_frame [simp]:
  "sc_setcrtc (observe r v) = sc_setcrtc v" "sc_connector (observe r v) = sc_connector v"
  "sc_crtc (observe r v) = sc_crtc v"
  by (simp_all add: observe_def)

lemma fold_observe_frame [simp]:
  "sc_setcrtc (fold observe rs v) = sc_setcrtc v" "sc_connector (fold observe rs v) = sc_connector v"
  "sc_crtc (fold observe rs v) = sc_crtc v"
  by (induction rs arbitrary: v) simp_all

lemma observe_confirmed: "sc_confirmed v \<Longrightarrow> sc_confirmed (observe r v)"
  by (simp add: observe_def)

lemma fold_observe_confirmed: "sc_confirmed v \<Longrightarrow> sc_confirmed (fold observe rs v)"
  by (induction rs arbitrary: v) (simp_all add: observe_confirmed)

text \<open>The connector was named: the commit is confirmed by its success.\<close>

lemma confirmed_after_connector:
  assumes "sc_crtc v \<noteq> 0" "sc_sequence v \<noteq> 0" "sc_seen v" "\<not> sc_confirmed v"
  shows "sc_confirmed (fold observe rs v) \<longleftrightarrow> (\<exists>r \<in> set rs. completes (sc_setcrtc v) (sc_sequence v) r)"
  using assms
proof (induction rs arbitrary: v)
  case (Cons r rs)
  show ?case
  proof (cases "completes (sc_setcrtc v) (sc_sequence v) r")
    case True
    then have "sc_confirmed (observe r v)" using Cons.prems by (simp add: observe_def completes_def)
    with True show ?thesis by (simp add: fold_observe_confirmed)
  next
    case False
    then have "sc_sequence (observe r v) = sc_sequence v" "sc_seen (observe r v)" "\<not> sc_confirmed (observe r v)"
      using Cons.prems by (auto simp: observe_def completes_def)
    with Cons.IH [of "observe r v"] Cons.prems(1,2) False show ?thesis by simp
  qed
qed simp

text \<open>The commit has begun.\<close>

lemma confirmed_after_begin:
  assumes "sc_crtc v \<noteq> 0" "sc_sequence v \<noteq> 0" "\<not> sc_seen v" "\<not> sc_confirmed v"
  shows "sc_confirmed (fold observe rs v) \<longleftrightarrow> completed (sc_setcrtc v) (sc_connector v) (sc_sequence v) rs"
  using assms
proof (induction rs arbitrary: v)
  case (Cons r rs)
  show ?case
  proof (cases "names_connector (sc_setcrtc v) (sc_connector v) (sc_sequence v) r")
    case True
    then have "observe r v = v\<lparr>sc_seen := True\<rparr>"
      using Cons.prems by (simp add: observe_def names_connector_def)
    with True Cons.prems confirmed_after_connector [of "v\<lparr>sc_seen := True\<rparr>" rs] show ?thesis
      by (simp add: completed_def)
  next
    case False
    then have "sc_sequence (observe r v) = sc_sequence v" "\<not> sc_seen (observe r v)" "\<not> sc_confirmed (observe r v)"
      using Cons.prems by (auto simp: observe_def names_connector_def)
    with Cons.IH [of "observe r v"] Cons.prems(1,2) False show ?thesis by (simp add: completed_def)
  qed
qed (simp add: completed_def)

definition fresh_scanout :: "u64 \<Rightarrow> u32 \<Rightarrow> u32 \<Rightarrow> scanout" where
  "fresh_scanout setcrtc connector crtc = \<lparr>sc_setcrtc = setcrtc, sc_connector = connector, sc_crtc = crtc,
     sc_sequence = 0, sc_fb = 0, sc_seen = False, sc_confirmed = False, sc_failed = False, sc_failure = []\<rparr>"

lemma confirmed_committed:
  assumes "crtc \<noteq> 0" "\<forall>r \<in> set rs. t_request r = setcrtc \<longrightarrow> t_sequence r \<noteq> 0"
  shows "sc_confirmed (fold observe rs (fresh_scanout setcrtc connector crtc)) \<longleftrightarrow> committed setcrtc connector crtc rs"
  using assms(2)
proof (induction rs)
  case Nil
  then show ?case by (simp add: fresh_scanout_def committed_def)
next
  case (Cons r rs)
  let ?v = "fresh_scanout setcrtc connector crtc"
  show ?case
  proof (cases "begins setcrtc crtc r")
    case True
    then have v: "observe r ?v = ?v\<lparr>sc_sequence := t_sequence r, sc_fb := ucast (t_argument r ! 1)\<rparr>"
      using assms(1) by (simp add: observe_def begins_def fresh_scanout_def)
    have "sc_confirmed (fold observe rs (observe r ?v)) \<longleftrightarrow> completed setcrtc connector (t_sequence r) rs"
      using confirmed_after_begin [of "observe r ?v" rs] v Cons.prems assms(1) True
      by (simp add: fresh_scanout_def begins_def)
    with True show ?thesis by (simp add: committed_def)
  next
    case False
    then have "observe r ?v = ?v"
      using Cons.prems by (auto simp: observe_def begins_def fresh_scanout_def)
    with Cons False show ?thesis by (simp add: committed_def)
  qed
qed

text \<open>The framebuffer is the one of some begin.\<close>

lemma observed_fb:
  assumes "sc_fb v = 0" "sc_fb (fold observe rs v) \<noteq> 0"
  shows "\<exists>b \<in> set rs. begins (sc_setcrtc v) (sc_crtc v) b \<and> ucast (t_argument b ! 1) = sc_fb (fold observe rs v)"
  using assms
proof (induction rs rule: rev_induct)
  case (snoc r rs)
  let ?w = "fold observe rs v"
  show ?case
  proof (cases "sc_fb (observe r ?w) = sc_fb ?w")
    case True
    with snoc show ?thesis by auto
  next
    case False
    then have "begins (sc_setcrtc v) (sc_crtc v) r" "sc_fb (observe r ?w) = ucast (t_argument r ! 1)"
      by (auto simp: observe_def begins_def split: if_splits)
    then show ?thesis by simp
  qed
qed simp

subsection \<open>A verified start\<close>

text \<open>Steps after which the observer has seen exactly the records that were relayed.\<close>

definition follows :: "agent \<Rightarrow> agent \<Rightarrow> bool" where
  "follows s t \<longleftrightarrow>
     (\<exists>new. a_log t = a_log s @ new \<and> scanout_of t = fold observe (records new) (scanout_of s)) \<and>
     a_crtc t = a_crtc s \<and> g_android_mode t = g_android_mode s"

interpretation following: step_preorder follows
proof
  show "follows s s" for s by (auto simp: follows_def)
  show "follows s u" if "follows s t" "follows t u" for s t u
    using that by (auto simp: follows_def)
qed

lemma relays_follows: "keeps relays m \<Longrightarrow> keeps follows m"
  by (erule keeps_weaken) (auto simp: relays_def follows_def session_of_def)

lemma follows_modify:
  assumes "\<And>s. a_log (f s) = a_log s" "\<And>s. scanout_of (f s) = scanout_of s" "\<And>s. a_crtc (f s) = a_crtc s"
    "\<And>s. g_android_mode (f s) = g_android_mode s"
  shows "keeps follows (modify f)"
  by (rule keeps_I) (simp add: wp_simps follows_def assms)

lemmas follow_intros = following.keeps_intros

lemma follows_spawn_xorg: "keeps follows (spawn_xorg lease_fd)"
  unfolding spawn_xorg_def
  by (intro follow_intros relays_follows [OF relays_socketpair] relays_follows [OF relays_fork]
    relays_follows [OF relays_close_fd] follows_modify) (simp_all add: scanout_of_def)

lemma follows_spawn_lxde: "keeps follows spawn_lxde"
  unfolding spawn_lxde_def
  by (intro follow_intros relays_follows [OF relays_user] relays_follows [OF relays_fork])

text \<open>
  From \<open>s\<close> to \<open>t\<close> the commit was confirmed and not failed when the CRTC was read back with the
  framebuffer of the commit and the mode.
\<close>

definition shown :: "agent \<Rightarrow> agent \<Rightarrow> bool" where
  "shown s t \<longleftrightarrow>
     (\<exists>before after crtc. a_log t = a_log s @ before @ after \<and> a_crtc s 0 = Some crtc \<and>
        (let v = fold observe (records before) (scanout_of s) in
         sc_confirmed v \<and> \<not> sc_failed v \<and> sc_fb v \<noteq> 0 \<and> scans_out crtc (sc_fb v) (g_android_mode s)))"

lemma shown_trans:
  assumes "follows s t" "shown t u"
  shows "shown s u"
proof -
  from assms(1) obtain new where new: "a_log t = a_log s @ new" "scanout_of t = fold observe (records new) (scanout_of s)"
      "a_crtc t = a_crtc s" "g_android_mode t = g_android_mode s"
    by (auto simp: follows_def)
  from assms(2) obtain before after crtc where u: "a_log u = a_log t @ before @ after" "a_crtc t 0 = Some crtc"
      "let v = fold observe (records before) (scanout_of t) in
         sc_confirmed v \<and> \<not> sc_failed v \<and> sc_fb v \<noteq> 0 \<and> scans_out crtc (sc_fb v) (g_android_mode t)"
    by (auto simp: shown_def)
  show ?thesis
    unfolding shown_def
    by (rule exI [of _ "new @ before"], rule exI [of _ after], rule exI [of _ crtc])
      (use new u in \<open>simp add: Let_def\<close>)
qed

lemma finish_start_shown: "wp finish_start (\<lambda>ok t. ok \<longrightarrow> shown s t) s"
proof -
  define crtc where "crtc = a_crtc s 0"
  have rest: "keeps follows (do {
       shown \<leftarrow> verify_xorg;
       if \<not> shown then return False
       else do {
         startup_only \<leftarrow> gets g_trace_startup_only;
         whenever startup_only (modify (\<lambda>s. s\<lparr>g_trace_steady := True\<rparr>));
         lxde \<leftarrow> gets g_start_lxde;
         if \<not> lxde then return True
         else do {
           child \<leftarrow> spawn_lxde;
           modify (\<lambda>s. s\<lparr>g_session := child\<rparr>);
           return (0 < child)
         } } })"
    by (intro follow_intros relays_follows [OF relays_verify_xorg] follows_modify follows_spawn_lxde)
      (simp_all add: scanout_of_def)
  have verified: "wp verify_scanout (\<lambda>ok t. ok \<longrightarrow> a_log t = a_log s \<and> shown s t) s"
    unfolding verify_scanout_def draw_def
    by (auto simp: wp_simps shown_def Let_def scanout_of_def split: option.splits)
  have more_log: "shown s u" if "shown s t" "a_log u = a_log t @ new" for t u new
    using that unfolding shown_def by (auto, metis append_assoc)
  show ?thesis
    unfolding finish_start_def
    apply (subst wp_bind, rule wp_mono [OF verified])
    subgoal for ok t
      apply (cases ok)
       apply (simp only: simp_thms if_False)
       apply (rule keeps_rule [OF rest])
       apply (auto simp: follows_def intro: more_log)[1]
      apply (simp add: wp_simps)
      done
    done
qed

lemma start_loop_shown: "wp (start_loop answers end_ms) (\<lambda>ok t. ok \<longrightarrow> shown s t) s"
proof (induction answers arbitrary: s)
  case Nil
  then show ?case by (simp add: wp_simps) (simp add: wp_def split: prod.splits)
next
  case (Cons alive rest)
  have again: "wp (start_loop rest end_ms) (\<lambda>ok t. ok \<longrightarrow> shown s t) t" if "follows s t" for t
    by (rule wp_mono [OF Cons.IH]) (blast intro: shown_trans [OF that])
  have finish: "wp finish_start (\<lambda>ok t. ok \<longrightarrow> shown s t) t" if "follows s t" for t
    by (rule wp_mono [OF finish_start_shown]) (blast intro: shown_trans [OF that])
  have set: "keeps follows (modify (\<lambda>s. s\<lparr>a_alive := rest\<rparr>))"
    by (rule relays_follows [OF relays_set_alive])
  show ?case
    unfolding start_loop.simps
    apply (subst wp_bind, rule keeps_rule [OF relays_follows [OF relays_monotonic_ms]])
    subgoal for now s1
      apply (cases "end_ms \<le> now")
       apply (simp add: wp_simps)
      apply (simp only: if_False)
      apply (subst wp_bind, rule keeps_rule [OF set])
      subgoal for x s2
        apply (cases alive)
         apply (simp only: simp_thms if_False)
         apply (subst wp_bind, rule keeps_rule [OF relays_follows [OF relays_relay_trace_record]])
        subgoal for relayed s3
          apply (cases relayed)
           apply (simp only: simp_thms if_False)
           apply (subst wp_bind, rule keeps_rule [OF relays_follows [OF relays_xorg_ready]])
          subgoal for ready s4
            apply (subgoal_tac "follows s s4")
             apply (simp add: wp_simps again finish)
            apply (blast intro: following.step_trans)
            done
          apply (simp add: wp_simps)
          done
        apply (simp add: wp_simps)
        done
      done
    done
qed


text \<open>Steps that receive nothing from the tracer.\<close>

definition unobserved :: "agent \<Rightarrow> agent \<Rightarrow> bool" where
  "unobserved s t \<longleftrightarrow> (\<exists>new. a_log t = a_log s @ new \<and> records new = []) \<and> a_crtc t = a_crtc s \<and>
     a_setcrtc t = a_setcrtc s \<and> g_android_mode t = g_android_mode s"

interpretation unobserving: step_preorder unobserved
proof
  show "unobserved s s" for s by (simp add: unobserved_def)
  show "unobserved s u" if "unobserved s t" "unobserved t u" for s t u
    using that by (auto simp: unobserved_def)
qed

lemma unobserved_draw:
  assumes "\<And>s f. a_log (update f s) = a_log s" "\<And>s f. a_crtc (update f s) = a_crtc s"
    "\<And>s f. a_setcrtc (update f s) = a_setcrtc s" "\<And>s f. g_android_mode (update f s) = g_android_mode s"
  shows "keeps unobserved (draw script update)"
  unfolding draw_def
  by (intro unobserving.keeps_intros; rule keeps_I) (simp_all add: wp_simps unobserved_def assms)

lemma unobserved_connector_attempts: "keeps unobserved (connector_attempts n query modes)"
  by (induction n arbitrary: query modes)
    (auto intro!: unobserving.keeps_intros unobserved_draw)

lemma unobserved_read_connector_modes: "keeps unobserved read_connector_modes"
  unfolding read_connector_modes_def
  by (intro unobserving.keeps_intros unobserved_draw unobserved_connector_attempts) simp_all

lemma unobserved_check_step: "keeps unobserved check_step"
  unfolding check_step_def by (rule unobserved_draw) simp_all

lemma unobserved_check_steps: "keeps unobserved (check_steps n)"
  by (induction n) (auto intro!: unobserving.keeps_intros unobserved_check_step)

lemma unobserved_log_act: "records [a] = [] \<Longrightarrow> keeps unobserved (log_act a)"
  unfolding log_act_def by (rule keeps_I) (auto simp: wp_simps unobserved_def)

lemma unobserved_write_xorg_config: "keeps unobserved write_xorg_config"
  unfolding write_xorg_config_def
  by (intro unobserving.keeps_intros unobserved_check_step unobserved_check_steps unobserved_log_act) simp

text \<open>The mode that is read is Android's: the one the CRTC has and the connected connector advertises.\<close>

definition android_mode :: "agent \<Rightarrow> drm_mode_modeinfo \<Rightarrow> bool" where
  "android_mode s mode \<longleftrightarrow>
     (\<exists>connector modes crtc. fst (run_state read_connector_modes s) = Some (connector, modes) \<and>
        a_crtc s 0 = Some crtc \<and> usable_mode connector modes crtc \<and> mode = cr_mode crtc)"

definition mode_read :: "u32 \<Rightarrow> u32 \<Rightarrow> agent \<Rightarrow> drm_mode_modeinfo \<Rightarrow> agent \<Rightarrow> bool" where
  "mode_read connector_id crtc_id s mode t \<longleftrightarrow> connector_id \<noteq> 0 \<and> crtc_id \<noteq> 0 \<and> android_mode s mode \<and>
     (\<exists>new. a_log t = a_log s @ new \<and> records new = []) \<and> a_crtc t = later (a_crtc s) \<and> a_setcrtc t = a_setcrtc s"

lemma read_android_mode_rule:
  "wp (read_android_mode lease_fd connector_id crtc_id zero_mode)
     (\<lambda>(ok, mode) t. ok \<longrightarrow> mode_read connector_id crtc_id s mode t) s"
proof (cases "lease_fd < 0 \<or> connector_id = 0 \<or> crtc_id = 0")
  case True
  then show ?thesis by (auto simp: read_android_mode_def wp_simps)
next
  case False
  obtain answer t where r: "run_state read_connector_modes s = (answer, t)" by fastforce
  have t: "unobserved s t" using keeps_run [OF unobserved_read_connector_modes, of s] r by simp
  then have crtc: "a_crtc t = a_crtc s" by (simp add: unobserved_def)
  have step: "wp (State_Monad.bind read_connector_modes f) Q s" if "wp (f answer) Q t"
    for f :: "_ \<Rightarrow> (agent, 'a) state" and Q
    using that r by (simp add: wp_def)
  show ?thesis
    unfolding read_android_mode_def using False
    apply (simp only: if_False)
    apply (rule step)
    using r t crtc
    by (auto simp: wp_simps draw_def mode_read_def android_mode_def unobserved_def Let_def zero_mode_def
        split: option.splits)
qed


lemma run_rule: "run_state m s = (x, t) \<Longrightarrow> Q x t \<Longrightarrow> wp m Q s"
  by (simp add: wp_def)

lemma scanout_of_fold: "scanout_of (fold observe_scanout_record rs s) = fold observe rs (scanout_of s)"
  by (induction rs arbitrary: s) (simp_all add: scanout_of_observe)

lemma expect_scanout_fresh:
  "scanout_of (expect_scanout connector_id crtc_id s) = fresh_scanout (a_setcrtc s) connector_id crtc_id"
  by (simp add: scanout_of_def expect_scanout_def fresh_scanout_def)

text \<open>Once Xorg runs, the observer has seen, since it expects the commit, the records relayed.\<close>

definition launched :: "u32 \<Rightarrow> u32 \<Rightarrow> agent \<Rightarrow> agent \<Rightarrow> bool" where
  "launched connector_id crtc_id s t \<longleftrightarrow> connector_id \<noteq> 0 \<and> crtc_id \<noteq> 0 \<and> android_mode s (g_android_mode t) \<and>
     a_crtc t = later (a_crtc s) \<and>
     (\<exists>new. a_log t = a_log s @ new \<and>
        scanout_of t = fold observe (records new) (fresh_scanout (a_setcrtc s) connector_id crtc_id))"

lemma launch_rest_follows:
  "keeps follows (do {
     copy \<leftarrow> draw a_dup a_dup_update;
     whenever (0 \<le> copy) (log_act (Got copy));
     modify (\<lambda>s. s\<lparr>g_verify_lease := copy\<rparr>);
     if copy < 0 then do { close_fd lease_fd; return False }
     else do {
       child \<leftarrow> spawn_xorg lease_fd;
       modify (\<lambda>s. s\<lparr>g_xorg := child\<rparr>);
       close_fd lease_fd;
       return (0 \<le> child)
     } })"
proof -
  have dup: "keeps follows (draw a_dup a_dup_update)"
    by (rule relays_follows, rule relays_draw) (simp_all add: relays_unfold)
  have got: "keeps follows (log_act (Got copy))" for copy
    by (rule relays_follows, rule relays_log_act) simp
  show ?thesis
    by (intro follow_intros dup got follows_spawn_xorg relays_follows [OF relays_close_fd] follows_modify)
      (simp_all add: scanout_of_def)
qed

lemma launch_xorg_launched:
  assumes "g_android_mode s = zero_mode"
  shows "wp (launch_xorg lease_fd connector_id crtc_id) (\<lambda>ok t. ok \<longrightarrow> launched connector_id crtc_id s t) s"
  unfolding launch_xorg_def
  apply (subst wp_bind, simp only: wp_gets assms)
  apply (subst wp_bind, rule wp_mono [OF read_android_mode_rule])
  subgoal premises prems for answer s1
  proof (cases answer)
    case (Pair readable mode)
    let ?rest = "\<lambda>configured. if \<not> configured then do { close_fd lease_fd; return False } else do {
       modify (expect_scanout connector_id crtc_id);
       copy \<leftarrow> draw a_dup a_dup_update;
       whenever (0 \<le> copy) (log_act (Got copy));
       modify (\<lambda>s. s\<lparr>g_verify_lease := copy\<rparr>);
       if copy < 0 then do { close_fd lease_fd; return False }
       else do {
         child \<leftarrow> spawn_xorg lease_fd;
         modify (\<lambda>s. s\<lparr>g_xorg := child\<rparr>);
         close_fd lease_fd;
         return (0 \<le> child)
       } }"
    let ?P = "\<lambda>ok t. ok \<longrightarrow> launched connector_id crtc_id s t"
    have read: "readable \<longrightarrow> mode_read connector_id crtc_id s mode s1" using prems Pair by simp
    have no: "wp (?rest False) ?P t" for t
      by (simp add: wp_simps close_fd_def log_act_def)
    have yes: "wp (?rest True) ?P t" if readable "unobserved (s1\<lparr>g_android_mode := mode\<rparr>) t" for t
      apply (simp only: simp_thms if_False)
      apply (subst wp_bind, simp only: wp_modify)
      apply (rule keeps_rule [OF launch_rest_follows])
      using read that
      by (auto simp: launched_def follows_def unobserved_def mode_read_def expect_scanout_fresh)
        (auto simp: expect_scanout_def)
    have "wp (do { configured \<leftarrow> (if readable then write_xorg_config else return False); ?rest configured }) ?P
        (s1\<lparr>g_android_mode := mode\<rparr>)"
    proof (cases readable)
      case True
      then show ?thesis
        apply (simp only: if_True)
        apply (subst wp_bind, rule keeps_rule [OF unobserved_write_xorg_config])
        subgoal for configured t
          by (cases configured) (simp_all only: no yes)
        done
    next
      case False
      then show ?thesis by (simp only: if_False wp_bind wp_return no)
    qed
    then show ?thesis using Pair by (simp only: prod.case wp_bind wp_modify)
  qed
  done

lemma start_xorg_shown:
  assumes "g_android_mode s = zero_mode"
  shows "wp (start_xorg lease_fd connector_id crtc_id)
    (\<lambda>ok t. ok \<longrightarrow> (\<exists>r. launched connector_id crtc_id s r \<and> shown r t)) s"
  unfolding start_xorg_def
  apply (subst wp_bind, rule wp_mono [OF launch_xorg_launched [OF assms]])
  subgoal for ok r
    apply (cases ok)
     apply (simp only: simp_thms if_False)
     apply (subst wp_bind, rule keeps_rule [OF relays_follows [OF relays_monotonic_ms]])
     apply (subst wp_bind, simp only: wp_gets)
     apply (rule wp_mono [OF start_loop_shown])
     apply (blast intro: shown_trans)
    apply (simp add: wp_simps)
    done
  done


end
