(* ===== verification/Agent_Fence.thy ===== *)
theory Agent_Fence
  imports Agent_Correct
begin

section \<open>The tracer waits for the broker\<close>

text \<open>
  The order of messages in the agent's log over a whole run: the tracer is acknowledged only after
  the broker has acknowledged the report of the same record.
\<close>

text \<open>The acts since the last record of the tracer: the record was reported and the report accepted.\<close>

definition accepted :: "act list \<Rightarrow> u32 \<Rightarrow> bool" where
  "accepted pre n \<longleftrightarrow>
     (\<exists>p r q q' m. pre = p @ From_tracer r # q @ Told_broker (progress_for r) # q' \<and>
        records (q @ q') = [] \<and> From_broker m \<in> set q' \<and> accepts_progress (progress_for r) m \<and> n = t_sequence r)"

definition fenced :: "act list \<Rightarrow> bool" where
  "fenced acts \<longleftrightarrow> (\<forall>pre a post. acts = pre @ Told_tracer a # post \<longrightarrow> accepted pre (t_sequence a))"

lemma accepted_append: "accepted pre n \<Longrightarrow> accepted (xs @ pre) n"
  unfolding accepted_def by (metis append_assoc)

lemma fenced_append: "fenced xs \<Longrightarrow> fenced ys \<Longrightarrow> fenced (xs @ ys)"
  unfolding fenced_def
proof (intro allI impI)
  fix pre a post
  assume xs: "\<forall>pre a post. xs = pre @ Told_tracer a # post \<longrightarrow> accepted pre (t_sequence a)"
    and ys: "\<forall>pre a post. ys = pre @ Told_tracer a # post \<longrightarrow> accepted pre (t_sequence a)"
    and split: "xs @ ys = pre @ Told_tracer a # post"
  from split consider us where "xs = pre @ us" "us @ ys = Told_tracer a # post"
    | us where "xs @ us = pre" "ys = us @ Told_tracer a # post"
    by (auto simp: append_eq_append_conv2)
  then show "accepted pre (t_sequence a)"
  proof cases
    case 1
    then show ?thesis using xs ys split accepted_append
      by (cases us) (auto, metis append.left_neutral append_self_conv)
  next
    case 2
    then show ?thesis using ys accepted_append by blast
  qed
qed

lemma fenced_quiet: "\<forall>a. Told_tracer a \<notin> set acts \<Longrightarrow> fenced acts"
  by (auto simp: fenced_def)

lemma fenced_relay:
  assumes "\<forall>a. Told_tracer a \<notin> set q" "records q = []" "From_broker m \<in> set q"
    "accepts_progress (progress_for r) m" "t_sequence a = t_sequence r"
  shows "fenced (From_tracer r # Told_broker (progress_for r) # q @ [Told_tracer a])"
  unfolding fenced_def
proof (intro allI impI)
  fix pre b post
  assume split: "From_tracer r # Told_broker (progress_for r) # q @ [Told_tracer a] = pre @ Told_tracer b # post"
  then have "pre = From_tracer r # Told_broker (progress_for r) # q \<and> b = a"
    using assms(1) by (auto simp: append_eq_Cons_conv Cons_eq_append_conv append_eq_append_conv2)
  moreover have "accepted (From_tracer r # Told_broker (progress_for r) # q) (t_sequence r)"
    unfolding accepted_def
    by (rule exI [of _ "[]"], rule exI [of _ r], rule exI [of _ "[]"], rule exI [of _ q], rule exI [of _ m])
      (use assms in simp)
  ultimately show "accepted pre (t_sequence b)" using assms(5) by simp
qed

definition fences :: "agent \<Rightarrow> agent \<Rightarrow> bool" where
  "fences s t \<longleftrightarrow> (\<exists>new. a_log t = a_log s @ new \<and> fenced new)"

interpretation fencing: step_preorder fences
proof
  show "fences s s" for s by (simp add: fences_def fenced_def)
  show "fences s u" if "fences s t" "fences t u" for s t u
    using that fenced_append by (fastforce simp: fences_def)
qed

lemmas fence_intros = fencing.keeps_intros

lemma fences_modify: "(\<And>s. a_log (f s) = a_log s) \<Longrightarrow> keeps fences (modify f)"
  by (rule keeps_I) (simp add: wp_simps fences_def fenced_def)

lemma fences_draw: "(\<And>s f. a_log (update f s) = a_log s) \<Longrightarrow> keeps fences (draw script update)"
  unfolding draw_def by (intro fence_intros fences_modify)

lemma fences_log_act: "\<forall>r. a \<noteq> Told_tracer r \<Longrightarrow> keeps fences (log_act a)"
  unfolding log_act_def
  by (rule keeps_I) (auto simp: wp_simps fences_def intro!: fenced_quiet)

text \<open>A report to the broker and its answer, up to the verdict.\<close>

lemma forward_rule:
  "wp (forward_trace_record r)
     (\<lambda>ok t. \<exists>q. a_log t = a_log s @ q \<and> (\<forall>a. Told_tracer a \<notin> set q) \<and> records q = [] \<and>
       (ok \<longrightarrow> (\<exists>q' m. q = Told_broker (progress_for r) # q' \<and> From_broker m \<in> set q' \<and>
          accepts_progress (progress_for r) m))) s"
proof -
  have log: "a_log (observe_scanout_record r s) = a_log s" by (simp add: observe_scanout_record_def)
  show ?thesis
    unfolding forward_trace_record_def report_progress_def write_broker_def recv_message_def close_fd_def log_act_def
    by (auto simp: wp_simps log Let_def split: prod.splits)
qed

lemma fences_relay_record: "keeps fences (relay_record r)"
proof -
  have quiet: "fences s t" if "a_log t = a_log s @ new" "\<forall>a. Told_tracer a \<notin> set new" for s t new
    using that fenced_quiet by (auto simp: fences_def)
  have ack: "wp (acknowledge_trace_record (t_sequence r)) (\<lambda>x. fences s) t"
    if t: "a_log t = a_log s @ From_tracer r # Told_broker (progress_for r) # q'"
      "\<forall>a. Told_tracer a \<notin> set q'" "records q' = []" "From_broker m \<in> set q'"
      "accepts_progress (progress_for r) m" for s t q' m
  proof -
    have "fences s t" by (rule quiet [OF t(1)]) (use t(2) in simp)
    moreover have "fences s (t\<lparr>a_log := a_log t @ [Told_tracer (acknowledgement_for b (t_sequence r))]\<rparr>)" for b
      using t(1) fenced_relay [OF t(2-5), of "acknowledgement_for b (t_sequence r)"]
      by (auto simp: fences_def acknowledgement_for_def)
    ultimately show ?thesis
      unfolding acknowledge_trace_record_def log_act_def
      by (auto simp: wp_simps fences_def Let_def)
  qed
  have "wp (do {
      log_act (From_tracer r);
      forwarded \<leftarrow> forward_trace_record r;
      if \<not> forwarded then return False else acknowledge_trace_record (t_sequence r) }) (\<lambda>x. fences s) s" for s
    apply (subst wp_bind, simp only: log_act_def wp_modify)
    apply (subst wp_bind, rule wp_mono [OF forward_rule])
    subgoal for ok t
      by (cases ok) (auto simp: wp_simps intro: ack quiet)
    done
  then show ?thesis
    unfolding relay_record_def by (intro keeps_if fencing.keeps_return keeps_I)
qed

lemma fences_relay_received: "keeps fences (relay_received answer)"
  unfolding relay_received_def by (intro fence_intros fences_relay_record)

subsection \<open>Every operation\<close>

lemma fences_monotonic_ms: "keeps fences monotonic_ms"
  unfolding monotonic_ms_def by (intro fence_intros fences_modify) simp

lemma fences_check_step: "keeps fences check_step"
  unfolding check_step_def by (rule fences_draw) simp

lemma fences_check_steps: "keeps fences (check_steps n)"
  by (induction n) (auto intro!: fence_intros fences_check_step)

lemma fences_fork: "keeps fences (fork c)"
  unfolding fork_def by (intro fence_intros fences_draw fences_log_act) simp_all

lemma fences_close_fd: "keeps fences (close_fd fd)"
  unfolding close_fd_def by (rule fences_log_act) simp

lemma fences_socketpair: "keeps fences socketpair"
  unfolding socketpair_def by (intro fence_intros fences_draw fences_log_act) simp_all

lemma fences_wait_for: "keeps fences (wait_for pid)"
  unfolding wait_for_def by (rule fences_log_act) simp

lemma fences_signal_process: "keeps fences (signal_process pid n)"
  unfolding signal_process_def by (rule fences_log_act) simp

lemma fences_kill_child: "keeps fences (kill_child child)"
  unfolding kill_child_def by (intro fence_intros fences_signal_process fences_wait_for)

lemma fences_remove_path: "keeps fences (remove_path path)"
  unfolding remove_path_def by (rule fences_log_act) simp

lemma fences_write_broker: "keeps fences (write_broker m)"
  unfolding write_broker_def by (intro fence_intros fences_modify fences_log_act) simp_all

lemma fences_recv_message: "keeps fences recv_message"
  unfolding recv_message_def by (intro fence_intros fences_modify fences_log_act) simp_all

lemma fences_trace_poll: "keeps fences trace_poll"
  unfolding trace_poll_def by (intro fence_intros fences_modify) simp

lemma fences_trace_recv: "keeps fences trace_recv"
  unfolding trace_recv_def by (intro fence_intros fences_modify) simp

lemma fences_relay_trace_record: "keeps fences relay_trace_record"
  unfolding relay_trace_record_def
  by (intro fence_intros fences_trace_poll fences_trace_recv fences_relay_received)

lemma fences_process_alive: "keeps fences (process_alive pid)"
  unfolding process_alive_def by (intro fence_intros fences_modify) simp

lemma fences_set: "keeps fences (modify (\<lambda>s. s\<lparr>a_alive := bs\<rparr>))" "keeps fences (modify (\<lambda>s. s\<lparr>a_waits := ws\<rparr>))"
  "keeps fences (modify (\<lambda>s. s\<lparr>a_now := max (a_now s) n\<rparr>))"
  by (rule fences_modify, simp)+

lemma fences_term_loop: "keeps fences (term_loop answers end_ms)"
  by (induction answers) (auto intro!: fence_intros fences_set fences_monotonic_ms)

lemma fences_end_process: "keeps fences (end_process target)"
  unfolding end_process_def
  by (intro fence_intros fences_draw fences_signal_process fences_monotonic_ms fences_term_loop fences_process_alive) simp

lemma fences_terminate_group: "(\<And>s f. a_log (update f s) = a_log s) \<Longrightarrow> keeps fences (terminate_group pid update)"
  unfolding terminate_group_def
  by (intro fence_intros fences_process_alive fences_end_process fences_wait_for fences_modify)

lemma fences_reaped: "keeps fences (log_act (Reaped child))"
  by (rule fences_log_act) simp

lemma fences_run_wait_loop: "keeps fences (run_wait_loop answers child end_ms)"
proof (induction answers)
  case Nil
  show ?case unfolding run_wait_loop.simps by (intro fence_intros fences_set fences_kill_child)
next
  case (Cons answer rest)
  show ?case
    unfolding run_wait_loop.simps
    by (intro fence_intros keeps_wait fences_set fences_reaped fences_monotonic_ms fences_relay_trace_record
      fences_kill_child Cons.IH)
qed

lemma fences_run_wait: "keeps fences (run_wait c)"
  unfolding run_wait_def by (intro fence_intros fences_fork fences_monotonic_ms fences_run_wait_loop)

lemma fences_preflight_loop: "keeps fences (preflight_loop answers child end_ms trace_open)"
proof (induction answers arbitrary: trace_open)
  case Nil
  show ?case unfolding preflight_loop.simps by (intro fence_intros fences_set)
next
  case (Cons answer rest)
  show ?case
    unfolding preflight_loop.simps
    by (intro fence_intros keeps_wait fences_set fences_reaped fences_monotonic_ms fences_relay_trace_record Cons.IH)
qed

lemma fences_reap_again: "keeps fences (reap_again answers child)"
proof (induction answers)
  case (Cons answer rest)
  show ?case
    unfolding reap_again.simps by (intro fence_intros keeps_wait fences_set fences_reaped Cons.IH)
qed (simp add: fencing.keeps_return)

lemma fences_trace_preflight: "keeps fences trace_preflight"
  unfolding trace_preflight_def secure_gate_def modules_gate_def preflight_child_def preflight_loaded_def
  by (intro fence_intros fences_draw fences_check_step fences_check_steps fences_socketpair fences_fork fences_close_fd
    fences_modify fences_trace_poll fences_relay_trace_record fences_monotonic_ms fences_preflight_loop
    fences_reap_again fences_kill_child) simp_all

lemma fences_read_paths: "keeps fences read_paths"
  unfolding read_paths_def by (intro fence_intros fences_draw fences_modify) simp_all

lemma fences_paths_loop: "keeps fences (paths_loop answers end_ms)"
proof (induction answers)
  case (Cons answer rest)
  show ?case
    unfolding paths_loop.simps by (intro fence_intros fences_monotonic_ms fences_set fences_read_paths Cons.IH)
qed (simp add: fence_intros fences_monotonic_ms)

lemma fences_prepare_session: "keeps fences (prepare_session probe_mode)"
proof -
  have [simp]: "a_log (reset_session s) = a_log s" for s by (simp add: reset_session_def)
  show ?thesis
    unfolding prepare_session_def start_bridge_def claim_display_def write_authority_def
    by (intro fence_intros fences_terminate_group fences_modify fences_draw fences_check_step fences_check_steps
      fences_remove_path fences_trace_preflight fences_fork fences_monotonic_ms fences_paths_loop fences_run_wait)
      simp_all
qed

lemma fences_connector_attempts: "keeps fences (connector_attempts n query modes)"
proof (induction n arbitrary: query modes)
  case (Suc n)
  show ?case
    unfolding connector_attempts.simps by (intro fence_intros fences_draw Suc.IH) simp
qed (simp add: fencing.keeps_return)

lemma fences_launch_xorg: "keeps fences (launch_xorg lease_fd connector_id crtc_id)"
proof -
  have [simp]: "a_log (expect_scanout c k s) = a_log s" for c k s by (simp add: expect_scanout_def)
  show ?thesis
    unfolding launch_xorg_def read_android_mode_def read_connector_modes_def write_xorg_config_def spawn_xorg_def
    by (intro fence_intros fences_draw fences_connector_attempts fences_modify fences_check_step fences_check_steps
      fences_log_act fences_close_fd fences_socketpair fences_fork) simp_all
qed

lemma fences_xorg_ready: "keeps fences xorg_ready"
  unfolding xorg_ready_def by (intro fence_intros fences_draw fences_run_wait) simp

lemma fences_all_listed: "keeps fences (all_listed wanted)"
proof (induction wanted rule: all_listed.induct)
  case (2 wanted forbidden rest)
  show ?case
    unfolding all_listed.simps listing_contains_def by (intro fence_intros fences_draw 2) simp
qed (simp add: fencing.keeps_return)

lemma fences_finish_start: "keeps fences finish_start"
  unfolding finish_start_def verify_scanout_def verify_xorg_def spawn_lxde_def
  by (intro fence_intros fences_draw fences_run_wait fences_all_listed fences_modify fences_fork) simp_all

lemma fences_start_loop: "keeps fences (start_loop answers end_ms)"
proof (induction answers)
  case (Cons answer rest)
  show ?case
    unfolding start_loop.simps
    by (intro fence_intros fences_monotonic_ms fences_set fences_relay_trace_record fences_xorg_ready
      fences_finish_start Cons.IH)
qed (simp add: fence_intros fences_monotonic_ms)

lemma fences_start_xorg: "keeps fences (start_xorg lease_fd connector_id crtc_id)"
  unfolding start_xorg_def by (intro fence_intros fences_launch_xorg fences_monotonic_ms fences_start_loop)

lemma fences_cleanup_session: "keeps fences cleanup_session"
  unfolding cleanup_session_def drop_fds_def
  by (intro fence_intros fences_terminate_group fences_close_fd fences_modify fences_remove_path) simp_all

lemma fences_on_request: "keeps fences (on_request request lease_fd)"
  unfolding on_request_def on_prepare_def on_start_def on_stop_def on_unknown_def
  by (intro fence_intros fences_prepare_session fences_cleanup_session fences_modify fences_write_broker
    fences_start_xorg fences_close_fd) simp_all

lemma fences_report_failure: "keeps fences (report_failure registration reason)"
  unfolding report_failure_def by (intro fence_intros fences_cleanup_session fences_write_broker)

lemma fences_wait_once: "keeps fences (wait_once pid)"
proof (rule keeps_I)
  show "wp (wait_once pid) (\<lambda>x. fences s) s" for s
    unfolding wait_once_def log_act_def
    by (auto simp: wp_simps fences_def fenced_quiet split: list.splits wait_answer.splits)
qed

lemma fences_agent_step: "keeps fences (agent_step registration answer)"
  unfolding agent_step_def watch_def watch_xorg_def watch_trace_def watch_scanout_def
  by (intro fence_intros fences_wait_once fences_modify fences_report_failure fences_relay_trace_record
    fences_recv_message fences_on_request) simp_all

lemma fences_agent_loop: "keeps fences (agent_loop registration polls)"
proof (induction polls)
  case (Cons answer answers)
  show ?case
    unfolding agent_loop.simps by (intro fence_intros fences_agent_step Cons.IH)
qed (simp add: fencing.keeps_return)

lemma fences_run_agent: "keeps fences (run_agent polls)"
  unfolding run_agent_def register_def connect_broker_def finish_agent_def
  by (intro fence_intros fences_draw fences_log_act fences_close_fd fences_modify fences_write_broker
    fences_recv_message fences_agent_loop fences_cleanup_session) simp_all


end
