(* ===== verification/Agent_Sample.thy ===== *)
theory Agent_Sample
  imports Agent_Session Agent_Scanout Agent_Fence
begin

section \<open>A session of the agent\<close>

text \<open>
  A concrete environment in which the agent starts Xorg: the broker acknowledges every report, the
  tracer reports one commit on the leased CRTC, and the display commands succeed. In a second one
  the agent registers and is told to stop.
\<close>

definition broker_packet :: "u16 \<Rightarrow> u32 \<Rightarrow> u32 \<Rightarrow> int \<Rightarrow> packet call" where
  "broker_packet opcode n flags fd =
     CallOk (bytes_of_message (zero_message\<lparr>m_magic := HDMI_LOS_MAGIC, m_version := HDMI_LOS_BROKER_VERSION,
       m_opcode := opcode, m_request_id := n, m_flags := flags, m_connector_id := 7, m_crtc_id := 9\<rparr>), fd)"

definition trace_packet :: "u16 \<Rightarrow> u32 \<Rightarrow> u64 \<Rightarrow> u64 list \<Rightarrow> string \<Rightarrow> bytes call" where
  "trace_packet phase n request args name =
     CallOk (bytes_of_record (zero_record\<lparr>t_magic := HDMI_LOS_TRACE_MAGIC, t_version := HDMI_LOS_TRACE_VERSION,
       t_phase := phase, t_sequence := n, t_request := request, t_argument := args,
       t_name := c_snprintf (zero_buf 32) name\<rparr>))"

definition sample_mode :: drm_mode_modeinfo where
  "sample_mode = zero_mode\<lparr>mi_hdisplay := 1, mi_vdisplay := 1\<rparr>"

definition sample_crtc :: drm_mode_crtc where
  "sample_crtc = \<lparr>cr_set_connectors_ptr = 0, cr_count_connectors = 0, cr_crtc_id = 9, cr_fb_id = 3, cr_x = 0, cr_y = 0,
     cr_mode_valid = 1, cr_mode = sample_mode\<rparr>"

definition sample_connector :: connector_answer where
  "sample_connector = \<lparr>cn_count_encoders = 0, cn_count_props = 0, cn_count_modes = 1, cn_connection = 1,
     cn_modes = [sample_mode]\<rparr>"

definition agent_sample :: agent_world where
  "agent_sample =
     \<lparr>g_bundle = ''/b'', g_kgsl_glamor = False, g_kgsl_kms_bridge = False, g_client_present = kBridge,
      g_start_lxde = True, g_no_timeout = False, g_trace_startup_only = True,
      a_now = 0, a_ticks = (\<lambda>n. 1), a_setcrtc = 5, a_pid = 50, a_socket = (\<lambda>n. (3, True)),
      a_broker_send = [],
      a_broker_in = broker_packet HDMI_LOS_OP_AGENT_PROGRESS_ACK 0 0 (- 1) #
        replicate 3 (broker_packet HDMI_LOS_OP_AGENT_PROGRESS_ACK 2 0 (- 1)),
      a_trace_polls = replicate 4 (CallOk (Some POLLIN)),
      a_trace_in =
        [trace_packet HDMI_LOS_TRACE_LOADED 0 0 [0, 0, 0, 0] [], trace_packet HDMI_LOS_TRACE_BEFORE 2 5 [9, 3, 1, 1] [],
         trace_packet HDMI_LOS_TRACE_DETAIL 2 5 [9, 0, 7, 0] ''SETCRTC_CONNECTOR'',
         trace_packet HDMI_LOS_TRACE_AFTER 2 5 [0, 0, 0, 0] []],
      a_trace_send = [], a_alive = [True], a_group = (\<lambda>n. True),
      a_waits = [Running, Running, Running, Finished (Some 0), Finished (Some 0), Finished (Some 0)],
      a_fork = (\<lambda>n. 100 + int n), a_pair = (\<lambda>n. Some (10 + 2 * int n, 11 + 2 * int n)), a_dup = (\<lambda>n. 30),
      a_step = (\<lambda>n. True), a_xorg_stat = (\<lambda>n. Some 0x81ED),
      a_user = (\<lambda>n. Some \<lparr>pw_name = ''u'', pw_uid = 1000, pw_gid = 1000, pw_dir = ''/h''\<rparr>),
      a_paths = (\<lambda>n. Some (''MOUSE_EVENT=/dev/input/event1'' @ [CHR 0x0A] @ ''KEYBOARD_EVENT=/dev/input/event2'')),
      a_lock = (\<lambda>n. Some []), a_random = (\<lambda>n. Some (replicate 16 0)),
      a_listing = (\<lambda>n. Some (if n < 2 then ''DP-1 connected current 1 x 1'' else ''HDMI Mouse HDMI Keyboard'')),
      a_connector = (\<lambda>n. Some sample_connector), a_crtc = (\<lambda>n. Some sample_crtc), a_log = []\<rparr>"

definition start_summary :: "bool \<times> agent \<Rightarrow> bool" where
  "start_summary result = (case result of (ok, t) \<Rightarrow>
     ok \<and> (\<forall>r \<in> set (records (a_log t)). t_request r = 5 \<longrightarrow> t_sequence r \<noteq> 0))"

definition stop_sample :: agent_world where
  "stop_sample = agent_sample\<lparr>a_broker_in :=
     [broker_packet 0 50 0 (- 1), broker_packet HDMI_LOS_OP_AGENT_STOP 1 0 (- 1)], a_trace_in := []\<rparr>"

definition stop_registration :: hdmi_los_message where
  "stop_registration = registration_for (new_agent stop_sample)"

definition registered_agent :: agent where
  "registered_agent = snd (run_state register (new_agent stop_sample))"

definition stopped_agent :: agent where
  "stopped_agent = snd (run_state (agent_step stop_registration (CallOk (POLLIN, 0))) registered_agent)"

definition stop_summary :: "bool \<times> agent \<Rightarrow> bool \<times> u32 \<times> bool \<times> bool \<times> bool" where
  "stop_summary result = (case result of (ok, s) \<Rightarrow> (ok, a_pid s, g_no_timeout s,
     proper_round stop_registration (CallOk (POLLIN, 0)) s,
     fst (run_state (agent_step stop_registration (CallOk (POLLIN, 0))) s)))"

text \<open>In a third one the agent is told to prepare a session, and the preload handshake fails.\<close>

definition handshake_sample :: agent_world where
  "handshake_sample = agent_sample\<lparr>a_broker_in :=
     [broker_packet 0 50 0 (- 1), broker_packet HDMI_LOS_OP_AGENT_PREPARE 1 HDMI_LOS_PROBE_XORG_LEGACY (- 1),
      broker_packet HDMI_LOS_OP_AGENT_PROGRESS_ACK 0 0 (- 1)],
    a_trace_in := [trace_packet HDMI_LOS_TRACE_LOADED 0 0 [0, 0, 0, 0] []], a_waits := [Finished (Some 125)]\<rparr>"

definition acknowledges :: "int \<times> agent \<Rightarrow> bool" where
  "acknowledges result = (\<exists>a \<in> set (a_log (snd result)). case a of Told_tracer r \<Rightarrow> True | _ \<Rightarrow> False)"

end
