(* ===== verification/Agent_Claims.thy ===== *)
theory Agent_Claims
  imports Agent_Sample
begin

section \<open>Properties of the agent\<close>

text \<open>
  The observer of the commits is equivalent to its reference, a successful start is verified, every
  process and descriptor is accounted for, and the tracer waits for the broker.
\<close>

subsection \<open>The sample runs\<close>

lemma start_sample: "start_summary (run_state (start_xorg 20 7 9) (new_agent agent_sample))"
  by code_simp

lemma stop_rounds: "stop_summary (run_state register (new_agent stop_sample)) = (True, 50, False, True, True)"
  by code_simp

lemma handshake_acknowledged:
  "acknowledges (agent_main 0 None (\<lambda>path. True) [] [CallOk (POLLIN, 0)] handshake_sample)"
  by code_simp

subsection \<open>The observer\<close>

text \<open>
  C7. The incremental observer of the commits is equivalent to its reference: over the records
  that arrive after \<open>start_xorg\<close> has set what it expects, the commit counts as confirmed exactly
  if, after the first begin of a commit on the leased CRTC with a framebuffer and a mode, a record
  of the same sequence names the leased connector and a later one reports its success. The
  sequence numbers of requests start at one.
\<close>

theorem scanout_observer_correct:
  assumes "crtc_id \<noteq> 0" and "\<forall>r \<in> set rs. t_request r = a_setcrtc s \<longrightarrow> t_sequence r \<noteq> 0"
  shows "g_scanout_confirmed (fold observe_scanout_record rs (expect_scanout connector_id crtc_id s)) \<longleftrightarrow>
    committed (a_setcrtc s) connector_id crtc_id rs"
proof -
  have "g_scanout_confirmed t = sc_confirmed (scanout_of t)" for t
    by (simp add: scanout_of_def)
  then show ?thesis
    using confirmed_committed [OF assms] by (simp add: scanout_of_fold expect_scanout_fresh)
qed

definition commit_record :: "u16 \<Rightarrow> u64 list \<Rightarrow> string \<Rightarrow> hdmi_los_trace_record" where
  "commit_record phase args name = zero_record\<lparr>t_phase := phase, t_sequence := 2, t_request := 5,
     t_argument := args, t_name := c_snprintf (zero_buf 32) name\<rparr>"

definition commit_records :: "hdmi_los_trace_record list" where
  "commit_records = [commit_record HDMI_LOS_TRACE_BEFORE [9, 3, 1, 1] [],
     commit_record HDMI_LOS_TRACE_DETAIL [9, 0, 7, 0] ''SETCRTC_CONNECTOR'',
     commit_record HDMI_LOS_TRACE_AFTER [0, 0, 0, 0] []]"

lemma commit_records_committed: "committed 5 7 9 commit_records \<and> (\<forall>r \<in> set commit_records. t_request r = 5 \<longrightarrow> t_sequence r \<noteq> 0)"
  by code_simp

theorem scanout_observer_correct_witness:
  "g_scanout_confirmed (fold observe_scanout_record commit_records (expect_scanout 7 9 (new_agent agent_sample)))"
proof -
  have "a_setcrtc (new_agent agent_sample) = 5"
    by (simp add: new_agent_def agent_world.defs agent_sample_def)
  then show ?thesis
    using scanout_observer_correct [of 9 commit_records "new_agent agent_sample" 7] commit_records_committed by simp
qed

subsection \<open>A verified start\<close>

lemma fold_records_prefix:
  assumes "shown r t" "scanout_of r = fold observe (records new) v" "a_log r = a_log s @ new"
  obtains before after crtc where "a_log t = a_log s @ before @ after" "a_crtc r 0 = Some crtc"
    "sc_confirmed (fold observe (records before) v)" "sc_fb (fold observe (records before) v) \<noteq> 0"
    "scans_out crtc (sc_fb (fold observe (records before) v)) (g_android_mode r)"
proof -
  from assms(1) obtain before after crtc where t: "a_log t = a_log r @ before @ after" "a_crtc r 0 = Some crtc"
      "let v = fold observe (records before) (scanout_of r) in
         sc_confirmed v \<and> \<not> sc_failed v \<and> sc_fb v \<noteq> 0 \<and> scans_out crtc (sc_fb v) (g_android_mode r)"
    by (auto simp: shown_def)
  show ?thesis
    by (rule that [of "new @ before" after crtc]) (use t assms in \<open>simp_all add: Let_def\<close>)
qed

text \<open>
  C4. A session is reported ready only after its scanout was verified. When \<open>start_xorg\<close> succeeds
  for a session that was prepared, the tracer has reported a completed commit of the leased
  connector on the leased CRTC; the mode that was taken over is the one the CRTC had and the
  connected connector advertises; and when the CRTC was read back it scanned out a framebuffer
  that a reported commit had named, with exactly the timing of that mode.
\<close>

theorem start_xorg_verified:
  assumes "run_state (start_xorg lease_fd connector_id crtc_id) s = (True, t)"
    and "g_android_mode s = zero_mode"
    and "a_log t = a_log s @ new" 
    and "\<forall>r \<in> set (records new). t_request r = a_setcrtc s \<longrightarrow> t_sequence r \<noteq> 0"
  shows "committed (a_setcrtc s) connector_id crtc_id (records new) \<and>
    (\<exists>mode current. android_mode s mode \<and> a_crtc s 1 = Some current \<and> cr_mode_valid current \<noteq> 0 \<and>
       cr_mode current = mode \<and>
       (\<exists>b \<in> set (records new). begins (a_setcrtc s) crtc_id b \<and> cr_fb_id current = ucast (t_argument b ! 1)))"
proof -
  let ?v = "fresh_scanout (a_setcrtc s) connector_id crtc_id"
  obtain r where r: "launched connector_id crtc_id s r" "shown r t"
    using wp_run [OF start_xorg_shown [OF assms(2)] assms(1)] by auto
  then obtain early where early: "scanout_of r = fold observe (records early) ?v" "a_log r = a_log s @ early"
    by (auto simp: launched_def)
  from fold_records_prefix [OF r(2) early] obtain before after current where
    t: "a_log t = a_log s @ before @ after" "a_crtc r 0 = Some current"
      "sc_confirmed (fold observe (records before) ?v)" "sc_fb (fold observe (records before) ?v) \<noteq> 0"
      "scans_out current (sc_fb (fold observe (records before) ?v)) (g_android_mode r)" .
  have new: "new = before @ after" using t(1) assms(3) by simp
  have "sc_confirmed (fold observe (records new) ?v)"
    using fold_observe_confirmed [OF t(3)] new by simp
  then have "committed (a_setcrtc s) connector_id crtc_id (records new)"
    using confirmed_committed [OF _ assms(4)] r(1) by (simp add: launched_def)
  moreover obtain b where "b \<in> set (records before)" "begins (a_setcrtc s) crtc_id b"
      "ucast (t_argument b ! 1) = sc_fb (fold observe (records before) ?v)"
    using observed_fb [OF _ t(4)] by (auto simp: fresh_scanout_def)
  moreover have "a_crtc s 1 = Some current" "android_mode s (g_android_mode r)"
    using t(2) r(1) by (simp_all add: launched_def later_def)
  ultimately show ?thesis
    using t(5) new by (auto simp: scans_out_def same_mode_timing_eq)
qed

theorem start_xorg_verified_witness:
  "committed 5 7 9 (records (a_log (snd (run_state (start_xorg 20 7 9) (new_agent agent_sample)))))"
proof -
  let ?s = "new_agent agent_sample"
  obtain ok t where run: "run_state (start_xorg 20 7 9) ?s = (ok, t)" by fastforce
  have ok: "ok" "\<forall>r \<in> set (records (a_log t)). t_request r = 5 \<longrightarrow> t_sequence r \<noteq> 0"
    using start_sample run by (simp_all add: start_summary_def)
  have "a_log ?s = []" "g_android_mode ?s = zero_mode" "a_setcrtc ?s = 5"
    by (simp_all add: new_agent_def agent_world.defs agent_sample_def)
  then show ?thesis
    using start_xorg_verified [of 20 7 9 ?s t "a_log t"] run ok by simp
qed

subsection \<open>Processes and descriptors\<close>


lemma serving_stopped: "serving stop_registration stopped_agent"
proof (rule serving.round)
  have run: "run_state register (new_agent stop_sample) = (True, registered_agent)"
    "registered_agent = snd (run_state register (new_agent stop_sample))"
    using stop_rounds by (auto simp: stop_summary_def registered_agent_def split: prod.splits)
  have facts: "a_pid registered_agent = 50" "\<not> g_no_timeout registered_agent"
    "proper_round stop_registration (CallOk (POLLIN, 0)) registered_agent"
    "fst (run_state (agent_step stop_registration (CallOk (POLLIN, 0))) registered_agent)"
    using stop_rounds run(1) by (simp_all add: stop_summary_def)
  show "serving stop_registration registered_agent"
  proof (rule serving.registered)
    show "a_log stop_sample = []" by (simp add: stop_sample_def agent_sample_def)
    show "recv_with_fd zero_message (a_broker_in stop_sample) =
        (True, message_of_bytes (fst (case broker_packet 0 50 0 (- 1) of CallOk packet \<Rightarrow> packet)), - 1,
         tl (a_broker_in stop_sample))"
      by (simp add: stop_sample_def broker_packet_def message_wire.length_enc wf_message_def zero_message_def)
    show "stop_registration = registration_for registered_agent"
      using facts by (simp add: stop_registration_def registration_for_def new_agent_def agent_world.defs
        stop_sample_def agent_sample_def)
  qed (simp_all add: run(1))
  show "proper_round stop_registration (CallOk (POLLIN, 0)) registered_agent" by (rule facts(3))
  show "run_state (agent_step stop_registration (CallOk (POLLIN, 0))) registered_agent = (True, stopped_agent)"
    using facts(4) by (simp add: stopped_agent_def prod_eq_iff)
qed


subsection \<open>The order of acknowledgements\<close>

text \<open>
  C5. The tracer waits for the broker: in every run of the agent, whatever its peers and the kernel
  answer, each acknowledgement sent to the tracer follows the receipt of a record with the same
  sequence number, the report of exactly that record to the broker, and a reply of the broker that
  accepts this report, with no other record in between.
\<close>

theorem tracer_waits_for_broker:
  assumes "a_log w = []" and "agent_main euid link directory args polls w = (code, t)"
    and "a_log t = before @ Told_tracer a # after"
  shows "\<exists>p r q q' m. before = p @ From_tracer r # q @ Told_broker (progress_for r) # q' \<and>
    records (q @ q') = [] \<and> From_broker m \<in> set q' \<and> accepts_progress (progress_for r) m \<and>
    t_sequence a = t_sequence r"
proof -
  have empty: "a_log (new_agent w) = []"
    using assms(1) by (simp add: new_agent_def agent_world.defs)
  have run: "fenced (a_log u)" if "run_state (run_agent polls) s = (code, u)" "a_log s = []" for s u code
    using keeps_run [OF fences_run_agent, of s polls] that by (simp add: fences_def)
  have "fenced (a_log t)"
    using assms(2) empty by (auto simp: agent_main_def fenced_quiet split: sum.splits elim!: run)
  then show ?thesis using assms(3) by (simp add: fenced_def accepted_def)
qed


theorem tracer_waits_for_broker_witness:
  "\<exists>r m. From_tracer r \<in> set (a_log (snd (agent_main 0 None (\<lambda>path. True) [] [CallOk (POLLIN, 0)] handshake_sample))) \<and>
    From_broker m \<in> set (a_log (snd (agent_main 0 None (\<lambda>path. True) [] [CallOk (POLLIN, 0)] handshake_sample))) \<and>
    accepts_progress (progress_for r) m"
proof -
  let ?run = "agent_main 0 None (\<lambda>path. True) [] [CallOk (POLLIN, 0)] handshake_sample"
  obtain code t where run: "?run = (code, t)" by fastforce
  obtain x where x: "x \<in> set (a_log t)" "case x of Told_tracer r \<Rightarrow> True | _ \<Rightarrow> False"
    using handshake_acknowledged run by (auto simp: acknowledges_def)
  from x(2) obtain a where "x = Told_tracer a" by (auto split: act.splits)
  with x(1) obtain before after where log: "a_log t = before @ Told_tracer a # after" by (auto dest: split_list)
  have "a_log handshake_sample = []" by (simp add: handshake_sample_def agent_sample_def)
  from tracer_waits_for_broker [OF this run log] obtain p r q q' m where
    "before = p @ From_tracer r # q @ Told_broker (progress_for r) # q'" "From_broker m \<in> set q'"
    "accepts_progress (progress_for r) m" by blast
  then show ?thesis using run log by auto
qed

end
