(* ===== verification/Trace_Path.thy ===== *)
theory Trace_Path
  imports Drm_Trace_Claims Agent_Sample
begin

section \<open>A commit from the tracer to the observer\<close>

text \<open>
  The interposed \<open>ioctl\<close> of \<open>src/native/drm-trace/drmtrace.c\<close> and the observer of
  \<open>src/native/agent/main.cpp\<close> composed: the records the tracer exchanges for one SETCRTC, as the
  agent's observer reads them.
\<close>

subsection \<open>The records of a SETCRTC\<close>

text \<open>The records that were exchanged between two states of the tracer.\<close>

fun exchanged :: "trace_event list \<Rightarrow> hdmi_los_trace_record list" where
  "exchanged [] = []"
| "exchanged (Recorded r ok # es) = r # exchanged es"
| "exchanged (e # es) = exchanged es"

definition reported :: "tracer \<Rightarrow> tracer \<Rightarrow> hdmi_los_trace_record list" where
  "reported s s' = exchanged (drop (length (x_log s)) (x_log s'))"

lemma exchanged_append [simp]: "exchanged (es @ es') = exchanged es @ exchanged es'"
  by (induction es rule: exchanged.induct) simp_all

lemma reported_append: "x_log s' = x_log s @ es \<Longrightarrow> reported s s' = exchanged es"
  by (simp add: reported_def)

definition connector_record :: "os \<Rightarrow> u32 \<Rightarrow> int \<Rightarrow> u32 \<Rightarrow> u32 list \<Rightarrow> nat \<Rightarrow> hdmi_los_trace_record" where
  "connector_record os n fd crtc_id connectors i =
     with_detail (''index='' @ show_nat i @ '' connector='' @ show_u (connectors ! i))
       ((initialize_record os HDMI_LOS_TRACE_DETAIL n fd (os_request_code os DRM_IOCTL_MODE_SETCRTC) ''SETCRTC_CONNECTOR'')
         \<lparr>t_argument := [ucast crtc_id, word_of_nat i, ucast (connectors ! i), 0]\<rparr>)"

lemma for_each_exchanges:
  assumes "for_each xs (\<lambda>x. exchange_or_exit os (f x)) s = Done u s'"
  shows "x_log s' = x_log s @ map (\<lambda>x. Recorded (f x) True) xs"
  using assms
proof (induction xs arbitrary: s)
  case Nil
  then show ?case by (simp add: prog_defs)
next
  case (Cons x xs)
  then obtain s1 where "exchange_or_exit os (f x) s = Done () s1"
      "for_each xs (\<lambda>x. exchange_or_exit os (f x)) s1 = Done u s'"
    by (auto simp: andthen_Done)
  with Cons.IH [of s1] exchange_or_exit_Done [of os "f x" s] show ?case by simp
qed

lemma exchanged_map_Recorded [simp]: "exchanged (map (\<lambda>x. Recorded (f x) True) xs) = map f xs"
  by (induction xs) simp_all

lemma exchange_or_exit_memory: "exchange_or_exit os r s = Done u s' \<Longrightarrow> x_mem s' = x_mem s"
  by (auto simp: exchange_or_exit_def exchange_record_def prog_defs log_event_def Let_def split: option.splits if_splits)

lemma setcrtc_announced:
  assumes before: "trace_before os fd DRM_IOCTL_MODE_SETCRTC argument s = Done n s'"
    and crtc: "safe_copy (rd_crtc (x_mem s)) argument = Some v"
    and count: "cr_count_connectors v \<le> kMaxCrtcConnectors"
    and connectors: "safe_copy_array (rd_u32s (x_mem s)) (cr_set_connectors_ptr v) (unat (cr_count_connectors v)) = Some connectors"
  obtains b where "x_log s' = x_log s @ Recorded b True #
      map (\<lambda>i. Recorded (connector_record os (g_sequence s) fd (cr_crtc_id v) connectors i) True) [0..<length connectors]"
    "t_phase b = HDMI_LOS_TRACE_BEFORE" "t_sequence b = g_sequence s"
    "t_request b = os_request_code os DRM_IOCTL_MODE_SETCRTC"
    "t_argument b ! 0 = ucast (cr_crtc_id v)" "t_argument b ! 1 = ucast (cr_fb_id v)"
    "t_argument b ! 3 = ucast (cr_mode_valid v)"
proof -
  define b where "b = decode_record (x_mem s) DRM_IOCTL_MODE_SETCRTC argument
    (initialize_record os HDMI_LOS_TRACE_BEFORE (g_sequence s) fd (os_request_code os DRM_IOCTL_MODE_SETCRTC)
      (request_name DRM_IOCTL_MODE_SETCRTC))"
  from before obtain s1 where told: "exchange_or_exit os b (s\<lparr>g_sequence := g_sequence s + 1\<rparr>) = Done () s1"
    and details: "emit_setcrtc_details os (g_sequence s) fd DRM_IOCTL_MODE_SETCRTC argument s1 = Done () s'"
    unfolding trace_before_def next_sequence_def b_def
    by (auto simp: andthen_Done bnd_Done Process_Monad.gets_def Process_Monad.modify_def ret_def)
  have log1: "x_log s1 = x_log s @ [Recorded b True]" and mem: "x_mem s1 = x_mem s"
    using exchange_or_exit_Done [OF told] exchange_or_exit_memory [OF told] by simp_all
  have len: "length connectors = unat (cr_count_connectors v)" "cr_count_connectors v \<noteq> 0"
    using safe_copy_array_length [OF connectors] by (auto simp: unat_gt_0)
  have "for_each [0..<length connectors]
      (\<lambda>i. exchange_or_exit os (connector_record os (g_sequence s) fd (cr_crtc_id v) connectors i)) s1 = Done () s'"
    using details crtc connectors mem len count
    by (simp add: emit_setcrtc_details_def emit_detail_def connector_record_def not_less [symmetric] bnd_def Process_Monad.gets_def)
  from for_each_exchanges [OF this] log1 have "x_log s' = x_log s @ Recorded b True #
      map (\<lambda>i. Recorded (connector_record os (g_sequence s) fd (cr_crtc_id v) connectors i) True) [0..<length connectors]"
    by simp
  moreover from crtc have "argument \<noteq> 0" by (auto simp: safe_copy_def)
  ultimately show ?thesis
    using crtc
    by (intro that [of b]) (simp_all add: b_def decode_record_def decode_sync_def decode_objects_def decode_with_def
      put_args_def with_detail_def initialize_record_def zero_record_def)
qed


subsection \<open>Observing them\<close>

lemma widened:
  fixes x y :: u32
  shows "ucast (ucast x :: u64) = x" "(ucast x :: u64) = ucast y \<longleftrightarrow> x = y" "(ucast x :: u64) = 0 \<longleftrightarrow> x = 0"
proof -
  show narrow: "ucast (ucast x :: u64) = x" for x :: u32
    by (rule bit_word_eqI) (auto simp: bit_ucast_iff)
  show inj: "(ucast x :: u64) = ucast y \<longleftrightarrow> x = y" for x y :: u32
    by (metis narrow)
  show "(ucast x :: u64) = 0 \<longleftrightarrow> x = 0"
    using inj [of x 0] by simp
qed

lemma observe_connector_record:
  assumes "sc_crtc v \<noteq> 0" "sc_sequence v = n" "sc_setcrtc v = os_request_code os DRM_IOCTL_MODE_SETCRTC"
  shows "observe (connector_record os n fd crtc_id connectors i) v =
    v\<lparr>sc_seen := sc_seen v \<or> connectors ! i = sc_connector v\<rparr>"
proof -
  have "c_str (t_name (connector_record os n fd crtc_id connectors i)) = ''SETCRTC_CONNECTOR''"
    by (simp add: connector_record_def with_detail_def initialize_record_def c_str_snprintf zero_buf_def)
  then show ?thesis
    using assms by (auto simp: observe_def connector_record_def with_detail_def widened)
qed

lemma observe_connector_records:
  assumes "sc_crtc v \<noteq> 0" "sc_sequence v = n" "sc_setcrtc v = os_request_code os DRM_IOCTL_MODE_SETCRTC"
  shows "fold observe (map (connector_record os n fd crtc_id connectors) is) v =
    v\<lparr>sc_seen := sc_seen v \<or> (\<exists>i \<in> set is. connectors ! i = sc_connector v)\<rparr>"
  using assms
proof (induction "is" arbitrary: v)
  case (Cons i "is")
  from Cons.IH [of "v\<lparr>sc_seen := sc_seen v \<or> connectors ! i = sc_connector v\<rparr>"] Cons.prems show ?case
    by (auto simp: observe_connector_record [OF Cons.prems])
qed simp

lemma indexed_member: "(\<exists>i \<in> set [0..<length xs]. xs ! i = x) \<longleftrightarrow> x \<in> set xs"
  by (auto simp: in_set_conv_nth)

text \<open>One whole commit: begun, its connectors named, and answered with \<open>k\<close>.\<close>

lemma observe_commit:
  assumes "crtc_id \<noteq> 0" "n \<noteq> 0" "fb_id \<noteq> 0" "mode_valid \<noteq> 0" "code = os_request_code os DRM_IOCTL_MODE_SETCRTC"
    and b: "t_phase b = HDMI_LOS_TRACE_BEFORE" "t_sequence b = n" "t_request b = code"
      "t_argument b ! 0 = ucast crtc_id" "t_argument b ! 1 = ucast (fb_id :: u32)" "t_argument b ! 3 = ucast (mode_valid :: u32)"
    and a: "t_phase a = HDMI_LOS_TRACE_AFTER" "t_sequence a = n" "t_request a = code"
    and v: "v = fold observe (b # map (connector_record os n fd crtc_id connectors) [0..<length connectors] @ [a])
      (fresh_scanout code connector_id crtc_id)"
  shows "sc_confirmed v \<longleftrightarrow> t_result a = 0 \<and> connector_id \<in> set connectors"
    and "sc_failed v \<longleftrightarrow> \<not> sc_confirmed v" and "sc_fb v = fb_id"
proof -
  let ?v = "(fresh_scanout code connector_id crtc_id)\<lparr>sc_sequence := n, sc_fb := fb_id\<rparr>"
  have "observe b (fresh_scanout code connector_id crtc_id) = ?v"
    using assms(1-4) b by (simp add: observe_def fresh_scanout_def widened)
  moreover have "fold observe (map (connector_record os n fd crtc_id connectors) [0..<length connectors]) ?v =
      ?v\<lparr>sc_seen := connector_id \<in> set connectors\<rparr>"
    using observe_connector_records [of ?v n os fd crtc_id connectors "[0..<length connectors]"] assms(1,5)
    unfolding indexed_member by (simp add: fresh_scanout_def)
  ultimately have "v = observe a (?v\<lparr>sc_seen := connector_id \<in> set connectors\<rparr>)"
    using v by simp
  then show "sc_confirmed v \<longleftrightarrow> t_result a = 0 \<and> connector_id \<in> set connectors"
      "sc_failed v \<longleftrightarrow> \<not> sc_confirmed v" "sc_fb v = fb_id"
    using a assms(1,2) by (simp_all add: observe_def fresh_scanout_def)
qed



text \<open>The records a SETCRTC exchanges when the call needs no fallback.\<close>

lemma setcrtc_reported:
  assumes run: "ioctl os fd DRM_IOCTL_MODE_SETCRTC argument s = Done r s'"
    and intercepted: "intercepts s DRM_IOCTL_MODE_SETCRTC" and acked: "all_acked (x_log s)"
    and kernel: "os_ioctl os (x_calls s) fd DRM_IOCTL_MODE_SETCRTC argument (x_mem s) = (k, e, mem)"
    and plain: "\<not> (k < 0 \<and> e = EINVAL \<and> DRM_IOCTL_MODE_SETCRTC = DRM_IOCTL_MODE_SETCRTC)"
    and crtc: "safe_copy (rd_crtc (x_mem s)) argument = Some v"
    and count: "cr_count_connectors v \<le> kMaxCrtcConnectors"
    and connectors: "safe_copy_array (rd_u32s (x_mem s)) (cr_set_connectors_ptr v)
      (unat (cr_count_connectors v)) = Some connectors"
  obtains b a where "reported s s' =
      b # map (connector_record os (g_sequence s) fd (cr_crtc_id v) connectors) [0..<length connectors] @ [a]"
    "t_phase b = HDMI_LOS_TRACE_BEFORE" "t_sequence b = g_sequence s"
    "t_request b = os_request_code os DRM_IOCTL_MODE_SETCRTC"
    "t_argument b ! 0 = ucast (cr_crtc_id v)" "t_argument b ! 1 = ucast (cr_fb_id v)"
    "t_argument b ! 3 = ucast (cr_mode_valid v)"
    "t_phase a = HDMI_LOS_TRACE_AFTER" "t_sequence a = g_sequence s"
    "t_request a = os_request_code os DRM_IOCTL_MODE_SETCRTC" "t_result a = word_of_int k" "r = k"
proof -
  let ?s = "s\<lparr>g_in_trace := True\<rparr>" and ?req = DRM_IOCTL_MODE_SETCRTC
  have traced: "should_trace_request ?req s = True" by (simp add: should_trace_request_def)
  have unsuppressed: "\<not> suppresses u ?req argument" for u by (simp add: suppresses_def)
  from run obtain n s1 where before: "trace_before os fd ?req argument ?s = Done n s1"
    and rest: "perform_request os True n fd ?req argument s1 = Done r s'"
    unfolding ioctl_intercepted [OF intercepted] traced if_True bnd_Done [where s = ?s] decide_perform [OF unsuppressed]
    by blast
  from setcrtc_announced [OF before] crtc count connectors obtain b where
    log1: "x_log s1 = x_log s @ Recorded b True #
      map (\<lambda>i. Recorded (connector_record os (g_sequence s) fd (cr_crtc_id v) connectors i) True) [0..<length connectors]"
    and b: "t_phase b = HDMI_LOS_TRACE_BEFORE" "t_sequence b = g_sequence s" "t_request b = os_request_code os ?req"
      "t_argument b ! 0 = ucast (cr_crtc_id v)" "t_argument b ! 1 = ucast (cr_fb_id v)"
      "t_argument b ! 3 = ucast (cr_mode_valid v)"
    by auto
  from trace_before_Done [OF before] acked have n: "n = g_sequence s" by auto
  have call: "os_ioctl os (x_calls s1) fd ?req argument (x_mem s1) = (k, e, mem)"
    using undisturbed_Done [OF undisturbed_trace_steps(1) before] kernel by (simp add: undisturbed_def)
  from rest obtain s2 s3 where
    closed: "close_request os True n fd ?req argument k (if k < 0 then e else 0) s2 = Done () s3"
    and log2: "x_log s2 = x_log s1 @ [Ioctl fd ?req argument k]" and log3: "x_log s' = x_log s3" and r: "r = k"
    unfolding perform_request_plain [OF call plain] andthen_Done
    by (auto simp: leave_ioctl_def prog_defs log_event_def)
  from closed obtain a where log: "x_log s3 = x_log s2 @ [Recorded a True]"
    and a: "t_phase a = HDMI_LOS_TRACE_AFTER" "t_sequence a = n" "t_request a = os_request_code os ?req"
      "t_result a = word_of_int k"
    by (auto simp: close_request_def trace_after_def andthen_Done bnd_Done Process_Monad.gets_def ret_def
      dest!: exchange_or_exit_Done)
  show ?thesis
    by (rule that [of b a]) (use reported_append [of s' s] log log1 log2 log3 n b a r in simp_all)
qed


subsection \<open>Claim\<close>

text \<open>
  C3. A commit that the tracer intercepts is judged by the agent's observer as the kernel judged
  it. Let a process under the tracer call SETCRTC with a framebuffer, a mode and a readable list of
  connectors on the CRTC the agent expects, let the kernel answer \<open>k\<close> without the fallback for
  EINVAL, and let the call return. Then the records exchanged during the call, fed to the observer in
  order from the state \<open>start_xorg\<close> prepares, leave the commit confirmed exactly if the kernel
  accepted it and the connector the agent expects is in the list, otherwise failed, and the
  framebuffer recorded for the readback is the one of the call.
\<close>

theorem traced_commit_confirmed:
  assumes "ioctl os fd DRM_IOCTL_MODE_SETCRTC argument s = Done r s'"
    and "intercepts s DRM_IOCTL_MODE_SETCRTC" and "all_acked (x_log s)"
    and "os_ioctl os (x_calls s) fd DRM_IOCTL_MODE_SETCRTC argument (x_mem s) = (k, e, mem)"
    and k: "k = 0 \<or> k = - 1 \<and> e \<noteq> EINVAL"
    and "safe_copy (rd_crtc (x_mem s)) argument = Some v"
    and enabled: "cr_crtc_id v \<noteq> 0" "cr_fb_id v \<noteq> 0" "cr_mode_valid v \<noteq> 0"
    and "cr_count_connectors v \<le> kMaxCrtcConnectors"
    and "safe_copy_array (rd_u32s (x_mem s)) (cr_set_connectors_ptr v)
      (unat (cr_count_connectors v)) = Some connectors"
    and sequence: "g_sequence s \<noteq> 0" and code: "a_setcrtc agent = os_request_code os DRM_IOCTL_MODE_SETCRTC"
  shows "let t = fold observe_scanout_record (reported s s') (expect_scanout connector_id (cr_crtc_id v) agent) in
    (g_scanout_confirmed t \<longleftrightarrow> k = 0 \<and> connector_id \<in> set connectors) \<and>
    (g_scanout_failed t \<longleftrightarrow> \<not> g_scanout_confirmed t) \<and> g_scanout_fb t = cr_fb_id v"
proof -
  have plain: "\<not> (k < 0 \<and> e = EINVAL \<and> DRM_IOCTL_MODE_SETCRTC = DRM_IOCTL_MODE_SETCRTC)" using k by auto
  from setcrtc_reported [OF assms(1-4) plain assms(6,10,11)] obtain b a where
    told: "reported s s' = b # map (connector_record os (g_sequence s) fd (cr_crtc_id v) connectors) [0..<length connectors] @ [a]"
    and b: "t_phase b = HDMI_LOS_TRACE_BEFORE" "t_sequence b = g_sequence s"
      "t_request b = os_request_code os DRM_IOCTL_MODE_SETCRTC" "t_argument b ! 0 = ucast (cr_crtc_id v)"
      "t_argument b ! 1 = ucast (cr_fb_id v)" "t_argument b ! 3 = ucast (cr_mode_valid v)"
    and a: "t_phase a = HDMI_LOS_TRACE_AFTER" "t_sequence a = g_sequence s"
      "t_request a = os_request_code os DRM_IOCTL_MODE_SETCRTC" "t_result a = word_of_int k"
    by blast
  have "t_result a = 0 \<longleftrightarrow> k = 0" using a(4) k by auto
  moreover have "g_scanout_confirmed t = sc_confirmed (scanout_of t)" "g_scanout_failed t = sc_failed (scanout_of t)"
      "g_scanout_fb t = sc_fb (scanout_of t)" for t
    by (simp_all add: scanout_of_def)
  ultimately show ?thesis
    using observe_commit [OF enabled(1) sequence enabled(2,3) refl b a(1-3) refl, where connector_id = connector_id] told code
    by (simp add: Let_def scanout_of_fold scanout_of_observe expect_scanout_fresh)
qed

text \<open>The commit of the witness: framebuffer 71 on CRTC 40 for connector 30.\<close>

definition commit_memory :: memory where
  "commit_memory = sample_memory\<lparr>rd_crtc := \<lambda>a. if a = 64 then Some (Drm_Trace_Claims.sample_crtc 71) else None,
     rd_u32s := \<lambda>a n. if a = 128 \<and> n = 1 then Some [30] else None\<rparr>"

definition commit_tracer :: tracer where
  "commit_tracer = (load_state commit_memory)\<lparr>g_trace_fd := 5\<rparr>"

theorem traced_commit_confirmed_witness:
  "\<exists>s'. ioctl (sample_os 0) 9 DRM_IOCTL_MODE_SETCRTC 64 commit_tracer = Done 0 s' \<and>
     g_scanout_confirmed (fold observe_scanout_record (reported commit_tracer s')
       (expect_scanout 30 40 ((new_agent agent_sample)\<lparr>a_setcrtc := 0xC010640C\<rparr>)))"
proof -
  let ?s = commit_tracer and ?a = "(new_agent agent_sample)\<lparr>a_setcrtc := 0xC010640C\<rparr>"
  obtain r s' where run: "ioctl (sample_os 0) 9 DRM_IOCTL_MODE_SETCRTC 64 ?s = Done r s'"
    by (rule sample_ioctl_returns)
  have facts: "intercepts ?s DRM_IOCTL_MODE_SETCRTC" "all_acked (x_log ?s)"
    "os_ioctl (sample_os 0) (x_calls ?s) 9 DRM_IOCTL_MODE_SETCRTC 64 (x_mem ?s) = (0, 0, x_mem ?s)"
    "safe_copy (rd_crtc (x_mem ?s)) 64 = Some (Drm_Trace_Claims.sample_crtc 71)"
    "safe_copy_array (rd_u32s (x_mem ?s)) (cr_set_connectors_ptr (Drm_Trace_Claims.sample_crtc 71))
      (unat (cr_count_connectors (Drm_Trace_Claims.sample_crtc 71))) = Some [30]"
    "g_sequence ?s \<noteq> 0"
    by (simp_all add: intercepts_def all_acked_def commit_tracer_def load_state_def sample_os_def
      commit_memory_def safe_copy_def safe_copy_array_def Drm_Trace_Claims.sample_crtc_def)
  have "r = 0" by (rule setcrtc_reported [OF run facts(1-3) _ facts(4) _ facts(5)]) (simp_all add: Drm_Trace_Claims.sample_crtc_def)
  with traced_commit_confirmed [OF run facts(1-3) _ facts(4) _ _ _ _ facts(5,6), where agent = ?a and connector_id = 30] run show ?thesis
    by (auto simp: Drm_Trace_Claims.sample_crtc_def sample_os_def Let_def)
qed


end
