(* ===== verification/Trace_Exchange.thy ===== *)
theory Trace_Exchange
  imports Drm_Trace_Claims Agent_Sample Broker_Sample
begin

section \<open>A record from the tracer to the broker and back\<close>

text \<open>
  The three programs a trace record passes through, composed: the tracer
  (\<open>src/native/drm-trace/drmtrace.c\<close>) sends it, the agent (\<open>src/native/agent/main.cpp\<close>) reports
  it to the broker (\<open>src/native/broker/main.cpp\<close>), and the answers come back the same way.
\<close>

lemma wf_progress_for: "wf_message (progress_for r)"
  by (simp add: progress_for_def wf_message_def zero_message_def zero_buf_def)

lemma valid_progress_for: "valid_message (progress_for r)"
  by (simp add: progress_for_def valid_message_def)

lemma write_full_unrefused: "write_full buffer [] = (True, buffer, [])"
  by simp

text \<open>The broker answers the report with an acknowledgement that the agent accepts.\<close>

definition progress_ack :: "hdmi_los_message \<Rightarrow> hdmi_los_message" where
  "progress_ack event = zero_message\<lparr>m_magic := HDMI_LOS_MAGIC, m_version := HDMI_LOS_BROKER_VERSION,
     m_opcode := HDMI_LOS_OP_AGENT_PROGRESS_ACK, m_request_id := m_request_id event, m_status := HDMI_LOS_OK,
     m_flags := m_flags event\<rparr>"

lemma progress_ack_accepted:
  "wf_message (progress_ack event)" "valid_message (progress_ack event)" "accepts_progress event (progress_ack event)"
  by (simp_all add: progress_ack_def wf_message_def zero_message_def zero_buf_def valid_message_def accepts_progress_def)

lemma broker_answers_progress:
  assumes "0 \<le> agent_fd b" "has_bits events POLLIN" "\<not> has_bits events POLLBAD"
    and "stream_bytes (w_agent_in b) = bytes_of_message (progress_for r) @ following_bytes" and "w_agent_send b = []"
  shows "wp (on_agent events) (\<lambda>u b'. w_log b' = w_log b @ [To_agent (progress_ack (progress_for r)) (- 1)] \<and>
    stream_bytes (w_agent_in b') = following_bytes \<and> active b' = active b) b"
proof -
  from read_full_message [OF wf_progress_for assms(4)] obtain rest where
    received: "read_full HDMI_LOS_MESSAGE_SIZE (w_agent_in b) = (True, bytes_of_message (progress_for r), rest)"
      "stream_bytes rest = following_bytes"
    by blast
  have "overlay (bytes_of_message (progress_for r)) zero_message = progress_for r"
    by (simp add: overlay_full wf_progress_for message_wire.length_enc message_wire.dec_enc)
  moreover have "m_opcode (progress_for r) = HDMI_LOS_OP_AGENT_PROGRESS" by (simp add: progress_for_def)
  ultimately show ?thesis
    using assms(1-3,5) received
    by (simp add: on_agent_def read_agent_def HandleAgentEvent_def make_message_def write_agent_def log_effect_def
      progress_ack_def valid_progress_for wp_simps Let_def)
qed

text \<open>The agent, given that answer, acknowledges the record.\<close>

lemma agent_relays_record:
  assumes "wf_record r" "valid_trace_record r" "0 \<le> g_trace a" "a_trace_polls a = CallOk (Some POLLIN) # polls"
    and "a_trace_in a = CallOk (bytes_of_record r) # more_records" "a_trace_send a = []" "a_broker_send a = []"
    and "a_broker_in a = CallOk (bytes_of_message ack, - 1) # answers"
    and "wf_message ack" "valid_message ack" "accepts_progress (progress_for r) ack"
  shows "wp relay_trace_record (\<lambda>ok t. ok \<and> a_log t = a_log a @ [From_tracer r, Told_broker (progress_for r),
    From_broker ack, Told_tracer (acknowledgement_for (g_trace_steady a) (t_sequence r))]) a"
proof -
  have "record_of_bytes (bytes_of_record r) = r" "length (bytes_of_record r) = TRACE_RECORD_SIZE"
      "message_of_bytes (bytes_of_message ack) = ack" "length (bytes_of_message ack) = HDMI_LOS_MESSAGE_SIZE"
    using assms(1,9) by (simp_all add: record_wire.dec_enc record_wire.length_enc message_wire.dec_enc message_wire.length_enc)
  moreover have "has_bits POLLIN POLLIN" by (simp add: has_bits_def)
  moreover have "g_trace_steady (observe_scanout_record r s) = g_trace_steady s"
      "a_broker_in (observe_scanout_record r s) = a_broker_in s" "a_broker_send (observe_scanout_record r s) = a_broker_send s"
      "a_trace_send (observe_scanout_record r s) = a_trace_send s" "a_log (observe_scanout_record r s) = a_log s" for s
    by (simp_all add: observe_scanout_record_def)
  ultimately show ?thesis
    using assms
    by (simp add: relay_trace_record_def trace_poll_def trace_recv_def relay_received_def relay_record_def
      forward_trace_record_def report_progress_def write_broker_def recv_message_def acknowledge_trace_record_def
      log_act_def whenever_def wp_simps Let_def)
qed


lemma acknowledgement_validates:
  assumes "wf_record r"
  shows "valid_ack (bytes_of_record (acknowledgement_for announced (t_sequence r))) r"
    "has_bits (t_flags (record_of_bytes (bytes_of_record (acknowledgement_for announced (t_sequence r)))))
       HDMI_LOS_TRACE_ACK_STEADY = announced"
proof -
  let ?ack = "acknowledgement_for announced (t_sequence r)"
  have "wf_record ?ack" by (simp add: acknowledgement_for_def wf_record_def zero_record_def zero_buf_def)
  then have "record_of_bytes (bytes_of_record ?ack) = ?ack" "length (bytes_of_record ?ack) = TRACE_RECORD_SIZE"
    by (simp_all add: record_wire.dec_enc record_wire.length_enc)
  then show "valid_ack (bytes_of_record ?ack) r"
      "has_bits (t_flags (record_of_bytes (bytes_of_record ?ack))) HDMI_LOS_TRACE_ACK_STEADY = announced"
    by (simp_all add: valid_ack_def acknowledgement_for_def has_bits_def)
qed

text \<open>An exchange of the tracer in which the record is taken whole and \<open>told\<close> comes back.\<close>

definition answered_with :: "hdmi_los_trace_record \<Rightarrow> exchange" where
  "answered_with told = \<lparr>io_send = [CallOk (int TRACE_RECORD_SIZE)], io_poll = [CallOk (1, POLLIN)],
     io_recv = [CallOk (bytes_of_record told)]\<rparr>"

lemma answered_verdict:
  "wf_record r \<Longrightarrow> exchange_verdict (answered_with (acknowledgement_for announced (t_sequence r))) r = Some (True, announced)"
  using acknowledgement_validates [of r announced]
  by (simp add: exchange_verdict_def answered_with_def wait_readable_def Let_def has_bits_def)

subsection \<open>Claim\<close>

text \<open>
  C2. A record makes its way through all three programs and the traced process goes on. Let the
  trace socket deliver a valid record to the agent and the sockets take what is sent; let the
  broker's stream from the agent go on with the report the agent writes; and let the agent receive
  what the broker then sent last. Then the agent's relay succeeds, having logged exactly the record,
  its report, the broker's answer and an acknowledgement; the acknowledgement ends the tracer's
  exchange for that record with success, announcing the steady state exactly if the agent is in it;
  and the broker consumed the report and nothing else, and runs its session on.
\<close>

theorem trace_exchange_completes:
  assumes "wf_record r" and "valid_trace_record r" and "0 \<le> g_trace a"
    and "a_trace_polls a = CallOk (Some POLLIN) # polls" and "a_trace_in a = CallOk (bytes_of_record r) # packets"
    and "a_trace_send a = []" and "a_broker_send a = []"
    and "0 \<le> agent_fd b" and "has_bits events POLLIN" and "\<not> has_bits events POLLBAD" and "w_agent_send b = []"
    and "stream_bytes (w_agent_in b) = bytes_of_message (progress_for r) @ following_bytes"
    and "b' = snd (run_state (on_agent events) b)" and "last (w_log b') = To_agent ack (- 1)"
    and "a_broker_in a = CallOk (bytes_of_message ack, - 1) # answers"
  shows "fst (run_state relay_trace_record a) \<and>
    (\<exists>told. a_log (snd (run_state relay_trace_record a)) =
        a_log a @ [From_tracer r, Told_broker (progress_for r), From_broker ack, Told_tracer told] \<and>
      exchange_verdict (answered_with told) r = Some (True, g_trace_steady a)) \<and>
    stream_bytes (w_agent_in b') = following_bytes \<and> active b' = active b"
proof -
  have broker: "w_log b' = w_log b @ [To_agent (progress_ack (progress_for r)) (- 1)]"
      "stream_bytes (w_agent_in b') = following_bytes" "active b' = active b"
    using broker_answers_progress [OF assms(8-10,12,11)] assms(13) by (simp_all add: wp_def split_def)
  then have ack: "ack = progress_ack (progress_for r)" using assms(14) by simp
  have "fst (run_state relay_trace_record a)"
      "a_log (snd (run_state relay_trace_record a)) = a_log a @ [From_tracer r, Told_broker (progress_for r),
         From_broker ack, Told_tracer (acknowledgement_for (g_trace_steady a) (t_sequence r))]"
    using agent_relays_record [OF assms(1-7,15)] progress_ack_accepted ack by (simp_all add: wp_def split_def)
  with broker answered_verdict [OF assms(1)] show ?thesis by blast
qed

text \<open>The witness: the agent reports the announcement of a tracer to a broker with a registered agent.\<close>

definition loaded_record :: hdmi_los_trace_record where
  "loaded_record = zero_record\<lparr>t_magic := HDMI_LOS_TRACE_MAGIC, t_version := HDMI_LOS_TRACE_VERSION,
     t_phase := HDMI_LOS_TRACE_LOADED\<rparr>"

definition relaying_agent :: agent where
  "relaying_agent = (new_agent agent_sample)\<lparr>g_trace := 6, a_trace_in := [CallOk (bytes_of_record loaded_record)],
     a_broker_in := [CallOk (bytes_of_message (progress_ack (progress_for loaded_record)), - 1)]\<rparr>"

definition reporting_broker :: broker where
  "reporting_broker = (new_broker quiet_world)
     \<lparr>agent_fd := 10, w_agent_in := [CallOk (bytes_of_message (progress_for loaded_record))]\<rparr>"

theorem trace_exchange_completes_witness:
  "\<exists>told. exchange_verdict (answered_with told) loaded_record = Some (True, False) \<and>
     Told_tracer told \<in> set (a_log (snd (run_state relay_trace_record relaying_agent)))"
proof -
  let ?r = loaded_record and ?a = relaying_agent and ?b = reporting_broker
  let ?ack = "progress_ack (progress_for ?r)" and ?b' = "snd (run_state (on_agent POLLIN) reporting_broker)"
  have r: "wf_record ?r" "valid_trace_record ?r"
    by (simp_all add: loaded_record_def wf_record_def zero_record_def zero_buf_def valid_trace_record_def)
  have a: "0 \<le> g_trace ?a" "a_trace_polls ?a = CallOk (Some POLLIN) # replicate 3 (CallOk (Some POLLIN))"
      "a_trace_in ?a = [CallOk (bytes_of_record ?r)]" "a_trace_send ?a = []" "a_broker_send ?a = []"
      "a_broker_in ?a = [CallOk (bytes_of_message ?ack, - 1)]" "g_trace_steady ?a = False"
    by (simp_all add: relaying_agent_def new_agent_def agent_world.defs agent_sample_def eval_nat_numeral)
  have nonempty: "bytes_of_message (progress_for ?r) \<noteq> []"
    using message_wire.length_enc [OF wf_progress_for, of ?r] by auto
  then have b: "0 \<le> agent_fd ?b" "has_bits POLLIN POLLIN" "\<not> has_bits POLLIN POLLBAD" "w_agent_send ?b = []"
      "stream_bytes (w_agent_in ?b) = bytes_of_message (progress_for ?r) @ []"
    by (simp_all add: reporting_broker_def new_broker_def world.defs quiet_world_def has_bits_def POLLBAD_def)
  have "last (w_log ?b') = To_agent ?ack (- 1)"
    using broker_answers_progress [OF b(1-3,5,4)] by (simp add: wp_def split_def)
  from trace_exchange_completes [OF r a(1-5) b refl this a(6)] a(7) show ?thesis by auto
qed


end
