(* ===== verification/Zero_Copy_Probe.thy ===== *)
theory Zero_Copy_Probe
  imports State_Steps C_Text
begin

section \<open>The zero-copy probe\<close>

text \<open>
  Model of \<open>src/native/probes/kms-kgsl-zero-copy.c\<close>: the steps of \<open>main\<close> that take a dumb buffer
  from KMS through PRIME and KGSL to a framebuffer, and what \<open>out:\<close> gives back. The answers of the
  kernel are the fields of a world; what the program does is a log, in which the requests that give
  something back carry whether the kernel granted them. A step returns whether the
  program goes on; otherwise it jumps to \<open>out\<close>.
\<close>

subsection \<open>State\<close>

datatype zero_copy_act =
    Open_card string int
  | Create_dumb int u32
  | Export_prime int u32 int
  | Map_dumb int u32
  | Map_memory int u64
  | Fill_memory u64
  | Open_kgsl int
  | Import_object int int u32
  | Add_framebuffer int u32 u32
  | Remove_framebuffer int u32 bool
  | Free_object int u32 bool
  | Unmap_memory u64
  | Close_descriptor int
  | Destroy_dumb int u32 bool
  | Print_line string
  | Report_error string

record zero_copy_world =
  zw_open_card :: int
  zw_create :: "(u32 \<times> u32 \<times> u64) option"
  zw_prime :: "int option"
  zw_map :: "u64 option"
  zw_mmap :: bool
  zw_open_kgsl :: int
  zw_import :: "u32 option"
  zw_add_modifiers :: "u32 option"
  zw_add :: "u32 option"
  zw_remove :: bool
  zw_free :: bool
  zw_destroy :: bool

record zero_copy = zero_copy_world +
  z_handle :: u32
  z_pitch :: u32
  z_size :: u64
  z_destroy_handle :: u32
  z_free_id :: u32
  z_framebuffer :: u32
  z_mapping :: bool
  z_card :: int
  z_kgsl :: int
  z_prime :: int
  z_log :: "zero_copy_act list"

definition new_zero_copy :: "zero_copy_world \<Rightarrow> zero_copy" where
  "new_zero_copy w = zero_copy_world.extend w
     \<lparr>z_handle = 0, z_pitch = 0, z_size = 0, z_destroy_handle = 0, z_free_id = 0, z_framebuffer = 0,
      z_mapping = False, z_card = - 1, z_kgsl = - 1, z_prime = - 1, z_log = []\<rparr>"

definition did :: "zero_copy_act \<Rightarrow> (zero_copy, unit) state" where
  "did act = modify (\<lambda>s. s\<lparr>z_log := z_log s @ [act]\<rparr>)"

definition report_errno :: "string \<Rightarrow> (zero_copy, bool) state" where
  "report_errno operation = do { did (Report_error operation); return False }"

subsection \<open>The steps\<close>

definition open_card :: "string \<Rightarrow> (zero_copy, bool) state" where
  "open_card card_path = do {
     card \<leftarrow> gets zw_open_card;
     modify (\<lambda>s. s\<lparr>z_card := card\<rparr>);
     if card < 0 then report_errno ''open card0''
     else do { did (Open_card card_path card); return True }
   }"

definition create_dumb :: "string \<Rightarrow> (zero_copy, bool) state" where
  "create_dumb card_path = do {
     card \<leftarrow> gets z_card;
     answer \<leftarrow> gets zw_create;
     case answer of
       None \<Rightarrow> report_errno ''DRM create dumb''
     | Some (handle, pitch, siz) \<Rightarrow> do {
         did (Create_dumb card handle);
         modify (\<lambda>s. s\<lparr>z_handle := handle, z_pitch := pitch, z_size := siz, z_destroy_handle := handle\<rparr>);
         did (Print_line (''PASS create dumb              device='' @ card_path @ '' handle='' @ show_u handle @
           '' pitch='' @ show_u pitch @ '' size='' @ show_u siz));
         return True
       }
   }"

definition export_prime :: "(zero_copy, bool) state" where
  "export_prime = do {
     card \<leftarrow> gets z_card;
     handle \<leftarrow> gets z_handle;
     answer \<leftarrow> gets zw_prime;
     case answer of
       None \<Rightarrow> report_errno ''DRM PRIME export''
     | Some prime \<Rightarrow> do {
         did (Export_prime card handle prime);
         modify (\<lambda>s. s\<lparr>z_prime := prime\<rparr>);
         did (Print_line (''PASS PRIME export             fd='' @ show_int prime));
         return True
       }
   }"

definition map_dumb :: "(zero_copy, bool) state" where
  "map_dumb = do {
     card \<leftarrow> gets z_card;
     handle \<leftarrow> gets z_handle;
     answer \<leftarrow> gets zw_map;
     case answer of
       None \<Rightarrow> report_errno ''DRM map dumb''
     | Some offset \<Rightarrow> do {
         did (Map_dumb card handle);
         mapped \<leftarrow> gets zw_mmap;
         if \<not> mapped then report_errno ''mmap dumb''
         else do {
           siz \<leftarrow> gets z_size;
           did (Map_memory card siz);
           modify (\<lambda>s. s\<lparr>z_mapping := True\<rparr>);
           did (Fill_memory siz);
           did (Print_line (''PASS CPU map                  offset='' @ show_u offset));
           return True
         }
       }
   }"

definition open_kgsl :: "(zero_copy, bool) state" where
  "open_kgsl = do {
     kgsl \<leftarrow> gets zw_open_kgsl;
     modify (\<lambda>s. s\<lparr>z_kgsl := kgsl\<rparr>);
     if kgsl < 0 then report_errno ''open kgsl''
     else do { did (Open_kgsl kgsl); return True }
   }"

definition import_object :: "(zero_copy, bool) state" where
  "import_object = do {
     kgsl \<leftarrow> gets z_kgsl;
     prime \<leftarrow> gets z_prime;
     answer \<leftarrow> gets zw_import;
     case answer of
       None \<Rightarrow> report_errno ''KGSL dma-buf import''
     | Some object \<Rightarrow> do {
         did (Import_object kgsl prime object);
         modify (\<lambda>s. s\<lparr>z_free_id := object\<rparr>);
         did (Print_line (''PASS KGSL import              id='' @ show_u object));
         return True
       }
   }"

text \<open>First with an explicit linear modifier, then without.\<close>

definition framebuffer_added :: "u32 \<Rightarrow> string \<Rightarrow> (zero_copy, bool) state" where
  "framebuffer_added framebuffer how = do {
     card \<leftarrow> gets z_card;
     handle \<leftarrow> gets z_handle;
     did (Add_framebuffer card handle framebuffer);
     modify (\<lambda>s. s\<lparr>z_framebuffer := framebuffer\<rparr>);
     did (Print_line (''PASS KMS framebuffer          id='' @ show_u framebuffer @ '' ('' @ how @ '' linear)''));
     return True
   }"

definition add_framebuffer :: "(zero_copy, bool) state" where
  "add_framebuffer = do {
     answer \<leftarrow> gets zw_add_modifiers;
     case answer of
       Some framebuffer \<Rightarrow> framebuffer_added framebuffer ''explicit''
     | None \<Rightarrow> do {
         answer \<leftarrow> gets zw_add;
         case answer of
           None \<Rightarrow> report_errno ''DRM add framebuffer''
         | Some framebuffer \<Rightarrow> framebuffer_added framebuffer ''implicit''
       }
   }"

text \<open>Steps in order, up to the first that jumps to \<open>out\<close>.\<close>

fun until_out :: "(zero_copy, bool) state list \<Rightarrow> (zero_copy, bool) state" where
  "until_out [] = return True"
| "until_out (m # ms) = do {
     ok \<leftarrow> m;
     if ok then until_out ms else return False
   }"

definition out :: "(zero_copy, unit) state" where
  "out = do {
     s \<leftarrow> gets id;
     whenever (z_framebuffer s \<noteq> 0) (did (Remove_framebuffer (z_card s) (z_framebuffer s) (zw_remove s)));
     whenever (z_free_id s \<noteq> 0 \<and> 0 \<le> z_kgsl s) (do {
       did (Free_object (z_kgsl s) (z_free_id s) (zw_free s));
       whenever (\<not> zw_free s) (did (Report_error ''KGSL free''))
     });
     whenever (z_mapping s) (did (Unmap_memory (z_size s)));
     whenever (0 \<le> z_prime s) (did (Close_descriptor (z_prime s)));
     whenever (z_destroy_handle s \<noteq> 0 \<and> 0 \<le> z_card s) (do {
       did (Destroy_dumb (z_card s) (z_destroy_handle s) (zw_destroy s));
       whenever (\<not> zw_destroy s) (did (Report_error ''DRM destroy dumb''))
     });
     whenever (0 \<le> z_kgsl s) (did (Close_descriptor (z_kgsl s)));
     whenever (0 \<le> z_card s) (did (Close_descriptor (z_card s)))
   }"

definition zero_copy_main :: "string list \<Rightarrow> (zero_copy, int) state" where
  "zero_copy_main argv = do {
     let card_path = (if 1 < length argv then argv ! 1 else ''/dev/dri/card0'');
     supported \<leftarrow> until_out [open_card card_path, create_dumb card_path, export_prime, map_dumb, open_kgsl,
       import_object, add_framebuffer];
     whenever supported (did (Print_line ''RESULT zero-copy allocation path is supported''));
     out;
     return (if supported then 0 else 1)
   }"


subsection \<open>Lifetimes\<close>

text \<open>
  What an act needs, what it acquires, what it is to give back and what it does give back: a
  request the kernel refuses gives nothing back.
\<close>

datatype resource = Descriptor int | Dumb u32 | Mapping u64 | Object u32 | Framebuffer u32

fun needs :: "zero_copy_act \<Rightarrow> resource set" where
  "needs (Create_dumb fd handle) = {Descriptor fd}"
| "needs (Export_prime fd handle prime) = {Descriptor fd, Dumb handle}"
| "needs (Map_dumb fd handle) = {Descriptor fd, Dumb handle}"
| "needs (Map_memory fd siz) = {Descriptor fd}"
| "needs (Fill_memory siz) = {Mapping siz}"
| "needs (Import_object kgsl prime object) = {Descriptor kgsl, Descriptor prime}"
| "needs (Add_framebuffer fd handle framebuffer) = {Descriptor fd, Dumb handle}"
| "needs (Remove_framebuffer fd framebuffer ok) = {Descriptor fd}"
| "needs (Free_object kgsl object ok) = {Descriptor kgsl}"
| "needs (Destroy_dumb fd handle ok) = {Descriptor fd}"
| "needs _ = {}"

fun acquires :: "zero_copy_act \<Rightarrow> resource set" where
  "acquires (Open_card card_path fd) = {Descriptor fd}"
| "acquires (Create_dumb fd handle) = {Dumb handle}"
| "acquires (Export_prime fd handle prime) = {Descriptor prime}"
| "acquires (Map_memory fd siz) = {Mapping siz}"
| "acquires (Open_kgsl kgsl) = {Descriptor kgsl}"
| "acquires (Import_object kgsl prime object) = {Object object}"
| "acquires (Add_framebuffer fd handle framebuffer) = {Framebuffer framebuffer}"
| "acquires _ = {}"

fun hands_over :: "zero_copy_act \<Rightarrow> resource set" where
  "hands_over (Remove_framebuffer fd framebuffer ok) = {Framebuffer framebuffer}"
| "hands_over (Free_object kgsl object ok) = {Object object}"
| "hands_over (Unmap_memory siz) = {Mapping siz}"
| "hands_over (Close_descriptor fd) = {Descriptor fd}"
| "hands_over (Destroy_dumb fd handle ok) = {Dumb handle}"
| "hands_over _ = {}"

fun refused :: "zero_copy_act \<Rightarrow> bool" where
  "refused (Remove_framebuffer fd framebuffer ok) = (\<not> ok)"
| "refused (Free_object kgsl object ok) = (\<not> ok)"
| "refused (Destroy_dumb fd handle ok) = (\<not> ok)"
| "refused _ = False"

text \<open>
  A log is sound from what the program has to hand over: an act uses and hands over only such things,
  acquires only what is not among them, and at the end there is none. What is left then is what was
  acquired and not given back.
\<close>

fun sound_lifetimes :: "zero_copy_act list \<Rightarrow> resource set \<Rightarrow> bool" where
  "sound_lifetimes [] held \<longleftrightarrow> held = {}"
| "sound_lifetimes (act # acts) held \<longleftrightarrow> needs act \<subseteq> held \<and> hands_over act \<subseteq> held \<and> acquires act \<inter> held = {} \<and>
     sound_lifetimes acts (held - hands_over act \<union> acquires act)"

fun left_behind :: "zero_copy_act list \<Rightarrow> resource set \<Rightarrow> resource set" where
  "left_behind [] left = left"
| "left_behind (act # acts) left =
     left_behind acts (if refused act then left else left - hands_over act \<union> acquires act)"

text \<open>
  What the kernel promises: a new descriptor is none that is open, and identifiers of buffers,
  objects and framebuffers are not zero.
\<close>

definition kernel_promises :: "zero_copy_world \<Rightarrow> bool" where
  "kernel_promises w \<longleftrightarrow>
     (case zw_create w of None \<Rightarrow> True | Some (handle, pitch, siz) \<Rightarrow> handle \<noteq> 0) \<and>
     (case zw_prime w of None \<Rightarrow> True | Some prime \<Rightarrow> 0 \<le> prime \<and> prime \<noteq> zw_open_card w \<and> prime \<noteq> zw_open_kgsl w) \<and>
     zw_open_kgsl w \<noteq> zw_open_card w \<and> zw_import w \<noteq> Some 0 \<and> zw_add_modifiers w \<noteq> Some 0 \<and> zw_add w \<noteq> Some 0"

text \<open>Where a run ends, and the lemmas that compute it.\<close>

lemma zero_copy_outcomes:
  obtains (no_card) "zw_open_card w < 0"
  | (no_buffer) "0 \<le> zw_open_card w" "zw_create w = None"
  | (no_prime) handle pitch siz where "0 \<le> zw_open_card w" "zw_create w = Some (handle, pitch, siz)" "zw_prime w = None"
  | (no_mapping) handle pitch siz prime where "0 \<le> zw_open_card w" "zw_create w = Some (handle, pitch, siz)"
      "zw_prime w = Some prime" "zw_map w = None \<or> zw_mmap w = False"
  | (no_kgsl) handle pitch siz prime offset where "0 \<le> zw_open_card w" "zw_create w = Some (handle, pitch, siz)"
      "zw_prime w = Some prime" "zw_map w = Some offset" "zw_mmap w" "zw_open_kgsl w < 0"
  | (no_import) handle pitch siz prime offset where "0 \<le> zw_open_card w" "zw_create w = Some (handle, pitch, siz)"
      "zw_prime w = Some prime" "zw_map w = Some offset" "zw_mmap w" "0 \<le> zw_open_kgsl w" "zw_import w = None"
  | (imported) handle pitch siz prime offset object where "0 \<le> zw_open_card w" "zw_create w = Some (handle, pitch, siz)"
      "zw_prime w = Some prime" "zw_map w = Some offset" "zw_mmap w" "0 \<le> zw_open_kgsl w" "zw_import w = Some object"
  by (cases "zw_open_card w < 0"; cases "zw_open_kgsl w < 0"; cases "zw_create w"; cases "zw_prime w"; cases "zw_map w";
      cases "zw_mmap w"; cases "zw_import w") auto

lemmas zero_copy_run = zero_copy_main_def out_def open_card_def create_dumb_def export_prime_def map_dumb_def open_kgsl_def
  import_object_def add_framebuffer_def framebuffer_added_def report_errno_def did_def wp_simps Let_def
  new_zero_copy_def zero_copy_world.defs


text \<open>A kernel without modifiers and without room for another framebuffer, which keeps the GPU object.\<close>

definition full_kernel :: zero_copy_world where
  "full_kernel = \<lparr>zw_open_card = 3, zw_create = Some (1, 256, 16384), zw_prime = Some 4, zw_map = Some 4096, zw_mmap = True,
     zw_open_kgsl = 5, zw_import = Some 9, zw_add_modifiers = None, zw_add = None, zw_remove = True, zw_free = False,
     zw_destroy = True\<rparr>"


end
