(* ===== verification/Cursor_Probe.thy ===== *)
theory Cursor_Probe
  imports C_Text
begin

section \<open>The cursor stress probe\<close>

text \<open>
  Model of \<open>src/native/probes/x11-cursor-stress.c\<close>: its options, the path of the pointer and the
  paced loop of \<open>main\<close>. Whether the X server answers, its extensions and the readings of the clock
  are a world; what the program asks of the server, its absolute sleeps and its summary are a log.
  Counts that the checked options keep far below their width (at most 10000 motions a second
  for 10000 seconds) are natural numbers, times are integers.
\<close>

subsection \<open>Options\<close>

record cursor_options =
  co_seconds :: int
  co_hz :: int
  co_x :: int
  co_y :: int
  co_width :: int
  co_height :: int
  co_hide :: bool

definition cursor_defaults :: cursor_options where
  "cursor_defaults = \<lparr>co_seconds = 15, co_hz = 120, co_x = 120, co_y = 120, co_width = 640, co_height = 420, co_hide = False\<rparr>"

definition parse_positive_int :: "int \<Rightarrow> string \<Rightarrow> int option" where
  "parse_positive_int most s =
     (let (parsed, rest, range) = c_strtol s
      in if range \<or> rest \<noteq> [] \<or> parsed \<le> 0 \<or> most < parsed then None else Some parsed)"

text \<open>\<open>%d\<close>: read as a \<open>long\<close>, kept in 32 bits.\<close>

definition scan_d :: "string \<Rightarrow> (int \<times> string) option" where
  "scan_d s =
     (case scan_signed s of
        None \<Rightarrow> None
      | Some r \<Rightarrow> let (v, rest, range) = c_strtol s in Some (sint (word_of_int v :: u32), rest))"

definition scan_comma :: "string \<Rightarrow> string option" where
  "scan_comma s = (if s \<noteq> [] \<and> hd s = CHR '','' then Some (tl s) else None)"

text \<open>\<open>"%d,%d,%d,%d%c"\<close> with exactly four conversions.\<close>

definition parse_box :: "string \<Rightarrow> (int \<times> int \<times> int \<times> int) option" where
  "parse_box s =
     do {
       (x, s1) \<leftarrow> scan_d s;
       s2 \<leftarrow> scan_comma s1;
       (y, s3) \<leftarrow> scan_d s2;
       s4 \<leftarrow> scan_comma s3;
       (width, s5) \<leftarrow> scan_d s4;
       s6 \<leftarrow> scan_comma s5;
       (height, s7) \<leftarrow> scan_d s6;
       (if s7 = [] \<and> 0 \<le> x \<and> 0 \<le> y \<and> 1 < width \<and> 1 < height then Some (x, y, width, height) else None)
     }"

text \<open>The loop over the arguments: an exit status, or the options.\<close>

fun cursor_arguments :: "string list \<Rightarrow> cursor_options \<Rightarrow> int + cursor_options" where
  "cursor_arguments [] opts = Inr opts"
| "cursor_arguments (a # rest) opts =
     (if a = ''--seconds'' \<and> rest \<noteq> [] then
        (case parse_positive_int 10000 (hd rest) of
           None \<Rightarrow> Inl 2
         | Some n \<Rightarrow> cursor_arguments (tl rest) (opts\<lparr>co_seconds := n\<rparr>))
      else if a = ''--hz'' \<and> rest \<noteq> [] then
        (case parse_positive_int 10000 (hd rest) of
           None \<Rightarrow> Inl 2
         | Some n \<Rightarrow> cursor_arguments (tl rest) (opts\<lparr>co_hz := n\<rparr>))
      else if a = ''--box'' \<and> rest \<noteq> [] then
        (case parse_box (hd rest) of
           None \<Rightarrow> Inl 2
         | Some (x, y, width, height) \<Rightarrow>
             cursor_arguments (tl rest) (opts\<lparr>co_x := x, co_y := y, co_width := width, co_height := height\<rparr>))
      else if a = ''--help'' then Inl 0
      else if a = ''--hide-cursor'' then cursor_arguments rest (opts\<lparr>co_hide := True\<rparr>)
      else Inl 2)"

subsection \<open>The path\<close>

definition perimeter :: "cursor_options \<Rightarrow> nat" where
  "perimeter opts = 2 * nat (co_width opts - 1) + 2 * nat (co_height opts - 1)"

text \<open>A sum in \<open>int\<close>: \<open>None\<close> is a signed overflow, which C leaves undefined.\<close>

definition c_int :: "int \<Rightarrow> int option" where
  "c_int v = (if - (2 ^ 31) \<le> v \<and> v < 2 ^ 31 then Some v else None)"

definition far_edge :: "int \<Rightarrow> int \<Rightarrow> int option" where
  "far_edge start extent = do { beyond \<leftarrow> c_int (start + extent); c_int (beyond - 1) }"

definition cursor_position :: "cursor_options \<Rightarrow> nat \<Rightarrow> (int \<times> int) option" where
  "cursor_position opts submitted =
     (let phase = submitted mod perimeter opts; across = nat (co_width opts - 1); down = nat (co_height opts - 1)
      in if phase < across then do {
           x \<leftarrow> c_int (co_x opts + int phase);
           Some (x, co_y opts)
         }
         else if phase - across < down then do {
           x \<leftarrow> far_edge (co_x opts) (co_width opts);
           y \<leftarrow> c_int (co_y opts + int (phase - across));
           Some (x, y)
         }
         else if phase - across - down < across then do {
           right \<leftarrow> far_edge (co_x opts) (co_width opts);
           x \<leftarrow> c_int (right - int (phase - across - down));
           y \<leftarrow> far_edge (co_y opts) (co_height opts);
           Some (x, y)
         }
         else do {
           bottom \<leftarrow> far_edge (co_y opts) (co_height opts);
           y \<leftarrow> c_int (bottom - int (phase - across - down - across));
           Some (co_x opts, y)
         })"

subsection \<open>The paced loop\<close>

datatype cursor_act =
    Hide_cursor
  | Move_pointer int int
  | Sleep_until int int
  | Summary nat int int
  | Show_cursor
  | Close_display
  | Complain string

record cursor_world =
  cw_display :: bool
  cw_xtest :: bool
  cw_xfixes :: bool
  cw_clock :: "nat \<Rightarrow> int \<times> int"

record cursor = cursor_world +
  c_next :: int
  c_submitted :: nat
  c_worst :: int
  c_log :: "cursor_act list"

definition new_cursor :: "cursor_world \<Rightarrow> cursor" where
  "new_cursor w = cursor_world.extend w \<lparr>c_next = 0, c_submitted = 0, c_worst = 0, c_log = []\<rparr>"

definition cursor_log :: "cursor_act \<Rightarrow> cursor \<Rightarrow> cursor" where
  "cursor_log act s = s\<lparr>c_log := c_log s @ [act]\<rparr>"

text \<open>One reading of the clock in nanoseconds, and the state without it.\<close>

definition monotonic_ns :: "cursor \<Rightarrow> int \<times> cursor" where
  "monotonic_ns s = (let (sec, nsec) = cw_clock s 0 in (sec * 1000000000 + nsec, s\<lparr>cw_clock := \<lambda>n. cw_clock s (n + 1)\<rparr>))"

definition sleep_until_ns :: "int \<Rightarrow> cursor \<Rightarrow> cursor" where
  "sleep_until_ns deadline_ns = cursor_log (Sleep_until (deadline_ns div 1000000000) (deadline_ns mod 1000000000))"

definition cursor_step :: "cursor_options \<Rightarrow> int \<Rightarrow> cursor \<Rightarrow> cursor option" where
  "cursor_step opts period_ns s =
     (case cursor_position opts (c_submitted s) of
        None \<Rightarrow> None
      | Some (x, y) \<Rightarrow>
          let (submit_begin_ns, s1) = monotonic_ns s;
              s2 = cursor_log (Move_pointer x y) s1;
              (submit_end_ns, s3) = monotonic_ns s2;
              submit_ns = submit_end_ns - submit_begin_ns;
              s4 = s3\<lparr>c_worst := (if c_worst s3 < submit_ns then submit_ns else c_worst s3),
                      c_submitted := c_submitted s3 + 1, c_next := c_next s3 + period_ns\<rparr>
          in Some (sleep_until_ns (c_next s4) s4))"

text \<open>
  The loop: \<open>None\<close> if it does not end or a coordinate overflows, neither of which has a defined
  outcome.
\<close>

partial_function (option) cursor_loop :: "cursor_options \<Rightarrow> int \<Rightarrow> int \<Rightarrow> cursor \<Rightarrow> cursor option" where
  "cursor_loop opts period_ns end_ns s =
     (if c_next s < end_ns then Option.bind (cursor_step opts period_ns s) (cursor_loop opts period_ns end_ns)
      else Some s)"

definition cursor_run :: "cursor_options \<Rightarrow> cursor \<Rightarrow> (int \<times> cursor) option" where
  "cursor_run opts s =
     (let s1 = (if co_hide opts then cursor_log Hide_cursor s else s);
          period_ns = 1000000000 div co_hz opts;
          (started_ns, s2) = monotonic_ns s1;
          end_ns = started_ns + co_seconds opts * 1000000000
      in case cursor_loop opts period_ns end_ns (s2\<lparr>c_next := started_ns\<rparr>) of
           None \<Rightarrow> None
         | Some s3 \<Rightarrow>
             let (now, s4) = monotonic_ns s3;
                 s5 = cursor_log (Summary (c_submitted s4) (now - started_ns) (c_worst s4)) s4;
                 s6 = (if co_hide opts then cursor_log Show_cursor s5 else s5)
             in Some (0, cursor_log Close_display s6))"

definition cursor_main :: "string list \<Rightarrow> cursor_world \<Rightarrow> (int \<times> cursor) option" where
  "cursor_main arguments w =
     (let s = new_cursor w
      in case cursor_arguments arguments cursor_defaults of
           Inl status \<Rightarrow> Some (status, s)
         | Inr opts \<Rightarrow>
             if \<not> cw_display w then Some (1, cursor_log (Complain ''cannot open X display'') s)
             else if \<not> cw_xtest w then
               Some (1, cursor_log Close_display (cursor_log (Complain ''XTEST extension is unavailable'') s))
             else if co_hide opts \<and> \<not> cw_xfixes w then
               Some (1, cursor_log Close_display (cursor_log (Complain ''XFIXES extension is unavailable'') s))
             else cursor_run opts s)"


subsection \<open>The path is a closed walk along the border\<close>

definition checked_options :: "cursor_options \<Rightarrow> bool" where
  "checked_options opts \<longleftrightarrow> 0 < co_seconds opts \<and> co_seconds opts \<le> 10000 \<and> 0 < co_hz opts \<and> co_hz opts \<le> 10000 \<and>
     0 \<le> co_x opts \<and> 0 \<le> co_y opts \<and> 1 < co_width opts \<and> 1 < co_height opts"

lemma parse_positive_int_range: "parse_positive_int most s = Some n \<Longrightarrow> 0 < n \<and> n \<le> most"
  by (auto simp: parse_positive_int_def split: prod.splits if_splits)

lemma parse_box_range: "parse_box s = Some (x, y, width, height) \<Longrightarrow> 0 \<le> x \<and> 0 \<le> y \<and> 1 < width \<and> 1 < height"
  by (auto simp: parse_box_def split: Option.bind_splits prod.splits if_splits)

lemma cursor_arguments_checked:
  "cursor_arguments arguments opts = Inr opts' \<Longrightarrow> checked_options opts \<Longrightarrow> checked_options opts'"
proof (induction arguments opts rule: cursor_arguments.induct)
  case (2 a rest opts)
  then show ?case
    by (auto simp: checked_options_def split: if_splits option.splits
      dest!: parse_positive_int_range parse_box_range)
qed simp

lemma checked_defaults: "checked_options cursor_defaults"
  by (simp add: checked_options_def cursor_defaults_def)

definition border :: "cursor_options \<Rightarrow> (int \<times> int) set" where
  "border opts = {(x, y). co_x opts \<le> x \<and> x < co_x opts + co_width opts \<and> co_y opts \<le> y \<and> y < co_y opts + co_height opts \<and>
     (x = co_x opts \<or> x = co_x opts + co_width opts - 1 \<or> y = co_y opts \<or> y = co_y opts + co_height opts - 1)}"

fun adjacent :: "int \<times> int \<Rightarrow> int \<times> int \<Rightarrow> bool" where
  "adjacent (x, y) (x', y') \<longleftrightarrow> \<bar>x - x'\<bar> + \<bar>y - y'\<bar> = 1"

text \<open>The path as offsets from the corner, over the integers.\<close>

definition walk :: "int \<Rightarrow> int \<Rightarrow> int \<Rightarrow> int \<times> int" where
  "walk across down p =
     (if p < across then (p, 0)
      else if p < across + down then (across, p - across)
      else if p < across + down + across then (across - (p - across - down), down)
      else (0, down - (p - across - down - across)))"

lemma walk_border:
  assumes "0 < across" "0 < down" "0 \<le> p" "p < 2 * across + 2 * down" "walk across down p = (x, y)"
  shows "0 \<le> x \<and> x \<le> across \<and> 0 \<le> y \<and> y \<le> down \<and> (x = 0 \<or> x = across \<or> y = 0 \<or> y = down)"
  using assms by (auto simp: walk_def split: if_splits)

lemma walk_adjacent:
  assumes "0 < across" "0 < down" "0 \<le> p" "p < 2 * across + 2 * down" "walk across down p = (x, y)"
    "walk across down (if p + 1 = 2 * across + 2 * down then 0 else p + 1) = (x', y')"
  shows "\<bar>x - x'\<bar> + \<bar>y - y'\<bar> = 1"
  using assms by (auto simp: walk_def split: if_splits)

lemma walk_covers:
  assumes "0 < across" "0 < down" "0 \<le> x" "x \<le> across" "0 \<le> y" "y \<le> down" "x = 0 \<or> x = across \<or> y = 0 \<or> y = down"
  obtains p where "0 \<le> p" "p < 2 * across + 2 * down" "walk across down p = (x, y)"
proof -
  consider "y = 0" "x < across" | "x = across" "y < down" | "y = down" "0 < x" | "x = 0" "0 < y" using assms by force
  then show ?thesis
  proof cases
    case 1 then show ?thesis using assms by (intro that [of x]) (auto simp: walk_def)
  next
    case 2 then show ?thesis using assms by (intro that [of "across + y"]) (auto simp: walk_def)
  next
    case 3 then show ?thesis using assms by (intro that [of "across + down + (across - x)"]) (auto simp: walk_def)
  next
    case 4 then show ?thesis using assms by (intro that [of "across + down + across + (down - y)"]) (auto simp: walk_def)
  qed
qed

text \<open>The box reaches no further than \<open>int\<close>; the options do not guarantee it.\<close>

definition box_fits :: "cursor_options \<Rightarrow> bool" where
  "box_fits opts \<longleftrightarrow> co_x opts + co_width opts < 2 ^ 31 \<and> co_y opts + co_height opts < 2 ^ 31"

lemma c_int_nonneg: "0 \<le> v \<Longrightarrow> v < 2 ^ 31 \<Longrightarrow> c_int v = Some v"
  by (simp add: c_int_def)

lemma far_edge_fits: "0 \<le> start \<Longrightarrow> 0 < extent \<Longrightarrow> start + extent < 2 ^ 31 \<Longrightarrow> far_edge start extent = Some (start + extent - 1)"
  by (simp add: far_edge_def c_int_def)

lemma far_edge_beyond: "2 ^ 31 \<le> start + extent \<Longrightarrow> far_edge start extent = None"
  by (simp add: far_edge_def c_int_def)

lemma cursor_position_walk:
  assumes "checked_options opts" "box_fits opts"
  shows "cursor_position opts i = Some (case walk (co_width opts - 1) (co_height opts - 1) (int (i mod perimeter opts)) of
    (x, y) \<Rightarrow> (co_x opts + x, co_y opts + y))"
proof -
  define p where "p = i mod perimeter opts"
  obtain a d where ad: "co_width opts - 1 = int a" "co_height opts - 1 = int d"
    using assms by (metis checked_options_def diff_ge_0_iff_ge less_imp_le nonneg_int_cases)
  then have wh: "co_width opts = int a + 1" "co_height opts = int d + 1" "0 < a" "0 < d"
    using assms by (simp_all add: checked_options_def)
  then have "0 < perimeter opts" "perimeter opts = 2 * a + 2 * d" by (simp_all add: perimeter_def)
  then have p: "p < 2 * a + 2 * d" using mod_less_divisor [of "perimeter opts" i] by (simp add: p_def)
  have box: "0 \<le> co_x opts" "0 \<le> co_y opts" "co_x opts + int a + 1 < 2 ^ 31" "co_y opts + int d + 1 < 2 ^ 31"
    using assms wh by (simp_all add: checked_options_def box_fits_def algebra_simps)
  have edges: "far_edge (co_x opts) (int a + 1) = Some (co_x opts + int a)"
      "far_edge (co_y opts) (int d + 1) = Some (co_y opts + int d)"
    using box by (simp_all add: far_edge_fits)
  consider "p < a" | "a \<le> p" "p < a + d" | "a + d \<le> p" "p < a + d + a" | "a + d + a \<le> p" by linarith
  then show ?thesis
    unfolding cursor_position_def Let_def p_def [symmetric]
    by cases ((use wh p box edges in \<open>simp_all add: walk_def c_int_nonneg of_nat_diff\<close>), linarith+)
qed

lemma cursor_position_overflow:
  assumes "checked_options opts" "\<not> box_fits opts"
  shows "\<exists>i < perimeter opts. cursor_position opts i = None"
proof -
  define a d where "a = nat (co_width opts - 1)" and "d = nat (co_height opts - 1)"
  have ad: "0 < a" "0 < d" "perimeter opts = 2 * a + 2 * d"
    using assms(1) by (simp_all add: checked_options_def a_def d_def perimeter_def)
  consider "2 ^ 31 \<le> co_x opts + co_width opts" | "2 ^ 31 \<le> co_y opts + co_height opts"
    using assms(2) by (force simp: box_fits_def)
  then show ?thesis
  proof cases
    case 1
    then have "cursor_position opts a = None"
      using ad by (simp add: cursor_position_def Let_def a_def [symmetric] d_def [symmetric] far_edge_beyond)
    then show ?thesis using ad by (intro exI [of _ a]) simp
  next
    case 2
    then have "cursor_position opts (a + d) = None"
      using ad by (simp add: cursor_position_def Let_def a_def [symmetric] d_def [symmetric] far_edge_beyond)
    then show ?thesis using ad by (intro exI [of _ "a + d"]) simp
  qed
qed

text \<open>The pixel of a motion, where it is defined.\<close>

definition pixel :: "cursor_options \<Rightarrow> nat \<Rightarrow> int \<times> int" where
  "pixel opts i = the (cursor_position opts i)"

lemma pixel_walk:
  assumes "checked_options opts" "box_fits opts"
  shows "pixel opts i = (case walk (co_width opts - 1) (co_height opts - 1) (int (i mod perimeter opts)) of
    (x, y) \<Rightarrow> (co_x opts + x, co_y opts + y))"
  by (simp add: pixel_def cursor_position_walk [OF assms])

lemma position_pixel:
  "checked_options opts \<Longrightarrow> box_fits opts \<Longrightarrow> cursor_position opts i = Some (pixel opts i)"
  by (simp add: pixel_def cursor_position_walk)

lemma phase_bounds:
  assumes "checked_options opts"
  shows "0 < co_width opts - 1" "0 < co_height opts - 1"
    "int (perimeter opts) = 2 * (co_width opts - 1) + 2 * (co_height opts - 1)"
    "int (i mod perimeter opts) < 2 * (co_width opts - 1) + 2 * (co_height opts - 1)"
proof -
  show w: "0 < co_width opts - 1" "0 < co_height opts - 1" using assms by (simp_all add: checked_options_def)
  then show p: "int (perimeter opts) = 2 * (co_width opts - 1) + 2 * (co_height opts - 1)" by (simp add: perimeter_def)
  have "0 < perimeter opts" using w by (simp add: perimeter_def)
  then have "i mod perimeter opts < perimeter opts" by simp
  then show "int (i mod perimeter opts) < 2 * (co_width opts - 1) + 2 * (co_height opts - 1)" using p by linarith
qed

lemma position_on_border:
  assumes "checked_options opts" "box_fits opts"
  shows "pixel opts i \<in> border opts"
  using walk_border [OF phase_bounds(1,2) [OF assms(1)] _ phase_bounds(4) [OF assms(1), of i]]
  by (auto simp: pixel_walk [OF assms] border_def split: prod.split)

lemma position_adjacent:
  assumes "checked_options opts" "box_fits opts"
  shows "adjacent (pixel opts i) (pixel opts (i + 1))"
proof -
  let ?p = "int (i mod perimeter opts)"
  have "int ((i + 1) mod perimeter opts) = (if ?p + 1 = 2 * (co_width opts - 1) + 2 * (co_height opts - 1) then 0 else ?p + 1)"
    using phase_bounds(3) [OF assms(1)] by (auto simp: mod_Suc)
  with walk_adjacent [OF phase_bounds(1,2) [OF assms(1)] _ phase_bounds(4) [OF assms(1), of i]] show ?thesis
    by (simp add: pixel_walk [OF assms] split: prod.split)
qed

lemma position_covers:
  assumes "checked_options opts" "box_fits opts"
  shows "pixel opts ` {..<perimeter opts} = border opts"
proof
  show "pixel opts ` {..<perimeter opts} \<subseteq> border opts" using position_on_border [OF assms] by auto
  show "border opts \<subseteq> pixel opts ` {..<perimeter opts}"
  proof
    fix xy assume b: "xy \<in> border opts"
    obtain x y where xy: "xy = (co_x opts + x, co_y opts + y)"
      by (metis add.commute diff_add_cancel surj_pair)
    with b obtain p where p: "0 \<le> p" "p < 2 * (co_width opts - 1) + 2 * (co_height opts - 1)"
        "walk (co_width opts - 1) (co_height opts - 1) p = (x, y)"
      using walk_covers [OF phase_bounds(1,2) [OF assms(1)], of x y] by (auto simp: border_def)
    then have i: "nat p < perimeter opts" using phase_bounds(3) [OF assms(1)] by linarith
    then have "pixel opts (nat p) = xy" using p xy by (simp add: pixel_walk [OF assms])
    with i show "xy \<in> pixel opts ` {..<perimeter opts}" by blast
  qed
qed


subsection \<open>The loop returns\<close>

text \<open>The requests and sleeps of \<open>n\<close> rounds that started at \<open>started_ns\<close>.\<close>

definition paced :: "cursor_options \<Rightarrow> int \<Rightarrow> int \<Rightarrow> nat \<Rightarrow> cursor_act list" where
  "paced opts started_ns period_ns n = concat (map (\<lambda>i.
     [Move_pointer (fst (pixel opts i)) (snd (pixel opts i)),
      Sleep_until ((started_ns + int (i + 1) * period_ns) div 1000000000) ((started_ns + int (i + 1) * period_ns) mod 1000000000)])
     [0..<n])"

text \<open>A round on a box that fits.\<close>

definition round_done :: "cursor_options \<Rightarrow> int \<Rightarrow> cursor \<Rightarrow> cursor" where
  "round_done opts period_ns s = the (cursor_step opts period_ns s)"

lemma cursor_step_done:
  assumes "checked_options opts" "box_fits opts"
  shows "cursor_step opts period_ns s = Some (round_done opts period_ns s)"
  by (simp add: round_done_def cursor_step_def Let_def position_pixel [OF assms] split: prod.split)

lemma round_done_fields:
  assumes "checked_options opts" "box_fits opts"
  shows "c_next (round_done opts period_ns s) = c_next s + period_ns"
    "c_submitted (round_done opts period_ns s) = c_submitted s + 1"
    "c_log (round_done opts period_ns s) = c_log s @
       [Move_pointer (fst (pixel opts (c_submitted s))) (snd (pixel opts (c_submitted s))),
        Sleep_until ((c_next s + period_ns) div 1000000000) ((c_next s + period_ns) mod 1000000000)]"
  by (simp_all add: round_done_def cursor_step_def sleep_until_ns_def cursor_log_def monotonic_ns_def Let_def split_def
      position_pixel [OF assms])

lemma rounds_done_fields:
  assumes "checked_options opts" "box_fits opts"
  shows "c_next ((round_done opts period_ns ^^ n) s) = c_next s + int n * period_ns"
    "c_submitted ((round_done opts period_ns ^^ n) s) = c_submitted s + n"
  by (induction n) (simp_all add: round_done_fields [OF assms] algebra_simps)

lemma rounds_done_log:
  assumes "checked_options opts" "box_fits opts"
  shows "c_submitted s = 0 \<Longrightarrow> c_log ((round_done opts period_ns ^^ n) s) = c_log s @ paced opts (c_next s) period_ns n"
  by (induction n) (simp_all add: paced_def round_done_fields [OF assms] rounds_done_fields [OF assms] algebra_simps)

lemma cursor_loop_returns:
  assumes "checked_options opts" "box_fits opts"
    "\<And>i. i < n \<Longrightarrow> c_next s + int i * period_ns < end_ns" "end_ns \<le> c_next s + int n * period_ns"
  shows "cursor_loop opts period_ns end_ns s = Some ((round_done opts period_ns ^^ n) s)"
  using assms(3,4)
proof (induction n arbitrary: s)
  case 0
  then show ?case by (subst cursor_loop.simps) simp
next
  case (Suc n)
  have "cursor_loop opts period_ns end_ns (round_done opts period_ns s) =
      Some ((round_done opts period_ns ^^ n) (round_done opts period_ns s))"
    using Suc.prems(1) [of "Suc _"] Suc.prems(2)
    by (intro Suc.IH) (simp_all add: round_done_fields [OF assms(1,2)] algebra_simps)
  then show ?case using Suc.prems(1) [of 0]
    by (subst cursor_loop.simps) (simp add: funpow_swap1 cursor_step_done [OF assms(1,2)])
qed

definition rounds :: "cursor_options \<Rightarrow> nat" where
  "rounds opts = (let period_ns = 1000000000 div co_hz opts
     in nat ((co_seconds opts * 1000000000 + period_ns - 1) div period_ns))"

lemma rounds_bounds:
  assumes "checked_options opts"
  defines "period_ns \<equiv> 1000000000 div co_hz opts"
  shows "0 < period_ns" "co_seconds opts * 1000000000 \<le> int (rounds opts) * period_ns"
    "i < rounds opts \<Longrightarrow> int i * period_ns < co_seconds opts * 1000000000"
proof -
  let ?t = "co_seconds opts * 1000000000"
  have hz: "0 < co_hz opts" "co_hz opts \<le> 10000" "0 < co_seconds opts" using assms(1) by (simp_all add: checked_options_def)
  have "10000 div co_hz opts * 1 \<le> period_ns" unfolding period_ns_def using hz by (simp add: zdiv_mono1)
  moreover have "1 \<le> 10000 div co_hz opts" using hz by (simp add: pos_imp_zdiv_pos_iff int_one_le_iff_zero_less)
  ultimately show p: "0 < period_ns" by linarith
  have r: "int (rounds opts) = (?t + period_ns - 1) div period_ns"
    using p hz by (simp add: rounds_def period_ns_def [symmetric] Let_def pos_imp_zdiv_nonneg_iff)
  have split: "int (rounds opts) * period_ns + (?t + period_ns - 1) mod period_ns = ?t + period_ns - 1"
    unfolding r by (rule div_mult_mod_eq)
  have m: "0 \<le> (?t + period_ns - 1) mod period_ns" "(?t + period_ns - 1) mod period_ns < period_ns"
    using p by simp_all
  show "?t \<le> int (rounds opts) * period_ns" using split m by linarith
  show "int i * period_ns < ?t" if "i < rounds opts"
  proof -
    have "(int i + 1) * period_ns \<le> int (rounds opts) * period_ns" using that p by (intro mult_right_mono) auto
    then show ?thesis using split m by (simp add: distrib_right)
  qed
qed

lemma cursor_run_returns:
  assumes "checked_options opts" "box_fits opts" "c_submitted s = 0"
  shows "\<exists>s' started_ns elapsed_ns worst_ns. cursor_run opts s = Some (0, s') \<and>
    c_log s' = c_log s @ (if co_hide opts then [Hide_cursor] else []) @
      paced opts started_ns (1000000000 div co_hz opts) (rounds opts) @ [Summary (rounds opts) elapsed_ns worst_ns] @
      (if co_hide opts then [Show_cursor] else []) @ [Close_display]"
proof -
  define s1 where "s1 = (if co_hide opts then cursor_log Hide_cursor s else s)"
  obtain started_ns s2 where m: "monotonic_ns s1 = (started_ns, s2)" by force
  define s3 where "s3 = (round_done opts (1000000000 div co_hz opts) ^^ rounds opts) (s2\<lparr>c_next := started_ns\<rparr>)"
  obtain now s4 where m': "monotonic_ns s3 = (now, s4)" by force
  have "cursor_loop opts (1000000000 div co_hz opts) (started_ns + co_seconds opts * 1000000000) (s2\<lparr>c_next := started_ns\<rparr>) = Some s3"
    unfolding s3_def using rounds_bounds [OF assms(1)] by (intro cursor_loop_returns [OF assms(1,2)]) auto
  then have run: "cursor_run opts s = Some (0, cursor_log Close_display
      (if co_hide opts then cursor_log Show_cursor (cursor_log (Summary (c_submitted s4) (now - started_ns) (c_worst s4)) s4)
       else cursor_log (Summary (c_submitted s4) (now - started_ns) (c_worst s4)) s4))"
    unfolding cursor_run_def Let_def s1_def [symmetric] m prod.case by (simp add: m')
  have "c_submitted s2 = 0" "c_log s2 = c_log s1" "c_submitted s4 = c_submitted s3" "c_log s4 = c_log s3"
    using m m' assms(3) by (auto simp: monotonic_ns_def Let_def split_def s1_def cursor_log_def)
  then have "c_submitted s4 = rounds opts"
      "c_log s4 = c_log s1 @ paced opts started_ns (1000000000 div co_hz opts) (rounds opts)"
    using rounds_done_log [OF assms(1,2), of "s2\<lparr>c_next := started_ns\<rparr>"]
    by (simp_all add: s3_def rounds_done_fields [OF assms(1,2)])
  with run show ?thesis by (auto simp: cursor_log_def s1_def)
qed

subsection \<open>Claim\<close>


definition sample_server :: cursor_world where
  "sample_server = \<lparr>cw_display = True, cw_xtest = True, cw_xfixes = True, cw_clock = (\<lambda>n. (7, int n))\<rparr>"


text \<open>An accepted box on which the second motion overflows.\<close>

lemma overflowing_box:
  "parse_box ''2147483647,0,2,2'' = Some (2147483647, 0, 2, 2)"
  "cursor_position (cursor_defaults\<lparr>co_x := 2147483647, co_y := 0, co_width := 2, co_height := 2\<rparr>) 1 = None"
proof -
  have "scan_d ''2147483647,0,2,2'' = Some (2147483647, '',0,2,2'')" "scan_d ''0,2,2'' = Some (0, '',2,2'')"
    "scan_d ''2,2'' = Some (2, '',2'')" "scan_d ''2'' = Some (2, [])"
    by (simp_all add: scan_d_def c_strtol_def scan_signed_def skip_space_def is_space_def is_digit_def digit_val_def)
  then show "parse_box ''2147483647,0,2,2'' = Some (2147483647, 0, 2, 2)"
    by (simp add: parse_box_def scan_comma_def)
  show "cursor_position (cursor_defaults\<lparr>co_x := 2147483647, co_y := 0, co_width := 2, co_height := 2\<rparr>) 1 = None"
    by (simp add: cursor_position_def perimeter_def far_edge_def c_int_def cursor_defaults_def)
qed

end
