(* ===== verification/Frame_Probe.thy ===== *)
theory Frame_Probe
  imports Cursor_Probe C_Float
begin

unbundle bit_operations_syntax

section \<open>The frame pacing probe\<close>

text \<open>
  Model of \<open>src/native/probes/sdl-frame-pacing.c\<close>: its options, the picture of a frame, the growing
  array of samples, the frame loop of \<open>main\<close>, the percentiles and the CSV file. The answers of SDL,
  of the clock, of the allocator and of the file system are a world; what is drawn, shown and
  released is a log. Arithmetic in double precision is modelled on rationals with an unbounded
  exponent, as single precision is in C_Float; what \<open>strtod\<close> reads may also be infinite or not a
  number. Times are unbounded integers, except that the conversion of the period to 64 bits is
  checked. The decimal text of the summary is not modelled, its numbers are.
\<close>

subsection \<open>Options\<close>

definition to_double :: "rat \<Rightarrow> rat" where
  "to_double q =
     (if q = 0 then 0
      else
        let u = pow2 (exponent2 \<bar>q\<bar> - 52); m = of_int (round_half_even (\<bar>q\<bar> / u)) * u
        in if q < 0 then - m else m)"

text \<open>A value of type \<open>double\<close>; infinity carries whether it is negative.\<close>

datatype c_double = Finite rat | Infinite bool | Not_a_number

fun double_le :: "c_double \<Rightarrow> c_double \<Rightarrow> bool" where
  "double_le Not_a_number b = False"
| "double_le a Not_a_number = False"
| "double_le (Infinite neg) b = (neg \<or> b = Infinite False)"
| "double_le (Finite v) (Infinite neg) = (\<not> neg)"
| "double_le (Finite v) (Finite w) = (v \<le> w)"

fun double_less :: "c_double \<Rightarrow> c_double \<Rightarrow> bool" where
  "double_less a b = (double_le a b \<and> \<not> double_le b a)"

text \<open>
  The nearest double, and whether a range error is reported: for what is too large, and for what is
  below the normal numbers and had to be rounded.
\<close>

definition nearest_double :: "rat \<Rightarrow> c_double \<times> bool" where
  "nearest_double v =
     (if pow2 1024 \<le> \<bar>to_double v\<bar> then (Infinite (v < 0), True)
      else if \<bar>v\<bar> < pow2 (- 1022) then
        let steps = \<bar>v\<bar> * pow2 1074; m = of_int (round_half_even steps) * pow2 (- 1074)
        in (Finite (if v < 0 then - m else m), steps \<noteq> of_int \<lfloor>steps\<rfloor>)
      else (Finite (to_double v), False))"

definition lower_case :: "char \<Rightarrow> char" where
  "lower_case c = (if 65 \<le> (of_char c :: nat) \<and> (of_char c :: nat) \<le> 90 then char_of (of_char c + 32 :: nat) else c)"

text \<open>The rest behind a word in any case.\<close>

fun drop_word :: "string \<Rightarrow> string \<Rightarrow> string option" where
  "drop_word [] s = Some s"
| "drop_word (c # word) [] = None"
| "drop_word (c # word) (d # s) = (if lower_case d = c then drop_word word s else None)"

definition is_hex :: "char \<Rightarrow> bool" where
  "is_hex c \<longleftrightarrow> is_digit c \<or> 97 \<le> (of_char (lower_case c) :: nat) \<and> (of_char (lower_case c) :: nat) \<le> 102"

definition hex_val :: "char \<Rightarrow> nat" where
  "hex_val c = (if is_digit c then digit_val c else of_char (lower_case c) - 87)"

fun scan_hex_digits :: "nat \<Rightarrow> string \<Rightarrow> nat \<times> string" where
  "scan_hex_digits acc [] = (acc, [])"
| "scan_hex_digits acc (c # s) = (if is_hex c then scan_hex_digits (16 * acc + hex_val c) s else (acc, c # s))"

text \<open>An optional exponent behind its mark; without digits it is not part of the number.\<close>

definition scan_power :: "char \<Rightarrow> string \<Rightarrow> int \<times> string" where
  "scan_power mark s =
     (let t = tl s;
          u = (if t \<noteq> [] \<and> (hd t = CHR ''-'' \<or> hd t = CHR ''+'') then tl t else t)
      in if s \<noteq> [] \<and> lower_case (hd s) = mark \<and> u \<noteq> [] \<and> is_digit (hd u)
         then let (n, rest) = scan_digits 0 u in (if hd t = CHR ''-'' then - int n else int n, rest)
         else (0, s))"

text \<open>Digits in a base with an optional point, then the exponent: \<open>None\<close> without a digit.\<close>

definition scan_real :: "(nat \<Rightarrow> string \<Rightarrow> nat \<times> string) \<Rightarrow> rat \<Rightarrow> char \<Rightarrow> (int \<Rightarrow> rat) \<Rightarrow> string \<Rightarrow> (rat \<times> string) option" where
  "scan_real digits base mark scale s =
     (let (whole, s1) = digits 0 s;
          (frac, s2) = (if s1 \<noteq> [] \<and> hd s1 = CHR ''.'' then digits 0 (tl s1) else (0, s1));
          places = (if s1 \<noteq> [] \<and> hd s1 = CHR ''.'' then length s1 - 1 - length s2 else 0);
          (e, rest) = scan_power mark s2
      in if length s = length s1 \<and> places = 0 then None
         else Some ((of_nat whole + of_nat frac / base ^ places) * scale e, rest))"

definition scan_magnitude :: "string \<Rightarrow> (rat \<times> string) option" where
  "scan_magnitude s =
     (case Option.bind (drop_word ''0x'' s) (scan_real scan_hex_digits 16 (CHR ''p'') pow2) of
        Some found \<Rightarrow> Some found
      | None \<Rightarrow> scan_real scan_digits 10 (CHR ''e'') pow10 s)"

text \<open>What may follow \<open>nan\<close>: letters, digits and underscores in parentheses.\<close>

definition drop_payload :: "string \<Rightarrow> string" where
  "drop_payload s =
     (let t = dropWhile (\<lambda>c. is_digit c \<or> 97 \<le> (of_char (lower_case c) :: nat) \<and> (of_char (lower_case c) :: nat) \<le> 122 \<or>
            c = CHR ''_'') (tl s)
      in if s \<noteq> [] \<and> hd s = CHR ''('' \<and> t \<noteq> [] \<and> hd t = CHR '')'' then tl t else s)"

text \<open>\<open>strtod\<close>: the value, the unread rest, and whether \<open>errno\<close> was set.\<close>

definition c_strtod :: "string \<Rightarrow> c_double \<times> string \<times> bool" where
  "c_strtod s =
     (let s1 = skip_space s;
          neg = (s1 \<noteq> [] \<and> hd s1 = CHR ''-'');
          s2 = (if s1 \<noteq> [] \<and> (hd s1 = CHR ''-'' \<or> hd s1 = CHR ''+'') then tl s1 else s1)
      in case (drop_word ''nan'' s2, drop_word ''infinity'' s2, drop_word ''inf'' s2, scan_magnitude s2) of
           (Some rest, _, _, _) \<Rightarrow> (Not_a_number, drop_payload rest, False)
         | (None, Some rest, _, _) \<Rightarrow> (Infinite neg, rest, False)
         | (None, None, Some rest, _) \<Rightarrow> (Infinite neg, rest, False)
         | (None, None, None, Some (v, rest)) \<Rightarrow> let (d, range) = nearest_double (if neg then - v else v) in (d, rest, range)
         | (None, None, None, None) \<Rightarrow> (Finite 0, s, False))"

text \<open>Both comparisons are false for what is not a number.\<close>

definition parse_positive_double :: "string \<Rightarrow> c_double option" where
  "parse_positive_double s =
     (let (parsed, rest, range) = c_strtod s
      in if range \<or> rest \<noteq> [] \<or> double_le parsed (Finite 0) \<or> double_less (Finite 10000) parsed then None else Some parsed)"

definition parse_window :: "string \<Rightarrow> (int \<times> int) option" where
  "parse_window s =
     do {
       (width, s1) \<leftarrow> scan_d s;
       s2 \<leftarrow> (if s1 \<noteq> [] \<and> hd s1 = CHR ''x'' then Some (tl s1) else None);
       (height, s3) \<leftarrow> scan_d s2;
       (if s3 = [] \<and> 0 < width \<and> 0 < height then Some (width, height) else None)
     }"

text \<open>\<open>atoi\<close>.\<close>

definition c_atoi :: "string \<Rightarrow> int" where
  "c_atoi s = sint (word_of_int (fst (c_strtol s)) :: u32)"

record frame_options =
  fo_swap_interval :: int
  fo_frame_limit :: int
  fo_seconds :: c_double
  fo_pace_hz :: c_double
  fo_width :: int
  fo_height :: int
  fo_fullscreen :: bool
  fo_show_cursor :: bool
  fo_csv_path :: "string option"

definition frame_defaults :: frame_options where
  "frame_defaults = \<lparr>fo_swap_interval = 1, fo_frame_limit = 0, fo_seconds = Finite 65, fo_pace_hz = Finite 0, fo_width = 960,
     fo_height = 540, fo_fullscreen = True, fo_show_cursor = False, fo_csv_path = None\<rparr>"

fun frame_arguments :: "string list \<Rightarrow> frame_options \<Rightarrow> int + frame_options" where
  "frame_arguments [] opts = Inr opts"
| "frame_arguments (a # rest) opts =
     (if a = ''--swap-interval'' \<and> rest \<noteq> [] then
        let n = c_atoi (hd rest)
        in if n < - 1 \<or> 1 < n then Inl 2 else frame_arguments (tl rest) (opts\<lparr>fo_swap_interval := n\<rparr>)
      else if a = ''--seconds'' \<and> rest \<noteq> [] then
        (case parse_positive_double (hd rest) of
           None \<Rightarrow> Inl 2
         | Some v \<Rightarrow> frame_arguments (tl rest) (opts\<lparr>fo_seconds := v, fo_frame_limit := 0\<rparr>))
      else if a = ''--frames'' \<and> rest \<noteq> [] then
        (case parse_positive_int 2147483647 (hd rest) of
           None \<Rightarrow> Inl 2
         | Some n \<Rightarrow> frame_arguments (tl rest) (opts\<lparr>fo_frame_limit := n, fo_seconds := Finite 0\<rparr>))
      else if a = ''--pace-hz'' \<and> rest \<noteq> [] then
        (case parse_positive_double (hd rest) of
           None \<Rightarrow> Inl 2
         | Some v \<Rightarrow> frame_arguments (tl rest) (opts\<lparr>fo_pace_hz := v\<rparr>))
      else if a = ''--csv'' \<and> rest \<noteq> [] then frame_arguments (tl rest) (opts\<lparr>fo_csv_path := Some (hd rest)\<rparr>)
      else if a = ''--window'' \<and> rest \<noteq> [] then
        (case parse_window (hd rest) of
           None \<Rightarrow> Inl 2
         | Some (width, height) \<Rightarrow>
             frame_arguments (tl rest) (opts\<lparr>fo_width := width, fo_height := height, fo_fullscreen := False\<rparr>))
      else if a = ''--fullscreen'' then frame_arguments rest (opts\<lparr>fo_fullscreen := True\<rparr>)
      else if a = ''--show-cursor'' then frame_arguments rest (opts\<lparr>fo_show_cursor := True\<rparr>)
      else if a = ''--help'' then Inl 0
      else Inl 2)"

subsection \<open>The picture of a frame\<close>

type_synonym colour = "rat \<times> rat \<times> rat"

datatype frame_act =
    Clear_window colour
  | Clear_rect int int int int colour
  | Viewport int int
  | Sleep_to int
  | Swap_window
  | Free_samples
  | Write_line string
  | Show_pointer bool
  | Create_window int int bool
  | Create_context
  | Delete_context
  | Destroy_window
  | Quit_sdl

definition bars :: u32 where
  "bars = 20"

definition bar_white :: "u32 \<Rightarrow> nat \<Rightarrow> bool" where
  "bar_white frame bar =
     (let gray = frame XOR drop_bit 1 frame
      in if bar < 4 then even bar else gray AND push_bit (bar - 4) 1 \<noteq> 0)"

definition bar_edge :: "int \<Rightarrow> nat \<Rightarrow> int" where
  "bar_edge width bar = sint (word_of_nat bar * word_of_int width div bars)"

definition draw_code_band :: "u32 \<Rightarrow> int \<Rightarrow> int \<Rightarrow> int \<Rightarrow> frame_act list" where
  "draw_code_band frame width y height =
     map (\<lambda>bar. let x = bar_edge width bar; level = (if bar_white frame bar then 1 else 0)
        in Clear_rect x y (bar_edge width (bar + 1) - x) height (level, level, level)) [0..<20]"

definition draw_frame :: "u32 \<Rightarrow> int \<Rightarrow> int \<Rightarrow> frame_act list" where
  "draw_frame frame width height =
     (let band_height = height div 8;
          sweep_width = (if 1 < width div 24 then width div 24 else 1);
          sweep_phase = frame mod 120;
          sweep_x = sint (sweep_phase * word_of_int (width - sweep_width) div 119);
          pulse = (if frame AND 1 \<noteq> 0 then 16 / 100 else 12 / 100)
      in [Clear_window (pulse, pulse, 22 / 100)] @
         draw_code_band frame width 0 band_height @
         draw_code_band frame width (height - band_height) band_height @
         [Clear_rect sweep_x band_height sweep_width (height - 2 * band_height) (95 / 100, 95 / 100, 15 / 100),
          Clear_rect 0 band_height (width div 16) (height div 12) (0, 0, 0),
          Clear_rect (width - width div 16) band_height (width div 16) (height div 12) (1, 1, 1)])"

subsection \<open>Samples\<close>

record frame_sample =
  fs_frame :: u32
  fs_scheduled_ns :: int
  fs_draw_ns :: int
  fs_swap_begin_ns :: int
  fs_swap_end_ns :: int

text \<open>The array: its capacity and the elements that were written.\<close>

datatype frame_event = Quit_event | Key_down | Size_changed | Other_event

record frame_world =
  fw_init :: bool
  fw_display_mode :: "(int \<times> int) option"
  fw_window :: bool
  fw_context :: bool
  fw_interval :: int
  fw_drawable :: "nat \<Rightarrow> int \<times> int"
  fw_events :: "nat \<Rightarrow> frame_event list"
  fw_clock :: "nat \<Rightarrow> int"
  fw_realloc :: "nat \<Rightarrow> bool"
  fw_durations :: bool
  fw_periods :: bool
  fw_fopen :: bool
  fw_fclose :: bool

record frame_state = frame_world +
  f_width :: int
  f_height :: int
  f_samples :: "frame_sample list"
  f_capacity :: nat
  f_quit :: bool
  f_log :: "frame_act list"

definition frame_log :: "frame_act list \<Rightarrow> frame_state \<Rightarrow> frame_state" where
  "frame_log acts s = s\<lparr>f_log := f_log s @ acts\<rparr>"

definition frame_clock :: "frame_state \<Rightarrow> int \<times> frame_state" where
  "frame_clock s = (fw_clock s 0, s\<lparr>fw_clock := \<lambda>n. fw_clock s (n + 1)\<rparr>)"

text \<open>The drawable's size, and the viewport set to it.\<close>

definition follow_size :: "frame_state \<Rightarrow> frame_state" where
  "follow_size s =
     (let (width, height) = fw_drawable s 0
      in frame_log [Viewport width height]
           (s\<lparr>f_width := width, f_height := height, fw_drawable := \<lambda>n. fw_drawable s (n + 1)\<rparr>))"

text \<open>
  The sample is stored at index \<open>length (f_samples s)\<close>; \<open>realloc\<close> is asked only when the array is
  full.
\<close>

definition append_sample :: "frame_sample \<Rightarrow> frame_state \<Rightarrow> bool \<times> frame_state" where
  "append_sample sample s =
     (if length (f_samples s) = f_capacity s then
        let new_capacity = (if f_capacity s \<noteq> 0 then f_capacity s * 2 else 4096);
            s1 = s\<lparr>fw_realloc := \<lambda>n. fw_realloc s (n + 1)\<rparr>
        in if \<not> fw_realloc s 0 then (False, s1)
           else (True, s1\<lparr>f_capacity := new_capacity, f_samples := f_samples s @ [sample]\<rparr>)
      else (True, s\<lparr>f_samples := f_samples s @ [sample]\<rparr>))"

subsection \<open>The frame loop\<close>

fun handle_events :: "frame_event list \<Rightarrow> frame_state \<Rightarrow> frame_state" where
  "handle_events [] s = s"
| "handle_events (e # es) s =
     handle_events es
       (case e of
          Quit_event \<Rightarrow> s\<lparr>f_quit := True\<rparr>
        | Key_down \<Rightarrow> s\<lparr>f_quit := True\<rparr>
        | Size_changed \<Rightarrow> follow_size s
        | Other_event \<Rightarrow> s)"

text \<open>A frame: paced, drawn, shown and recorded.\<close>

definition show_frame :: "int \<Rightarrow> int \<Rightarrow> frame_state \<Rightarrow> frame_state" where
  "show_frame started_ns pace_period_ns s =
     (let count = length (f_samples s);
          scheduled_ns = (if pace_period_ns \<noteq> 0 then started_ns + int count * pace_period_ns else 0);
          s1 = (if pace_period_ns \<noteq> 0 then frame_log [Sleep_to scheduled_ns] s else s);
          (draw_ns, s2) = frame_clock s1;
          s3 = frame_log (draw_frame (word_of_nat count) (f_width s2) (f_height s2)) s2;
          (swap_begin_ns, s4) = frame_clock s3;
          s5 = frame_log [Swap_window] s4;
          (swap_end_ns, s6) = frame_clock s5;
          (stored, s7) = append_sample \<lparr>fs_frame = word_of_nat count, fs_scheduled_ns = scheduled_ns, fs_draw_ns = draw_ns,
            fs_swap_begin_ns = swap_begin_ns, fs_swap_end_ns = swap_end_ns\<rparr> s6
      in if stored then s7 else s7\<lparr>f_quit := True\<rparr>)"

definition poll_events :: "frame_state \<Rightarrow> frame_state" where
  "poll_events s = handle_events (fw_events s 0) (s\<lparr>fw_events := \<lambda>n. fw_events s (n + 1)\<rparr>)"

text \<open>The condition reads the clock only when the other two conditions hold.\<close>

partial_function (option) frame_loop :: "int \<Rightarrow> int \<Rightarrow> int \<Rightarrow> int \<Rightarrow> frame_state \<Rightarrow> frame_state option" where
  "frame_loop frame_limit started_ns deadline_ns pace_period_ns s =
     (if f_quit s \<or> \<not> (frame_limit = 0 \<or> int (length (f_samples s)) < frame_limit) then Some s
      else
        let (now, s1) = frame_clock s
        in if \<not> now < deadline_ns then Some s1
           else
             let s2 = poll_events s1
             in if f_quit s2 then Some s2
                else
                  let s3 = show_frame started_ns pace_period_ns s2
                  in if f_quit s3 then Some s3 else frame_loop frame_limit started_ns deadline_ns pace_period_ns s3)"


subsection \<open>Summary and file\<close>

definition percentile_index :: "nat \<Rightarrow> rat \<Rightarrow> nat" where
  "percentile_index count fraction = nat \<lfloor>to_double (to_double (of_nat (count - 1) * fraction) + 1 / 2)\<rfloor>"

definition percentile_ns :: "int list \<Rightarrow> rat \<Rightarrow> int" where
  "percentile_ns sorted_ns fraction = sorted_ns ! percentile_index (length sorted_ns) fraction"

text \<open>Median, 95th and 99th percentile and maximum.\<close>

definition statistics :: "int list \<Rightarrow> int list" where
  "statistics sorted_ns =
     map (percentile_ns sorted_ns) [to_double (50 / 100), to_double (95 / 100), to_double (99 / 100)] @
     [sorted_ns ! (length sorted_ns - 1)]"

definition swap_durations :: "frame_sample list \<Rightarrow> int list" where
  "swap_durations samples = sort (map (\<lambda>f. fs_swap_end_ns f - fs_swap_begin_ns f) samples)"

definition periods :: "frame_sample list \<Rightarrow> int list" where
  "periods samples =
     sort (map (\<lambda>i. fs_swap_end_ns (samples ! i) - fs_swap_end_ns (samples ! (i - 1))) [1..<length samples])"

record frame_summary =
  sum_frames :: nat
  sum_size :: "int \<times> int"
  sum_requested :: int
  sum_effective :: int
  sum_elapsed_ns :: int
  sum_swap :: "int list"
  sum_period :: "int list option"

definition csv_row :: "int \<Rightarrow> frame_sample \<Rightarrow> string" where
  "csv_row started_ns f =
     show_u (fs_frame f) @ '','' @ show_int (if fs_scheduled_ns f \<noteq> 0 then fs_scheduled_ns f - started_ns else 0) @ '','' @
     show_int (fs_draw_ns f - started_ns) @ '','' @ show_int (fs_swap_begin_ns f - started_ns) @ '','' @
     show_int (fs_swap_end_ns f - started_ns) @ '','' @ show_int (fs_swap_end_ns f - fs_swap_begin_ns f)"

definition write_csv :: "int \<Rightarrow> frame_state \<Rightarrow> bool \<times> frame_state" where
  "write_csv started_ns s =
     (if \<not> fw_fopen s then (False, s)
      else (fw_fclose s, frame_log (map Write_line
        (''frame,scheduled_ns,draw_ns,swap_begin_ns,swap_end_ns,swap_block_ns'' # map (csv_row started_ns) (f_samples s))) s))"

subsection \<open>The program\<close>

definition new_frame_state :: "frame_options \<Rightarrow> frame_world \<Rightarrow> frame_state" where
  "new_frame_state opts w = frame_world.extend w
     \<lparr>f_width = fo_width opts, f_height = fo_height opts, f_samples = [], f_capacity = 0, f_quit = False, f_log = []\<rparr>"

definition deadline :: "c_double \<Rightarrow> int \<Rightarrow> int" where
  "deadline seconds started_ns =
     (case seconds of
        Finite v \<Rightarrow> if 0 < v then started_ns + \<lfloor>to_double (v * 1000000000)\<rfloor> else 9223372036854775807
      | _ \<Rightarrow> 9223372036854775807)"

text \<open>The period in nanoseconds: \<open>None\<close> if it does not fit, where C leaves the conversion undefined.\<close>

definition pace_period :: "c_double \<Rightarrow> int option" where
  "pace_period pace_hz =
     (case pace_hz of
        Finite hz \<Rightarrow>
          if 0 < hz then
            let period_ns = \<lfloor>to_double (to_double (1000000000 / hz) + 1 / 2)\<rfloor>
            in if period_ns < 2 ^ 63 then Some period_ns else None
          else Some 0
      | _ \<Rightarrow> Some 0)"

text \<open>\<open>None\<close> if the loop does not end or the period is undefined.\<close>

definition measure_frames :: "frame_options \<Rightarrow> frame_state \<Rightarrow> (int \<times> int \<times> frame_state) option" where
  "measure_frames opts s =
     (let (started_ns, s1) = frame_clock s
      in case pace_period (fo_pace_hz opts) of
           None \<Rightarrow> None
         | Some pace_period_ns \<Rightarrow>
             (case frame_loop (fo_frame_limit opts) started_ns (deadline (fo_seconds opts) started_ns) pace_period_ns s1 of
                None \<Rightarrow> None
              | Some s2 \<Rightarrow> let (now, s3) = frame_clock s2 in Some (started_ns, now - started_ns, s3)))"

definition summarize :: "frame_options \<Rightarrow> int \<Rightarrow> frame_state \<Rightarrow> frame_summary" where
  "summarize opts elapsed_ns s =
     \<lparr>sum_frames = length (f_samples s), sum_size = (f_width s, f_height s), sum_requested = fo_swap_interval opts,
      sum_effective = fw_interval s, sum_elapsed_ns = elapsed_ns, sum_swap = statistics (swap_durations (f_samples s)),
      sum_period = (if 1 < length (f_samples s) then Some (statistics (periods (f_samples s))) else None)\<rparr>"

definition report_frames :: "frame_options \<Rightarrow> int \<Rightarrow> int \<Rightarrow> frame_state \<Rightarrow> int \<times> frame_summary option \<times> frame_state" where
  "report_frames opts started_ns elapsed_ns s =
     (let count = length (f_samples s)
      in if 0 < count \<and> (\<not> fw_durations s \<or> (1 < count \<and> \<not> fw_periods s)) then (1, None, frame_log [Free_samples] s)
         else
           let summary = (if 0 < count then Some (summarize opts elapsed_ns s) else None);
               (csv_ok, s1) = (if fo_csv_path opts = None then (True, s) else write_csv started_ns s)
           in (if csv_ok then 0 else 1, summary,
               frame_log [Free_samples, Show_pointer True, Delete_context, Destroy_window, Quit_sdl] s1))"

definition frame_session :: "frame_options \<Rightarrow> frame_state \<Rightarrow> (int \<times> frame_summary option \<times> frame_state) option" where
  "frame_session opts s =
     (let (width, height) = fw_drawable s 0;
          s1 = frame_log [Show_pointer (fo_show_cursor opts), Viewport width height]
            (s\<lparr>f_width := width, f_height := height, fw_drawable := \<lambda>n. fw_drawable s (n + 1)\<rparr>)
      in case measure_frames opts s1 of
           None \<Rightarrow> None
         | Some (started_ns, elapsed_ns, s2) \<Rightarrow> Some (report_frames opts started_ns elapsed_ns s2))"

definition frame_main :: "string list \<Rightarrow> frame_world \<Rightarrow> (int \<times> frame_summary option \<times> frame_state) option" where
  "frame_main arguments w =
     (case frame_arguments arguments frame_defaults of
        Inl status \<Rightarrow> Some (status, None, new_frame_state frame_defaults w)
      | Inr opts \<Rightarrow>
          let s = new_frame_state opts w;
              s1 = (if fo_fullscreen opts then
                      (case fw_display_mode w of None \<Rightarrow> s | Some (width, height) \<Rightarrow> s\<lparr>f_width := width, f_height := height\<rparr>)
                    else s)
          in if \<not> fw_init w then Some (1, None, s)
             else if \<not> fw_window w then Some (1, None, frame_log [Quit_sdl] s1)
             else
               let s2 = frame_log [Create_window (f_width s1) (f_height s1) (fo_fullscreen opts)] s1
               in if \<not> fw_context w then Some (1, None, frame_log [Destroy_window, Quit_sdl] s2)
                  else frame_session opts (frame_log [Create_context] s2))"


end
