(* ===== verification/Frame_Code.thy ===== *)
theory Frame_Code
  imports Frame_Probe
begin

unbundle bit_operations_syntax

section \<open>The frame number in the picture\<close>

text \<open>
  What a camera can read from a frame of \<open>src/native/probes/sdl-frame-pacing.c\<close>: the bars of the two
  bands carry the Gray code of the frame's number.
\<close>

subsection \<open>Gray code\<close>

text \<open>From the bits of a Gray code, lowest first, to the bits of the number.\<close>

fun from_gray :: "bool list \<Rightarrow> bool list" where
  "from_gray [] = []"
| "from_gray (b # bs) = (let rest = from_gray bs in (b \<noteq> (rest \<noteq> [] \<and> hd rest)) # rest)"

lemma from_gray_bits:
  "\<not> f (k + n) \<Longrightarrow> from_gray (map (\<lambda>i. f i \<noteq> f (Suc i)) [k..<k + n]) = map f [k..<k + n]"
proof (induction n arbitrary: k)
  case (Suc n)
  have split: "[k..<k + Suc n] = k # [Suc k..<Suc k + n]" by (simp add: upt_conv_Cons del: upt_Suc)
  have "from_gray (map (\<lambda>i. f i \<noteq> f (Suc i)) [Suc k..<Suc k + n]) = map f [Suc k..<Suc k + n]"
    using Suc.IH [of "Suc k"] Suc.prems by simp
  moreover have "([Suc k..<Suc k + n] \<noteq> [] \<and> f (hd [Suc k..<Suc k + n])) = f (Suc k)"
    using Suc.prems by (cases n) (auto simp: upt_conv_Cons simp del: upt_Suc)
  ultimately show ?case unfolding split by (auto simp: Let_def hd_map simp del: upt_Suc)
qed simp

lemma bit_Suc_double:
  fixes n :: nat
  shows "bit (2 * n) (Suc i) = bit n i" "bit (2 * n + 1) (Suc i) = bit n i"
  by (simp_all add: bit_Suc)

lemma ex1_shift: "\<not> P 0 \<Longrightarrow> \<exists>!i. P (Suc i) \<Longrightarrow> \<exists>!i. P i"
  by (metis not0_implies_Suc)

text \<open>The codes of neighbours differ in exactly one bit.\<close>

lemma gray_step: "\<exists>!i. (bit n i \<noteq> bit n (Suc i)) \<noteq> (bit (Suc n) i \<noteq> bit (Suc n) (Suc i))" for n :: nat
proof (induction n rule: less_induct)
  case (less n)
  obtain m where m: "n = 2 * m \<or> n = 2 * m + 1" by (metis evenE oddE)
  show ?case
  proof (cases "n = 2 * m")
    case True
    then have "(bit n i \<noteq> bit n (Suc i)) \<noteq> (bit (Suc n) i \<noteq> bit (Suc n) (Suc i)) \<longleftrightarrow> i = 0" for i
      by (cases i) (auto simp: bit_Suc bit_0)
    then show ?thesis by auto
  next
    case False
    with m have n: "n = 2 * m + 1" "Suc n = 2 * Suc m" by auto
    have "(bit n (Suc i) \<noteq> bit n (Suc (Suc i))) \<noteq> (bit (Suc n) (Suc i) \<noteq> bit (Suc n) (Suc (Suc i))) \<longleftrightarrow>
        (bit m i \<noteq> bit m (Suc i)) \<noteq> (bit (Suc m) i \<noteq> bit (Suc m) (Suc i))" for i
      unfolding n(2) unfolding n(1) by (simp only: bit_Suc_double)
    moreover have "\<not> ((bit n 0 \<noteq> bit n (Suc 0)) \<noteq> (bit (Suc n) 0 \<noteq> bit (Suc n) (Suc 0)))"
      unfolding n(2) unfolding n(1) by (simp only: bit_Suc_double) (simp add: bit_0)
    moreover have "\<exists>!i. (bit m i \<noteq> bit m (Suc i)) \<noteq> (bit (Suc m) i \<noteq> bit (Suc m) (Suc i))"
      using less.IH [of m] n by simp
    ultimately show ?thesis using ex1_shift [of "\<lambda>i. (bit n i \<noteq> bit n (Suc i)) \<noteq> (bit (Suc n) i \<noteq> bit (Suc n) (Suc i))"] by auto
  qed
qed

subsection \<open>Bars\<close>

lemma bar_white_bit: "bar < 16 \<Longrightarrow> bar_white frame (bar + 4) \<longleftrightarrow> bit (unat frame) bar \<noteq> bit (unat frame) (Suc bar)"
proof -
  assume bar: "bar < 16"
  have "x AND push_bit i 1 \<noteq> 0 \<longleftrightarrow> bit x i" if "i < 16" for x :: u32 and i
    using that by (simp add: and_exp_eq_0_iff_not_bit push_bit_eq_mult)
  then have "bar_white frame (bar + 4) \<longleftrightarrow> bit (frame XOR drop_bit 1 frame) bar"
    using bar by (simp add: bar_white_def)
  then show ?thesis using bar by (simp add: bit_xor_iff bit_drop_bit_eq bit_unsigned_iff)
qed

text \<open>Which bars are lit, and what they say.\<close>

fun lit :: "frame_act \<Rightarrow> bool" where
  "lit (Clear_rect x y width height c) = (c = (1, 1, 1))"
| "lit _ = False"

definition read_band :: "frame_act list \<Rightarrow> nat" where
  "read_band acts = horner_sum of_bool 2 (from_gray (map lit (drop 4 acts)))"

lemma lit_bars: "map lit (draw_code_band frame width y height) = map (bar_white frame) [0..<20]"
  by (simp add: draw_code_band_def Let_def comp_def)

lemma band_bars: "map lit (drop 4 (draw_code_band frame width y height)) =
    map (\<lambda>i. bit (unat frame) i \<noteq> bit (unat frame) (Suc i)) [0..<16]"
proof -
  have "map lit (drop 4 (draw_code_band frame width y height)) = map (bar_white frame) [4..<20]"
    by (simp only: drop_map [symmetric] lit_bars) (simp only: drop_map drop_upt add_0)
  also have "[4..<20] = map (\<lambda>i. i + 4) [0..<16]" by (simp add: upt_rec)
  also have "map (bar_white frame) \<dots> = map (\<lambda>i. bit (unat frame) i \<noteq> bit (unat frame) (Suc i)) [0..<16]"
    by (auto simp: bar_white_bit)
  finally show ?thesis .
qed

lemma read_draw_code_band:
  assumes "unat frame < 2 ^ 16"
  shows "read_band (draw_code_band frame width y height) = unat frame"
proof -
  have "\<not> bit (unat frame) (0 + 16)" using assms by (simp add: bit_iff_odd)
  then have "from_gray (map lit (drop 4 (draw_code_band frame width y height))) = map (bit (unat frame)) [0..<16]"
    using from_gray_bits [of "bit (unat frame)" 0 16] by (simp add: band_bars)
  then show ?thesis
    using assms by (simp add: read_band_def horner_sum_bit_eq_take_bit take_bit_nat_eq_self)
qed

subsection \<open>The bars tile the width\<close>

fun tiles :: "int \<Rightarrow> int \<Rightarrow> frame_act list \<Rightarrow> bool" where
  "tiles x width [] \<longleftrightarrow> x = width"
| "tiles x width (Clear_rect x' y w h c # acts) \<longleftrightarrow> x' = x \<and> 0 \<le> w \<and> tiles (x + w) width acts"
| "tiles x width (act # acts) \<longleftrightarrow> False"

lemma bar_edge_exact:
  assumes "0 \<le> width" "20 * width < 2 ^ 31" "bar \<le> 20"
  shows "bar_edge width bar = int bar * width div 20"
proof -
  have "int bar * width \<le> 20 * width" using assms by (intro mult_right_mono) auto
  then have small: "0 \<le> int bar * width" "int bar * width < 2 ^ 31" using assms by auto
  have "word_of_nat bar * word_of_int width = (word_of_int (int bar * width) :: u32)" by simp
  then have "uint (word_of_nat bar * word_of_int width :: u32) = int bar * width"
    using small by (simp only: uint_word_of_int) (simp add: mod_pos_pos_trivial)
  then have "uint (word_of_nat bar * word_of_int width div bars) = int bar * width div 20"
    by (simp add: bars_def uint_div_distrib)
  moreover have "int bar * width div 20 < 2 ^ 31" using small by linarith
  moreover have "0 \<le> int bar * width div 20" using small(1) by (simp add: pos_imp_zdiv_nonneg_iff)
  ultimately show ?thesis
    unfolding bar_edge_def sint_uint by (simp add: signed_take_bit_int_eq_self)
qed

lemma tiles_bars:
  assumes "\<And>i. edge i \<le> edge (Suc i)"
  shows "tiles (edge k) (edge (k + m)) (map (\<lambda>i. Clear_rect (edge i) y (edge (i + 1) - edge i) h (c i)) [k..<k + m])"
proof (induction m arbitrary: k)
  case (Suc m)
  have split: "[k..<k + Suc m] = k # [Suc k..<Suc k + m]" by (simp add: upt_conv_Cons del: upt_Suc)
  show ?case using Suc.IH [of "Suc k"] assms unfolding split by simp
qed simp

lemma draw_code_band_tiles:
  assumes "0 \<le> width" "20 * width < 2 ^ 31"
  shows "tiles 0 width (draw_code_band frame width y height)"
proof -
  let ?edge = "\<lambda>i. int i * width div 20"
  have mono: "?edge i \<le> ?edge (Suc i)" for i using assms(1) by (intro zdiv_mono1) (simp_all add: algebra_simps)
  have "draw_code_band frame width y height = map (\<lambda>i. Clear_rect (?edge i) y (?edge (i + 1) - ?edge i) height
      (if bar_white frame i then (1, 1, 1) else (0, 0, 0))) [0..<0 + 20]"
    unfolding draw_code_band_def by (intro map_cong) (auto simp: Let_def bar_edge_exact [OF assms])
  then show ?thesis using tiles_bars [of ?edge 0 20, OF mono] by simp
qed

subsection \<open>Claim\<close>


text \<open>From one frame to the next exactly one bar changes.\<close>

lemma high_bits_clear:
  fixes n :: nat
  assumes "n < 2 ^ 16" "16 \<le> i"
  shows "\<not> bit n i"
proof -
  have "(2::nat) ^ 16 \<le> 2 ^ i" using assms(2) by (intro power_increasing) auto
  then have "n div 2 ^ i = 0" using assms(1) by simp
  then show ?thesis by (simp add: bit_iff_odd)
qed

lemma one_bar_changes:
  assumes "unat frame + 1 < 2 ^ 16"
  shows "\<exists>!i. i < 20 \<and> bar_white frame i \<noteq> bar_white (frame + 1) i"
proof -
  define differs where "differs i = ((bit (unat frame) i \<noteq> bit (unat frame) (Suc i)) \<noteq>
    (bit (Suc (unat frame)) i \<noteq> bit (Suc (unat frame)) (Suc i)))" for i
  have succ: "unat (frame + 1) = Suc (unat frame)" using assms by (simp add: unat_plus_if_size word_size)
  have "\<exists>!i. differs i" unfolding differs_def by (rule gray_step)
  then obtain k where k: "differs k" "\<And>i. differs i \<Longrightarrow> i = k" by (elim ex1E) blast
  have "k < 16"
  proof (rule ccontr)
    assume "\<not> k < 16"
    then have "\<not> bit n k" "\<not> bit n (Suc k)" if "n < 2 ^ 16" for n :: nat
      using high_bits_clear [OF that] by simp_all
    then have "\<not> differs k" using assms by (simp add: differs_def)
    with k(1) show False by blast
  qed
  have bars: "bar_white frame i \<noteq> bar_white (frame + 1) i \<longleftrightarrow> 4 \<le> i \<and> differs (i - 4)" if "i < 20" for i
  proof (cases "i < 4")
    case True
    then show ?thesis by (simp add: bar_white_def)
  next
    case False
    then show ?thesis
      using that bar_white_bit [of "i - 4" frame] bar_white_bit [of "i - 4" "frame + 1"] succ by (simp add: differs_def)
  qed
  show ?thesis
  proof (rule ex1I)
    show "k + 4 < 20 \<and> bar_white frame (k + 4) \<noteq> bar_white (frame + 1) (k + 4)"
      using bars [of "k + 4"] k(1) \<open>k < 16\<close> by simp
    show "i = k + 4" if "i < 20 \<and> bar_white frame i \<noteq> bar_white (frame + 1) i" for i
      using bars [of i] that k(2) [of "i - 4"] by linarith
  qed
qed

subsection \<open>Claim\<close>

lemma length_draw_code_band [simp]: "length (draw_code_band frame width y height) = 20"
  by (simp add: draw_code_band_def)

lemma draw_frame_bands:
  "take 20 (drop 1 (draw_frame frame width height)) = draw_code_band frame width 0 (height div 8)"
  "take 20 (drop 21 (draw_frame frame width height)) = draw_code_band frame width (height - height div 8) (height div 8)"
  by (simp_all add: draw_frame_def Let_def)

lemma lit_bar: "i < 20 \<Longrightarrow> lit (draw_code_band frame width y height ! i) = bar_white frame i"
  using nth_map [of i "draw_code_band frame width y height" lit] by (simp add: lit_bars del: upt_Suc)

text \<open>
  C40. A picture tells its number. For the first 65536 frames and any window of fewer than a hundred
  million columns, each of the two bands of a frame tiles the whole width with its bars, the bars
  after the four that calibrate decode to exactly the frame's number, and from one frame to the next
  exactly one bar changes, so that a picture taken during the change still reads as one of the two.
\<close>

theorem frame_code_roundtrip:
  assumes "unat frame < 2 ^ 16" and "0 \<le> width" and "width < 100000000"
    and "band = take 20 (drop 1 (draw_frame frame width height)) \<or>
      band = take 20 (drop 21 (draw_frame frame width height))"
  shows "tiles 0 width band \<and> read_band band = unat frame \<and>
    (unat frame + 1 < 2 ^ 16 \<longrightarrow>
      (\<exists>!i. i < 20 \<and> lit (band ! i) \<noteq> lit (take 20 (drop 1 (draw_frame (frame + 1) width height)) ! i)))"
proof -
  from assms(4) obtain y where band: "band = draw_code_band frame width y (height div 8)"
    unfolding draw_frame_bands by blast
  have "tiles 0 width band" "read_band band = unat frame"
    unfolding band using draw_code_band_tiles [of width] read_draw_code_band [OF assms(1)] assms(2,3) by simp_all
  moreover have "i < 20 \<and> lit (band ! i) \<noteq> lit (take 20 (drop 1 (draw_frame (frame + 1) width height)) ! i) \<longleftrightarrow>
      i < 20 \<and> bar_white frame i \<noteq> bar_white (frame + 1) i" for i
    unfolding band draw_frame_bands using lit_bar [of i] by auto
  ultimately show ?thesis using one_bar_changes [of frame] by presburger
qed

theorem frame_code_roundtrip_witness:
  "read_band (take 20 (drop 21 (draw_frame 3900 1920 1080))) = 3900"
proof -
  have "unat (3900 :: u32) = 3900" by simp
  then show ?thesis using frame_code_roundtrip [of 3900 1920 _ 1080] by simp
qed


end
