(* ===== verification/Frame_Measure.thy ===== *)
theory Frame_Measure
  imports Frame_Probe
begin

section \<open>What the frame pacing probe measures\<close>

text \<open>
  The array of samples, the indices of the percentiles under rounding to double precision, that
  the frame loop returns, and the release of the window, for
  \<open>src/native/probes/sdl-frame-pacing.c\<close>.
\<close>

subsection \<open>Rounding does not pass a representable bound\<close>

lemma exponent2_small:
  assumes "0 < q" "q < 2 ^ 52"
  shows "exponent2 q \<le> 51"
proof (cases "1 \<le> q")
  case True
  define n where "n = nat \<lfloor>q\<rfloor>"
  have "\<lfloor>q\<rfloor> < 2 ^ 52" using assms(2) by (simp add: floor_less_iff)
  then have "n < 2 ^ 52" using True by (simp add: n_def nat_less_iff)
  then have "floorlog 2 n \<le> 52" by (simp add: floorlog_le_iff)
  then show ?thesis using True by (simp add: exponent2_def n_def)
qed (simp add: exponent2_def)

lemma round_half_even_le: "q \<le> of_int z \<Longrightarrow> round_half_even q \<le> z"
  by (auto simp: round_half_even_def Let_def floor_le_iff le_floor_iff)

lemma round_half_even_nonneg: "0 \<le> q \<Longrightarrow> 0 \<le> round_half_even q"
  by (auto simp: round_half_even_def Let_def)

lemma to_double_nonneg: "0 \<le> q \<Longrightarrow> 0 \<le> to_double q"
  by (auto simp: to_double_def Let_def intro!: mult_nonneg_nonneg round_half_even_nonneg divide_nonneg_nonneg less_imp_le [OF pow2_pos])

lemma to_double_le:
  assumes "0 \<le> q" "q < 2 ^ 52" "q \<le> of_int z / 2"
  shows "to_double q \<le> of_int z / 2"
proof (cases "q = 0")
  case True
  then show ?thesis using assms by (simp add: to_double_def)
next
  case False
  define d where "d = nat (52 - exponent2 q)"
  have e: "exponent2 q - 52 = - int d" "0 < d"
    using exponent2_small [of q] assms False by (auto simp: d_def)
  have u: "pow2 (exponent2 q - 52) = 1 / 2 ^ d"
    using e by (simp add: pow2_def inverse_eq_divide)
  have half: "(2::rat) ^ d = 2 * 2 ^ (d - 1)" using e(2) by (simp flip: power_Suc)
  have "q * 2 ^ d \<le> of_int (z * 2 ^ (d - 1))" 
    using mult_right_mono [OF assms(3), of "2 ^ d"] by (simp add: half)
  then have "round_half_even (q * 2 ^ d) \<le> z * 2 ^ (d - 1)" by (rule round_half_even_le)
  then have "(of_int (round_half_even (q * 2 ^ d)) :: rat) \<le> of_int z * 2 ^ (d - 1)"
    by (metis of_int_le_iff of_int_mult of_int_numeral of_int_power)
  then have "of_int (round_half_even (q * 2 ^ d)) / 2 ^ d \<le> (of_int z / 2 :: rat)"
    by (simp add: half field_simps)
  then show ?thesis using assms False u by (simp add: to_double_def Let_def)
qed

lemma percentile_index_bound:
  assumes "0 < count" "count \<le> 2 ^ 51" "0 \<le> fraction" "fraction \<le> 1"
  shows "percentile_index count fraction < count"
proof -
  define n where "n = count - 1"
  have "(of_nat n :: rat) \<le> of_nat (2 ^ 51)" using assms(2) unfolding of_nat_le_iff by (simp add: n_def)
  then have n: "count = n + 1" "(of_nat n :: rat) \<le> 2 ^ 51" using assms(1) by (simp_all add: n_def)
  define q where "q = to_double (of_nat n * fraction)"
  have "0 \<le> of_nat n * fraction" "of_nat n * fraction \<le> of_nat n"
    using assms(3,4) mult_left_mono [of fraction 1 "of_nat n"] by simp_all
  then have q: "0 \<le> q" "q \<le> of_nat n"
    using to_double_nonneg to_double_le [of "of_nat n * fraction" "2 * int n"] n(2) by (auto simp: q_def)
  then have "to_double (q + 1 / 2) \<le> of_nat n + 1 / 2"
    using to_double_le [of "q + 1 / 2" "2 * int n + 1"] n(2) by (simp add: add_divide_distrib)
  then have "\<lfloor>to_double (q + 1 / 2)\<rfloor> \<le> int n" by linarith
  then show ?thesis by (simp add: percentile_index_def n(1) flip: q_def)
qed

lemma literal_fraction: "0 \<le> q \<Longrightarrow> q \<le> 1 \<Longrightarrow> 0 \<le> to_double q \<and> to_double q \<le> 1"
  using to_double_nonneg [of q] to_double_le [of q 2] by simp

text \<open>Every figure is a measured value, and the last is the largest.\<close>

lemma statistics_measured:
  assumes "sorted ns" "ns \<noteq> []" "length ns \<le> 2 ^ 51"
  shows "set (statistics ns) \<subseteq> set ns" and "\<forall>t \<in> set ns. t \<le> last (statistics ns)"
proof -
  have "percentile_ns ns (to_double q) \<in> set ns" if "0 \<le> q" "q \<le> 1" for q
    using percentile_index_bound [of "length ns" "to_double q"] literal_fraction [OF that] assms(2,3)
    by (simp add: percentile_ns_def)
  then show "set (statistics ns) \<subseteq> set ns" using assms(2) by (simp add: statistics_def)
  show "\<forall>t \<in> set ns. t \<le> last (statistics ns)"
    using assms(1,2) by (auto simp: statistics_def in_set_conv_nth sorted_iff_nth_mono)
qed

subsection \<open>The frame loop\<close>

text \<open>The frames are numbered in order and the array has room for all that were stored.\<close>

definition recorded :: "frame_state \<Rightarrow> bool" where
  "recorded s \<longleftrightarrow> map fs_frame (f_samples s) = map word_of_nat [0..<length (f_samples s)] \<and>
     length (f_samples s) \<le> f_capacity s"

fun lifecycle :: "frame_act \<Rightarrow> bool" where
  "lifecycle (Create_window width height fullscreen) = True"
| "lifecycle Create_context = True"
| "lifecycle Delete_context = True"
| "lifecycle Destroy_window = True"
| "lifecycle Quit_sdl = True"
| "lifecycle Free_samples = True"
| "lifecycle (Show_pointer visible) = True"
| "lifecycle _ = False"

text \<open>What the steps of the loop leave alone: the answers of the allocator and of the file system among them.\<close>

definition answers :: "frame_state \<Rightarrow> bool \<times> bool \<times> bool \<times> bool" where
  "answers s = (fw_durations s, fw_periods s, fw_fopen s, fw_fclose s)"

definition untouched :: "frame_state \<Rightarrow> frame_state \<Rightarrow> bool" where
  "untouched s s' \<longleftrightarrow> f_samples s' = f_samples s \<and> f_capacity s' = f_capacity s \<and>
     filter lifecycle (f_log s') = filter lifecycle (f_log s) \<and> answers s' = answers s"

lemma handle_events_untouched: "untouched s (handle_events es s) \<and> fw_clock (handle_events es s) = fw_clock s"
proof (induction es s rule: handle_events.induct)
  case (2 e es s)
  then show ?case
    by (cases e) (simp_all add: untouched_def answers_def follow_size_def frame_log_def Let_def split_def)
qed (simp add: untouched_def)

lemma poll_events_untouched: "untouched s (poll_events s) \<and> fw_clock (poll_events s) = fw_clock s"
  using handle_events_untouched [of "s\<lparr>fw_events := \<lambda>n. fw_events s (n + 1)\<rparr>" "fw_events s 0"]
  by (simp add: poll_events_def untouched_def answers_def)

lemma frame_clock_untouched:
  "frame_clock s = (now, s') \<Longrightarrow> now = fw_clock s 0 \<and> untouched s s' \<and> fw_clock s' = (\<lambda>n. fw_clock s (n + 1)) \<and> f_quit s' = f_quit s"
  by (auto simp: frame_clock_def untouched_def answers_def)

lemma draw_frame_lifecycle: "filter lifecycle (draw_frame frame width height) = []"
  by (auto simp: draw_frame_def draw_code_band_def Let_def filter_empty_conv)

text \<open>A frame is stored, or there was no memory and the loop is left.\<close>

lemma show_frame_stores:
  assumes "s' = show_frame started_ns pace_period_ns s"
  shows "(f_quit s' \<and> untouched s s') \<or>
    (\<exists>sample. fs_frame sample = word_of_nat (length (f_samples s)) \<and> f_samples s' = f_samples s @ [sample] \<and>
      (length (f_samples s) \<le> f_capacity s \<longrightarrow> length (f_samples s') \<le> f_capacity s') \<and>
      filter lifecycle (f_log s') = filter lifecycle (f_log s) \<and> f_quit s' = f_quit s \<and>
      answers s' = answers s \<and> fw_clock s' = (\<lambda>n. fw_clock s (n + 3)))"
  unfolding assms
  by (auto simp: answers_def show_frame_def append_sample_def frame_clock_def frame_log_def untouched_def draw_frame_lifecycle Let_def
    eval_nat_numeral)

lemma frame_loop_cases:
  obtains (stop) t where "frame_loop frame_limit started_ns deadline_ns pace_period_ns s = Some t" "untouched s t"
  | (again) t sample where
    "frame_loop frame_limit started_ns deadline_ns pace_period_ns s = frame_loop frame_limit started_ns deadline_ns pace_period_ns t"
    "frame_limit = 0 \<or> int (length (f_samples s)) < frame_limit" "fw_clock s 0 < deadline_ns"
    "fs_frame sample = word_of_nat (length (f_samples s))" "f_samples t = f_samples s @ [sample]"
    "length (f_samples s) \<le> f_capacity s \<longrightarrow> length (f_samples t) \<le> f_capacity t"
    "filter lifecycle (f_log t) = filter lifecycle (f_log s)" "answers t = answers s"
    "fw_clock t = (\<lambda>n. fw_clock s (n + 4))"
proof -
  obtain now s1 where c: "frame_clock s = (now, s1)" by force
  note c' = frame_clock_untouched [OF c]
  define s2 where "s2 = poll_events s1"
  have p: "untouched s s2" "fw_clock s2 = (\<lambda>n. fw_clock s (n + 1))"
    using poll_events_untouched [of s1] c' by (auto simp: s2_def untouched_def)
  define s3 where "s3 = show_frame started_ns pace_period_ns s2"
  have loop: "frame_loop frame_limit started_ns deadline_ns pace_period_ns s =
     (if f_quit s \<or> \<not> (frame_limit = 0 \<or> int (length (f_samples s)) < frame_limit) then Some s
      else if \<not> now < deadline_ns then Some s1 else if f_quit s2 then Some s2 else if f_quit s3 then Some s3
      else frame_loop frame_limit started_ns deadline_ns pace_period_ns s3)"
    by (subst frame_loop.simps) (simp only: c prod.case Let_def s2_def s3_def)
  let ?on = "\<not> f_quit s \<and> (frame_limit = 0 \<or> int (length (f_samples s)) < frame_limit)"
  consider "\<not> ?on" | "?on" "\<not> now < deadline_ns" | "?on" "now < deadline_ns" "f_quit s2"
    | "?on" "now < deadline_ns" "\<not> f_quit s2" by blast
  then show ?thesis
  proof cases
    case 1
    then show ?thesis by (intro stop [of s]) (auto simp: loop untouched_def)
  next
    case 2
    then show ?thesis using c' by (intro stop [of s1]) (auto simp: loop)
  next
    case 3
    then show ?thesis using p(1) by (intro stop [of s2]) (auto simp: loop)
  next
    case 4
    from show_frame_stores [OF s3_def] show ?thesis
    proof (elim disjE conjE exE)
      assume "f_quit s3" "untouched s2 s3"
      then show ?thesis using 4 p(1) by (intro stop [of s3]) (auto simp: loop untouched_def)
    next
      fix sample assume "fs_frame sample = word_of_nat (length (f_samples s2))" "f_samples s3 = f_samples s2 @ [sample]"
        "length (f_samples s2) \<le> f_capacity s2 \<longrightarrow> length (f_samples s3) \<le> f_capacity s3"
        "filter lifecycle (f_log s3) = filter lifecycle (f_log s2)" "f_quit s3 = f_quit s2"
        "answers s3 = answers s2" "fw_clock s3 = (\<lambda>n. fw_clock s2 (n + 3))"
      then show ?thesis
        using 4 p c' by (intro again [of s3 sample]) (simp_all add: loop untouched_def add.commute [of 4])
    qed
  qed
qed

text \<open>
  The loop returns, with a frame limit or a clock that advances; the frames are recorded, at most as
  many as the limit allows.
\<close>

lemma frame_loop_returns:
  assumes "0 < frame_limit \<or> (\<forall>n. fw_clock s n < fw_clock s (n + 1))" "recorded s"
    "0 < frame_limit \<Longrightarrow> int (length (f_samples s)) \<le> frame_limit"
  shows "\<exists>t. frame_loop frame_limit started_ns deadline_ns pace_period_ns s = Some t \<and> recorded t \<and>
    (0 < frame_limit \<longrightarrow> int (length (f_samples t)) \<le> frame_limit) \<and>
    filter lifecycle (f_log t) = filter lifecycle (f_log s) \<and> answers t = answers s"
  using assms
proof (induction "if 0 < frame_limit then nat (frame_limit - int (length (f_samples s))) else nat (deadline_ns - fw_clock s 0)"
    arbitrary: s rule: less_induct)
  case less
  show ?case
  proof (cases rule: frame_loop_cases [of frame_limit started_ns deadline_ns pace_period_ns s])
    case (stop t)
    with less.prems show ?thesis by (auto simp: untouched_def recorded_def)
  next
    case (again t sample)
    have "0 < frame_limit \<or> (\<forall>n. fw_clock t n < fw_clock t (n + 1))" using less.prems(1) unfolding again(9) by (metis add.assoc add.commute)
    moreover have "recorded t" using less.prems(2) again(4-6) by (simp add: recorded_def)
    moreover have "int (length (f_samples t)) \<le> frame_limit" if "0 < frame_limit" using that again(2,5) by simp
    moreover have "fw_clock s 0 < fw_clock s 4" if "\<not> 0 < frame_limit"
      using less.prems(1) that lift_Suc_mono_less [of "fw_clock s" 0 4] by simp
    ultimately show ?thesis
      using less.hyps [of t] again by (auto split: if_splits)
  qed
qed

subsection \<open>Claim\<close>

text \<open>The memory for the summary of what was recorded is refused.\<close>

definition summary_refused :: "frame_world \<Rightarrow> frame_sample list \<Rightarrow> bool" where
  "summary_refused w samples \<longleftrightarrow> samples \<noteq> [] \<and> (\<not> fw_durations w \<or> 1 < length samples \<and> \<not> fw_periods w)"

text \<open>The size asked for, and what is created, shown and released, in order.\<close>

definition window_size :: "frame_options \<Rightarrow> frame_world \<Rightarrow> int \<times> int" where
  "window_size opts w =
     (case fw_display_mode w of
        Some mode \<Rightarrow> if fo_fullscreen opts then mode else (fo_width opts, fo_height opts)
      | None \<Rightarrow> (fo_width opts, fo_height opts))"

definition expected_lifecycle :: "frame_options \<Rightarrow> frame_world \<Rightarrow> frame_sample list \<Rightarrow> frame_act list" where
  "expected_lifecycle opts w samples =
     (if \<not> fw_init w then []
      else if \<not> fw_window w then [Quit_sdl]
      else
        let window = Create_window (fst (window_size opts w)) (snd (window_size opts w)) (fo_fullscreen opts)
        in if \<not> fw_context w then [window, Destroy_window, Quit_sdl]
           else if summary_refused w samples then [window, Create_context, Show_pointer (fo_show_cursor opts), Free_samples]
           else [window, Create_context, Show_pointer (fo_show_cursor opts), Free_samples, Show_pointer True,
             Delete_context, Destroy_window, Quit_sdl])"

text \<open>
  The figures of a summary are measured values of the frames that were recorded, the last of each
  group the largest; there are figures of periods exactly if there are two frames.
\<close>

definition measured :: "frame_summary \<Rightarrow> frame_sample list \<Rightarrow> bool" where
  "measured summary samples \<longleftrightarrow> sum_frames summary = length samples \<and>
     length (sum_swap summary) = 4 \<and>
     set (sum_swap summary) \<subseteq> {fs_swap_end_ns f - fs_swap_begin_ns f |f. f \<in> set samples} \<and>
     (\<forall>f \<in> set samples. fs_swap_end_ns f - fs_swap_begin_ns f \<le> last (sum_swap summary)) \<and>
     (sum_period summary = None \<longleftrightarrow> length samples < 2) \<and>
     (\<forall>ns. sum_period summary = Some ns \<longrightarrow> length ns = 4 \<and>
        set ns \<subseteq> {fs_swap_end_ns (samples ! (i + 1)) - fs_swap_end_ns (samples ! i) |i. i + 1 < length samples} \<and>
        (\<forall>i. i + 1 < length samples \<longrightarrow> fs_swap_end_ns (samples ! (i + 1)) - fs_swap_end_ns (samples ! i) \<le> last ns))"

lemma sort_nonempty: "xs \<noteq> [] \<Longrightarrow> sort (map f xs) \<noteq> []"
  by (metis length_map length_sort length_0_conv)

lemma set_periods:
  "set (periods xs) = {fs_swap_end_ns (xs ! (i + 1)) - fs_swap_end_ns (xs ! i) |i. i + 1 < length xs}"
proof -
  have "{1..<length xs} = Suc ` {i. i + 1 < length xs}" by (auto simp: image_iff) presburger
  then show ?thesis by (auto simp: periods_def image_image)
qed

lemma statistics_length: "length (statistics ns) = 4"
  by (simp add: statistics_def)

lemma summarize_measured:
  assumes "f_samples s \<noteq> []" "length (f_samples s) \<le> 2 ^ 51"
  shows "measured (summarize opts elapsed_ns s) (f_samples s)"
proof -
  let ?xs = "f_samples s"
  have swaps: "set (statistics (swap_durations ?xs)) \<subseteq> set (swap_durations ?xs)"
      "\<forall>t \<in> set (swap_durations ?xs). t \<le> last (statistics (swap_durations ?xs))"
    using statistics_measured [of "swap_durations ?xs"] assms sort_nonempty by (auto simp: swap_durations_def)
  have periods: "set (statistics (periods ?xs)) \<subseteq> set (periods ?xs)"
      "\<forall>t \<in> set (periods ?xs). t \<le> last (statistics (periods ?xs))" if "1 < length ?xs"
  proof -
    have len: "length (periods ?xs) = length ?xs - 1" and "sorted (periods ?xs)" by (simp_all add: periods_def)
    moreover have "periods ?xs \<noteq> []" using len that by (cases "periods ?xs") simp_all
    moreover have "length (periods ?xs) \<le> 2 ^ 51" using len assms(2) by linarith
    ultimately show "set (statistics (periods ?xs)) \<subseteq> set (periods ?xs)"
      "\<forall>t \<in> set (periods ?xs). t \<le> last (statistics (periods ?xs))"
      using statistics_measured [of "periods ?xs"] by blast+
  qed
  show ?thesis
    using swaps periods unfolding measured_def set_periods
    by (auto simp: summarize_def swap_durations_def statistics_length)
qed

lemma report_frames_gives_back:
  assumes "report_frames opts started_ns elapsed_ns s = (status, summary, t)"
    "filter lifecycle (f_log s) = acts" "answers s = (fw_durations w, fw_periods w, fw_fopen w, fw_fclose w)"
  shows "f_samples t = f_samples s" "f_capacity t = f_capacity s"
    "filter lifecycle (f_log t) = acts @ (if summary_refused w (f_samples s) then [Free_samples]
       else [Free_samples, Show_pointer True, Delete_context, Destroy_window, Quit_sdl])"
    "summary = (if f_samples s = [] \<or> summary_refused w (f_samples s) then None else Some (summarize opts elapsed_ns s))"
    "status = (if \<not> summary_refused w (f_samples s) \<and> (fo_csv_path opts = None \<or> fw_fopen w \<and> fw_fclose w) then 0 else 1)"
  using assms
  by (auto simp: report_frames_def write_csv_def frame_log_def summary_refused_def answers_def Let_def filter_empty_conv
      split: if_splits)

lemma frame_session_measures:
  assumes "0 < fo_frame_limit opts \<or> (\<forall>n. fw_clock s n < fw_clock s (n + 1))" "pace_period (fo_pace_hz opts) = Some pace_period_ns"
    "f_samples s = []" "filter lifecycle (f_log s) = acts" "answers s = (fw_durations w, fw_periods w, fw_fopen w, fw_fclose w)"
  shows "\<exists>status summary t. frame_session opts s = Some (status, summary, t) \<and> recorded t \<and>
    (0 < fo_frame_limit opts \<longrightarrow> int (length (f_samples t)) \<le> fo_frame_limit opts) \<and>
    (\<forall>sm. summary = Some sm \<and> length (f_samples t) \<le> 2 ^ 51 \<longrightarrow> measured sm (f_samples t)) \<and>
    (summary = None \<longleftrightarrow> f_samples t = [] \<or> summary_refused w (f_samples t)) \<and>
    filter lifecycle (f_log t) = acts @ Show_pointer (fo_show_cursor opts) #
      (if summary_refused w (f_samples t) then [Free_samples]
       else [Free_samples, Show_pointer True, Delete_context, Destroy_window, Quit_sdl]) \<and>
    status = (if \<not> summary_refused w (f_samples t) \<and> (fo_csv_path opts = None \<or> fw_fopen w \<and> fw_fclose w) then 0 else 1)"
proof -
  obtain w' h where size: "fw_drawable s 0 = (w', h)" by force
  define s1 where "s1 = frame_log [Show_pointer (fo_show_cursor opts), Viewport w' h]
    (s\<lparr>f_width := w', f_height := h, fw_drawable := \<lambda>n. fw_drawable s (n + 1)\<rparr>)"
  obtain started_ns s2 where c: "frame_clock s1 = (started_ns, s2)" by force
  have s1: "f_samples s1 = []" "fw_clock s1 = fw_clock s" "answers s1 = answers s"
      "filter lifecycle (f_log s1) = acts @ [Show_pointer (fo_show_cursor opts)]"
    using assms(3,4) by (simp_all add: s1_def frame_log_def answers_def)
  have s2: "untouched s1 s2" "fw_clock s2 = (\<lambda>n. fw_clock s (n + 1))"
    using frame_clock_untouched [OF c] s1(2) by auto
  have start: "0 < fo_frame_limit opts \<or> (\<forall>n. fw_clock s2 n < fw_clock s2 (n + 1))" "recorded s2"
      "0 < fo_frame_limit opts \<Longrightarrow> int (length (f_samples s2)) \<le> fo_frame_limit opts"
    using assms(1) s1 s2 by (auto simp: untouched_def recorded_def)
  define deadline_ns where "deadline_ns = deadline (fo_seconds opts) started_ns"
  have loop: "measure_frames opts s1 =
      (case frame_loop (fo_frame_limit opts) started_ns deadline_ns pace_period_ns s2 of None \<Rightarrow> None
       | Some t \<Rightarrow> let (now, u) = frame_clock t in Some (started_ns, now - started_ns, u))"
    by (simp add: measure_frames_def c assms(2) deadline_ns_def)
  from frame_loop_returns [OF start, of started_ns deadline_ns pace_period_ns] obtain t where
    t: "frame_loop (fo_frame_limit opts) started_ns deadline_ns pace_period_ns s2 = Some t" "recorded t"
      "0 < fo_frame_limit opts \<longrightarrow> int (length (f_samples t)) \<le> fo_frame_limit opts"
      "filter lifecycle (f_log t) = filter lifecycle (f_log s2)" "answers t = answers s2"
    by blast
  obtain now u where u: "frame_clock t = (now, u)" by force
  have u': "untouched t u" using frame_clock_untouched [OF u] by blast
  obtain status summary v where v: "report_frames opts started_ns (now - started_ns) u = (status, summary, v)"
    by (metis prod_cases3)
  have "filter lifecycle (f_log u) = acts @ [Show_pointer (fo_show_cursor opts)]"
      "answers u = (fw_durations w, fw_periods w, fw_fopen w, fw_fclose w)"
    using u' t(4,5) s2(1) s1 assms(5) by (simp_all add: untouched_def)
  note reported = report_frames_gives_back [OF v this]
  have "frame_session opts s = Some (status, summary, v)"
    unfolding frame_session_def size Let_def prod.case s1_def [symmetric] by (simp add: loop t(1) u v)
  moreover have "recorded v" "f_samples v = f_samples t"
    using reported(1,2) t(2) u' by (simp_all add: recorded_def untouched_def)
  moreover have "measured sm (f_samples v)" if "summary = Some sm" "length (f_samples v) \<le> 2 ^ 51" for sm
    using reported(1,4) summarize_measured [of u] that by (auto split: if_splits)
  ultimately show ?thesis using t(3) reported by auto
qed


definition pacing_world :: frame_world where
  "pacing_world = \<lparr>fw_init = True, fw_display_mode = None, fw_window = True, fw_context = True, fw_interval = 1,
     fw_drawable = (\<lambda>n. (960, 540)), fw_events = (\<lambda>n. []), fw_clock = (\<lambda>n. 1000 * int n), fw_realloc = (\<lambda>n. n = 0),
     fw_durations = True, fw_periods = True, fw_fopen = True, fw_fclose = True\<rparr>"


text \<open>What is not a number passes both range checks; the run then has no deadline.\<close>

lemma nan_accepted: "parse_positive_double ''nan'' = Some Not_a_number" "deadline Not_a_number started_ns = 2 ^ 63 - 1"
proof -
  have "drop_word ''nan'' ''nan'' = Some []" by (simp add: lower_case_def)
  then show "parse_positive_double ''nan'' = Some Not_a_number"
    by (simp add: parse_positive_double_def c_strtod_def skip_space_def is_space_def drop_payload_def del: drop_word.simps)
qed (simp add: deadline_def)

end
