(* ===== verification/Spec2Isabelle.thy ===== *)
theory Spec2Isabelle
  imports Drm_Cache_Claims Input_Bridge_Claims Capture_Keeper_Claims Broker_Claims Broker_Modes Broker_Access
    Agent_Claims Trace_Path Trace_Exchange
    Zero_Copy_Probe Frame_Code Frame_Measure
begin

text \<open>
  A verification library for the native programs of LineageOS-Linux-HDMI (\<open>src/native\<close>), which hand the external display
  of an Android phone to an X server in a chroot and give it back.

  \<^bold>\<open>The programs and how they interact.\<close> The \<^emph>\<open>broker\<close> (\<open>broker/main.cpp\<close>) runs on the Android side. It takes requests
  of root and of the Quick Settings tile, asks the patched composer for a DRM lease, guards the session (volume-key escape,
  wake lock, deadline or heartbeat) and gives everything back. The \<^emph>\<open>agent\<close> (\<open>agent/main.cpp\<close>) runs in the chroot. It
  prepares the input bridge, starts Xorg on the lease, verifies that the leased CRTC scans out what Xorg committed, and stops
  it all again. The \<^emph>\<open>tracer\<close> (\<open>drm-trace/drmtrace.c\<close> with \<open>property_cache.h\<close>) is preloaded into Xorg. It reports every DRM
  request to the agent and goes on only after an acknowledgement; the agent reports it to the broker first. The
  \<^emph>\<open>input bridge\<close> (\<open>input-bridge/main.c\<close>) merges physical mice and keyboards into two virtual devices. The \<^emph>\<open>capture keeper\<close>
  (\<open>capture-keeper/main.c\<close>) and three \<^emph>\<open>probes\<close> (\<open>probes/\<close>) are tools for measurements. All messages are the two structures
  of \<open>common/hdmi_los_protocol.h\<close> and \<open>common/hdmi_los_trace.h\<close>.

  \<^bold>\<open>Shared theories.\<close>
  \<^item> Prelude: names of the C integer types, byte layouts of words, character buffers with \<open>snprintf\<close>, and answers of system
    calls that may be interrupted.
  \<^item> C_Text and C_Float: the parts of \<open>printf\<close>, \<open>scanf\<close>, \<open>strtol\<close> and of single-precision rounding that the sources use, with
    the round trips of printed numbers.
  \<^item> Protocol: the two structures, their constants and their bytes. The locale \<open>wire_format\<close> states what a sender and a
    receiver rely on and is interpreted for both.
  \<^item> Channel: \<open>write_full\<close>, \<open>read_full\<close>, \<open>send_with_fd\<close>, \<open>recv_with_fd\<close> of the broker and the agent.
  \<^item> Process_Monad: programs that return, exit or block, for the tracer. State_Steps: programs of the state monad with
    their weakest preconditions, and the locale \<open>step_preorder\<close> of relations that all steps keep, which the broker and the agent
    interpret for each of their invariants.
  \<^item> Linux_Input: the event structure and codes that the bridge and the volume guard read.

  \<^bold>\<open>Tracer.\<close> Property_Cache models \<open>property_cache.h\<close> and refines it to a bounded map (locale \<open>bounded_property_map\<close>).
  Drm_Records holds the requests, the argument structures and \<open>decode_record\<close>; Drm_Trace the state and every function of
  \<open>drmtrace.c\<close>, composed as in \<open>ioctl\<close>, \<open>drmModeGetProperty\<close> and the constructor. Drm_Decode_Correct, Drm_Trace_Correct,
  Drm_Trace_Claims and Drm_Cache_Claims show that a traced process fails closed, that requests reach the kernel unchanged and
  bracketed by acknowledged records, that the same-mode fallback is reported as a success only after the readback, and what the
  suppression of connector properties does, including a change that it wrongly suppresses.

  \<^bold>\<open>Input bridge.\<close> Input_Bridge follows \<open>main.c\<close> from \<open>classify_device\<close> to the main loop; its state is the table of sources and the
  virtual devices with the log of what was written. Input_Bridge_Correct and Input_Bridge_Claims show that a virtual key is down
  exactly while a source holds it, through grabs, overruns and disconnects, that nothing is left behind, and which devices are taken.

  \<^bold>\<open>Capture keeper.\<close> Capture_Keeper follows \<open>main.c\<close>; Capture_Keeper_Claims shows that saved snapshots are complete images
  from \<open>jpeg_length\<close> to the rename, that every run cleans up, and the bound on the buffer indices.

  \<^bold>\<open>Broker.\<close> Broker_Text has the pure parts (arguments, modes, paths), Broker the state, host services, volume guard, links,
  sessions, clients and the main loop, one definition per method. Broker_Correct, Broker_Session and Broker_Run prove the
  invariants method by method; Broker_Deadline the window of a session; Broker_Sample a concrete session; Broker_Client the
  command line. Broker_Claims, Broker_Modes and Broker_Access hold the properties: idle or running and never in between,
  descriptors accounted for, the deadline, all-or-nothing starts, restoration of Android's preferred mode, who may ask for
  what, the refinement of the volume escape to its specification, and matched composer answers.

  \<^bold>\<open>Agent.\<close> Agent_Text has the options, messages and texts of files and command lines, Agent the rest of \<open>main.cpp\<close> down to
  \<open>run_agent\<close>. Agent_Correct and Agent_Session prove the balance of processes and descriptors, Agent_Fence the order of
  acknowledgements, Agent_Scanout the equivalence of the commit observer with its reference; Agent_Sample has the worlds of
  the witnesses and Agent_Claims the properties.

  \<^bold>\<open>Across programs.\<close> Trace_Path feeds the records of the tracer's own \<open>ioctl\<close> to the agent's observer: a commit is confirmed
  exactly if the kernel accepted it for the leased connector. Trace_Exchange takes a record through all three programs and back.

  \<^bold>\<open>Probes.\<close> Zero_Copy_Probe models \<open>kms-kgsl-zero-copy.c\<close> and checks the lifetimes of its resources on every path.
  Cursor_Probe models \<open>x11-cursor-stress.c\<close>: it ends, and the pointer walks the border of the box. Frame_Probe models
  \<open>sdl-frame-pacing.c\<close>; Frame_Code shows that a picture decodes to its number, Frame_Measure that the program ends, stays inside
  its array and reports measured values.

  \<^bold>\<open>Environments, bounds and fuel.\<close> Peers, kernel, clock and file system are scripts: lists of answers that calls consume, or
  functions from the number of the call to its answer, universally quantified in the theorems. A list that is used up stands for
  answers that never come or for a request to stop, as the field's comment says; lists have any length, so no run is cut
  short. Loops over such a list recurse on it. \<open>composer_answer\<close> takes as fuel one more than the number of answers left, which is
  more than the messages it can receive. The loops of the cursor probe and of the frame probe are partial functions that are proved to
  return. Machine integers are words where they can wrap; times are integers.

  \<^bold>\<open>Not modelled.\<close>
  \<^item> Log lines and diagnostics, and the text of the summaries of two probes; they decide nothing.
  \<^item> Signals other than as the end of a script, and threads: the programs have one thread each, and the spin lock of the
    tracer only keeps threads of the traced process apart.
  \<^item> The kernel, the composer, libdrm, SDL, X11 and Android's commands: code outside the repository, whose answers are
    parameters.
  \<^item> \<open>glx-present-finish.c\<close>, a fixed sequence of GLX calls without decisions; the two \<open>selftest.c\<close>, whose place the theorems
    take; the Android tile, which only runs the broker's client; the composer and X server patches, which change code that is
    not here; the shell and Python scripts for packaging, mounting and captures, which run other tools.
\<close>

end
